(* ===== verification/Hub_Prelude.thy ===== *)
theory Hub_Prelude
  imports Main "HOL-Library.Word" "HOL-Library.Signed_Division" "HOL-Library.Code_Target_Nat"
begin

text \<open>
  Shared vocabulary of the development: the machine integers of the Rust sources,
  the string operations of its standard library that the models use, and the
  interface of the closed code tables (an enum with one wire code per constructor).

  \<^item> \<open>i64\<close> values are \<open>int\<close>. The saturating operations clamp to the 64-bit range;
    where the source uses plain operators the models use exact arithmetic and a lemma
    shows that the result stays in range.
  \<^item> \<open>u64\<close> values of the byte-range parser are \<open>64 word\<close>, with Rust's checked operations.
  \<^item> \<open>u8\<close> counters are \<open>nat\<close> with the saturation at 255 written out.
  \<^item> A \<open>Uuid\<close> is the number its 128 bits spell; it is only compared, and the nil one is 0.
  \<^item> A \<open>&str\<close> is its list of bytes.
\<close>

named_theorems i64_simps \<open>equations of the saturating 64-bit operations\<close>
named_theorems hub_consts \<open>values of the named constants of the sources\<close>

type_synonym u64 = "64 word"
type_synonym uuid = nat

section \<open>Signed 64-bit integers\<close>

definition i64_min :: int where "i64_min = - (2 ^ 63)"
definition i64_max :: int where "i64_max = 2 ^ 63 - 1"

definition in_i64 :: "int \<Rightarrow> bool" where
  "in_i64 x \<longleftrightarrow> i64_min \<le> x \<and> x \<le> i64_max"

definition sat_i64 :: "int \<Rightarrow> int" where
  "sat_i64 x = (if x < i64_min then i64_min else if i64_max < x then i64_max else x)"

definition saturating_add :: "int \<Rightarrow> int \<Rightarrow> int" where
  "saturating_add a b = sat_i64 (a + b)"

definition saturating_sub :: "int \<Rightarrow> int \<Rightarrow> int" where
  "saturating_sub a b = sat_i64 (a - b)"

definition saturating_mul :: "int \<Rightarrow> int \<Rightarrow> int" where
  "saturating_mul a b = sat_i64 (a * b)"

lemmas i64_defs = i64_min_def i64_max_def in_i64_def sat_i64_def
  saturating_add_def saturating_sub_def saturating_mul_def

lemma in_i64_sat [simp]: "in_i64 (sat_i64 x)"
  by (simp add: i64_defs)

lemma sat_i64_id [i64_simps]: "in_i64 x \<Longrightarrow> sat_i64 x = x"
  by (simp add: i64_defs)

lemma in_i64_saturating [simp]:
  "in_i64 (saturating_add a b)" "in_i64 (saturating_sub a b)" "in_i64 (saturating_mul a b)"
  by (simp_all add: saturating_add_def saturating_sub_def saturating_mul_def)

lemma sat_i64_mono: "x \<le> y \<Longrightarrow> sat_i64 x \<le> sat_i64 y"
  by (simp add: i64_defs)

lemma saturating_add_le: "in_i64 a \<Longrightarrow> 0 \<le> b \<Longrightarrow> saturating_add a b \<le> a + b"
  by (simp add: i64_defs)

lemma saturating_add_ge: "in_i64 a \<Longrightarrow> 0 \<le> b \<Longrightarrow> a \<le> saturating_add a b"
  by (simp add: i64_defs)

lemma saturating_add_exact [i64_simps]: "in_i64 (a + b) \<Longrightarrow> saturating_add a b = a + b"
  by (simp add: saturating_add_def sat_i64_id)

lemma saturating_sub_exact [i64_simps]: "in_i64 (a - b) \<Longrightarrow> saturating_sub a b = a - b"
  by (simp add: saturating_sub_def sat_i64_id)

text \<open>Rust's \<open>u8::saturating_add\<close>.\<close>

definition u8_saturating_add :: "nat \<Rightarrow> nat \<Rightarrow> nat" where
  "u8_saturating_add a b = min 255 (a + b)"

section \<open>Unsigned 64-bit integers\<close>

definition checked_mul_u64 :: "u64 \<Rightarrow> u64 \<Rightarrow> u64 option" where
  "checked_mul_u64 a b = (if unat a * unat b < 2 ^ 64 then Some (a * b) else None)"

definition checked_add_u64 :: "u64 \<Rightarrow> u64 \<Rightarrow> u64 option" where
  "checked_add_u64 a b = (if unat a + unat b < 2 ^ 64 then Some (a + b) else None)"

lemma unat_u64_less: "unat (w :: u64) < 2 ^ 64"
  using unsigned_less [of w, where ?'a = nat] by simp

lemma unat_of_nat_u64: "n < 2 ^ 64 \<Longrightarrow> unat (of_nat n :: u64) = n"
  by (simp add: unsigned_of_nat take_bit_nat_eq_self)

lemma checked_mul_u64_Some: "checked_mul_u64 a b = Some c \<Longrightarrow> unat c = unat a * unat b"
  by (auto simp: checked_mul_u64_def unat_word_ariths split: if_splits)

lemma checked_add_u64_Some: "checked_add_u64 a b = Some c \<Longrightarrow> unat c = unat a + unat b"
  by (auto simp: checked_add_u64_def unat_word_ariths split: if_splits)

section \<open>Bytes, digits and decimal numbers\<close>

definition byte :: "char \<Rightarrow> nat" where
  "byte c = of_char c"

definition is_ascii_digit :: "char \<Rightarrow> bool" where
  "is_ascii_digit c \<longleftrightarrow> 48 \<le> byte c \<and> byte c \<le> 57"

definition digit_val :: "char \<Rightarrow> nat" where
  "digit_val c = byte c - 48"

definition digit_char :: "nat \<Rightarrow> char" where
  "digit_char d = char_of (d + 48)"

lemma byte_digit_char: "d < 10 \<Longrightarrow> byte (digit_char d) = d + 48"
  by (simp add: byte_def digit_char_def)

lemma is_ascii_digit_digit_char [simp]: "d < 10 \<Longrightarrow> is_ascii_digit (digit_char d)"
  by (simp add: is_ascii_digit_def byte_digit_char)

lemma digit_val_digit_char [simp]: "d < 10 \<Longrightarrow> digit_val (digit_char d) = d"
  by (simp add: digit_val_def byte_digit_char)

lemma digit_val_less: "is_ascii_digit c \<Longrightarrow> digit_val c < 10"
  by (auto simp: is_ascii_digit_def digit_val_def)

lemma digit_char_digit_val [simp]: "is_ascii_digit c \<Longrightarrow> digit_char (digit_val c) = c"
  by (simp add: is_ascii_digit_def digit_val_def digit_char_def byte_def)

text \<open>The value of a digit string, most significant digit first.\<close>

definition dec_val :: "string \<Rightarrow> nat" where
  "dec_val s = foldl (\<lambda>n c. n * 10 + digit_val c) 0 s"

lemma dec_val_Nil [simp]: "dec_val [] = 0"
  by (simp add: dec_val_def)

lemma dec_val_snoc [simp]: "dec_val (s @ [c]) = dec_val s * 10 + digit_val c"
  by (simp add: dec_val_def)

text \<open>Rust's \<open>Display\<close> of an unsigned integer.\<close>

fun show_nat :: "nat \<Rightarrow> string" where
  "show_nat n = (if n < 10 then [digit_char n] else show_nat (n div 10) @ [digit_char (n mod 10)])"

declare show_nat.simps [simp del]

lemma show_nat_digits: "\<forall>c \<in> set (show_nat n). is_ascii_digit c"
proof (induction n rule: show_nat.induct)
  case (1 n)
  then show ?case by (cases "n < 10") (auto simp: show_nat.simps [of n])
qed

lemma show_nat_not_Nil [simp]: "show_nat n \<noteq> []"
  by (subst show_nat.simps) simp

lemma dec_val_show_nat [simp]: "dec_val (show_nat n) = n"
proof (induction n rule: show_nat.induct)
  case (1 n)
  show ?case
  proof (cases "n < 10")
    case True
    then show ?thesis
      using dec_val_snoc [of "[]" "digit_char n"] by (simp add: show_nat.simps [of n])
  next
    case False
    with 1 show ?thesis by (simp add: show_nat.simps [of n])
  qed
qed

section \<open>String operations of the standard library\<close>

text \<open>\<open>str::split(c)\<close>: the pieces between the separators, one more than there are separators.\<close>

fun split_on :: "char \<Rightarrow> string \<Rightarrow> string list" where
  "split_on c [] = [[]]"
| "split_on c (x # xs) =
     (if x = c then [] # split_on c xs
      else case split_on c xs of [] \<Rightarrow> [[x]] | y # ys \<Rightarrow> (x # y) # ys)"

fun join_with :: "char \<Rightarrow> string list \<Rightarrow> string" where
  "join_with c [] = []"
| "join_with c [w] = w"
| "join_with c (w # v # ws) = w @ c # join_with c (v # ws)"

lemma split_on_not_Nil [simp]: "split_on c s \<noteq> []"
  by (induction s) (auto split: list.splits)

lemma join_split [simp]: "join_with c (split_on c s) = s"
proof (induction s)
  case Nil
  then show ?case by simp
next
  case (Cons x xs)
  then obtain y ys where s: "split_on c xs = y # ys"
    using split_on_not_Nil by (meson neq_Nil_conv)
  show ?case using Cons s by (cases ys) auto
qed

lemma split_on_pieces: "w \<in> set (split_on c s) \<Longrightarrow> c \<notin> set w"
  by (induction s arbitrary: w) (auto split: list.splits if_splits)

lemma split_on_piece: "c \<notin> set w \<Longrightarrow> split_on c w = [w]"
  by (induction w) auto

lemma split_on_append: "c \<notin> set w \<Longrightarrow> split_on c (w @ c # s) = w # split_on c s"
  by (induction w) auto

lemma split_join: "ws \<noteq> [] \<Longrightarrow> \<forall>w \<in> set ws. c \<notin> set w \<Longrightarrow> split_on c (join_with c ws) = ws"
  by (induction c ws rule: join_with.induct) (auto simp: split_on_piece split_on_append)

text \<open>A string splits into given pieces exactly when it is their join.\<close>

lemma split_on_eq_iff:
  "split_on c s = ws \<longleftrightarrow> ws \<noteq> [] \<and> (\<forall>w \<in> set ws. c \<notin> set w) \<and> s = join_with c ws"
proof
  assume "split_on c s = ws"
  then show "ws \<noteq> [] \<and> (\<forall>w \<in> set ws. c \<notin> set w) \<and> s = join_with c ws"
    using split_on_pieces [of _ c s] by auto
next
  assume "ws \<noteq> [] \<and> (\<forall>w \<in> set ws. c \<notin> set w) \<and> s = join_with c ws"
  then show "split_on c s = ws" by (simp add: split_join)
qed

text \<open>\<open>str::strip_prefix\<close>, \<open>str::strip_suffix\<close> (of one byte) and \<open>str::split_once\<close>.\<close>

fun strip_prefix :: "string \<Rightarrow> string \<Rightarrow> string option" where
  "strip_prefix [] s = Some s"
| "strip_prefix (p # ps) [] = None"
| "strip_prefix (p # ps) (c # s) = (if p = c then strip_prefix ps s else None)"

lemma strip_prefix_eq_Some: "strip_prefix p s = Some r \<longleftrightarrow> s = p @ r"
  by (induction p s rule: strip_prefix.induct) auto

lemma strip_prefix_append [simp]: "strip_prefix p (p @ r) = Some r"
  by (simp add: strip_prefix_eq_Some)

definition strip_suffix1 :: "char \<Rightarrow> string \<Rightarrow> string option" where
  "strip_suffix1 c s = (if s \<noteq> [] \<and> last s = c then Some (butlast s) else None)"

lemma strip_suffix1_eq_Some: "strip_suffix1 c s = Some r \<longleftrightarrow> s = r @ [c]"
proof (cases s rule: rev_cases)
  case Nil
  then show ?thesis by (simp add: strip_suffix1_def)
next
  case (snoc ys y)
  then show ?thesis by (auto simp: strip_suffix1_def)
qed

fun split_once :: "char \<Rightarrow> string \<Rightarrow> (string \<times> string) option" where
  "split_once c [] = None"
| "split_once c (x # xs) =
     (if x = c then Some ([], xs)
      else map_option (\<lambda>(a, b). (x # a, b)) (split_once c xs))"

lemma split_once_eq_Some:
  "split_once c s = Some (a, b) \<longleftrightarrow> s = a @ c # b \<and> c \<notin> set a"
proof (induction s arbitrary: a)
  case Nil
  then show ?case by simp
next
  case (Cons x xs)
  show ?case
  proof (cases a)
    case Nil
    then show ?thesis by auto
  next
    case (Cons y ys)
    then show ?thesis using Cons.IH [of ys] by auto
  qed
qed

lemma split_once_append [simp]: "c \<notin> set a \<Longrightarrow> split_once c (a @ c # b) = Some (a, b)"
  by (simp add: split_once_eq_Some)

section \<open>Closed code tables\<close>

text \<open>
  The sources give every closed enum a table of all constructors (\<open>ALL\<close>) and a wire code
  per constructor, and read a code back with \<open>ALL.into_iter().find(\<dots>)\<close>. The interface
  asks that the table is complete and the codes are distinct; reading is then the exact
  inverse of writing.
\<close>

locale code_table =
  fixes all_of :: "'a list"
    and code_of :: "'a \<Rightarrow> string"
  assumes table_complete: "x \<in> set all_of"
    and code_inj: "code_of x = code_of y \<Longrightarrow> x = y"
begin

lemma read_code_iff: "find (\<lambda>x. code_of x = s) all_of = Some x \<longleftrightarrow> code_of x = s"
proof
  assume "find (\<lambda>x. code_of x = s) all_of = Some x"
  then show "code_of x = s" by (auto simp: find_Some_iff)
next
  assume s: "code_of x = s"
  then have "find (\<lambda>x. code_of x = s) all_of \<noteq> None"
    using table_complete by (auto simp: find_None_iff)
  then obtain y where y: "find (\<lambda>x. code_of x = s) all_of = Some y" by blast
  then have "code_of y = s" by (auto simp: find_Some_iff)
  with s have "code_of y = code_of x" by simp
  then have "y = x" by (rule code_inj)
  with y show "find (\<lambda>x. code_of x = s) all_of = Some x" by simp
qed

lemma read_written [simp]: "find (\<lambda>y. code_of y = code_of x) all_of = Some x"
  by (simp add: read_code_iff)

lemma read_unknown: "find (\<lambda>x. code_of x = s) all_of = None \<longleftrightarrow> s \<notin> range code_of"
  using table_complete by (auto simp: find_None_iff)

end

end
