(* ===== verification/Http_Range.thy ===== *)
theory Http_Range
  imports Hub_Prelude
begin

text \<open>
  The single-range parser of \<^verbatim>\<open>src/api/http_range.rs\<close>: the \<open>Range\<close> header of a pack
  download is resolved against the length of the representation. Lengths and offsets are
  \<open>u64\<close>, modelled as \<open>64 word\<close>, so that the plain subtractions and the length of the
  resolved interval are proved not to wrap.
\<close>

section \<open>Data\<close>

record ResolvedByteRange =
  rbr_start :: u64
  rbr_end :: u64
  rbr_complete_length :: u64
  rbr_requested :: bool

datatype RangeError =
    EmptyRepresentation
  | UnsupportedUnit
  | MultipleRanges
  | Malformed
  | Overflow
  | Unsatisfiable
  | ZeroLengthSuffix

section \<open>Operations\<close>

definition range_len :: "ResolvedByteRange \<Rightarrow> u64" where
  "range_len r = rbr_end r - rbr_start r + 1"

definition range_is_empty :: "ResolvedByteRange \<Rightarrow> bool" where
  "range_is_empty r = False"

definition range_is_partial :: "ResolvedByteRange \<Rightarrow> bool" where
  "range_is_partial r = rbr_requested r"

definition show_u64 :: "u64 \<Rightarrow> string" where
  "show_u64 w = show_nat (unat w)"

definition content_range :: "ResolvedByteRange \<Rightarrow> string" where
  "content_range r = ''bytes '' @ show_u64 (rbr_start r) @ ''-'' @ show_u64 (rbr_end r) @ ''/''
     @ show_u64 (rbr_complete_length r)"

definition unsatisfied_content_range :: "u64 \<Rightarrow> string" where
  "unsatisfied_content_range n = ''bytes */'' @ show_u64 n"

definition invalid_unit_or_syntax :: "string \<Rightarrow> RangeError" where
  "invalid_unit_or_syntax header = (if CHR ''='' \<in> set header then UnsupportedUnit else Malformed)"

fun parse_decimal_loop :: "u64 \<Rightarrow> string \<Rightarrow> RangeError + u64" where
  "parse_decimal_loop number [] = Inr number"
| "parse_decimal_loop number (d # ds) =
     (case Option.bind (checked_mul_u64 number 10)
             (\<lambda>number. checked_add_u64 number (of_nat (digit_val d))) of
        None \<Rightarrow> Inl Overflow
      | Some number \<Rightarrow> parse_decimal_loop number ds)"

definition parse_decimal :: "string \<Rightarrow> RangeError + u64" where
  "parse_decimal value =
     (if value = [] \<or> \<not> list_all is_ascii_digit value then Inl Malformed
      else parse_decimal_loop 0 value)"

definition resolve_bounded :: "u64 \<Rightarrow> u64 \<Rightarrow> u64 \<Rightarrow> RangeError + ResolvedByteRange" where
  "resolve_bounded start requested_end n =
     (if n \<le> start \<or> requested_end < start then Inl Unsatisfiable
      else Inr \<lparr>rbr_start = start, rbr_end = min requested_end (n - 1),
                rbr_complete_length = n, rbr_requested = True\<rparr>)"

definition resolve_open_ended :: "u64 \<Rightarrow> u64 \<Rightarrow> RangeError + ResolvedByteRange" where
  "resolve_open_ended start n =
     (if n \<le> start then Inl Unsatisfiable
      else Inr \<lparr>rbr_start = start, rbr_end = n - 1,
                rbr_complete_length = n, rbr_requested = True\<rparr>)"

definition resolve_suffix :: "u64 \<Rightarrow> u64 \<Rightarrow> RangeError + ResolvedByteRange" where
  "resolve_suffix suffix_length n =
     (if suffix_length = 0 then Inl ZeroLengthSuffix
      else Inr \<lparr>rbr_start = n - min suffix_length n, rbr_end = n - 1,
                rbr_complete_length = n, rbr_requested = True\<rparr>)"

text \<open>\<open>u8::is_ascii_whitespace\<close>: space, horizontal tab, line feed, form feed, carriage return.\<close>

definition is_ascii_whitespace :: "char \<Rightarrow> bool" where
  "is_ascii_whitespace c \<longleftrightarrow> byte c \<in> {9, 10, 12, 13, 32}"

definition parse_single_range :: "string option \<Rightarrow> u64 \<Rightarrow> RangeError + ResolvedByteRange" where
  "parse_single_range header_opt n =
     (if n = 0 then Inl EmptyRepresentation
      else (case header_opt of
        None \<Rightarrow> Inr \<lparr>rbr_start = 0, rbr_end = n - 1, rbr_complete_length = n, rbr_requested = False\<rparr>
      | Some header \<Rightarrow>
         (case strip_prefix ''bytes='' header of
            None \<Rightarrow> Inl (invalid_unit_or_syntax header)
          | Some value \<Rightarrow>
             (if value = [] then Inl Malformed
              else if CHR '','' \<in> set value then Inl MultipleRanges
              else if list_ex is_ascii_whitespace value then Inl Malformed
              else (case split_once CHR ''-'' value of
                None \<Rightarrow> Inl Malformed
              | Some (first, second) \<Rightarrow>
                 (if CHR ''-'' \<in> set second then Inl Malformed
                  else if first = [] \<and> second = [] then Inl Malformed
                  else if first = [] then
                    (case parse_decimal second of Inl e \<Rightarrow> Inl e | Inr k \<Rightarrow> resolve_suffix k n)
                  else if second = [] then
                    (case parse_decimal first of Inl e \<Rightarrow> Inl e | Inr a \<Rightarrow> resolve_open_ended a n)
                  else
                    (case parse_decimal first of Inl e \<Rightarrow> Inl e
                     | Inr a \<Rightarrow> (case parse_decimal second of Inl e \<Rightarrow> Inl e
                                | Inr b \<Rightarrow> resolve_bounded a b n))))))))"

section \<open>Decimal numbers\<close>

lemma dec_val_append: "foldl (\<lambda>n c. n * 10 + digit_val c) m s = m * 10 ^ length s + dec_val s"
proof (induction s arbitrary: m)
  case Nil
  then show ?case by simp
next
  case (Cons c s)
  have "dec_val (c # s) = digit_val c * 10 ^ length s + dec_val s"
    using Cons [of "digit_val c"] by (simp add: dec_val_def)
  with Cons [of "m * 10 + digit_val c"] show ?case by (simp add: algebra_simps)
qed

lemma dec_val_Cons: "dec_val (c # s) = digit_val c * 10 ^ length s + dec_val s"
  using dec_val_append [of "digit_val c" s] by (simp add: dec_val_def)

lemma unat_digit [simp]: "is_ascii_digit d \<Longrightarrow> unat (of_nat (digit_val d) :: u64) = digit_val d"
  using digit_val_less [of d] by (simp add: unat_of_nat_u64)

text \<open>The loop computes the value it stands for, or reports that it does not fit.\<close>

lemma parse_decimal_loop_eq:
  assumes "list_all is_ascii_digit s"
  shows "parse_decimal_loop m s =
    (if unat m * 10 ^ length s + dec_val s < 2 ^ 64
     then Inr (of_nat (unat m * 10 ^ length s + dec_val s)) else Inl Overflow)"
  using assms
proof (induction s arbitrary: m)
  case Nil
  then show ?case using unat_u64_less [of m] by simp
next
  case (Cons d ds)
  let ?m' = "unat m * 10 + digit_val d"
  have d: "is_ascii_digit d" "list_all is_ascii_digit ds" using Cons.prems by auto
  have total: "unat m * 10 ^ length (d # ds) + dec_val (d # ds) = ?m' * 10 ^ length ds + dec_val ds"
    by (simp add: dec_val_Cons algebra_simps)
  show ?case
  proof (cases "?m' < 2 ^ 64")
    case True
    then have step: "Option.bind (checked_mul_u64 m 10)
        (\<lambda>n. checked_add_u64 n (of_nat (digit_val d))) = Some (of_nat ?m')"
      using d by (simp add: checked_mul_u64_def checked_add_u64_def unat_word_ariths)
    have "unat (of_nat ?m' :: u64) = ?m'"
      using True by (rule unat_of_nat_u64)
    with step total Cons.IH [OF d(2), of "of_nat ?m'"] show ?thesis by simp
  next
    case False
    then have "Option.bind (checked_mul_u64 m 10)
        (\<lambda>n. checked_add_u64 n (of_nat (digit_val d))) = None"
      using d by (auto simp: checked_mul_u64_def checked_add_u64_def unat_word_ariths)
    moreover have "\<not> ?m' * 10 ^ length ds + dec_val ds < 2 ^ 64"
    proof -
      have "?m' \<le> ?m' * 10 ^ length ds" by simp
      with False show ?thesis by linarith
    qed
    ultimately show ?thesis using total by simp
  qed
qed

lemma parse_decimal_eq:
  "parse_decimal s =
    (if s = [] \<or> \<not> list_all is_ascii_digit s then Inl Malformed
     else if dec_val s < 2 ^ 64 then Inr (of_nat (dec_val s)) else Inl Overflow)"
  by (simp add: parse_decimal_def parse_decimal_loop_eq)

lemma show_u64_digits: "list_all is_ascii_digit (show_u64 w)"
  using show_nat_digits by (simp add: show_u64_def list_all_iff)

lemma parse_decimal_show_u64 [simp]: "parse_decimal (show_u64 w) = Inr w"
  using show_u64_digits [of w] unat_u64_less [of w] by (simp add: parse_decimal_eq show_u64_def)

section \<open>Resolved intervals\<close>

definition range_wf :: "u64 \<Rightarrow> ResolvedByteRange \<Rightarrow> bool" where
  "range_wf n r \<longleftrightarrow> rbr_start r \<le> rbr_end r \<and> rbr_end r < n \<and> rbr_complete_length r = n"

lemma word_pred_less: "n \<noteq> 0 \<Longrightarrow> n - 1 < (n :: u64)"
  by (simp add: word_neq_0_conv measure_unat word_less_nat_alt)

lemma word_pred_less_of_less: "a < n \<Longrightarrow> n - 1 < (n :: u64)"
  using word_pred_less [of n] by fastforce

lemma word_le_pred: "a < n \<Longrightarrow> a \<le> n - (1 :: u64)"
  by uint_arith

lemma word_sub_less: "m \<le> n \<Longrightarrow> m \<noteq> 0 \<Longrightarrow> n - m < (n :: u64)"
  by uint_arith

lemma unat_range_len:
  assumes "range_wf n r"
  shows "unat (range_len r) = unat (rbr_end r) - unat (rbr_start r) + 1"
    and "unat (range_len r) \<le> unat n"
proof -
  have le: "unat (rbr_start r) \<le> unat (rbr_end r)" and lt: "unat (rbr_end r) < unat n"
    using assms by (auto simp: range_wf_def word_le_nat_alt word_less_nat_alt)
  have d: "unat (rbr_end r - rbr_start r) = unat (rbr_end r) - unat (rbr_start r)"
    using le by (simp add: unat_sub word_le_nat_alt)
  have "unat (rbr_end r) - unat (rbr_start r) + 1 < 2 ^ 64"
    using lt unat_u64_less [of n] by linarith
  then show len: "unat (range_len r) = unat (rbr_end r) - unat (rbr_start r) + 1"
    by (simp add: range_len_def unat_word_ariths d)
  show "unat (range_len r) \<le> unat n" using len lt by linarith
qed

lemma resolve_bounded_wf: "resolve_bounded a b n = Inr r \<Longrightarrow> range_wf n r"
  by (auto simp: resolve_bounded_def range_wf_def not_le not_less min_def word_le_pred
      intro: order_le_less_trans [OF _ word_pred_less_of_less] split: if_splits)

lemma resolve_open_ended_wf: "resolve_open_ended a n = Inr r \<Longrightarrow> range_wf n r"
  by (auto simp: resolve_open_ended_def range_wf_def not_le word_le_pred
      intro: word_pred_less_of_less split: if_splits)

lemma resolve_suffix_wf: "n \<noteq> 0 \<Longrightarrow> resolve_suffix k n = Inr r \<Longrightarrow> range_wf n r"
proof -
  assume n: "n \<noteq> 0" and ok: "resolve_suffix k n = Inr r"
  then have k: "k \<noteq> 0" and r: "rbr_start r = n - min k n" "rbr_end r = n - 1" "rbr_complete_length r = n"
    by (auto simp: resolve_suffix_def split: if_splits)
  have "n - min k n < n"
    using k n by (intro word_sub_less) (auto simp: min_def)
  then show ?thesis using r n by (simp add: range_wf_def word_le_pred word_pred_less)
qed

lemmas resolve_wf = resolve_bounded_wf resolve_open_ended_wf resolve_suffix_wf

lemma parse_single_range_wf: "parse_single_range h n = Inr r \<Longrightarrow> range_wf n r"
  by (auto simp: parse_single_range_def range_wf_def word_pred_less
      split: if_splits option.splits sum.splits dest: resolve_wf [unfolded range_wf_def])

lemmas parse_single_range_eval = parse_single_range_def parse_decimal_def checked_mul_u64_def
  checked_add_u64_def digit_val_def byte_def is_ascii_digit_def is_ascii_whitespace_def
  resolve_bounded_def resolve_open_ended_def resolve_suffix_def

text \<open>
  whenever the parser accepts, the resolved interval lies inside the representation and
  its length does not wrap around: it is the number of bytes from the first to the last
  one, at most the length of the representation; the answer is partial exactly when a
  \<open>Range\<close> header was sent.
\<close>

theorem parse_single_range_sound:
  assumes "parse_single_range h n = Inr r"
  shows "rbr_start r \<le> rbr_end r \<and> rbr_end r < n \<and> rbr_complete_length r = n
    \<and> unat (range_len r) = unat (rbr_end r) - unat (rbr_start r) + 1
    \<and> unat (range_len r) \<le> unat n \<and> (range_is_partial r \<longleftrightarrow> h \<noteq> None)"
proof -
  have "range_is_partial r \<longleftrightarrow> h \<noteq> None"
    using assms by (auto simp: parse_single_range_def range_is_partial_def resolve_bounded_def
        resolve_open_ended_def resolve_suffix_def split: if_splits option.splits sum.splits)
  with parse_single_range_wf [OF assms] unat_range_len show ?thesis
    by (auto simp: range_wf_def)
qed

theorem parse_single_range_sound_witness:
  "parse_single_range (Some ''bytes=8-99'') 12 =
     Inr \<lparr>rbr_start = 8, rbr_end = 11, rbr_complete_length = 12, rbr_requested = True\<rparr>
   \<and> unat (range_len \<lparr>rbr_start = 8, rbr_end = 11, rbr_complete_length = 12, rbr_requested = True\<rparr>) \<le> 12"
proof -
  have ok: "parse_single_range (Some ''bytes=8-99'') 12 =
     Inr \<lparr>rbr_start = 8, rbr_end = 11, rbr_complete_length = 12, rbr_requested = True\<rparr>"
    by (simp add: parse_single_range_eval)
  from parse_single_range_sound [OF ok] show ?thesis using ok by simp
qed

text \<open>The interval a pair of digit strings stands for, over unbounded naturals.\<close>

definition range_meaning :: "nat \<Rightarrow> string \<Rightarrow> string \<Rightarrow> (nat \<times> nat) option" where
  "range_meaning len first second =
     (if first = [] then
        (if second \<noteq> [] \<and> 0 < dec_val second \<and> dec_val second < 2 ^ 64
         then Some (len - dec_val second, len - 1) else None)
      else if second = [] then (if dec_val first < len then Some (dec_val first, len - 1) else None)
      else (if dec_val first < len \<and> dec_val first \<le> dec_val second \<and> dec_val second < 2 ^ 64
            then Some (dec_val first, min (dec_val second) (len - 1)) else None))"

text \<open>The field value of one byte range.\<close>

definition range_header :: "string \<Rightarrow> string \<Rightarrow> string" where
  "range_header first second = ''bytes='' @ first @ CHR ''-'' # second"

lemma digits_no_special:
  assumes "list_all is_ascii_digit s"
  shows "CHR ''-'' \<notin> set s" "CHR '','' \<notin> set s" "\<not> list_ex is_ascii_whitespace s"
  using assms by (auto simp: list_all_iff list_ex_iff is_ascii_digit_def is_ascii_whitespace_def byte_def)

lemma parse_single_range_digits:
  assumes "list_all is_ascii_digit a" "list_all is_ascii_digit b" "n \<noteq> 0"
  shows "parse_single_range (Some (range_header a b)) n =
    (if a = [] \<and> b = [] then Inl Malformed
     else if a = [] then (case parse_decimal b of Inl e \<Rightarrow> Inl e | Inr k \<Rightarrow> resolve_suffix k n)
     else if b = [] then (case parse_decimal a of Inl e \<Rightarrow> Inl e | Inr k \<Rightarrow> resolve_open_ended k n)
     else (case parse_decimal a of Inl e \<Rightarrow> Inl e | Inr k \<Rightarrow>
             (case parse_decimal b of Inl e \<Rightarrow> Inl e | Inr l \<Rightarrow> resolve_bounded k l n)))"
proof -
  have p: "strip_prefix ''bytes='' (range_header a b) = Some (a @ CHR ''-'' # b)"
    by (simp add: range_header_def)
  have w: "\<not> is_ascii_whitespace CHR ''-''" by (simp add: is_ascii_whitespace_def byte_def)
  show ?thesis
    using assms(3) digits_no_special [OF assms(1)] digits_no_special [OF assms(2)]
    by (simp add: parse_single_range_def p w split del: if_split)
qed

lemma range_eq_iff:
  "r = r' \<longleftrightarrow> unat (rbr_start r) = unat (rbr_start r') \<and> unat (rbr_end r) = unat (rbr_end r')
    \<and> rbr_complete_length r = rbr_complete_length r' \<and> rbr_requested r = rbr_requested r'"
  for r r' :: ResolvedByteRange
  by (cases r; cases r') (simp add: word_unat_eq_iff)

lemma unat_min_pred: "n \<noteq> 0 \<Longrightarrow> unat (min b (n - 1) :: u64) = min (unat b) (unat n - 1)"
  by (simp add: min_def word_le_nat_alt unat_minus_one)

lemma unat_minus_min: "unat (n - min k n :: u64) = unat n - unat k"
  by (simp add: min_def word_le_nat_alt unat_sub)

lemma resolve_bounded_iff:
  "n \<noteq> 0 \<Longrightarrow> resolve_bounded a b n = Inr r \<longleftrightarrow> unat a < unat n \<and> unat a \<le> unat b
     \<and> unat (rbr_start r) = unat a \<and> unat (rbr_end r) = min (unat b) (unat n - 1)
     \<and> rbr_complete_length r = n \<and> rbr_requested r"
  by (auto simp: resolve_bounded_def range_eq_iff unat_min_pred word_le_nat_alt word_less_nat_alt not_le not_less)

lemma resolve_open_ended_iff:
  "n \<noteq> 0 \<Longrightarrow> resolve_open_ended a n = Inr r \<longleftrightarrow> unat a < unat n
     \<and> unat (rbr_start r) = unat a \<and> unat (rbr_end r) = unat n - 1
     \<and> rbr_complete_length r = n \<and> rbr_requested r"
  by (auto simp: resolve_open_ended_def range_eq_iff word_le_nat_alt not_le unat_minus_one)

lemma resolve_suffix_iff:
  "n \<noteq> 0 \<Longrightarrow> resolve_suffix k n = Inr r \<longleftrightarrow> 0 < unat k
     \<and> unat (rbr_start r) = unat n - unat k \<and> unat (rbr_end r) = unat n - 1
     \<and> rbr_complete_length r = n \<and> rbr_requested r"
  by (auto simp: resolve_suffix_def range_eq_iff unat_minus_min unat_minus_one unat_gt_0)

lemmas resolve_iff = resolve_bounded_iff resolve_open_ended_iff resolve_suffix_iff

lemma parse_digits_meaning:
  assumes "list_all is_ascii_digit a" "list_all is_ascii_digit b" "n \<noteq> 0"
  shows "parse_single_range (Some (range_header a b)) n = Inr r \<longleftrightarrow>
    range_meaning (unat n) a b = Some (unat (rbr_start r), unat (rbr_end r))
    \<and> rbr_complete_length r = n \<and> rbr_requested r"
proof -
  have lt: "x < 2 ^ 64" if "x < unat n" for x
    using that unat_u64_less [of n] by linarith
  show ?thesis
    unfolding parse_single_range_digits [OF assms] range_meaning_def parse_decimal_eq
    using assms lt by (auto simp: resolve_iff unat_of_nat_u64 intro: sym)
qed

lemma parse_single_range_shape:
  assumes "parse_single_range (Some h) n = Inr r"
  obtains a b where "h = range_header a b" "list_all is_ascii_digit a" "list_all is_ascii_digit b"
proof -
  from assms obtain v a b where
      split: "strip_prefix ''bytes='' h = Some v" "split_once CHR ''-'' v = Some (a, b)"
    by (auto simp: parse_single_range_def split: if_splits option.splits)
  with assms have ok: "a = [] \<or> (\<exists>x. parse_decimal a = Inr x)" "b = [] \<or> (\<exists>x. parse_decimal b = Inr x)"
    by (auto simp: parse_single_range_def split: if_splits sum.splits)
  from split have "h = range_header a b"
    by (simp add: strip_prefix_eq_Some split_once_eq_Some range_header_def)
  with ok that [of a b] show ?thesis
    by (auto simp: parse_decimal_def split: if_splits)
qed

text \<open>
  C28: the parser is exact. A header is accepted precisely when it is \<open>bytes=\<close> followed by
  two strings of decimal digits around one hyphen that denote an interval of the
  representation (leading zeros are allowed; a number of \<open>2^64\<close> or more is not), and then
  the resolved interval is the denoted one: a bounded range is clipped to the last byte,
  an open range runs to the last byte, a suffix longer than the representation starts at 0.
\<close>

theorem parse_single_range_exact:
  "parse_single_range (Some h) n = Inr r \<longleftrightarrow>
     n \<noteq> 0 \<and> rbr_complete_length r = n \<and> rbr_requested r \<and>
     (\<exists>a b. h = range_header a b \<and> list_all is_ascii_digit a \<and> list_all is_ascii_digit b
        \<and> range_meaning (unat n) a b = Some (unat (rbr_start r), unat (rbr_end r)))"
  (is "?ok \<longleftrightarrow> ?spec")
proof
  assume ok: ?ok
  then have "n \<noteq> 0" by (auto simp: parse_single_range_def)
  moreover from ok obtain a b where
      "h = range_header a b" "list_all is_ascii_digit a" "list_all is_ascii_digit b"
    by (rule parse_single_range_shape)
  ultimately show ?spec using ok by (auto simp: parse_digits_meaning)
next
  assume ?spec
  then show ?ok by (auto simp: parse_digits_meaning)
qed

end
