(* ===== verification/Http_Date.thy ===== *)
theory Http_Date
  imports Hub_Prelude "HOL-Library.Monad_Syntax"
begin

text \<open>
  The reader of HTTP dates of \<^verbatim>\<open>src/auth/legacy_auth/http_date.rs\<close>. Only the preferred form of
  RFC 9110, IMF-fixdate, is read. All numbers are small (a year has four digits), so plain
  \<open>int\<close> arithmetic is the \<open>i64\<close> arithmetic of the source; the divisions there are on
  non-negative operands or are \<open>div_euclid\<close> and \<open>rem_euclid\<close>.
\<close>

section \<open>The reader\<close>

definition DAY_NAMES :: "string list" where
  "DAY_NAMES = [''Sun'', ''Mon'', ''Tue'', ''Wed'', ''Thu'', ''Fri'', ''Sat'']"

definition MONTH_NAMES :: "string list" where
  "MONTH_NAMES = [''Jan'', ''Feb'', ''Mar'', ''Apr'', ''May'', ''Jun'', ''Jul'', ''Aug'', ''Sep'',
     ''Oct'', ''Nov'', ''Dec'']"

definition EPOCH_WEEKDAY_FROM_SUNDAY :: int where
  "EPOCH_WEEKDAY_FROM_SUNDAY = 4"

definition is_leap_year :: "int \<Rightarrow> bool" where
  "is_leap_year year \<longleftrightarrow> (year mod 4 = 0 \<and> year mod 100 \<noteq> 0) \<or> year mod 400 = 0"

definition days_in_month :: "int \<Rightarrow> int \<Rightarrow> int" where
  "days_in_month year month =
     (if month \<in> {1, 3, 5, 7, 8, 10, 12} then 31
      else if month \<in> {4, 6, 9, 11} then 30
      else if is_leap_year year then 29 else 28)"

definition days_from_civil :: "int \<Rightarrow> int \<Rightarrow> int \<Rightarrow> int" where
  "days_from_civil year0 month day =
     (let year = (if month \<le> 2 then year0 - 1 else year0);
          era = year div 400;
          year_of_era = year - era * 400;
          month_from_march = (month + 9) mod 12;
          day_of_year = (153 * month_from_march + 2) div 5 + day - 1;
          day_of_era = year_of_era * 365 + year_of_era div 4 - year_of_era div 100 + day_of_year
      in era * 146097 + day_of_era - 719468)"

text \<open>The \<open>i\<close>-th item an iterator yields, if it yields that many, and \<open>Iterator::position\<close>.\<close>

fun item :: "'a list \<Rightarrow> nat \<Rightarrow> 'a option" where
  "item [] i = None"
| "item (x # xs) 0 = Some x"
| "item (x # xs) (Suc i) = item xs i"

fun position :: "('a \<Rightarrow> bool) \<Rightarrow> 'a list \<Rightarrow> nat option" where
  "position p [] = None"
| "position p (x # xs) = (if p x then Some 0 else map_option Suc (position p xs))"

definition fixed_digits :: "string \<Rightarrow> nat \<Rightarrow> int option" where
  "fixed_digits text width =
     (if length text \<noteq> width \<or> \<not> list_all is_ascii_digit text then None
      else Some (int (dec_val text)))"

definition parse_http_date :: "string \<Rightarrow> int option" where
  "parse_http_date text = do {
     let fields = split_on CHR '' '' text;
     day_name \<leftarrow> item fields 0 \<bind> strip_suffix1 CHR '','';
     day \<leftarrow> item fields 1 \<bind> (\<lambda>f. fixed_digits f 2);
     month_name \<leftarrow> item fields 2;
     month0 \<leftarrow> position (\<lambda>name. name = month_name) MONTH_NAMES;
     let month = int month0 + 1;
     year \<leftarrow> item fields 3 \<bind> (\<lambda>f. fixed_digits f 4);
     clock_text \<leftarrow> item fields 4;
     let clock = split_on CHR '':'' clock_text;
     hour \<leftarrow> item clock 0 \<bind> (\<lambda>f. fixed_digits f 2);
     minute \<leftarrow> item clock 1 \<bind> (\<lambda>f. fixed_digits f 2);
     second \<leftarrow> item clock 2 \<bind> (\<lambda>f. fixed_digits f 2);
     zone \<leftarrow> item fields 5;
     if item clock 3 \<noteq> None \<or> zone \<noteq> ''GMT'' \<or> item fields 6 \<noteq> None then None
     else if year < 1970 \<or> \<not> (1 \<le> day \<and> day \<le> days_in_month year month) then None
     else if hour > 23 \<or> minute > 59 \<or> second > 59 then None
     else (let days = days_from_civil year month day;
               weekday = (days + EPOCH_WEEKDAY_FROM_SUNDAY) mod 7
           in if DAY_NAMES ! nat weekday \<noteq> day_name then None
              else Some (days * 86400 + hour * 3600 + minute * 60 + second))
   }"

section \<open>Days of the proleptic Gregorian calendar\<close>

text \<open>The reference: whole years since 1970, whole months of the year, days of the month.\<close>

definition days_in_year :: "int \<Rightarrow> int" where
  "days_in_year y = (if is_leap_year y then 366 else 365)"

definition days_ref :: "int \<Rightarrow> int \<Rightarrow> int \<Rightarrow> int" where
  "days_ref y m d = sum_list (map days_in_year [1970..y - 1])
     + sum_list (map (days_in_month y) [1..m - 1]) + (d - 1)"

definition leap_count :: "int \<Rightarrow> int" where
  "leap_count y = y div 4 - y div 100 + y div 400"

lemma leap_sum:
  fixes a a' b b' c c' :: int
  assumes "a = a' + (if p then 1 else 0)" "b = b' + (if q then 1 else 0)" "c = c' + (if r then 1 else 0)"
    and "r \<Longrightarrow> q" "q \<Longrightarrow> p"
  shows "a - b + c = a' - b' + c' + (if p \<and> \<not> q \<or> r then 1 else 0)"
  using assms by auto

lemma leap_count_step: "leap_count y = leap_count (y - 1) + (if is_leap_year y then 1 else 0)"
proof -
  have step: "y div k = (y - 1) div k + (if y mod k = 0 then 1 else 0)" if "0 < k" for k :: int
  proof -
    have y: "y = k * (y div k) + y mod k" by simp
    have r: "0 \<le> y mod k" "y mod k < k" using that by auto
    show ?thesis
    proof (cases "y mod k = 0")
      case True
      then have "y - 1 = k * (y div k - 1) + (k - 1)" using y by (simp add: algebra_simps)
      then have "(y - 1) div k = y div k - 1" by (rule int_div_pos_eq) (use that in auto)
      with True show ?thesis by simp
    next
      case False
      then have "y - 1 = k * (y div k) + (y mod k - 1)" using y by simp
      then have "(y - 1) div k = y div k" by (rule int_div_pos_eq) (use r False in auto)
      with False show ?thesis by simp
    qed
  qed
  have "y mod 400 = 0 \<Longrightarrow> y mod 100 = 0" "y mod 100 = 0 \<Longrightarrow> y mod 4 = 0"
    by presburger+
  then show ?thesis
    unfolding leap_count_def is_leap_year_def
    by (rule leap_sum [OF step step step, OF zero_less_numeral zero_less_numeral zero_less_numeral])
qed

lemma days_of_years:
  assumes "1970 \<le> y"
  shows "sum_list (map days_in_year [1970..y - 1]) = 365 * (y - 1970) + leap_count (y - 1) - 477"
  using assms
proof (induction y rule: int_ge_induct)
  case base
  then show ?case by (simp add: leap_count_def)
next
  case (step y)
  then have "[1970..y + 1 - 1] = [1970..y - 1] @ [y]" using upto_rec2 [of 1970 y] by simp
  with step leap_count_step [of y] show ?case by (simp add: days_in_year_def)
qed

text \<open>The era arithmetic over atoms, so that no decision procedure looks inside the quotients.\<close>

lemma era_sum:
  fixes z e :: int
  assumes "a = z4 - e * 100" "b = z100 - e * 4"
  shows "e * 146097 + ((z - e * 400) * 365 + a - b + t) - 719468
    = 365 * z + (z4 - z100 + e) + t - 719468"
  using assms by simp

lemma div_minus_mult:
  fixes z e k :: int
  assumes "k \<noteq> 0"
  shows "(z - e * (k * l)) div k = z div k - e * l"
proof -
  have "z - e * (k * l) = z + - (e * l) * k" by simp
  also have "\<dots> div k = - (e * l) + z div k" using assms by (rule div_mult_self1)
  finally show ?thesis by simp
qed

lemma days_from_civil_closed:
  "days_from_civil y m d =
     (let y' = (if m \<le> 2 then y - 1 else y)
      in 365 * y' + leap_count y' + ((153 * ((m + 9) mod 12) + 2) div 5 + d - 1) - 719468)"
  unfolding days_from_civil_def leap_count_def Let_def
  by (rule era_sum; use div_minus_mult [of 4 _ _ 100] div_minus_mult [of 100 _ _ 4] in simp)

lemma month_cases:
  assumes "1 \<le> m" "m \<le> (12 :: int)"
  shows "m = 1 \<or> m = 2 \<or> m = 3 \<or> m = 4 \<or> m = 5 \<or> m = 6 \<or> m = 7 \<or> m = 8 \<or> m = 9 \<or> m = 10
    \<or> m = 11 \<or> m = 12"
  using assms by presburger

lemma month_upto: "[1..j] = (if 1 \<le> j then 1 # [2..j] else [])" for j :: int
  using upto_rec1 [of 1 j] by simp

lemma days_from_civil_ref:
  assumes "1970 \<le> y" "1 \<le> m" "m \<le> 12"
  shows "days_from_civil y m d = days_ref y m d"
  using month_cases [OF assms(2,3)] leap_count_step [of y]
  unfolding days_from_civil_closed days_ref_def days_of_years [OF assms(1)] Let_def
  by (elim disjE) (simp_all add: days_in_month_def month_upto)

lemma day_of_year_less:
  assumes "1 \<le> m" "m \<le> 12" "d \<le> days_in_month y m"
  shows "sum_list (map (days_in_month y) [1..m - 1]) + (d - 1) < days_in_year y"
  using month_cases [OF assms(1,2)] assms(3)
  by (elim disjE) (simp_all add: days_in_month_def days_in_year_def month_upto split: if_splits)

lemma sum_upto_mono:
  assumes "\<And>x. 0 \<le> f x" "j < k"
  shows "sum_list (map f [i..j]) \<le> (sum_list (map f [i..k - 1]) :: int)"
  using assms(2)
proof (induction k rule: int_gr_induct)
  case base
  then show ?case by simp
next
  case (step k)
  then show ?case using upto_rec2 [of i k] assms(1) [of k] by (cases "i \<le> k") auto
qed

lemma days_in_month_nonneg: "0 \<le> days_in_month y m"
  by (simp add: days_in_month_def)

lemma days_in_year_nonneg: "0 \<le> days_in_year y"
  by (simp add: days_in_year_def)

definition valid_date :: "int \<Rightarrow> int \<Rightarrow> int \<Rightarrow> bool" where
  "valid_date y m d \<longleftrightarrow> 1970 \<le> y \<and> 1 \<le> m \<and> m \<le> 12 \<and> 1 \<le> d \<and> d \<le> days_in_month y m"

lemma days_ref_less_year:
  assumes "valid_date y m d" "valid_date y' m' d'" "y < y'"
  shows "days_ref y m d < days_ref y' m' d'"
proof -
  have "days_ref y m d < sum_list (map days_in_year [1970..y - 1]) + days_in_year y"
    using day_of_year_less [of m d y] assms(1) by (simp add: days_ref_def valid_date_def)
  also have "\<dots> = sum_list (map days_in_year [1970..y])"
    using assms(1) upto_rec2 [of 1970 y] by (simp add: valid_date_def)
  also have "\<dots> \<le> sum_list (map days_in_year [1970..y' - 1])"
    by (rule sum_upto_mono) (use days_in_year_nonneg assms(3) in auto)
  also have "\<dots> \<le> days_ref y' m' d'"
  proof -
    have "0 \<le> sum_list (map (days_in_month y') [1..m' - 1])"
      by (rule sum_list_nonneg) (auto simp: days_in_month_nonneg)
    with assms(2) show ?thesis by (simp add: days_ref_def valid_date_def)
  qed
  finally show ?thesis .
qed

lemma days_ref_less_month:
  assumes "valid_date y m d" "valid_date y m' d'" "m < m'"
  shows "days_ref y m d < days_ref y m' d'"
proof -
  have "sum_list (map (days_in_month y) [1..m]) \<le> sum_list (map (days_in_month y) [1..m' - 1])"
    by (rule sum_upto_mono) (use days_in_month_nonneg assms(3) in auto)
  moreover have "sum_list (map (days_in_month y) [1..m])
      = sum_list (map (days_in_month y) [1..m - 1]) + days_in_month y m"
    using assms(1) upto_rec2 [of 1 m] by (simp add: valid_date_def)
  ultimately show ?thesis using assms by (simp add: days_ref_def valid_date_def)
qed

lemma days_ref_inject:
  assumes "valid_date y m d" "valid_date y' m' d'" "days_ref y m d = days_ref y' m' d'"
  shows "y = y' \<and> m = m' \<and> d = d'"
proof -
  have y: "y = y'"
    using days_ref_less_year [OF assms(1,2)] days_ref_less_year [OF assms(2,1)] assms(3) by linarith
  have m: "m = m'"
    using days_ref_less_month [of y m d m' d'] days_ref_less_month [of y m' d' m d] assms y
    by (cases m m' rule: linorder_cases) auto
  show ?thesis using y m assms(3) by (simp add: days_ref_def)
qed

section \<open>Fixed-width numbers\<close>

fun pad :: "nat \<Rightarrow> nat \<Rightarrow> string" where
  "pad 0 n = []"
| "pad (Suc w) n = pad w (n div 10) @ [digit_char (n mod 10)]"

lemma length_pad [simp]: "length (pad w n) = w"
  by (induction w arbitrary: n) auto

lemma pad_digits [simp]: "list_all is_ascii_digit (pad w n)"
  by (induction w arbitrary: n) auto

lemma dec_val_pad [simp]: "n < 10 ^ w \<Longrightarrow> dec_val (pad w n) = n"
  by (induction w arbitrary: n) (auto simp: less_mult_imp_div_less)

lemma dec_val_bound: "list_all is_ascii_digit s \<Longrightarrow> dec_val s < 10 ^ length s"
proof (induction s rule: rev_induct)
  case Nil
  then show ?case by simp
next
  case (snoc c s)
  then have "dec_val s + 1 \<le> 10 ^ length s" "digit_val c < 10" by (auto intro: digit_val_less)
  then show ?case using mult_le_mono1 [of "dec_val s + 1" "10 ^ length s" 10] by simp
qed

lemma pad_dec_val: "list_all is_ascii_digit s \<Longrightarrow> pad (length s) (dec_val s) = s"
proof (induction s rule: rev_induct)
  case Nil
  then show ?case by simp
next
  case (snoc c s)
  then have "digit_val c < 10" by (auto intro: digit_val_less)
  then have "(dec_val s * 10 + digit_val c) div 10 = dec_val s"
      "(dec_val s * 10 + digit_val c) mod 10 = digit_val c" by auto
  with snoc show ?case by simp
qed

lemma fixed_digits_iff:
  "fixed_digits s w = Some n \<longleftrightarrow> 0 \<le> n \<and> n < 10 ^ w \<and> s = pad w (nat n)"
proof
  assume "fixed_digits s w = Some n"
  then have "length s = w" "list_all is_ascii_digit s" "n = int (dec_val s)"
    by (auto simp: fixed_digits_def split: if_splits)
  then show "0 \<le> n \<and> n < 10 ^ w \<and> s = pad w (nat n)"
    using dec_val_bound [of s] pad_dec_val [of s] by (auto simp flip: of_nat_power)
next
  assume n: "0 \<le> n \<and> n < 10 ^ w \<and> s = pad w (nat n)"
  then have "nat n < 10 ^ w" by (simp add: nat_less_iff)
  with n show "fixed_digits s w = Some n" by (simp add: fixed_digits_def)
qed

lemma pad_no: "\<not> is_ascii_digit c \<Longrightarrow> c \<notin> set (pad w n)"
  using pad_digits [of w n] by (auto simp: list_all_iff)

section \<open>Exactness of the reader\<close>

lemma position_Some: "position p xs = Some i \<Longrightarrow> i < length xs \<and> p (xs ! i)"
  by (induction xs arbitrary: i) (auto split: if_splits)

lemma position_nth: "distinct xs \<Longrightarrow> i < length xs \<Longrightarrow> position (\<lambda>x. x = xs ! i) xs = Some i"
  by (induction xs arbitrary: i) (auto simp: nth_Cons split: nat.splits)

lemma MONTH_NAMES_facts [simp]: "distinct MONTH_NAMES" "length MONTH_NAMES = 12"
  by (simp_all add: MONTH_NAMES_def)

lemma month_position:
  "position (\<lambda>name. name = x) MONTH_NAMES = Some i \<longleftrightarrow> i < 12 \<and> x = MONTH_NAMES ! i"
  using position_Some [of "\<lambda>name. name = x" MONTH_NAMES i] position_nth [of MONTH_NAMES i] by auto

lemma item_numeral [simp]:
  "item (x # xs) (numeral k) = item xs (pred_numeral k)" "item (x # xs) 1 = item xs 0"
  by (simp_all add: numeral_eq_Suc)

lemma item_Some_0: "item xs 0 = Some a \<longleftrightarrow> (\<exists>ys. xs = a # ys)"
  by (cases xs) auto

lemma item_Some_Suc: "item xs (Suc i) = Some a \<longleftrightarrow> (\<exists>x ys. xs = x # ys \<and> item ys i = Some a)"
  by (cases xs) auto

lemma item_None_0: "item xs 0 = None \<longleftrightarrow> xs = []"
  by (cases xs) auto

lemmas item_iffs = item_Some_0 item_Some_Suc item_None_0

lemma items6:
  "item xs 0 = Some a \<Longrightarrow> item xs 1 = Some b \<Longrightarrow> item xs 2 = Some c \<Longrightarrow> item xs 3 = Some d
   \<Longrightarrow> item xs 4 = Some e \<Longrightarrow> item xs 5 = Some f \<Longrightarrow> item xs 6 = None \<Longrightarrow> xs = [a, b, c, d, e, f]"
  by (auto simp: numeral_eq_Suc item_iffs)

lemma items3:
  "item xs 0 = Some a \<Longrightarrow> item xs 1 = Some b \<Longrightarrow> item xs 2 = Some c \<Longrightarrow> item xs 3 = None
   \<Longrightarrow> xs = [a, b, c]"
  by (auto simp: numeral_eq_Suc item_iffs)

definition weekday_name :: "int \<Rightarrow> string" where
  "weekday_name days = DAY_NAMES ! nat ((days + EPOCH_WEEKDAY_FROM_SUNDAY) mod 7)"

definition valid_time :: "int \<Rightarrow> int \<Rightarrow> int \<Rightarrow> bool" where
  "valid_time h mi s \<longleftrightarrow> 0 \<le> h \<and> h \<le> 23 \<and> 0 \<le> mi \<and> mi \<le> 59 \<and> 0 \<le> s \<and> s \<le> 59"

text \<open>The IMF-fixdate text of a civil time and the epoch second it stands for.\<close>

definition imf_fixdate :: "int \<Rightarrow> int \<Rightarrow> int \<Rightarrow> int \<Rightarrow> int \<Rightarrow> int \<Rightarrow> string" where
  "imf_fixdate y m d h mi s = join_with CHR '' ''
     [weekday_name (days_ref y m d) @ '','', pad 2 (nat d), MONTH_NAMES ! nat (m - 1), pad 4 (nat y),
      join_with CHR '':'' [pad 2 (nat h), pad 2 (nat mi), pad 2 (nat s)], ''GMT'']"

definition epoch_ref :: "int \<Rightarrow> int \<Rightarrow> int \<Rightarrow> int \<Rightarrow> int \<Rightarrow> int \<Rightarrow> int" where
  "epoch_ref y m d h mi s = days_ref y m d * 86400 + h * 3600 + mi * 60 + s"

definition reads_as :: "string list \<Rightarrow> string list \<Rightarrow> int \<Rightarrow> int \<Rightarrow> int \<Rightarrow> int \<Rightarrow> int \<Rightarrow> int \<Rightarrow> bool" where
  "reads_as fields clock y m d h mi s \<longleftrightarrow>
     fields = [weekday_name (days_ref y m d) @ '','', pad 2 (nat d), MONTH_NAMES ! nat (m - 1),
       pad 4 (nat y), fields ! 4, ''GMT'']
     \<and> clock = [pad 2 (nat h), pad 2 (nat mi), pad 2 (nat s)]
     \<and> valid_date y m d \<and> y \<le> 9999 \<and> valid_time h mi s"

lemma parse_http_date_fields:
  assumes "parse_http_date text = Some t"
  obtains fields clock y m d h mi s where
    "split_on CHR '' '' text = fields" "split_on CHR '':'' (fields ! 4) = clock"
    "reads_as fields clock y m d h mi s" "t = epoch_ref y m d h mi s"
proof -
  let ?fs = "split_on CHR '' '' text"
  from assms obtain f0 f1 f2 f3 f4 f5 c0 c1 c2 dn d m0 y h mi s where
    items: "item ?fs 0 = Some f0" "item ?fs 1 = Some f1" "item ?fs 2 = Some f2" "item ?fs 3 = Some f3"
      "item ?fs 4 = Some f4" "item ?fs 5 = Some f5" "item ?fs 6 = None"
    and clock: "item (split_on CHR '':'' f4) 0 = Some c0" "item (split_on CHR '':'' f4) 1 = Some c1"
      "item (split_on CHR '':'' f4) 2 = Some c2" "item (split_on CHR '':'' f4) 3 = None"
    and vals: "strip_suffix1 CHR '','' f0 = Some dn" "fixed_digits f1 2 = Some d"
      "position (\<lambda>name. name = f2) MONTH_NAMES = Some m0" "fixed_digits f3 4 = Some y"
      "fixed_digits c0 2 = Some h" "fixed_digits c1 2 = Some mi" "fixed_digits c2 2 = Some s"
    and conds: "f5 = ''GMT''" "1970 \<le> y" "1 \<le> d" "d \<le> days_in_month y (int m0 + 1)"
      "h \<le> 23" "mi \<le> 59" "s \<le> 59" "dn = weekday_name (days_from_civil y (int m0 + 1) d)"
      "t = days_from_civil y (int m0 + 1) d * 86400 + h * 3600 + mi * 60 + s"
    by (auto simp: parse_http_date_def Let_def bind_eq_Some_conv weekday_name_def split: if_splits)
  have fs: "?fs = [f0, f1, f2, f3, f4, f5]" by (rule items6) (use items in auto)
  have cs: "split_on CHR '':'' f4 = [c0, c1, c2]" by (rule items3) (use clock in auto)
  from vals(3) have m0: "m0 < 12" "f2 = MONTH_NAMES ! m0" by (auto simp: month_position)
  have days: "days_from_civil y (int m0 + 1) d = days_ref y (int m0 + 1) d"
    by (rule days_from_civil_ref) (use conds m0 in auto)
  show thesis
  proof (rule that [OF refl refl])
    show "reads_as ?fs (split_on CHR '':'' (?fs ! 4)) y (int m0 + 1) d h mi s"
      using vals conds m0 days
      by (simp add: fs cs reads_as_def fixed_digits_iff strip_suffix1_eq_Some valid_date_def valid_time_def)
    show "t = epoch_ref y (int m0 + 1) d h mi s" using conds days by (simp add: epoch_ref_def)
  qed
qed

lemma weekday_name_in: "weekday_name k \<in> set DAY_NAMES"
proof -
  have "nat ((k + EPOCH_WEEKDAY_FROM_SUNDAY) mod 7) < length DAY_NAMES"
    by (simp add: DAY_NAMES_def nat_less_iff)
  then show ?thesis by (simp add: weekday_name_def)
qed

lemma names_no_space:
  "x \<in> set DAY_NAMES \<Longrightarrow> CHR '' '' \<notin> set x" "x \<in> set MONTH_NAMES \<Longrightarrow> CHR '' '' \<notin> set x"
  by (auto simp: DAY_NAMES_def MONTH_NAMES_def)

lemma separators_not_digits [simp]: "\<not> is_ascii_digit CHR '' ''" "\<not> is_ascii_digit CHR '':''"
  by (simp_all add: is_ascii_digit_def byte_def)

lemma split_clock:
  "split_on CHR '':'' (join_with CHR '':'' [pad 2 a, pad 2 b, pad 2 c]) = [pad 2 a, pad 2 b, pad 2 c]"
  by (rule split_join) (auto simp: pad_no)

lemma split_imf:
  assumes "1 \<le> m" "m \<le> 12"
  shows "split_on CHR '' '' (imf_fixdate y m d h mi s) =
    [weekday_name (days_ref y m d) @ '','', pad 2 (nat d), MONTH_NAMES ! nat (m - 1), pad 4 (nat y),
      join_with CHR '':'' [pad 2 (nat h), pad 2 (nat mi), pad 2 (nat s)], ''GMT'']"
proof -
  have "MONTH_NAMES ! nat (m - 1) \<in> set MONTH_NAMES" using assms by simp
  with names_no_space weekday_name_in show ?thesis
    unfolding imf_fixdate_def by (intro split_join) (auto simp: pad_no)
qed

lemma parse_imf_fixdate:
  assumes "valid_date y m d" "y \<le> 9999" "valid_time h mi s"
  shows "parse_http_date (imf_fixdate y m d h mi s) = Some (epoch_ref y m d h mi s)"
proof -
  have m: "1 \<le> m" "m \<le> 12" and y: "1970 \<le> y" and d: "1 \<le> d" "d \<le> days_in_month y m" "d < 100"
    using assms(1) by (auto simp: valid_date_def days_in_month_def split: if_splits)
  have ds: "fixed_digits (pad 2 (nat d)) 2 = Some d" "fixed_digits (pad 4 (nat y)) 4 = Some y"
    "fixed_digits (pad 2 (nat h)) 2 = Some h" "fixed_digits (pad 2 (nat mi)) 2 = Some mi"
    "fixed_digits (pad 2 (nat s)) 2 = Some s"
    using d y assms by (auto simp: fixed_digits_iff valid_time_def)
  have mo: "position (\<lambda>name. name = MONTH_NAMES ! nat (m - 1)) MONTH_NAMES = Some (nat (m - 1))"
    using m by (simp add: month_position)
  have sx: "strip_suffix1 CHR '','' (x @ '','') = Some x" for x
    by (simp add: strip_suffix1_eq_Some)
  have dc: "days_from_civil y m d = days_ref y m d" using y m by (rule days_from_civil_ref)
  define c where "c = join_with CHR '':'' [pad 2 (nat h), pad 2 (nat mi), pad 2 (nat s)]"
  have cs: "split_on CHR '':'' c = [pad 2 (nat h), pad 2 (nat mi), pad 2 (nat s)]"
    unfolding c_def by (rule split_clock)
  have sp: "split_on CHR '' '' (imf_fixdate y m d h mi s) = [weekday_name (days_ref y m d) @ '','',
      pad 2 (nat d), MONTH_NAMES ! nat (m - 1), pad 4 (nat y), c, ''GMT'']"
    unfolding c_def by (rule split_imf [OF m])
  show ?thesis
    unfolding parse_http_date_def sp Let_def using m y d assms(2,3)
    by (simp add: ds mo sx cs dc weekday_name_def epoch_ref_def valid_time_def)
qed

lemma parse_http_date_text:
  assumes "parse_http_date text = Some t"
  obtains y m d h mi s where "valid_date y m d" "y \<le> 9999" "valid_time h mi s"
    "text = imf_fixdate y m d h mi s" "t = epoch_ref y m d h mi s"
proof (rule parse_http_date_fields [OF assms])
  fix fields clock y m d h mi s
  assume f: "split_on CHR '' '' text = fields" "split_on CHR '':'' (fields ! 4) = clock"
    "reads_as fields clock y m d h mi s" "t = epoch_ref y m d h mi s"
  then have "text = imf_fixdate y m d h mi s"
    unfolding split_on_eq_iff reads_as_def imf_fixdate_def by metis
  with f that show thesis unfolding reads_as_def by blast
qed

text \<open>
  C29: the date reader is exact. A text is accepted precisely when it is the IMF-fixdate
  text of a real civil time from 1970 to 9999 with the weekday that date has, and the value
  returned is the number of seconds from the epoch, counted year by year and month by month.
\<close>

theorem parse_http_date_exact:
  "parse_http_date text = Some t \<longleftrightarrow>
     (\<exists>y m d h mi s. valid_date y m d \<and> y \<le> 9999 \<and> valid_time h mi s
        \<and> text = imf_fixdate y m d h mi s \<and> t = epoch_ref y m d h mi s)"
  (is "?read \<longleftrightarrow> ?spec")
proof
  assume ?read
  then show ?spec by (rule parse_http_date_text) blast
next
  assume ?spec
  then show ?read using parse_imf_fixdate by auto
qed

lemma place_value:
  fixes a b k r r' :: int
  assumes "a * k + r = b * k + r'" "0 \<le> r" "r < k" "0 \<le> r'" "r' < k"
  shows "a = b \<and> r = r'"
proof -
  have "(a * k + r) div k = a"
    by (rule int_div_pos_eq [where r = r]) (use assms(2-) in \<open>auto simp: mult.commute\<close>)
  moreover have "(b * k + r') div k = b"
    by (rule int_div_pos_eq [where r = r']) (use assms(2-) in \<open>auto simp: mult.commute\<close>)
  ultimately have "a = b" using assms(1) by simp
  with assms(1) show ?thesis by simp
qed

lemma epoch_ref_inject:
  assumes "valid_date y m d" "valid_time h mi s" "valid_date y' m' d'" "valid_time h' mi' s'"
    and eq: "epoch_ref y m d h mi s = epoch_ref y' m' d' h' mi' s'"
  shows "y = y' \<and> m = m' \<and> d = d' \<and> h = h' \<and> mi = mi' \<and> s = s'"
proof -
  note t = assms(2,4) [unfolded valid_time_def]
  have "days_ref y m d = days_ref y' m' d' \<and> h * 3600 + (mi * 60 + s) = h' * 3600 + (mi' * 60 + s')"
    by (rule place_value [where k = 86400]) (use t eq in \<open>auto simp: epoch_ref_def\<close>)
  moreover from this have "h = h' \<and> mi * 60 + s = mi' * 60 + s'"
    by (intro place_value [where k = 3600]) (use t in auto)
  moreover from this have "mi = mi' \<and> s = s'"
    by (intro place_value [where k = 60]) (use t in auto)
  ultimately show ?thesis using days_ref_inject [OF assms(1,3)] by simp
qed

text \<open>
  two texts the reader accepts with the same value are the same text: every second has
  exactly one accepted spelling.
\<close>

theorem parse_http_date_inject:
  assumes "parse_http_date text = Some t" "parse_http_date text' = Some t"
  shows "text = text'"
proof -
  from assms(1) obtain y m d h mi s where
    a: "valid_date y m d" "valid_time h mi s" "text = imf_fixdate y m d h mi s" "t = epoch_ref y m d h mi s"
    by (rule parse_http_date_text)
  from assms(2) obtain y' m' d' h' mi' s' where
    b: "valid_date y' m' d'" "valid_time h' mi' s'" "text' = imf_fixdate y' m' d' h' mi' s'"
      "t = epoch_ref y' m' d' h' mi' s'"
    by (rule parse_http_date_text)
  from a b epoch_ref_inject show ?thesis by metis
qed

lemma rfc_example: "imf_fixdate 1994 11 6 8 49 37 = ''Sun, 06 Nov 1994 08:49:37 GMT''"
  by code_simp

theorem parse_http_date_inject_witness:
  "parse_http_date ''Sun, 06 Nov 1994 08:49:37 GMT'' = Some 784111777
   \<and> imf_fixdate 1994 11 6 8 49 37 = ''Sun, 06 Nov 1994 08:49:37 GMT''"
proof -
  have a: "parse_http_date ''Sun, 06 Nov 1994 08:49:37 GMT'' = Some 784111777"
    by code_simp
  have b: "parse_http_date (imf_fixdate 1994 11 6 8 49 37) = Some 784111777"
    using a by (simp only: rfc_example)
  from parse_http_date_inject [OF b a] a show ?thesis by simp
qed

end
