(* ===== verification/Auth_Vocabulary.thy ===== *)
theory Auth_Vocabulary
  imports Hub_Prelude
begin

text \<open>
  The closed code vocabularies of the legacy auth unit: the reasons of
  \<^verbatim>\<open>src/auth/legacy_auth/vocabulary.rs\<close> and the states, observer reasons and mode codes of
  \<^verbatim>\<open>src/auth/legacy_auth/state.rs\<close>. A constructor carries the name of its source variant behind
  a prefix for its enum, because the enums share variant names. Every vocabulary is an
  instance of the code-table interface of the prelude.
\<close>

section \<open>Reasons\<close>

datatype SignOutReason =
    SO_RefreshTokenRejected
  | SO_RefreshOutcomeUnknown
  | SO_RefreshResponseUnusable
  | SO_AccessTokenRejected
  | SO_StoredPairInvalid
  | SO_ProviderTokenRejected
  | SO_ProviderTokenExpired

fun sign_out_code :: "SignOutReason \<Rightarrow> string" where
  "sign_out_code SO_RefreshTokenRejected = ''refresh_token_rejected''"
| "sign_out_code SO_RefreshOutcomeUnknown = ''refresh_outcome_unknown''"
| "sign_out_code SO_RefreshResponseUnusable = ''refresh_response_unusable''"
| "sign_out_code SO_AccessTokenRejected = ''access_token_rejected''"
| "sign_out_code SO_StoredPairInvalid = ''stored_pair_invalid''"
| "sign_out_code SO_ProviderTokenRejected = ''provider_token_rejected''"
| "sign_out_code SO_ProviderTokenExpired = ''provider_token_expired''"

datatype RefusalReason =
    RF_OwnerApi
  | RF_Client

fun refusal_code :: "RefusalReason \<Rightarrow> string" where
  "refusal_code RF_OwnerApi = ''owner_api''"
| "refusal_code RF_Client = ''client''"

datatype RetryReason =
    RT_Network
  | RT_SensitiveAccess
  | RT_TeslaUnavailable
  | RT_RefreshBlocked
  | RT_RefreshRequestRejected
  | RT_TokenEndpointMisrouted
  | RT_ClientCheck
  | RT_ShortTokenLifetime
  | RT_ClockSkew
  | RT_RefreshNotRenewed
  | RT_StoreUnavailable

fun retry_code :: "RetryReason \<Rightarrow> string" where
  "retry_code RT_Network = ''network''"
| "retry_code RT_SensitiveAccess = ''sensitive_access''"
| "retry_code RT_TeslaUnavailable = ''tesla_unavailable''"
| "retry_code RT_RefreshBlocked = ''refresh_blocked''"
| "retry_code RT_RefreshRequestRejected = ''refresh_request_rejected''"
| "retry_code RT_TokenEndpointMisrouted = ''token_endpoint_misrouted''"
| "retry_code RT_ClientCheck = ''client_check''"
| "retry_code RT_ShortTokenLifetime = ''short_token_lifetime''"
| "retry_code RT_ClockSkew = ''clock_skew''"
| "retry_code RT_RefreshNotRenewed = ''refresh_not_renewed''"
| "retry_code RT_StoreUnavailable = ''store_unavailable''"

datatype ConfigurationReason =
    CF_RegionConflict
  | CF_RegionRequired
  | CF_IssuerNotAllowed
  | CF_TokenUrlInvalid
  | CF_TokenUrlNotAllowed

fun configuration_code :: "ConfigurationReason \<Rightarrow> string" where
  "configuration_code CF_RegionConflict = ''region_conflict''"
| "configuration_code CF_RegionRequired = ''region_required''"
| "configuration_code CF_IssuerNotAllowed = ''issuer_not_allowed''"
| "configuration_code CF_TokenUrlInvalid = ''token_url_invalid''"
| "configuration_code CF_TokenUrlNotAllowed = ''token_url_not_allowed''"

datatype ObserverReason =
    OB_TokenRejected
  | OB_TokenExpired
  | OB_ClockSkew

fun observer_code :: "ObserverReason \<Rightarrow> string" where
  "observer_code OB_TokenRejected = ''token_rejected''"
| "observer_code OB_TokenExpired = ''token_expired''"
| "observer_code OB_ClockSkew = ''clock_skew''"

section \<open>Account states and modes\<close>

datatype AuthState =
    AS_Ready
  | AS_Refreshing
  | AS_Retrying
  | AS_PersistencePending
  | AS_AwaitingConfirmation
  | AS_ObserverWaiting
  | AS_ClockInvalid
  | AS_ConfigurationError
  | AS_SignInRequired
  | AS_SignedOut
  | AS_ApiRefused

definition ALL_STATES :: "AuthState list" where
  "ALL_STATES = [AS_Ready, AS_Refreshing, AS_Retrying, AS_PersistencePending, AS_AwaitingConfirmation, AS_ObserverWaiting, AS_ClockInvalid, AS_ConfigurationError, AS_SignInRequired, AS_SignedOut, AS_ApiRefused]"

fun state_code :: "AuthState \<Rightarrow> string" where
  "state_code AS_Ready = ''ready''"
| "state_code AS_Refreshing = ''refreshing''"
| "state_code AS_Retrying = ''retrying''"
| "state_code AS_PersistencePending = ''persistence_pending''"
| "state_code AS_AwaitingConfirmation = ''awaiting_confirmation''"
| "state_code AS_ObserverWaiting = ''observer_waiting''"
| "state_code AS_ClockInvalid = ''clock_invalid''"
| "state_code AS_ConfigurationError = ''configuration_error''"
| "state_code AS_SignInRequired = ''sign_in_required''"
| "state_code AS_SignedOut = ''signed_out''"
| "state_code AS_ApiRefused = ''api_refused''"

definition state_from_code :: "string \<Rightarrow> AuthState option" where
  "state_from_code code = find (\<lambda>state. state_code state = code) ALL_STATES"

datatype AuthMode = Tesla | Provider

datatype StoppedMode = SM_Legacy | SM_Provider

fun stopped_mode_of :: "AuthMode \<Rightarrow> StoppedMode" where
  "stopped_mode_of Tesla = SM_Legacy"
| "stopped_mode_of Provider = SM_Provider"

fun stopped_mode_code :: "StoppedMode \<Rightarrow> string" where
  "stopped_mode_code SM_Legacy = ''legacy''"
| "stopped_mode_code SM_Provider = ''provider''"

definition stopped_mode_from_code :: "string \<Rightarrow> StoppedMode option" where
  "stopped_mode_from_code code =
     (if code = ''legacy'' then Some SM_Legacy
      else if code = ''provider'' then Some SM_Provider
      else None)"

section \<open>Tables\<close>

definition ALL_RETRY_REASONS :: "RetryReason list" where
  "ALL_RETRY_REASONS = [RT_Network, RT_SensitiveAccess, RT_TeslaUnavailable, RT_RefreshBlocked, RT_RefreshRequestRejected, RT_TokenEndpointMisrouted, RT_ClientCheck, RT_ShortTokenLifetime, RT_ClockSkew, RT_RefreshNotRenewed, RT_StoreUnavailable]"

definition ALL_SIGN_OUT_REASONS :: "SignOutReason list" where
  "ALL_SIGN_OUT_REASONS = [SO_RefreshTokenRejected, SO_RefreshOutcomeUnknown, SO_RefreshResponseUnusable, SO_AccessTokenRejected, SO_StoredPairInvalid, SO_ProviderTokenRejected, SO_ProviderTokenExpired]"

definition ALL_REFUSAL_REASONS :: "RefusalReason list" where
  "ALL_REFUSAL_REASONS = [RF_OwnerApi, RF_Client]"

definition ALL_CONFIGURATION_REASONS :: "ConfigurationReason list" where
  "ALL_CONFIGURATION_REASONS = [CF_RegionConflict, CF_RegionRequired, CF_IssuerNotAllowed, CF_TokenUrlInvalid, CF_TokenUrlNotAllowed]"

definition ALL_OBSERVER_REASONS :: "ObserverReason list" where
  "ALL_OBSERVER_REASONS = [OB_TokenRejected, OB_TokenExpired, OB_ClockSkew]"

text \<open>Every vocabulary satisfies the interface: its table is complete and its codes are distinct.\<close>

interpretation retry_table: code_table ALL_RETRY_REASONS retry_code
proof
  show "x \<in> set ALL_RETRY_REASONS" for x by (cases x) (simp_all add: ALL_RETRY_REASONS_def)
  show "retry_code x = retry_code y \<Longrightarrow> x = y" for x y by (cases x; cases y) simp_all
qed

interpretation sign_out_table: code_table ALL_SIGN_OUT_REASONS sign_out_code
proof
  show "x \<in> set ALL_SIGN_OUT_REASONS" for x by (cases x) (simp_all add: ALL_SIGN_OUT_REASONS_def)
  show "sign_out_code x = sign_out_code y \<Longrightarrow> x = y" for x y by (cases x; cases y) simp_all
qed

interpretation refusal_table: code_table ALL_REFUSAL_REASONS refusal_code
proof
  show "x \<in> set ALL_REFUSAL_REASONS" for x by (cases x) (simp_all add: ALL_REFUSAL_REASONS_def)
  show "refusal_code x = refusal_code y \<Longrightarrow> x = y" for x y by (cases x; cases y) simp_all
qed

interpretation configuration_table: code_table ALL_CONFIGURATION_REASONS configuration_code
proof
  show "x \<in> set ALL_CONFIGURATION_REASONS" for x by (cases x) (simp_all add: ALL_CONFIGURATION_REASONS_def)
  show "configuration_code x = configuration_code y \<Longrightarrow> x = y" for x y by (cases x; cases y) simp_all
qed

interpretation observer_table: code_table ALL_OBSERVER_REASONS observer_code
proof
  show "x \<in> set ALL_OBSERVER_REASONS" for x by (cases x) (simp_all add: ALL_OBSERVER_REASONS_def)
  show "observer_code x = observer_code y \<Longrightarrow> x = y" for x y by (cases x; cases y) simp_all
qed

interpretation state_table: code_table ALL_STATES state_code
proof
  show "x \<in> set ALL_STATES" for x by (cases x) (simp_all add: ALL_STATES_def)
  show "state_code x = state_code y \<Longrightarrow> x = y" for x y by (cases x; cases y) simp_all
qed

lemma state_from_code_iff: "state_from_code c = Some s \<longleftrightarrow> state_code s = c"
  unfolding state_from_code_def by (rule state_table.read_code_iff)

lemma stopped_mode_from_code_iff: "stopped_mode_from_code c = Some m \<longleftrightarrow> stopped_mode_code m = c"
  by (cases m) (auto simp: stopped_mode_from_code_def)

section \<open>Load failures\<close>

record LoadFailureState =
  lf_state :: string
  lf_reason :: string

definition load_failure_configuration :: "ConfigurationReason \<Rightarrow> LoadFailureState" where
  "load_failure_configuration reason =
     \<lparr>lf_state = ''configuration_error'', lf_reason = configuration_code reason\<rparr>"

definition load_failure_signed_out :: "SignOutReason \<Rightarrow> LoadFailureState" where
  "load_failure_signed_out reason =
     \<lparr>lf_state = ''signed_out'', lf_reason = sign_out_code reason\<rparr>"

section \<open>Errors\<close>

text \<open>The error type of \<^verbatim>\<open>src/auth/legacy_auth.rs\<close>, with the predicates the collector reads.\<close>

datatype LegacyAuthError =
    LE_InvalidAccessToken
  | LE_InvalidIssuer
  | LE_InvalidRefreshToken
  | LE_InvalidResponse
  | LE_ResponseTooLarge
  | LE_Transport
  | LE_RotationOutcomeUnknown
  | LE_SensitiveRotationOutcomeUnknown
  | LE_HttpStatus nat
  | LE_RefreshDeferred
  | LE_InvalidClock
  | LE_InvalidPersistedSchedule
  | LE_Persistence
  | LE_SensitivePersistenceUnavailable
  | LE_SensitiveAccessUnavailable
  | LE_RegionConflict
  | LE_RegionRequired
  | LE_TokenUrlInvalid
  | LE_TokenUrlNotAllowed
  | LE_RefreshTokenRejected
  | LE_ClientRefused
  | LE_OwnerApiRefused RefusalReason
  | LE_AccessTokenRejected
  | LE_ProviderTokenRejected
  | LE_ProviderTokenExpired
  | LE_RefreshNotRenewed
  | LE_RefreshNotPossible
  | LE_VehicleAccessRejected
  | LE_AuthUnavailable "int option"
  | LE_RetryNotPossible SignOutReason
  | LE_SignedOut SignOutReason

fun configuration_reason :: "LegacyAuthError \<Rightarrow> ConfigurationReason option" where
  "configuration_reason LE_RegionConflict = Some CF_RegionConflict"
| "configuration_reason LE_RegionRequired = Some CF_RegionRequired"
| "configuration_reason LE_InvalidIssuer = Some CF_IssuerNotAllowed"
| "configuration_reason LE_TokenUrlInvalid = Some CF_TokenUrlInvalid"
| "configuration_reason LE_TokenUrlNotAllowed = Some CF_TokenUrlNotAllowed"
| "configuration_reason _ = None"

definition load_failure_state :: "LegacyAuthError \<Rightarrow> LoadFailureState option" where
  "load_failure_state e =
     (case configuration_reason e of
        Some reason \<Rightarrow> Some (load_failure_configuration reason)
      | None \<Rightarrow> (if e = LE_InvalidAccessToken \<or> e = LE_InvalidRefreshToken
                 then Some (load_failure_signed_out SO_StoredPairInvalid) else None))"

fun is_signed_out :: "LegacyAuthError \<Rightarrow> bool" where
  "is_signed_out LE_AccessTokenRejected = True"
| "is_signed_out LE_ProviderTokenRejected = True"
| "is_signed_out LE_ProviderTokenExpired = True"
| "is_signed_out (LE_SignedOut _) = True"
| "is_signed_out _ = False"

definition is_terminal_auth_failure :: "LegacyAuthError \<Rightarrow> bool" where
  "is_terminal_auth_failure e \<longleftrightarrow>
     configuration_reason e \<noteq> None \<or> load_failure_state e \<noteq> None
     \<or> (case e of LE_AccessTokenRejected \<Rightarrow> True | LE_ProviderTokenRejected \<Rightarrow> True
          | LE_ProviderTokenExpired \<Rightarrow> True | LE_OwnerApiRefused _ \<Rightarrow> True | LE_SignedOut _ \<Rightarrow> True
          | _ \<Rightarrow> False)"

end
