(* ===== verification/Auth_Status.thy ===== *)
theory Auth_Status
  imports Auth_Vocabulary Http_Date
begin

text \<open>
  The durable status of the credential unit, the first half of \<^verbatim>\<open>src/auth/legacy_auth/state.rs\<close>:
  what a status is, which reasons a state admits, the stored row and its reader, the clock
  floor and skew, and the recorder that writes the row exactly when it changes. The row
  itself is that of \<^verbatim>\<open>src/storage/db/auth_state.rs\<close>.
\<close>

section \<open>Constants\<close>

definition CLOCK_FLOOR_EPOCH_SECONDS :: int where
  [hub_consts]: "CLOCK_FLOOR_EPOCH_SECONDS = 1577836800"

definition SKEW_ALLOWANCE_SECONDS :: int where
  [hub_consts]: "SKEW_ALLOWANCE_SECONDS = 300"

definition MIN_REFRESH_INTERVAL_SECONDS :: int where
  [hub_consts]: "MIN_REFRESH_INTERVAL_SECONDS = 60"

definition FUSE_WINDOW_SECONDS :: int where
  [hub_consts]: "FUSE_WINDOW_SECONDS = 3600"

definition FUSE_LIMIT :: nat where
  [hub_consts]: "FUSE_LIMIT = 3"

definition PERSISTENCE_RETRY_SECONDS :: "int list" where
  [hub_consts]: "PERSISTENCE_RETRY_SECONDS = [5, 10, 20, 40, 80, 160, 300]"

section \<open>Reasons under their state\<close>

datatype StatusReason =
    SR_Retry RetryReason
  | SR_SignOut SignOutReason
  | SR_Refusal RefusalReason
  | SR_Configuration ConfigurationReason
  | SR_Observer ObserverReason

fun status_reason_code :: "StatusReason \<Rightarrow> string" where
  "status_reason_code (SR_Retry r) = retry_code r"
| "status_reason_code (SR_SignOut r) = sign_out_code r"
| "status_reason_code (SR_Refusal r) = refusal_code r"
| "status_reason_code (SR_Configuration r) = configuration_code r"
| "status_reason_code (SR_Observer r) = observer_code r"

fun admits :: "AuthState \<Rightarrow> StatusReason option \<Rightarrow> bool" where
  "admits AS_Ready None = True"
| "admits AS_Refreshing None = True"
| "admits AS_PersistencePending None = True"
| "admits AS_ClockInvalid None = True"
| "admits AS_Retrying (Some (SR_Retry _)) = True"
| "admits AS_ObserverWaiting (Some (SR_Observer _)) = True"
| "admits AS_ConfigurationError (Some (SR_Configuration _)) = True"
| "admits AS_ApiRefused (Some (SR_Refusal _)) = True"
| "admits AS_SignedOut (Some (SR_SignOut _)) = True"
| "admits AS_AwaitingConfirmation (Some (SR_SignOut reason)) = (reason = SO_AccessTokenRejected)"
| "admits AS_SignInRequired (Some (SR_SignOut reason)) =
     (reason \<in> {SO_RefreshTokenRejected, SO_RefreshOutcomeUnknown, SO_RefreshResponseUnusable})"
| "admits _ _ = False"

definition option_filter :: "('a \<Rightarrow> bool) \<Rightarrow> 'a option \<Rightarrow> 'a option" where
  "option_filter p x = (case x of Some y \<Rightarrow> if p y then Some y else None | None \<Rightarrow> None)"

fun status_reason_parse :: "AuthState \<Rightarrow> string \<Rightarrow> StatusReason option" where
  "status_reason_parse AS_Retrying code =
     map_option SR_Retry (find (\<lambda>reason. retry_code reason = code) ALL_RETRY_REASONS)"
| "status_reason_parse AS_ObserverWaiting code =
     map_option SR_Observer (find (\<lambda>reason. observer_code reason = code) ALL_OBSERVER_REASONS)"
| "status_reason_parse AS_ConfigurationError code =
     map_option SR_Configuration (find (\<lambda>reason. configuration_code reason = code) ALL_CONFIGURATION_REASONS)"
| "status_reason_parse AS_ApiRefused code =
     map_option SR_Refusal (find (\<lambda>reason. refusal_code reason = code) ALL_REFUSAL_REASONS)"
| "status_reason_parse AS_Ready code = None"
| "status_reason_parse AS_Refreshing code = None"
| "status_reason_parse AS_PersistencePending code = None"
| "status_reason_parse AS_ClockInvalid code = None"
| "status_reason_parse state code =
     option_filter (\<lambda>reason. admits state (Some reason))
       (map_option SR_SignOut (find (\<lambda>reason. sign_out_code reason = code) ALL_SIGN_OUT_REASONS))"

definition lease_is_terminal :: "AuthState \<Rightarrow> bool" where
  "lease_is_terminal state \<longleftrightarrow> state = AS_SignedOut"

section \<open>Stops\<close>

datatype AuthStop =
    Stop_SignInRequired SignOutReason
  | Stop_SignedOut SignOutReason
  | Stop_ApiRefused RefusalReason

fun stop_state :: "AuthStop \<Rightarrow> AuthState" where
  "stop_state (Stop_SignInRequired _) = AS_SignInRequired"
| "stop_state (Stop_SignedOut _) = AS_SignedOut"
| "stop_state (Stop_ApiRefused _) = AS_ApiRefused"

fun stop_reason :: "AuthStop \<Rightarrow> StatusReason" where
  "stop_reason (Stop_SignInRequired reason) = SR_SignOut reason"
| "stop_reason (Stop_SignedOut reason) = SR_SignOut reason"
| "stop_reason (Stop_ApiRefused reason) = SR_Refusal reason"

fun blocks_requests :: "AuthStop \<Rightarrow> bool" where
  "blocks_requests (Stop_SignInRequired _) = False"
| "blocks_requests _ = True"

fun lifted_by_external_write :: "AuthStop \<Rightarrow> bool" where
  "lifted_by_external_write (Stop_ApiRefused _) = False"
| "lifted_by_external_write _ = True"

fun lifted_by_owner_retry :: "AuthStop \<Rightarrow> bool" where
  "lifted_by_owner_retry (Stop_SignedOut SO_AccessTokenRejected) = True"
| "lifted_by_owner_retry (Stop_SignedOut SO_ProviderTokenRejected) = True"
| "lifted_by_owner_retry (Stop_ApiRefused _) = True"
| "lifted_by_owner_retry _ = False"

fun lifted_by_mode_change :: "AuthStop \<Rightarrow> bool" where
  "lifted_by_mode_change (Stop_ApiRefused _) = True"
| "lifted_by_mode_change _ = False"

section \<open>The fuse that outlives a process\<close>

record FuseSnapshot =
  fs_consecutive :: nat
  fs_generation :: "uuid option"
  fs_last_rejection_at :: "int option"
  fs_pause_until :: "int option"
  fs_rejected_access :: "uuid option"

definition fuse_default :: FuseSnapshot where
  "fuse_default = \<lparr>fs_consecutive = 0, fs_generation = None, fs_last_rejection_at = None,
     fs_pause_until = None, fs_rejected_access = None\<rparr>"

definition fuse_is_consistent :: "FuseSnapshot \<Rightarrow> bool" where
  "fuse_is_consistent f \<longleftrightarrow>
     fs_consecutive f \<le> FUSE_LIMIT
     \<and> ((fs_consecutive f = 0) = (fs_generation f = None))
     \<and> (fs_rejected_access f = None \<or> fs_consecutive f > 0)"

definition rejection_window_open :: "int \<Rightarrow> int \<Rightarrow> bool" where
  "rejection_window_open last_rejection_at now \<longleftrightarrow>
     saturating_sub now last_rejection_at \<le> FUSE_WINDOW_SECONDS"

section \<open>The status\<close>

record AuthStatus =
  st_state :: AuthState
  st_reason :: "StatusReason option"
  st_collecting :: bool
  st_retry_at :: "int option"
  st_stopped_generation :: "uuid option"
  st_stopped_mode :: "StoppedMode option"
  st_fuse :: FuseSnapshot
  st_clock_skew :: bool

definition status_ready :: "FuseSnapshot \<Rightarrow> bool \<Rightarrow> AuthStatus" where
  "status_ready fuse clock_skew =
     \<lparr>st_state = AS_Ready, st_reason = None, st_collecting = True, st_retry_at = None,
      st_stopped_generation = None, st_stopped_mode = None, st_fuse = fuse, st_clock_skew = clock_skew\<rparr>"

definition status_idle :: "AuthState \<Rightarrow> StatusReason option \<Rightarrow> FuseSnapshot \<Rightarrow> bool \<Rightarrow> AuthStatus" where
  "status_idle state reason fuse skew =
     \<lparr>st_state = state, st_reason = reason, st_collecting = False, st_retry_at = None,
      st_stopped_generation = None, st_stopped_mode = None, st_fuse = fuse, st_clock_skew = skew\<rparr>"

definition status_observer_waiting :: "ObserverReason \<Rightarrow> FuseSnapshot \<Rightarrow> bool \<Rightarrow> AuthStatus" where
  "status_observer_waiting reason fuse skew =
     status_idle AS_ObserverWaiting (Some (SR_Observer reason)) fuse skew"

definition status_awaiting_confirmation :: "FuseSnapshot \<Rightarrow> bool \<Rightarrow> AuthStatus" where
  "status_awaiting_confirmation fuse skew =
     status_idle AS_AwaitingConfirmation (Some (SR_SignOut SO_AccessTokenRejected)) fuse skew"

definition status_stopped ::
  "AuthStop \<Rightarrow> uuid \<Rightarrow> StoppedMode \<Rightarrow> bool \<Rightarrow> FuseSnapshot \<Rightarrow> bool \<Rightarrow> AuthStatus" where
  "status_stopped stop generation mode usable fuse clock_skew =
     (let status = status_idle (stop_state stop) (Some (stop_reason stop)) fuse clock_skew
      in case stop of
           Stop_SignInRequired _ \<Rightarrow>
             status\<lparr>st_stopped_generation := Some generation, st_collecting := usable\<rparr>
         | Stop_SignedOut _ \<Rightarrow> status\<lparr>st_stopped_generation := Some generation\<rparr>
         | Stop_ApiRefused _ \<Rightarrow> status\<lparr>st_stopped_mode := Some mode\<rparr>)"

definition status_stop :: "AuthStatus \<Rightarrow> AuthStop option" where
  "status_stop s =
     (case (st_state s, st_reason s) of
        (AS_SignInRequired, Some (SR_SignOut reason)) \<Rightarrow> Some (Stop_SignInRequired reason)
      | (AS_SignedOut, Some (SR_SignOut reason)) \<Rightarrow> Some (Stop_SignedOut reason)
      | (AS_ApiRefused, Some (SR_Refusal reason)) \<Rightarrow> Some (Stop_ApiRefused reason)
      | _ \<Rightarrow> None)"

definition with_usability :: "AuthStatus \<Rightarrow> bool \<Rightarrow> AuthStatus" where
  "with_usability s usable =
     (if st_state s \<in> {AS_Retrying, AS_PersistencePending, AS_SignInRequired}
      then s\<lparr>st_collecting := usable\<rparr> else s)"

definition with_sign_in_expired :: "AuthStatus \<Rightarrow> AuthStatus" where
  "with_sign_in_expired s =
     (if st_state s = AS_SignInRequired \<and> st_reason s \<noteq> None
      then s\<lparr>st_state := AS_SignedOut, st_collecting := False\<rparr> else s)"

definition status_is_consistent :: "AuthStatus \<Rightarrow> bool" where
  "status_is_consistent s \<longleftrightarrow>
     (let sign_stop = st_state s \<in> {AS_SignInRequired, AS_SignedOut};
          always_collects = st_state s \<in> {AS_Ready, AS_Refreshing};
          never_collects = st_state s \<in> {AS_AwaitingConfirmation, AS_ObserverWaiting, AS_ClockInvalid,
            AS_ConfigurationError, AS_SignedOut, AS_ApiRefused}
      in admits (st_state s) (st_reason s)
         \<and> sign_stop = (st_stopped_generation s \<noteq> None)
         \<and> (st_state s = AS_ApiRefused) = (st_stopped_mode s \<noteq> None)
         \<and> fuse_is_consistent (st_fuse s)
         \<and> (\<not> always_collects \<or> st_collecting s)
         \<and> (\<not> never_collects \<or> \<not> st_collecting s)
         \<and> (st_state s = AS_Retrying \<or> st_retry_at s = None))"

section \<open>The stored row\<close>

record CollectorAuthRow =
  car_state :: string
  car_reason :: "string option"
  car_collecting :: bool
  car_retry_at :: "int option"
  car_stopped_generation :: "uuid option"
  car_stopped_mode :: "string option"
  car_fuse_consecutive :: nat
  car_fuse_generation :: "uuid option"
  car_fuse_last_rejection_at :: "int option"
  car_fuse_pause_until :: "int option"
  car_fuse_rejected_access_digest :: "uuid option"
  car_clock_skew :: bool

text \<open>The errors of the store that the modelled operations return; \<open>SE_Fault\<close> is a fault of the database.\<close>

datatype StoreError =
    SE_InvalidStoredAuthStatus
  | SE_LegacyRefreshOutcomeUnknown
  | SE_InvalidLegacyRefreshGeneration
  | SE_NegativeTimestamp
  | SE_InvalidOutboundRequestHttpStatus
  | SE_InvalidOutboundRequestRetryAfter
  | SE_OutboundRequestAuditCapacityExhausted
  | SE_TeslaMateTokenPairEmpty
  | SE_TeslaMateTokenCiphertextTooLarge
  | SE_InvalidTeslaMateTokenSchedule
  | SE_NilOutboundRequestCorrelationId
  | SE_InvalidOutboundRequestVehicleId
  | SE_ReservedLegacyRefreshReceipt
  | SE_InvalidVehicleDataAuditPrecondition
  | SE_InvalidVehicleActionAudit
  | SE_InvalidOutboundRequestReceiptId
  | SE_OutboundRequestReceiptNotStarted
  | SE_Fault

definition to_row :: "AuthStatus \<Rightarrow> CollectorAuthRow" where
  "to_row s =
     \<lparr>car_state = state_code (st_state s),
      car_reason = map_option status_reason_code (st_reason s),
      car_collecting = st_collecting s,
      car_retry_at = st_retry_at s,
      car_stopped_generation = st_stopped_generation s,
      car_stopped_mode = map_option stopped_mode_code (st_stopped_mode s),
      car_fuse_consecutive = fs_consecutive (st_fuse s),
      car_fuse_generation = fs_generation (st_fuse s),
      car_fuse_last_rejection_at = fs_last_rejection_at (st_fuse s),
      car_fuse_pause_until = fs_pause_until (st_fuse s),
      car_fuse_rejected_access_digest = fs_rejected_access (st_fuse s),
      car_clock_skew = st_clock_skew s\<rparr>"

definition from_row :: "CollectorAuthRow \<Rightarrow> StoreError + AuthStatus" where
  "from_row row =
     (case state_from_code (car_state row) of
        None \<Rightarrow> Inl SE_InvalidStoredAuthStatus
      | Some state \<Rightarrow>
     (case (case car_reason row of
              Some code \<Rightarrow> (case status_reason_parse state code of
                              Some reason \<Rightarrow> Inr (Some reason)
                            | None \<Rightarrow> Inl SE_InvalidStoredAuthStatus)
            | None \<Rightarrow> Inr None) of
        Inl e \<Rightarrow> Inl e
      | Inr reason \<Rightarrow>
     (case (case car_stopped_mode row of
              Some code \<Rightarrow> (case stopped_mode_from_code code of
                              Some mode \<Rightarrow> Inr (Some mode)
                            | None \<Rightarrow> Inl SE_InvalidStoredAuthStatus)
            | None \<Rightarrow> Inr None) of
        Inl e \<Rightarrow> Inl e
      | Inr stopped_mode \<Rightarrow>
         (let status =
            \<lparr>st_state = state, st_reason = reason, st_collecting = car_collecting row,
             st_retry_at = car_retry_at row, st_stopped_generation = car_stopped_generation row,
             st_stopped_mode = stopped_mode,
             st_fuse = \<lparr>fs_consecutive = car_fuse_consecutive row, fs_generation = car_fuse_generation row,
                        fs_last_rejection_at = car_fuse_last_rejection_at row,
                        fs_pause_until = car_fuse_pause_until row,
                        fs_rejected_access = car_fuse_rejected_access_digest row\<rparr>,
             st_clock_skew = car_clock_skew row\<rparr>
          in if status_is_consistent status then Inr status
             else Inl SE_InvalidStoredAuthStatus))))"

section \<open>Clock floor and skew\<close>

definition clock_is_valid :: "int \<Rightarrow> bool" where
  "clock_is_valid now \<longleftrightarrow> now \<ge> CLOCK_FLOOR_EPOCH_SECONDS"

definition skew_after_answer :: "bool \<Rightarrow> string option \<Rightarrow> int \<Rightarrow> bool" where
  "skew_after_answer current date_header received_at =
     (case Option.bind date_header parse_http_date of
        None \<Rightarrow> current
      | Some server \<Rightarrow> \<bar>server - received_at\<bar> > SKEW_ALLOWANCE_SECONDS)"

section \<open>The recorder\<close>

datatype StatusWrite = SW_Unchanged | SW_Written | SW_Deferred int

text \<open>
  A sink is a function of the world: it may write the row (and says whether a stored row
  changed) or fail, and it yields the next world either way.
\<close>

type_synonym 'w status_sink = "'w \<Rightarrow> CollectorAuthRow \<Rightarrow> int \<Rightarrow> (StoreError + bool) \<times> 'w"

record StatusRecorder =
  rec_current :: AuthStatus
  rec_written :: "CollectorAuthRow option"
  rec_failures :: nat
  rec_next_attempt_ms :: "int option"

definition recorder_new :: "AuthStatus \<Rightarrow> CollectorAuthRow option \<Rightarrow> StatusRecorder" where
  "recorder_new initial stored =
     \<lparr>rec_current = initial, rec_written = stored, rec_failures = 0, rec_next_attempt_ms = None\<rparr>"

definition recorder_hold :: "StatusRecorder \<Rightarrow> AuthStatus \<Rightarrow> StatusRecorder" where
  "recorder_hold r status = r\<lparr>rec_current := status\<rparr>"

definition is_synced :: "StatusRecorder \<Rightarrow> bool" where
  "is_synced r \<longleftrightarrow> rec_written r = Some (to_row (rec_current r))"

definition recorder_attempt ::
  "'w status_sink \<Rightarrow> StatusRecorder \<Rightarrow> int \<Rightarrow> 'w \<Rightarrow> StatusWrite \<times> StatusRecorder \<times> 'w" where
  "recorder_attempt sink r now_ms w =
     (let row = to_row (rec_current r)
      in case sink w row now_ms of
           (Inr _, w') \<Rightarrow>
             (SW_Written, r\<lparr>rec_written := Some row, rec_failures := 0, rec_next_attempt_ms := None\<rparr>, w')
         | (Inl _, w') \<Rightarrow>
             (let step = min (rec_failures r) (length PERSISTENCE_RETRY_SECONDS - 1);
                  delay_ms = saturating_mul (PERSISTENCE_RETRY_SECONDS ! step) 1000;
                  retry_at_ms = saturating_add now_ms delay_ms
              in (SW_Deferred retry_at_ms,
                  r\<lparr>rec_failures := rec_failures r + 1, rec_next_attempt_ms := Some retry_at_ms\<rparr>, w')))"

definition recorder_set ::
  "'w status_sink \<Rightarrow> StatusRecorder \<Rightarrow> AuthStatus \<Rightarrow> int \<Rightarrow> 'w \<Rightarrow> StatusWrite \<times> StatusRecorder \<times> 'w" where
  "recorder_set sink r0 status now_ms w =
     (let r = r0\<lparr>rec_current := status\<rparr>
      in if is_synced r then (SW_Unchanged, r\<lparr>rec_failures := 0, rec_next_attempt_ms := None\<rparr>, w)
         else (case rec_next_attempt_ms r of
                 Some retry_at_ms \<Rightarrow>
                   (if now_ms < retry_at_ms then (SW_Deferred retry_at_ms, r, w)
                    else recorder_attempt sink r now_ms w)
               | None \<Rightarrow> recorder_attempt sink r now_ms w))"

section \<open>Round trip of the row\<close>

lemma option_filter_Some: "option_filter p x = Some y \<longleftrightarrow> x = Some y \<and> p y"
  by (auto simp: option_filter_def split: option.splits)

lemma status_reason_parse_iff:
  "status_reason_parse st c = Some r \<longleftrightarrow> admits st (Some r) \<and> status_reason_code r = c"
  by (cases st; cases r)
    (auto simp: option_filter_Some retry_table.read_code_iff observer_table.read_code_iff
      configuration_table.read_code_iff refusal_table.read_code_iff sign_out_table.read_code_iff)

lemma from_row_consistent: "from_row row = Inr s \<Longrightarrow> status_is_consistent s \<and> to_row s = row"
  by (auto simp: from_row_def Let_def to_row_def state_from_code_iff status_reason_parse_iff
      stopped_mode_from_code_iff split: option.splits sum.splits if_splits)

lemma status_consistent_admits: "status_is_consistent s \<Longrightarrow> admits (st_state s) (st_reason s)"
  by (simp add: status_is_consistent_def Let_def)

lemma from_row_to_row:
  assumes "status_is_consistent s"
  shows "from_row (to_row s) = Inr s"
proof -
  have st: "state_from_code (state_code (st_state s)) = Some (st_state s)"
    by (simp add: state_from_code_iff)
  have r: "(case map_option status_reason_code (st_reason s) of
        Some code \<Rightarrow> (case status_reason_parse (st_state s) code of
                         Some reason \<Rightarrow> Inr (Some reason) | None \<Rightarrow> Inl SE_InvalidStoredAuthStatus)
      | None \<Rightarrow> Inr None) = Inr (st_reason s)"
  proof (cases "st_reason s")
    case (Some a)
    then have "status_reason_parse (st_state s) (status_reason_code a) = Some a"
      using status_consistent_admits [OF assms] by (simp add: status_reason_parse_iff)
    with Some show ?thesis by simp
  qed simp
  have m: "(case map_option stopped_mode_code (st_stopped_mode s) of
        Some code \<Rightarrow> (case stopped_mode_from_code code of
                         Some mode \<Rightarrow> Inr (Some mode) | None \<Rightarrow> Inl SE_InvalidStoredAuthStatus)
      | None \<Rightarrow> Inr None) = Inr (st_stopped_mode s)"
  proof (cases "st_stopped_mode s")
    case (Some a)
    have "stopped_mode_from_code (stopped_mode_code a) = Some a" by (simp add: stopped_mode_from_code_iff)
    with Some show ?thesis by simp
  qed simp
  show ?thesis
    unfolding from_row_def to_row_def CollectorAuthRow.select_convs st option.case r m sum.case Let_def
    by (cases s, cases "st_fuse s") (use assms in simp)
qed

text \<open>
  C25: reading the status row is the exact inverse of writing it. A row is accepted precisely
  when it is the row of a consistent status, and that status is what it reads as; every
  other row (an unknown code, a reason its state does not admit, stop or fuse columns that
  do not fit) is refused rather than guessed at.
\<close>

theorem from_row_exact: "from_row row = Inr s \<longleftrightarrow> status_is_consistent s \<and> to_row s = row"
  using from_row_consistent [of row s] from_row_to_row [of s] by auto

section \<open>Constructors and transformers keep the invariant\<close>

lemma fuse_default_consistent [simp]: "fuse_is_consistent fuse_default"
  by (simp add: fuse_is_consistent_def fuse_default_def)

named_theorems status_intros \<open>statuses that are consistent\<close>

lemma status_ready_consistent [status_intros]: "fuse_is_consistent f \<Longrightarrow> status_is_consistent (status_ready f k)"
  by (simp add: status_is_consistent_def status_ready_def)

lemma status_idle_consistent [status_intros]:
  "fuse_is_consistent f \<Longrightarrow> admits st r
   \<Longrightarrow> st \<notin> {AS_Ready, AS_Refreshing, AS_SignInRequired, AS_SignedOut, AS_ApiRefused}
   \<Longrightarrow> status_is_consistent (status_idle st r f k)"
  by (simp add: status_is_consistent_def status_idle_def Let_def)

lemma status_stopped_consistent [status_intros]:
  "fuse_is_consistent f \<Longrightarrow> admits (stop_state stop) (Some (stop_reason stop))
   \<Longrightarrow> status_is_consistent (status_stopped stop g m u f k)"
  by (cases stop) (simp_all add: status_is_consistent_def status_stopped_def status_idle_def Let_def)

fun_cases admits_SignInRequired: "admits AS_SignInRequired r"

lemma with_sign_in_expired_consistent [status_intros]:
  assumes "status_is_consistent s"
  shows "status_is_consistent (with_sign_in_expired s)"
proof (cases "st_state s = AS_SignInRequired")
  case True
  then have "admits AS_SignInRequired (st_reason s)" using status_consistent_admits [OF assms] by simp
  then obtain x where "st_reason s = Some (SR_SignOut x)" by (elim admits_SignInRequired) auto
  with True assms show ?thesis by (simp add: status_is_consistent_def with_sign_in_expired_def)
next
  case False
  with assms show ?thesis by (simp add: with_sign_in_expired_def)
qed

lemma with_usability_consistent [status_intros]:
  "status_is_consistent s \<Longrightarrow> status_is_consistent (with_usability s u)"
  by (auto simp: status_is_consistent_def with_usability_def Let_def)

lemma status_stop_stopped [simp]: "status_stop (status_stopped stop g m u f k) = Some stop"
  by (cases stop) (simp_all add: status_stop_def status_stopped_def status_idle_def Let_def)

lemma status_stop_admits:
  assumes "status_is_consistent s" "status_stop s = Some stop"
  shows "admits (stop_state stop) (Some (stop_reason stop)) \<and> st_state s = stop_state stop"
  using status_consistent_admits [OF assms(1)] assms(2)
  by (auto simp: status_stop_def split: AuthState.splits option.splits StatusReason.splits)

section \<open>The recorder over a sink\<close>

text \<open>
  What the recorder relies on: a write that succeeds stores exactly the row, and a write
  that fails leaves the stored row as it was.
\<close>

locale status_store =
  fixes put_row :: "'w status_sink"
    and stored :: "'w \<Rightarrow> CollectorAuthRow option"
  assumes write_ok: "put_row w row now = (Inr changed, w') \<Longrightarrow> stored w' = Some row"
    and write_failed: "put_row w row now = (Inl e, w') \<Longrightarrow> stored w' = stored w"
begin

text \<open>The row the recorder believes written is the stored one.\<close>

definition rec_inv :: "StatusRecorder \<Rightarrow> 'w \<Rightarrow> bool" where
  "rec_inv r w \<longleftrightarrow> (rec_written r = None \<or> rec_written r = stored w)"

lemma attempt_inv:
  assumes "rec_inv r w" "recorder_attempt put_row r now w = (res, r', w')"
  shows "rec_inv r' w' \<and> rec_current r' = rec_current r
    \<and> (res = SW_Written \<longrightarrow> stored w' = Some (to_row (rec_current r)) \<and> is_synced r')
    \<and> res \<noteq> SW_Unchanged \<and> (res \<noteq> SW_Written \<longrightarrow> stored w' = stored w)"
proof -
  obtain out w1 where out: "put_row w (to_row (rec_current r)) now = (out, w1)" by force
  show ?thesis
  proof (cases out)
    case (Inl e)
    with assms out write_failed [of w _ now e w1] show ?thesis
      by (auto simp: recorder_attempt_def rec_inv_def Let_def)
  next
    case (Inr b)
    with assms out write_ok [of w _ now b w1] show ?thesis
      by (auto simp: recorder_attempt_def rec_inv_def is_synced_def Let_def)
  qed
qed

lemma set_sound:
  assumes "rec_inv r w" "recorder_set put_row r s now w = (res, r', w')"
  shows "rec_inv r' w' \<and> rec_current r' = s
    \<and> (res = SW_Unchanged \<longrightarrow> w' = w)
    \<and> (res \<in> {SW_Unchanged, SW_Written} \<longrightarrow> stored w' = Some (to_row s))
    \<and> (res \<notin> {SW_Unchanged, SW_Written} \<longrightarrow> stored w' = stored w)"
proof -
  let ?r = "r\<lparr>rec_current := s\<rparr>"
  have inv: "rec_inv ?r w" using assms(1) by (simp add: rec_inv_def)
  have cur: "rec_current ?r = s" by simp
  consider (synced) "is_synced ?r"
    | (deferred) t where "\<not> is_synced ?r" "rec_next_attempt_ms r = Some t" "now < t"
    | (attempt) "\<not> is_synced ?r" "\<forall>t. rec_next_attempt_ms r = Some t \<longrightarrow> \<not> now < t"
    by blast
  then show ?thesis
  proof cases
    case synced
    with assms inv show ?thesis
      by (auto simp: recorder_set_def rec_inv_def is_synced_def Let_def)
  next
    case deferred
    with assms inv show ?thesis by (auto simp: recorder_set_def rec_inv_def Let_def)
  next
    case attempt
    then have "recorder_set put_row r s now w = recorder_attempt put_row ?r now w"
      by (auto simp: recorder_set_def Let_def split: option.split)
    with attempt_inv [OF inv, of now res r' w'] assms(2) cur show ?thesis
      by (cases res) auto
  qed
qed

end

text \<open>
  A sink that commits and still reports an error breaks the belief: the recorder keeps the
  row of the earlier write as the stored one, and setting that status again writes nothing
  although the store holds the other row.
\<close>

definition commit_then_fail :: "CollectorAuthRow option status_sink" where
  "commit_then_fail w row now = (Inl SE_Fault, Some row)"

lemma recorder_trusts_failed_write:
  fixes a b :: AuthStatus
  assumes "to_row a \<noteq> to_row b"
  defines "r0 \<equiv> recorder_new a (Some (to_row a))"
  defines "r1 \<equiv> fst (snd (recorder_set commit_then_fail r0 b 0 (Some (to_row a))))"
  shows "recorder_set commit_then_fail r1 a 1 (Some (to_row b))
    = (SW_Unchanged, r1\<lparr>rec_current := a, rec_failures := 0, rec_next_attempt_ms := None\<rparr>, Some (to_row b))"
  using assms
  by (simp add: recorder_set_def recorder_attempt_def recorder_new_def is_synced_def commit_then_fail_def Let_def)

end
