(* ===== verification/Fence_Store.thy ===== *)
theory Fence_Store
  imports Auth_Status
begin

text \<open>
  The credential tables of the store: the pair row, the outbound-request receipts, the refresh
  bindings, the input fences and the status row, with the transactions of
  \<^verbatim>\<open>src/storage/db/legacy_credentials.rs\<close>, \<^verbatim>\<open>src/storage/db/auth_state.rs\<close> and the receipt
  maintenance of \<^verbatim>\<open>src/storage/db/catalogue_maintenance.rs\<close>.

  A transaction is a function from the store to an error or the store after the commit, so an
  error leaves every table as it was. The wall clock in milliseconds and the random
  identifiers a transaction draws are arguments.
\<close>

section \<open>The pair row\<close>

definition MAX_LEGACY_TOKEN_CIPHERTEXT_BYTES :: nat where
  "MAX_LEGACY_TOKEN_CIPHERTEXT_BYTES = 16 * 1024 + 40"

record TokenRow =
  tk_access :: string
  tk_refresh :: string
  tk_expires_at :: int
  tk_next_refresh_at :: int
  tk_generation :: "uuid option"

definition token_row_new ::
  "string \<Rightarrow> string \<Rightarrow> int \<Rightarrow> int \<Rightarrow> uuid option \<Rightarrow> StoreError + TokenRow" where
  "token_row_new access refresh expires_at next_refresh_at generation =
     (if access = [] \<or> refresh = [] then Inl SE_TeslaMateTokenPairEmpty
      else if length access > MAX_LEGACY_TOKEN_CIPHERTEXT_BYTES
           \<or> length refresh > MAX_LEGACY_TOKEN_CIPHERTEXT_BYTES
      then Inl SE_TeslaMateTokenCiphertextTooLarge
      else (let imported = (expires_at = 0 \<and> next_refresh_at = 0);
                scheduled = (expires_at > next_refresh_at \<and> next_refresh_at > 0)
            in if \<not> imported \<and> \<not> scheduled then Inl SE_InvalidTeslaMateTokenSchedule
               else Inr \<lparr>tk_access = access, tk_refresh = refresh, tk_expires_at = expires_at,
                         tk_next_refresh_at = next_refresh_at, tk_generation = generation\<rparr>))"

definition token_row_imported :: "string \<Rightarrow> string \<Rightarrow> StoreError + TokenRow" where
  "token_row_imported access refresh = token_row_new access refresh 0 0 None"

definition token_row_refreshed :: "string \<Rightarrow> string \<Rightarrow> int \<Rightarrow> int \<Rightarrow> StoreError + TokenRow" where
  "token_row_refreshed access refresh expires_at next_refresh_at =
     (case token_row_new access refresh expires_at next_refresh_at None of
        Inl e \<Rightarrow> Inl e
      | Inr row \<Rightarrow> (if tk_expires_at row = 0 then Inl SE_InvalidTeslaMateTokenSchedule else Inr row))"

definition with_credential_generation :: "TokenRow \<Rightarrow> uuid \<Rightarrow> StoreError + TokenRow" where
  "with_credential_generation row generation =
     (if generation = 0 then Inl SE_InvalidLegacyRefreshGeneration
      else token_row_new (tk_access row) (tk_refresh row) (tk_expires_at row)
             (tk_next_refresh_at row) (Some generation))"

section \<open>Receipts, bindings and fences\<close>

datatype Outcome =
    OC_Success
  | OC_HttpError
  | OC_Timeout
  | OC_TransportError
  | OC_AuthenticationRejected
  | OC_ProtocolError
  | OC_ResponseTooLarge
  | OC_Cancelled

datatype Transport = TR_OwnerApi | TR_FleetApi | TR_Stream | TR_LegacyAuth

datatype Operation =
    OP_Products
  | OP_VehicleProbe
  | OP_VehicleData
  | OP_VehicleWake
  | OP_VehicleCommand
  | OP_TokenRefresh
  | OP_StreamConnect
  | OP_StreamSubscribe
  | OP_StreamUnsubscribe

datatype SafetyClass = SC_NonWakeEndpoint | SC_ConditionalRead | SC_DirectWakeCommand | SC_ExplicitVehicleCommand

datatype Precondition = PC_NotRequired | PC_StreamPowerConfirmed

text \<open>A receipt without an outcome is one the table records as \<^verbatim>\<open>started\<close>.\<close>

record Receipt =
  rcp_id :: nat
  rcp_correlation_id :: uuid
  rcp_started_at_ms :: int
  rcp_completed_at_ms :: "int option"
  rcp_duration_ms :: "int option"
  rcp_vehicle_tesla_id :: "int option"
  rcp_transport :: Transport
  rcp_operation :: Operation
  rcp_safety_class :: SafetyClass
  rcp_precondition :: Precondition
  rcp_outcome :: "Outcome option"
  rcp_http_status :: "nat option"
  rcp_retry_after_seconds :: "int option"

record Binding =
  bd_receipt_id :: nat
  bd_attempt_id :: uuid
  bd_input :: uuid
  bd_output :: "uuid option"

record store =
  s_pair :: "TokenRow option"
  s_receipts :: "Receipt list"
  s_last_receipt_id :: nat
  s_bindings :: "Binding list"
  s_fences :: "uuid list"
  s_fleet_bound :: "nat list"
  s_auth_row :: "(CollectorAuthRow \<times> int) option"

definition empty_store :: store where
  "empty_store = \<lparr>s_pair = None, s_receipts = [], s_last_receipt_id = 0, s_bindings = [],
     s_fences = [], s_fleet_bound = [], s_auth_row = None\<rparr>"

definition MAX_OUTBOUND_REQUEST_RECEIPTS :: nat where
  [hub_consts]: "MAX_OUTBOUND_REQUEST_RECEIPTS = 100000"

definition MAX_LEGACY_REFRESH_INPUT_FENCES :: nat where
  [hub_consts]: "MAX_LEGACY_REFRESH_INPUT_FENCES = 100000"

definition OUTBOUND_REQUEST_RETENTION_MS :: int where
  [hub_consts]: "OUTBOUND_REQUEST_RETENTION_MS = 30 * 24 * 60 * 60 * 1000"

definition current_generation :: "store \<Rightarrow> uuid option" where
  "current_generation s = Option.bind (s_pair s) tk_generation"

definition is_fenced :: "store \<Rightarrow> uuid \<Rightarrow> bool" where
  "is_fenced s g \<longleftrightarrow> g \<in> set (s_fences s)"

text \<open>
  \<open>s_fleet_bound\<close> lists the receipts that the Fleet unit's own bindings reserve; that unit is
  outside this development, but the shared ledger reads the reservation.
\<close>

definition find_receipt :: "store \<Rightarrow> nat \<Rightarrow> Receipt option" where
  "find_receipt s i = find (\<lambda>r. rcp_id r = i) (s_receipts s)"

definition receipt_started :: "store \<Rightarrow> nat \<Rightarrow> bool" where
  "receipt_started s i = list_ex (\<lambda>r. rcp_id r = i \<and> rcp_outcome r = None) (s_receipts s)"

definition refresh_started :: "store \<Rightarrow> nat \<Rightarrow> bool" where
  "refresh_started s i = list_ex (\<lambda>r. rcp_id r = i \<and> rcp_transport r = TR_LegacyAuth
     \<and> rcp_operation r = OP_TokenRefresh \<and> rcp_outcome r = None) (s_receipts s)"

section \<open>Receipt maintenance\<close>

text \<open>
  The recursive query: the generations reached from the stored one by following completed
  bindings from output to input. One round adds the inputs of all bindings whose output is
  known; as many rounds as there are bindings reach the fixed point.
\<close>

definition chain_round :: "Binding list \<Rightarrow> uuid list \<Rightarrow> uuid list" where
  "chain_round bs gs = gs @ map bd_input
     (filter (\<lambda>b. (case bd_output b of None \<Rightarrow> False | Some g \<Rightarrow> g \<in> set gs) \<and> bd_input b \<notin> set gs) bs)"

definition chain_generations :: "store \<Rightarrow> uuid list" where
  "chain_generations s =
     (case current_generation s of
        None \<Rightarrow> []
      | Some g \<Rightarrow> (chain_round (s_bindings s) ^^ length (s_bindings s)) [g])"

definition chain_receipts :: "store \<Rightarrow> nat list" where
  "chain_receipts s = map bd_receipt_id
     (filter (\<lambda>b. case bd_output b of None \<Rightarrow> False | Some g \<Rightarrow> g \<in> set (chain_generations s)) (s_bindings s))"

definition receipt_expired :: "store \<Rightarrow> int \<Rightarrow> Receipt \<Rightarrow> bool" where
  "receipt_expired s cutoff_ms r \<longleftrightarrow>
     rcp_outcome r \<noteq> None
     \<and> (case rcp_completed_at_ms r of None \<Rightarrow> False | Some c \<Rightarrow> c < cutoff_ms)
     \<and> rcp_id r \<notin> set (chain_receipts s)"

text \<open>Deleting a receipt deletes its binding (\<open>ON DELETE CASCADE\<close>).\<close>

definition prune_expired_outbound_request_receipts :: "int \<Rightarrow> store \<Rightarrow> store" where
  "prune_expired_outbound_request_receipts now_ms s =
     (let cutoff_ms = saturating_sub now_ms OUTBOUND_REQUEST_RETENTION_MS;
          gone = map rcp_id (filter (receipt_expired s cutoff_ms) (s_receipts s))
      in s\<lparr>s_receipts := filter (\<lambda>r. \<not> receipt_expired s cutoff_ms r) (s_receipts s),
           s_bindings := filter (\<lambda>b. bd_receipt_id b \<notin> set gone) (s_bindings s),
           s_fleet_bound := filter (\<lambda>i. i \<notin> set gone) (s_fleet_bound s)\<rparr>)"

definition outbound_request_capacity_consumers :: "store \<Rightarrow> nat" where
  "outbound_request_capacity_consumers s = length (s_receipts s)"

definition ensure_outbound_request_capacity :: "int \<Rightarrow> store \<Rightarrow> StoreError + store" where
  "ensure_outbound_request_capacity now_ms s0 =
     (let s = prune_expired_outbound_request_receipts now_ms s0
      in if outbound_request_capacity_consumers s \<ge> MAX_OUTBOUND_REQUEST_RECEIPTS
         then Inl SE_OutboundRequestAuditCapacityExhausted else Inr s)"

section \<open>Closing receipts\<close>

definition complete_receipt :: "int \<Rightarrow> Outcome \<Rightarrow> nat option \<Rightarrow> int option \<Rightarrow> Receipt \<Rightarrow> Receipt" where
  "complete_receipt now_ms outcome http_status retry_after r =
     (let completed = max now_ms (rcp_started_at_ms r)
      in r\<lparr>rcp_completed_at_ms := Some completed, rcp_duration_ms := Some (completed - rcp_started_at_ms r),
           rcp_outcome := Some outcome, rcp_http_status := http_status,
           rcp_retry_after_seconds := retry_after\<rparr>)"

definition close_receipt ::
  "int \<Rightarrow> nat \<Rightarrow> Outcome \<Rightarrow> nat option \<Rightarrow> int option \<Rightarrow> store \<Rightarrow> store" where
  "close_receipt now_ms i outcome http_status retry_after s =
     s\<lparr>s_receipts := map (\<lambda>r. if rcp_id r = i \<and> rcp_outcome r = None
                              then complete_receipt now_ms outcome http_status retry_after r else r)
                         (s_receipts s)\<rparr>"

text \<open>Releasing an input deletes the binding of the attempt and the fence of its generation.\<close>

definition delete_binding :: "nat \<Rightarrow> uuid \<Rightarrow> store \<Rightarrow> store" where
  "delete_binding i g s =
     s\<lparr>s_bindings := filter (\<lambda>b. \<not> (bd_receipt_id b = i \<and> bd_input b = g)) (s_bindings s)\<rparr>"

definition delete_fence :: "uuid \<Rightarrow> store \<Rightarrow> store" where
  "delete_fence g s = s\<lparr>s_fences := filter (\<lambda>x. x \<noteq> g) (s_fences s)\<rparr>"

section \<open>The credential transactions\<close>

definition unresolved_inputs :: "store \<Rightarrow> uuid list" where
  "unresolved_inputs s =
     map bd_input (filter (\<lambda>b. receipt_started s (bd_receipt_id b)) (s_bindings s))"

definition cancel_all_started :: "int \<Rightarrow> store \<Rightarrow> store" where
  "cancel_all_started now_ms s =
     s\<lparr>s_receipts := map (\<lambda>r. if rcp_outcome r = None
                                 \<and> rcp_id r \<in> set (map bd_receipt_id (s_bindings s))
                              then complete_receipt now_ms OC_Cancelled (rcp_http_status r)
                                     (rcp_retry_after_seconds r) r
                              else r) (s_receipts s)\<rparr>"

definition replace_teslamate_legacy_tokens :: "int \<Rightarrow> TokenRow \<Rightarrow> store \<Rightarrow> StoreError + store" where
  "replace_teslamate_legacy_tokens now_ms tokens s =
     (let replacement = tk_generation tokens;
          inputs = unresolved_inputs s
      in if (case replacement of None \<Rightarrow> False | Some g \<Rightarrow> is_fenced s g)
         then Inl SE_LegacyRefreshOutcomeUnknown
         else if inputs \<noteq> [] \<and>
              (length inputs \<noteq> 1 \<or> current_generation s \<noteq> Some (hd inputs)
               \<or> replacement = None \<or> replacement = Some (hd inputs))
         then Inl SE_LegacyRefreshOutcomeUnknown
         else (let s' = (if inputs \<noteq> [] then cancel_all_started now_ms s else s)
               in Inr (s'\<lparr>s_pair := Some tokens\<rparr>)))"

definition bind_teslamate_legacy_credential_generation ::
  "TokenRow \<Rightarrow> uuid \<Rightarrow> store \<Rightarrow> StoreError + store" where
  "bind_teslamate_legacy_credential_generation tokens generation s =
     (if generation = 0 then Inl SE_InvalidLegacyRefreshGeneration
      else (case s_pair s of
              None \<Rightarrow> Inl SE_LegacyRefreshOutcomeUnknown
            | Some row \<Rightarrow>
               (if tk_access row \<noteq> tk_access tokens \<or> tk_refresh row \<noteq> tk_refresh tokens
                then Inl SE_LegacyRefreshOutcomeUnknown
                else (case tk_generation row of
                        Some stored \<Rightarrow> (if stored = generation then Inr s
                                        else Inl SE_LegacyRefreshOutcomeUnknown)
                      | None \<Rightarrow> Inr (s\<lparr>s_pair := Some (row\<lparr>tk_generation := Some generation\<rparr>)\<rparr>)))))"

definition has_unresolved_legacy_refresh :: "store \<Rightarrow> bool" where
  "has_unresolved_legacy_refresh s = list_ex (\<lambda>b. refresh_started s (bd_receipt_id b)) (s_bindings s)"

text \<open>\<open>begin_legacy_refresh\<close> draws a correlation and an attempt identifier and yields the receipt key.\<close>

definition begin_legacy_refresh ::
  "int \<Rightarrow> uuid \<Rightarrow> uuid \<Rightarrow> uuid \<Rightarrow> store \<Rightarrow> StoreError + nat \<times> store" where
  "begin_legacy_refresh now_ms correlation_id attempt_id input_generation s0 =
     (if input_generation = 0 then Inl SE_InvalidLegacyRefreshGeneration
      else if current_generation s0 \<noteq> Some input_generation then Inl SE_LegacyRefreshOutcomeUnknown
      else if has_unresolved_legacy_refresh s0 then Inl SE_LegacyRefreshOutcomeUnknown
      else if is_fenced s0 input_generation then Inl SE_LegacyRefreshOutcomeUnknown
      else (case ensure_outbound_request_capacity now_ms s0 of
              Inl e \<Rightarrow> Inl e
            | Inr s \<Rightarrow>
               (if length (s_fences s) \<ge> MAX_LEGACY_REFRESH_INPUT_FENCES
                then Inl SE_LegacyRefreshOutcomeUnknown
                else if list_ex (\<lambda>b. bd_attempt_id b = attempt_id) (s_bindings s) then Inl SE_Fault
                else (let receipt_id = s_last_receipt_id s + 1;
                          receipt = \<lparr>rcp_id = receipt_id, rcp_correlation_id = correlation_id,
                            rcp_started_at_ms = now_ms, rcp_completed_at_ms = None, rcp_duration_ms = None,
                            rcp_vehicle_tesla_id = None, rcp_transport = TR_LegacyAuth,
                            rcp_operation = OP_TokenRefresh, rcp_safety_class = SC_NonWakeEndpoint,
                            rcp_precondition = PC_NotRequired, rcp_outcome = None, rcp_http_status = None,
                            rcp_retry_after_seconds = None\<rparr>;
                          binding = \<lparr>bd_receipt_id = receipt_id, bd_attempt_id = attempt_id,
                            bd_input = input_generation, bd_output = None\<rparr>
                      in Inr (receipt_id,
                           s\<lparr>s_receipts := s_receipts s @ [receipt], s_last_receipt_id := receipt_id,
                             s_fences := s_fences s @ [input_generation],
                             s_bindings := s_bindings s @ [binding]\<rparr>)))))"

definition stored_input :: "store \<Rightarrow> nat \<Rightarrow> uuid option" where
  "stored_input s i =
     (case filter (\<lambda>b. bd_receipt_id b = i \<and> receipt_started s i) (s_bindings s) of
        [] \<Rightarrow> None | b # _ \<Rightarrow> Some (bd_input b))"

definition complete_legacy_refresh ::
  "int \<Rightarrow> nat \<Rightarrow> uuid \<Rightarrow> uuid \<Rightarrow> TokenRow \<Rightarrow> store \<Rightarrow> StoreError + store" where
  "complete_legacy_refresh now_ms receipt_id input_generation output_generation tokens s =
     (if receipt_id = 0 \<or> input_generation = 0 \<or> output_generation = 0
         \<or> input_generation = output_generation \<or> tk_generation tokens \<noteq> Some output_generation
      then Inl SE_InvalidLegacyRefreshGeneration
      else if stored_input s receipt_id \<noteq> Some input_generation then Inl SE_LegacyRefreshOutcomeUnknown
      else if current_generation s \<noteq> Some input_generation then Inl SE_LegacyRefreshOutcomeUnknown
      else if is_fenced s output_generation then Inl SE_LegacyRefreshOutcomeUnknown
      else if list_ex (\<lambda>b. bd_output b = Some output_generation) (s_bindings s) then Inl SE_Fault
      else if \<not> list_ex (\<lambda>b. bd_receipt_id b = receipt_id \<and> bd_output b = None) (s_bindings s)
      then Inl SE_LegacyRefreshOutcomeUnknown
      else Inr (close_receipt now_ms receipt_id OC_Success (Some 200) None
             (s\<lparr>s_pair := Some tokens,
                s_bindings := map (\<lambda>b. if bd_receipt_id b = receipt_id \<and> bd_output b = None
                                       then b\<lparr>bd_output := Some output_generation\<rparr> else b)
                                  (s_bindings s)\<rparr>)))"

definition attempt_bound :: "store \<Rightarrow> nat \<Rightarrow> uuid \<Rightarrow> bool" where
  "attempt_bound s i g = list_ex (\<lambda>b. bd_receipt_id b = i \<and> bd_input b = g) (s_bindings s)"

definition cancel_unsent_legacy_refresh :: "int \<Rightarrow> nat \<Rightarrow> uuid \<Rightarrow> store \<Rightarrow> StoreError + store" where
  "cancel_unsent_legacy_refresh now_ms receipt_id input_generation s =
     (if \<not> (attempt_bound s receipt_id input_generation \<and> receipt_started s receipt_id)
      then Inl SE_LegacyRefreshOutcomeUnknown
      else Inr (close_receipt now_ms receipt_id OC_Cancelled None None
                  (delete_fence input_generation (delete_binding receipt_id input_generation s))))"

definition close_legacy_refresh_attempt ::
  "int \<Rightarrow> nat \<Rightarrow> uuid \<Rightarrow> Outcome \<Rightarrow> nat option \<Rightarrow> int option \<Rightarrow> bool \<Rightarrow> store \<Rightarrow> StoreError + store" where
  "close_legacy_refresh_attempt now_ms receipt_id input_generation outcome http_status retry_after
       release_input s =
     (if receipt_id = 0 \<or> input_generation = 0 then Inl SE_InvalidLegacyRefreshGeneration
      else if outcome \<notin> {OC_TransportError, OC_Timeout, OC_HttpError, OC_AuthenticationRejected, OC_Success}
      then Inl SE_LegacyRefreshOutcomeUnknown
      else if (case http_status of None \<Rightarrow> False | Some st \<Rightarrow> \<not> (100 \<le> st \<and> st \<le> 599))
      then Inl SE_InvalidOutboundRequestHttpStatus
      else if (case retry_after of None \<Rightarrow> False | Some n \<Rightarrow> n > i64_max)
      then Inl SE_InvalidOutboundRequestRetryAfter
      else if \<not> (attempt_bound s receipt_id input_generation \<and> refresh_started s receipt_id)
      then Inl SE_LegacyRefreshOutcomeUnknown
      else (let closed = close_receipt now_ms receipt_id outcome http_status retry_after s
            in Inr (if release_input
                    then delete_fence input_generation (delete_binding receipt_id input_generation closed)
                    else closed)))"

definition complete_unrotated_legacy_refresh :: "int \<Rightarrow> nat \<Rightarrow> uuid \<Rightarrow> TokenRow \<Rightarrow> store \<Rightarrow> StoreError + store" where
  "complete_unrotated_legacy_refresh now_ms receipt_id generation tokens s =
     (if receipt_id = 0 \<or> generation = 0 \<or> tk_generation tokens \<noteq> Some generation
      then Inl SE_InvalidLegacyRefreshGeneration
      else if \<not> (attempt_bound s receipt_id generation \<and> refresh_started s receipt_id)
      then Inl SE_LegacyRefreshOutcomeUnknown
      else if current_generation s \<noteq> Some generation then Inl SE_LegacyRefreshOutcomeUnknown
      else Inr (delete_fence generation (delete_binding receipt_id generation
             (close_receipt now_ms receipt_id OC_Success (Some 200) None (s\<lparr>s_pair := Some tokens\<rparr>)))))"

definition clear_teslamate_legacy_tokens :: "int \<Rightarrow> store \<Rightarrow> store" where
  "clear_teslamate_legacy_tokens now_ms s = (cancel_all_started now_ms s)\<lparr>s_pair := None\<rparr>"

section \<open>Reads of the credential tables\<close>

datatype StoredLegacyGeneration = SG_NoRow | SG_Unbound | SG_Bound uuid

definition stored_legacy_credential_generation :: "store \<Rightarrow> StoredLegacyGeneration" where
  "stored_legacy_credential_generation s =
     (case s_pair s of
        None \<Rightarrow> SG_NoRow
      | Some row \<Rightarrow> (case tk_generation row of None \<Rightarrow> SG_Unbound | Some g \<Rightarrow> SG_Bound g))"

definition legacy_generation_is_refresh_output :: "store \<Rightarrow> uuid \<Rightarrow> bool" where
  "legacy_generation_is_refresh_output s g = list_ex (\<lambda>b. bd_output b = Some g) (s_bindings s)"

definition latest_legacy_refresh_started_at_ms :: "store \<Rightarrow> int option" where
  "latest_legacy_refresh_started_at_ms s =
     (case map rcp_started_at_ms (filter (\<lambda>r. rcp_transport r = TR_LegacyAuth \<and> rcp_operation r = OP_TokenRefresh)
                                   (s_receipts s)) of
        [] \<Rightarrow> None | x # xs \<Rightarrow> Some (fold max xs x))"

record LegacyReceiptFacts =
  lrf_transport :: Transport
  lrf_operation :: Operation
  lrf_outcome :: "Outcome option"

record LegacyPairSnapshot =
  lps_row :: "TokenRow option"
  lps_receipt :: "LegacyReceiptFacts option"

definition facts_is_started :: "LegacyReceiptFacts \<Rightarrow> bool" where
  "facts_is_started f \<longleftrightarrow> lrf_outcome f = None"

definition facts_is_token_refresh_success :: "LegacyReceiptFacts \<Rightarrow> bool" where
  "facts_is_token_refresh_success f \<longleftrightarrow>
     lrf_transport f = TR_LegacyAuth \<and> lrf_operation f = OP_TokenRefresh \<and> lrf_outcome f = Some OC_Success"

text \<open>Reading the row validates it again.\<close>

definition revalidate_row :: "TokenRow option \<Rightarrow> StoreError + TokenRow option" where
  "revalidate_row p =
     (case p of
        None \<Rightarrow> Inr None
      | Some row \<Rightarrow>
         (case token_row_new (tk_access row) (tk_refresh row) (tk_expires_at row) (tk_next_refresh_at row)
                 (tk_generation row) of
            Inl e \<Rightarrow> Inl e | Inr row' \<Rightarrow> Inr (Some row')))"

definition legacy_pair_and_receipt_snapshot :: "store \<Rightarrow> nat \<Rightarrow> StoreError + LegacyPairSnapshot" where
  "legacy_pair_and_receipt_snapshot s receipt_id =
     (case revalidate_row (s_pair s) of
        Inl e \<Rightarrow> Inl e
      | Inr row \<Rightarrow> Inr \<lparr>lps_row = row,
          lps_receipt = map_option (\<lambda>r. \<lparr>lrf_transport = rcp_transport r, lrf_operation = rcp_operation r,
                                         lrf_outcome = rcp_outcome r\<rparr>) (find_receipt s receipt_id)\<rparr>)"

definition load_teslamate_legacy_tokens :: "store \<Rightarrow> StoreError + TokenRow option" where
  "load_teslamate_legacy_tokens s = revalidate_row (s_pair s)"

text \<open>
  The walk of \<open>owner_wire_credential_identity\<close>: it follows the bindings back and refuses to
  visit a generation twice. The visited list grows within the finite set of the generations
  the bindings name, so the walk ends.
\<close>

definition binding_input_of :: "Binding list \<Rightarrow> uuid \<Rightarrow> uuid option" where
  "binding_input_of bs g = map_option bd_input (find (\<lambda>b. bd_output b = Some g) bs)"

function identity_walk :: "Binding list \<Rightarrow> uuid list \<Rightarrow> uuid \<Rightarrow> StoreError + uuid" where
  "identity_walk bs visited generation =
     (if generation \<in> set visited then Inl SE_InvalidLegacyRefreshGeneration
      else (case binding_input_of bs generation of
              Some input \<Rightarrow> identity_walk bs (generation # visited) input
            | None \<Rightarrow> Inr generation))"
  by pat_completeness auto

lemma binding_input_of_Some:
  "binding_input_of bs g = Some i \<longleftrightarrow> (\<exists>b. find (\<lambda>b. bd_output b = Some g) bs = Some b \<and> bd_input b = i)"
  by (auto simp: binding_input_of_def)

lemma binding_input_of_output: "binding_input_of bs g = Some i \<Longrightarrow> Some g \<in> bd_output ` set bs"
  unfolding binding_input_of_Some by (force simp: find_Some_iff in_set_conv_nth)

termination identity_walk
proof (relation "measure (\<lambda>(bs, visited, g). card ((Some -` (bd_output ` set bs)) - set visited))")
  fix bs visited generation input
  assume new: "generation \<notin> set visited" and step: "binding_input_of bs generation = Some input"
  let ?outs = "(Some -` (bd_output ` set bs))"
  have "finite ?outs" by (intro finite_vimageI) auto
  moreover have "generation \<in> ?outs - set visited" using binding_input_of_output [OF step] new by simp
  then have "?outs - set (generation # visited) \<subset> ?outs - set visited" by auto
  ultimately have "card (?outs - set (generation # visited)) < card (?outs - set visited)"
    by (intro psubset_card_mono) auto
  then show "((bs, generation # visited, input), (bs, visited, generation))
      \<in> measure (\<lambda>(bs, visited, g). card ((Some -` (bd_output ` set bs)) - set visited))"
    by (simp only: in_measure split)
qed simp

declare identity_walk.simps [simp del]

definition owner_wire_credential_identity :: "store \<Rightarrow> StoreError + uuid option" where
  "owner_wire_credential_identity s =
     (case current_generation s of
        None \<Rightarrow> Inr None
      | Some g \<Rightarrow> (case identity_walk (s_bindings s) [] g of Inl e \<Rightarrow> Inl e | Inr root \<Rightarrow> Inr (Some root)))"

section \<open>The status row\<close>

text \<open>The CHECK constraints of the table, the ones a row of typed columns can break.\<close>

definition auth_row_check :: "CollectorAuthRow \<Rightarrow> int \<Rightarrow> bool" where
  "auth_row_check row updated_at_ms \<longleftrightarrow>
     car_state row \<in> {''ready'', ''refreshing'', ''retrying'', ''persistence_pending'', ''awaiting_confirmation'',
       ''observer_waiting'', ''clock_invalid'', ''configuration_error'', ''sign_in_required'', ''signed_out'',
       ''api_refused''}
     \<and> pred_option (\<lambda>r. 1 \<le> length r \<and> length r \<le> 64) (car_reason row)
     \<and> pred_option (\<lambda>t. t \<ge> 0) (car_retry_at row)
     \<and> pred_option (\<lambda>m. m \<in> {''legacy'', ''provider''}) (car_stopped_mode row)
     \<and> car_fuse_consecutive row \<le> 3
     \<and> pred_option (\<lambda>t. t \<ge> 0) (car_fuse_last_rejection_at row)
     \<and> pred_option (\<lambda>t. t \<ge> 0) (car_fuse_pause_until row)
     \<and> updated_at_ms \<ge> 0
     \<and> (car_state row \<in> {''sign_in_required'', ''signed_out''}) = (car_stopped_generation row \<noteq> None)
     \<and> (car_state row = ''api_refused'') = (car_stopped_mode row \<noteq> None)
     \<and> (car_fuse_consecutive row = 0) = (car_fuse_generation row = None)"

definition load_collector_auth_row :: "store \<Rightarrow> CollectorAuthRow option" where
  "load_collector_auth_row s = map_option fst (s_auth_row s)"

text \<open>The upsert leaves a row that differs only in the write time alone and says so.\<close>

definition write_collector_auth_row :: "CollectorAuthRow \<Rightarrow> int \<Rightarrow> store \<Rightarrow> StoreError + bool \<times> store" where
  "write_collector_auth_row row now_ms s =
     (if now_ms < 0 then Inl SE_NegativeTimestamp
      else if \<not> auth_row_check row now_ms then Inl SE_Fault
      else if load_collector_auth_row s = Some row then Inr (False, s)
      else Inr (True, s\<lparr>s_auth_row := Some (row, now_ms)\<rparr>))"

definition fill_collector_auth_rejected_access_digest ::
  "TokenRow \<Rightarrow> nat \<Rightarrow> uuid option \<Rightarrow> uuid \<Rightarrow> store \<Rightarrow> StoreError + store" where
  "fill_collector_auth_rejected_access_digest pair consecutive generation digest s =
     (if \<not> (case s_pair s of None \<Rightarrow> False
             | Some row \<Rightarrow> tk_access row = tk_access pair \<and> tk_refresh row = tk_refresh pair)
      then Inl SE_LegacyRefreshOutcomeUnknown
      else (case s_auth_row s of
              None \<Rightarrow> Inl SE_LegacyRefreshOutcomeUnknown
            | Some (row, updated) \<Rightarrow>
               (if car_fuse_rejected_access_digest row = None \<and> car_fuse_consecutive row = consecutive
                   \<and> car_fuse_generation row = generation
                then Inr (s\<lparr>s_auth_row := Some (row\<lparr>car_fuse_rejected_access_digest := Some digest\<rparr>, updated)\<rparr>)
                else Inl SE_LegacyRefreshOutcomeUnknown)))"

definition c5_refusal_stopped_in_another_mode :: "string \<Rightarrow> store \<Rightarrow> bool" where
  "c5_refusal_stopped_in_another_mode requested_mode s =
     (case load_collector_auth_row s of
        None \<Rightarrow> False
      | Some row \<Rightarrow> car_state row = ''api_refused'' \<and> car_stopped_mode row \<noteq> Some requested_mode)"

definition lift_collector_auth_refusal_in_transaction :: "int \<Rightarrow> store \<Rightarrow> bool \<times> store" where
  "lift_collector_auth_refusal_in_transaction start_ms s =
     (case load_collector_auth_row s of
        Some row \<Rightarrow>
          (if car_state row = ''api_refused''
           then (True, s\<lparr>s_auth_row := Some (row\<lparr>car_state := ''ready'', car_reason := None, car_collecting := True,
                   car_retry_at := None, car_stopped_generation := None, car_stopped_mode := None\<rparr>, start_ms)\<rparr>)
           else (False, s))
      | None \<Rightarrow> (False, s))"

section \<open>The general request ledger\<close>

record OutboundRequestStart =
  ors_correlation_id :: uuid
  ors_vehicle_tesla_id :: "int option"
  ors_transport :: Transport
  ors_operation :: Operation
  ors_safety_class :: SafetyClass
  ors_precondition :: Precondition

definition outbound_start_validate :: "OutboundRequestStart \<Rightarrow> StoreError option" where
  "outbound_start_validate q =
     (if ors_correlation_id q = 0 then Some SE_NilOutboundRequestCorrelationId
      else if (case ors_vehicle_tesla_id q of None \<Rightarrow> False | Some i \<Rightarrow> i \<le> 0)
      then Some SE_InvalidOutboundRequestVehicleId
      else if ors_transport q = TR_LegacyAuth \<and> ors_operation q = OP_TokenRefresh
      then Some SE_ReservedLegacyRefreshReceipt
      else if ors_operation q = OP_VehicleData
        \<and> (ors_safety_class q \<noteq> SC_ConditionalRead \<or> ors_precondition q \<noteq> PC_StreamPowerConfirmed)
      then Some SE_InvalidVehicleDataAuditPrecondition
      else if ors_operation q = OP_VehicleWake
        \<and> (ors_vehicle_tesla_id q = None \<or> ors_safety_class q \<noteq> SC_DirectWakeCommand
           \<or> ors_precondition q \<noteq> PC_NotRequired)
      then Some SE_InvalidVehicleActionAudit
      else if ors_operation q = OP_VehicleCommand
        \<and> (ors_vehicle_tesla_id q = None \<or> ors_safety_class q \<noteq> SC_ExplicitVehicleCommand
           \<or> ors_precondition q \<noteq> PC_NotRequired)
      then Some SE_InvalidVehicleActionAudit
      else None)"

definition begin_outbound_request :: "int \<Rightarrow> OutboundRequestStart \<Rightarrow> store \<Rightarrow> StoreError + nat \<times> store" where
  "begin_outbound_request now_ms q s0 =
     (case outbound_start_validate q of
        Some e \<Rightarrow> Inl e
      | None \<Rightarrow>
         (case ensure_outbound_request_capacity now_ms s0 of
            Inl e \<Rightarrow> Inl e
          | Inr s \<Rightarrow>
             (let receipt_id = s_last_receipt_id s + 1;
                  receipt = \<lparr>rcp_id = receipt_id, rcp_correlation_id = ors_correlation_id q,
                    rcp_started_at_ms = now_ms, rcp_completed_at_ms = None, rcp_duration_ms = None,
                    rcp_vehicle_tesla_id = ors_vehicle_tesla_id q, rcp_transport = ors_transport q,
                    rcp_operation = ors_operation q, rcp_safety_class = ors_safety_class q,
                    rcp_precondition = ors_precondition q, rcp_outcome = None,
                    rcp_http_status = None, rcp_retry_after_seconds = None\<rparr>
              in Inr (receipt_id, s\<lparr>s_receipts := s_receipts s @ [receipt], s_last_receipt_id := receipt_id\<rparr>))))"

record OutboundRequestCompletion =
  orc_outcome :: Outcome
  orc_http_status :: "nat option"
  orc_retry_after_seconds :: "int option"

definition outbound_completion_validate :: "OutboundRequestCompletion \<Rightarrow> StoreError option" where
  "outbound_completion_validate c =
     (if (case orc_http_status c of None \<Rightarrow> False | Some st \<Rightarrow> \<not> (100 \<le> st \<and> st \<le> 599))
      then Some SE_InvalidOutboundRequestHttpStatus
      else if (case orc_retry_after_seconds c of None \<Rightarrow> False | Some n \<Rightarrow> n > i64_max)
      then Some SE_InvalidOutboundRequestRetryAfter
      else None)"

definition complete_outbound_request ::
  "int \<Rightarrow> nat \<Rightarrow> OutboundRequestCompletion \<Rightarrow> store \<Rightarrow> StoreError + store" where
  "complete_outbound_request now_ms receipt_id c s =
     (case outbound_completion_validate c of
        Some e \<Rightarrow> Inl e
      | None \<Rightarrow>
         (if receipt_id = 0 then Inl SE_InvalidOutboundRequestReceiptId
          else if receipt_id \<in> set (map bd_receipt_id (s_bindings s)) \<or> receipt_id \<in> set (s_fleet_bound s)
          then Inl SE_ReservedLegacyRefreshReceipt
          else if \<not> receipt_started s receipt_id then Inl SE_OutboundRequestReceiptNotStarted
          else Inr (prune_expired_outbound_request_receipts now_ms
                 (close_receipt now_ms receipt_id (orc_outcome c) (orc_http_status c)
                    (orc_retry_after_seconds c) s))))"

end
