(* ===== verification/Fence_Invariant.thy ===== *)
theory Fence_Invariant
  imports Fence_Store
begin

text \<open>
  The well-formedness of the credential tables and that every transaction keeps it: receipts
  have distinct keys, every binding belongs to a refresh receipt and has a fence on its input,
  a started attempt is bound and presents the stored generation, and the bindings form chains
  without a cycle. For each transaction a lemma says exactly when it commits and what it writes.
\<close>

section \<open>The invariant\<close>

definition is_refresh_receipt :: "Receipt \<Rightarrow> bool" where
  "is_refresh_receipt r \<longleftrightarrow> rcp_transport r = TR_LegacyAuth \<and> rcp_operation r = OP_TokenRefresh"

text \<open>
  Bindings stand in the order of their receipts: no binding produces a generation that an
  earlier one (or itself) consumed, and no two produce or consume the same one.
\<close>

definition follows :: "Binding \<Rightarrow> Binding \<Rightarrow> bool" where
  "follows b b' \<longleftrightarrow> bd_receipt_id b < bd_receipt_id b' \<and> bd_input b \<noteq> bd_input b'
     \<and> bd_output b' \<noteq> Some (bd_input b) \<and> (bd_output b = None \<or> bd_output b \<noteq> bd_output b')"

definition chain_wf :: "Binding list \<Rightarrow> bool" where
  "chain_wf bs \<longleftrightarrow> sorted_wrt follows bs \<and> (\<forall>b\<in>set bs. bd_output b \<noteq> Some (bd_input b))"

definition receipts_wf :: "Receipt list \<Rightarrow> nat \<Rightarrow> bool" where
  "receipts_wf rs n \<longleftrightarrow> distinct (map rcp_id rs)
     \<and> (\<forall>r\<in>set rs. 0 < rcp_id r \<and> rcp_id r \<le> n \<and> (rcp_outcome r = None) = (rcp_completed_at_ms r = None))"

definition bound_wf :: "Receipt list \<Rightarrow> Binding list \<Rightarrow> bool" where
  "bound_wf rs bs \<longleftrightarrow>
     (\<forall>b\<in>set bs. \<exists>r\<in>set rs. rcp_id r = bd_receipt_id b \<and> is_refresh_receipt r)
     \<and> (\<forall>r\<in>set rs. is_refresh_receipt r \<and> rcp_outcome r = None \<longrightarrow> rcp_id r \<in> bd_receipt_id ` set bs)"

definition fences_wf :: "Binding list \<Rightarrow> uuid list \<Rightarrow> bool" where
  "fences_wf bs fs \<longleftrightarrow> distinct fs \<and> bd_input ` set bs \<subseteq> set fs \<and> 0 \<notin> set fs"

definition open_wf :: "Receipt list \<Rightarrow> Binding list \<Rightarrow> uuid option \<Rightarrow> bool" where
  "open_wf rs bs current \<longleftrightarrow>
     (\<forall>b\<in>set bs. \<forall>r\<in>set rs. rcp_id r = bd_receipt_id b \<and> rcp_outcome r = None
        \<longrightarrow> bd_output b = None \<and> current = Some (bd_input b))"

definition store_wf :: "store \<Rightarrow> bool" where
  "store_wf s \<longleftrightarrow> receipts_wf (s_receipts s) (s_last_receipt_id s)
     \<and> bound_wf (s_receipts s) (s_bindings s)
     \<and> chain_wf (s_bindings s)
     \<and> fences_wf (s_bindings s) (s_fences s)
     \<and> open_wf (s_receipts s) (s_bindings s) (current_generation s)"

lemmas store_parts = receipts_wf_def bound_wf_def chain_wf_def fences_wf_def open_wf_def

lemma empty_store_wf: "store_wf empty_store"
  by (simp add: store_wf_def store_parts empty_store_def)

lemma receipt_started_iff:
  "receipt_started s i \<longleftrightarrow> (\<exists>r\<in>set (s_receipts s). rcp_id r = i \<and> rcp_outcome r = None)"
  by (simp add: receipt_started_def list_ex_iff)

lemma refresh_started_iff:
  "refresh_started s i \<longleftrightarrow>
     (\<exists>r\<in>set (s_receipts s). rcp_id r = i \<and> is_refresh_receipt r \<and> rcp_outcome r = None)"
  by (auto simp: refresh_started_def list_ex_iff is_refresh_receipt_def)

lemma attempt_bound_iff:
  "attempt_bound s i g \<longleftrightarrow> (\<exists>b\<in>set (s_bindings s). bd_receipt_id b = i \<and> bd_input b = g)"
  by (simp add: attempt_bound_def list_ex_iff)

lemma refresh_started_receipt_started: "refresh_started s i \<Longrightarrow> receipt_started s i"
  by (auto simp: refresh_started_iff receipt_started_iff)

text \<open>Two bindings that agree on a receipt, an input or an output are the same binding.\<close>

lemma sorted_follows_unique:
  "sorted_wrt follows bs \<Longrightarrow> b \<in> set bs \<Longrightarrow> b' \<in> set bs \<Longrightarrow> b = b' \<or> follows b b' \<or> follows b' b"
  by (induction bs) auto

lemma chain_wf_unique:
  assumes "chain_wf bs" "b \<in> set bs" "b' \<in> set bs"
    and "bd_receipt_id b = bd_receipt_id b' \<or> bd_input b = bd_input b' \<or> (bd_output b \<noteq> None \<and> bd_output b = bd_output b')"
  shows "b = b'"
proof -
  have "\<not> follows b b'" "\<not> follows b' b" using assms(4) unfolding follows_def by (metis less_irrefl)+
  then show ?thesis using sorted_follows_unique [of bs b b'] assms(1-3) by (simp add: chain_wf_def)
qed

lemma receipts_wf_unique:
  assumes "receipts_wf rs n" "r \<in> set rs" "r' \<in> set rs" "rcp_id r = rcp_id r'"
  shows "r = r'"
  using assms by (auto simp: receipts_wf_def distinct_map dest: inj_onD)

section \<open>The parts under the table changes\<close>

text \<open>A change of receipts that keeps their keys and kinds and opens none.\<close>

definition settles :: "(Receipt \<Rightarrow> Receipt) \<Rightarrow> bool" where
  "settles f \<longleftrightarrow> (\<forall>r. rcp_id (f r) = rcp_id r \<and> is_refresh_receipt (f r) = is_refresh_receipt r
     \<and> (f r = r \<or> rcp_outcome (f r) \<noteq> None \<and> rcp_completed_at_ms (f r) \<noteq> None))"

lemma settlesD:
  assumes "settles f"
  shows "rcp_id (f r) = rcp_id r" "is_refresh_receipt (f r) = is_refresh_receipt r"
    "rcp_outcome (f r) = None \<Longrightarrow> f r = r" "f r \<noteq> r \<Longrightarrow> rcp_outcome (f r) \<noteq> None \<and> rcp_completed_at_ms (f r) \<noteq> None"
  using assms unfolding settles_def by metis+

lemma complete_receipt_settles:
  "settles (\<lambda>r. if P r then complete_receipt now oc st ra r else r)"
  by (simp add: settles_def complete_receipt_def Let_def is_refresh_receipt_def)

lemma cancel_receipt_settles:
  "settles (\<lambda>r. if P r then complete_receipt now oc (rcp_http_status r) (rcp_retry_after_seconds r) r else r)"
  by (simp add: settles_def complete_receipt_def Let_def is_refresh_receipt_def)

lemma receipts_wf_settles:
  assumes "settles f" "receipts_wf rs n"
  shows "receipts_wf (map f rs) n"
proof -
  have "(rcp_outcome (f r) = None) = (rcp_completed_at_ms (f r) = None)" if "r \<in> set rs" for r
    using settlesD(4) [OF assms(1), of r] assms(2) that by (cases "f r = r") (auto simp: receipts_wf_def)
  then show ?thesis
    using assms(2) by (simp add: receipts_wf_def settlesD(1) [OF assms(1)] comp_def)
qed

lemma bound_wf_settles: "settles f \<Longrightarrow> bound_wf rs bs \<Longrightarrow> bound_wf (map f rs) bs"
  unfolding bound_wf_def by (auto simp: settlesD(1,2) dest: settlesD(3))

lemma open_wf_settles: "settles f \<Longrightarrow> open_wf rs bs c \<Longrightarrow> open_wf (map f rs) bs c"
  unfolding open_wf_def by (fastforce simp: settlesD(1) dest: settlesD(3))

lemma chain_wf_filter: "chain_wf bs \<Longrightarrow> chain_wf (filter P bs)"
  by (auto simp: chain_wf_def intro: sorted_wrt_filter)

lemma store_wf_receipts:
  "store_wf s \<Longrightarrow> settles f \<Longrightarrow> store_wf (s\<lparr>s_receipts := map f (s_receipts s)\<rparr>)"
  by (simp add: store_wf_def receipts_wf_settles bound_wf_settles open_wf_settles current_generation_def)

lemma close_receipt_wf: "store_wf s \<Longrightarrow> store_wf (close_receipt now i oc st ra s)"
  unfolding close_receipt_def by (rule store_wf_receipts [OF _ complete_receipt_settles])

lemma cancel_all_started_wf: "store_wf s \<Longrightarrow> store_wf (cancel_all_started now s)"
  unfolding cancel_all_started_def by (rule store_wf_receipts [OF _ cancel_receipt_settles])

definition no_open :: "store \<Rightarrow> bool" where
  "no_open s \<longleftrightarrow> (\<forall>b\<in>set (s_bindings s). \<not> receipt_started s (bd_receipt_id b))"

lemma no_open_open_wf: "no_open s \<Longrightarrow> open_wf (s_receipts s) (s_bindings s) c"
  by (fastforce simp: no_open_def open_wf_def receipt_started_iff)

lemma pair_wf:
  assumes "store_wf s" "no_open s \<or> current_generation s = Option.bind p tk_generation"
  shows "store_wf (s\<lparr>s_pair := p\<rparr>)"
  using assms no_open_open_wf [of s] by (auto simp: store_wf_def current_generation_def)

lemma prune_wf:
  assumes "store_wf s"
  shows "store_wf (prune_expired_outbound_request_receipts now s)"
proof -
  define cut where "cut = saturating_sub now OUTBOUND_REQUEST_RETENTION_MS"
  define gone where "gone = rcp_id ` {r \<in> set (s_receipts s). receipt_expired s cut r}"
  let ?rs = "filter (\<lambda>r. \<not> receipt_expired s cut r) (s_receipts s)"
  let ?bs = "filter (\<lambda>b. bd_receipt_id b \<notin> gone) (s_bindings s)"
  have wf: "receipts_wf (s_receipts s) (s_last_receipt_id s)" "bound_wf (s_receipts s) (s_bindings s)"
    using assms by (auto simp: store_wf_def)
  have kept: "rcp_id r \<notin> gone" if "r \<in> set ?rs" for r
    using that receipts_wf_unique [OF wf(1)] by (auto simp: gone_def)
  have "receipts_wf ?rs (s_last_receipt_id s)"
    using wf(1) by (auto simp: receipts_wf_def distinct_map_filter)
  moreover have "bound_wf ?rs ?bs"
  proof -
    have "rcp_id r \<in> bd_receipt_id ` set ?bs"
      if r: "r \<in> set ?rs" "is_refresh_receipt r" "rcp_outcome r = None" for r
    proof -
      obtain b where "b \<in> set (s_bindings s)" "rcp_id r = bd_receipt_id b"
        using r wf(2) by (auto simp: bound_wf_def)
      then show ?thesis using kept [OF r(1)] by auto
    qed
    moreover have "\<exists>r\<in>set ?rs. rcp_id r = bd_receipt_id b \<and> is_refresh_receipt r" if b: "b \<in> set ?bs" for b
    proof -
      obtain r where r: "r \<in> set (s_receipts s)" "rcp_id r = bd_receipt_id b" "is_refresh_receipt r"
        using b wf(2) by (auto simp: bound_wf_def)
      then have "rcp_id r \<notin> gone" using b by simp
      then have "\<not> receipt_expired s cut r" using r(1) unfolding gone_def by blast
      then show ?thesis using r by auto
    qed
    ultimately show ?thesis unfolding bound_wf_def by blast
  qed
  moreover have "chain_wf ?bs" "fences_wf ?bs (s_fences s)" "open_wf ?rs ?bs (current_generation s)"
    using assms chain_wf_filter [of "s_bindings s"] by (auto simp: store_wf_def fences_wf_def open_wf_def)
  ultimately show ?thesis
    by (simp add: store_wf_def prune_expired_outbound_request_receipts_def Let_def current_generation_def
        cut_def gone_def)
qed

lemma prune_keeps [simp]:
  "s_pair (prune_expired_outbound_request_receipts now s) = s_pair s"
  "s_last_receipt_id (prune_expired_outbound_request_receipts now s) = s_last_receipt_id s"
  "s_fences (prune_expired_outbound_request_receipts now s) = s_fences s"
  "s_auth_row (prune_expired_outbound_request_receipts now s) = s_auth_row s"
  "current_generation (prune_expired_outbound_request_receipts now s) = current_generation s"
  by (simp_all add: prune_expired_outbound_request_receipts_def Let_def current_generation_def)

lemma prune_subset:
  "set (s_receipts (prune_expired_outbound_request_receipts now s)) \<subseteq> set (s_receipts s)"
  "set (s_bindings (prune_expired_outbound_request_receipts now s)) \<subseteq> set (s_bindings s)"
  by (auto simp: prune_expired_outbound_request_receipts_def Let_def)

lemma ensure_capacity_Inr:
  "ensure_outbound_request_capacity now s = Inr s' \<longleftrightarrow>
     s' = prune_expired_outbound_request_receipts now s
     \<and> outbound_request_capacity_consumers (prune_expired_outbound_request_receipts now s) < MAX_OUTBOUND_REQUEST_RECEIPTS"
  by (auto simp: ensure_outbound_request_capacity_def Let_def)

lemma close_receipt_fields [simp]:
  "s_pair (close_receipt now i oc st ra s) = s_pair s"
  "s_last_receipt_id (close_receipt now i oc st ra s) = s_last_receipt_id s"
  "s_bindings (close_receipt now i oc st ra s) = s_bindings s"
  "s_fences (close_receipt now i oc st ra s) = s_fences s"
  "current_generation (close_receipt now i oc st ra s) = current_generation s"
  by (simp_all add: close_receipt_def current_generation_def)

lemma close_receipt_started:
  "receipt_started (close_receipt now i oc st ra s) j \<longleftrightarrow> receipt_started s j \<and> j \<noteq> i"
  by (auto simp: receipt_started_iff close_receipt_def complete_receipt_def Let_def)

text \<open>Releasing the input of an attempt closes its receipt and deletes its binding and fence together.\<close>

definition release :: "int \<Rightarrow> nat \<Rightarrow> uuid \<Rightarrow> Outcome \<Rightarrow> nat option \<Rightarrow> int option \<Rightarrow> store \<Rightarrow> store" where
  "release now i g oc st ra s = close_receipt now i oc st ra (delete_fence g (delete_binding i g s))"

lemma release_fields [simp]:
  "s_pair (release now i g oc st ra s) = s_pair s"
  "s_last_receipt_id (release now i g oc st ra s) = s_last_receipt_id s"
  "s_bindings (release now i g oc st ra s) =
     filter (\<lambda>b. \<not> (bd_receipt_id b = i \<and> bd_input b = g)) (s_bindings s)"
  "s_fences (release now i g oc st ra s) = filter (\<lambda>x. x \<noteq> g) (s_fences s)"
  "current_generation (release now i g oc st ra s) = current_generation s"
  by (simp_all add: release_def delete_fence_def delete_binding_def current_generation_def)

lemma release_receipts: "s_receipts (release now i g oc st ra s) = s_receipts (close_receipt now i oc st ra s)"
  by (simp add: release_def delete_fence_def delete_binding_def close_receipt_def)

lemma release_wf:
  assumes "store_wf s" "attempt_bound s i g"
  shows "store_wf (release now i g oc st ra s)"
proof -
  let ?c = "close_receipt now i oc st ra s"
  let ?bs = "filter (\<lambda>b. \<not> (bd_receipt_id b = i \<and> bd_input b = g)) (s_bindings s)"
  obtain b0 where b0: "b0 \<in> set (s_bindings s)" "bd_receipt_id b0 = i" "bd_input b0 = g"
    using assms(2) by (auto simp: attempt_bound_iff)
  have c: "store_wf ?c" by (rule close_receipt_wf [OF assms(1)])
  have chain: "chain_wf (s_bindings s)" using assms(1) by (simp add: store_wf_def)
  have "bd_input b \<noteq> g" if "b \<in> set ?bs" for b
    using that chain_wf_unique [OF chain, of b b0] b0 by auto
  then have "fences_wf ?bs (filter (\<lambda>x. x \<noteq> g) (s_fences s))"
    using assms(1) by (auto simp: store_wf_def fences_wf_def)
  moreover have "bound_wf (s_receipts ?c) ?bs"
  proof -
    have "rcp_id r \<in> bd_receipt_id ` set ?bs"
      if r: "r \<in> set (s_receipts ?c)" "is_refresh_receipt r" "rcp_outcome r = None" for r
    proof -
      have "receipt_started ?c (rcp_id r)" using r by (auto simp: receipt_started_iff)
      then have "rcp_id r \<noteq> i" by (simp add: close_receipt_started)
      moreover obtain b where "b \<in> set (s_bindings s)" "rcp_id r = bd_receipt_id b"
        using c r by (auto simp: store_wf_def bound_wf_def)
      ultimately show ?thesis by auto
    qed
    then show ?thesis using c by (auto simp: store_wf_def bound_wf_def)
  qed
  ultimately show ?thesis
    using c chain_wf_filter [OF chain] by (simp add: store_wf_def release_receipts open_wf_def)
qed

section \<open>What each transaction commits\<close>

definition new_refresh_receipt :: "int \<Rightarrow> uuid \<Rightarrow> nat \<Rightarrow> Receipt" where
  "new_refresh_receipt now c i = \<lparr>rcp_id = i, rcp_correlation_id = c, rcp_started_at_ms = now,
     rcp_completed_at_ms = None, rcp_duration_ms = None, rcp_vehicle_tesla_id = None,
     rcp_transport = TR_LegacyAuth, rcp_operation = OP_TokenRefresh, rcp_safety_class = SC_NonWakeEndpoint,
     rcp_precondition = PC_NotRequired, rcp_outcome = None, rcp_http_status = None, rcp_retry_after_seconds = None\<rparr>"

definition new_binding :: "nat \<Rightarrow> uuid \<Rightarrow> uuid \<Rightarrow> Binding" where
  "new_binding i a g = \<lparr>bd_receipt_id = i, bd_attempt_id = a, bd_input = g, bd_output = None\<rparr>"

lemma begin_legacy_refresh_Inr:
  "begin_legacy_refresh now c a g s0 = Inr (i, s') \<longleftrightarrow>
     (let s = prune_expired_outbound_request_receipts now s0
      in g \<noteq> 0 \<and> current_generation s0 = Some g \<and> \<not> has_unresolved_legacy_refresh s0 \<and> \<not> is_fenced s0 g
         \<and> outbound_request_capacity_consumers s < MAX_OUTBOUND_REQUEST_RECEIPTS
         \<and> length (s_fences s0) < MAX_LEGACY_REFRESH_INPUT_FENCES
         \<and> (\<forall>b\<in>set (s_bindings s). bd_attempt_id b \<noteq> a)
         \<and> i = s_last_receipt_id s0 + 1
         \<and> s' = s\<lparr>s_receipts := s_receipts s @ [new_refresh_receipt now c i], s_last_receipt_id := i,
                  s_fences := s_fences s0 @ [g], s_bindings := s_bindings s @ [new_binding i a g]\<rparr>)"
  by (cases "ensure_outbound_request_capacity now s0")
     (auto simp: begin_legacy_refresh_def ensure_outbound_request_capacity_def Let_def list_ex_iff
        new_refresh_receipt_def new_binding_def split: if_splits)

lemma cancel_unsent_Inr:
  "cancel_unsent_legacy_refresh now i g s = Inr s' \<longleftrightarrow>
     attempt_bound s i g \<and> receipt_started s i \<and> s' = release now i g OC_Cancelled None None s"
  by (auto simp: cancel_unsent_legacy_refresh_def release_def)

lemma delete_after_close:
  "delete_fence g (delete_binding i g (close_receipt now i oc st ra s)) = release now i g oc st ra s"
  by (simp add: release_def delete_fence_def delete_binding_def close_receipt_def)

definition closing_admitted :: "Outcome \<Rightarrow> nat option \<Rightarrow> int option \<Rightarrow> bool" where
  "closing_admitted oc st ra \<longleftrightarrow>
     oc \<in> {OC_TransportError, OC_Timeout, OC_HttpError, OC_AuthenticationRejected, OC_Success}
     \<and> pred_option (\<lambda>n. 100 \<le> n \<and> n \<le> 599) st \<and> pred_option (\<lambda>n. n \<le> i64_max) ra"

lemma close_attempt_Inr:
  "close_legacy_refresh_attempt now i g oc st ra rel s = Inr s' \<longleftrightarrow>
     i \<noteq> 0 \<and> g \<noteq> 0 \<and> closing_admitted oc st ra \<and> attempt_bound s i g \<and> refresh_started s i
     \<and> s' = (if rel then release now i g oc st ra s else close_receipt now i oc st ra s)"
proof -
  have "closing_admitted oc st ra \<longleftrightarrow>
      oc \<in> {OC_TransportError, OC_Timeout, OC_HttpError, OC_AuthenticationRejected, OC_Success}
      \<and> \<not> (case st of None \<Rightarrow> False | Some st \<Rightarrow> \<not> (100 \<le> st \<and> st \<le> 599))
      \<and> \<not> (case ra of None \<Rightarrow> False | Some n \<Rightarrow> n > i64_max)"
    by (cases st; cases ra) (simp_all add: closing_admitted_def not_less)
  then show ?thesis
    unfolding close_legacy_refresh_attempt_def Let_def delete_after_close by (simp only: split: if_splits) auto
qed

lemma complete_unrotated_Inr:
  "complete_unrotated_legacy_refresh now i g t s = Inr s' \<longleftrightarrow>
     i \<noteq> 0 \<and> g \<noteq> 0 \<and> tk_generation t = Some g \<and> attempt_bound s i g \<and> refresh_started s i
     \<and> current_generation s = Some g
     \<and> s' = (release now i g OC_Success (Some 200) None s)\<lparr>s_pair := Some t\<rparr>"
  by (auto simp: complete_unrotated_legacy_refresh_def release_def delete_fence_def delete_binding_def
      close_receipt_def)

definition set_output :: "nat \<Rightarrow> uuid \<Rightarrow> Binding \<Rightarrow> Binding" where
  "set_output i h b = (if bd_receipt_id b = i \<and> bd_output b = None then b\<lparr>bd_output := Some h\<rparr> else b)"

lemma complete_Inr:
  "complete_legacy_refresh now i g h t s = Inr s' \<longleftrightarrow>
     i \<noteq> 0 \<and> g \<noteq> 0 \<and> h \<noteq> 0 \<and> g \<noteq> h \<and> tk_generation t = Some h \<and> stored_input s i = Some g
     \<and> current_generation s = Some g \<and> \<not> is_fenced s h \<and> (\<forall>b\<in>set (s_bindings s). bd_output b \<noteq> Some h)
     \<and> (\<exists>b\<in>set (s_bindings s). bd_receipt_id b = i \<and> bd_output b = None)
     \<and> s' = (close_receipt now i OC_Success (Some 200) None s)\<lparr>s_pair := Some t,
              s_bindings := map (set_output i h) (s_bindings s)\<rparr>"
  by (auto simp: complete_legacy_refresh_def list_ex_iff close_receipt_def set_output_def [abs_def])

lemma stored_input_Some:
  assumes "stored_input s i = Some g"
  shows "attempt_bound s i g" "receipt_started s i"
  using assms by (auto simp: stored_input_def attempt_bound_iff filter_eq_Cons_iff split: list.splits)

section \<open>Every transaction keeps the invariant\<close>

lemma bound_started:
  assumes "store_wf s" "attempt_bound s i g" "receipt_started s i"
  shows "refresh_started s i" "current_generation s = Some g"
    and "\<And>b. b \<in> set (s_bindings s) \<Longrightarrow> receipt_started s (bd_receipt_id b) \<Longrightarrow> bd_receipt_id b = i"
proof -
  obtain b where b: "b \<in> set (s_bindings s)" "bd_receipt_id b = i" "bd_input b = g"
    using assms(2) by (auto simp: attempt_bound_iff)
  obtain r where r: "r \<in> set (s_receipts s)" "rcp_id r = i" "rcp_outcome r = None"
    using assms(3) by (auto simp: receipt_started_iff)
  obtain r' where "r' \<in> set (s_receipts s)" "rcp_id r' = i" "is_refresh_receipt r'"
    using assms(1) b by (auto simp: store_wf_def bound_wf_def)
  moreover have "receipts_wf (s_receipts s) (s_last_receipt_id s)" using assms(1) by (simp add: store_wf_def)
  ultimately have "is_refresh_receipt r" using receipts_wf_unique [of _ _ r r'] r by metis
  then show "refresh_started s i" using r by (auto simp: refresh_started_iff)
  show cur: "current_generation s = Some g"
    using assms(1) b r by (auto simp: store_wf_def open_wf_def)
  fix b' assume b': "b' \<in> set (s_bindings s)" "receipt_started s (bd_receipt_id b')"
  then have "current_generation s = Some (bd_input b')"
    using assms(1) by (auto simp: store_wf_def open_wf_def receipt_started_iff)
  then have "bd_input b' = bd_input b" using cur b by simp
  moreover have "chain_wf (s_bindings s)" using assms(1) by (simp add: store_wf_def)
  ultimately have "b' = b" using chain_wf_unique b'(1) b(1) by blast
  then show "bd_receipt_id b' = i" using b by simp
qed

lemma has_unresolved_iff:
  assumes "store_wf s"
  shows "has_unresolved_legacy_refresh s \<longleftrightarrow> \<not> no_open s"
proof -
  have "refresh_started s (bd_receipt_id b) \<longleftrightarrow> receipt_started s (bd_receipt_id b)"
    if "b \<in> set (s_bindings s)" for b
    using bound_started(1) [OF assms, of "bd_receipt_id b" "bd_input b"] that
    by (auto simp: attempt_bound_iff intro: refresh_started_receipt_started)
  then show ?thesis by (auto simp: has_unresolved_legacy_refresh_def no_open_def list_ex_iff)
qed

lemma close_no_open:
  assumes "store_wf s" "attempt_bound s i g" "receipt_started s i"
  shows "no_open (close_receipt now i oc st ra s)"
  using bound_started(3) [OF assms] by (auto simp: no_open_def close_receipt_started)

lemma no_open_subset:
  "no_open s \<Longrightarrow> set (s_bindings s') \<subseteq> set (s_bindings s) \<Longrightarrow> set (s_receipts s') \<subseteq> set (s_receipts s) \<Longrightarrow> no_open s'"
  by (auto simp: no_open_def receipt_started_iff subset_iff)

lemma begin_wf:
  assumes "store_wf s" "begin_legacy_refresh now c a g s = Inr (i, s')"
  shows "store_wf s'"
proof -
  let ?p = "prune_expired_outbound_request_receipts now s"
  have p: "store_wf ?p" by (rule prune_wf [OF assms(1)])
  have pre: "g \<noteq> 0" "current_generation s = Some g" "\<not> has_unresolved_legacy_refresh s" "g \<notin> set (s_fences s)"
    "i = s_last_receipt_id s + 1"
    and s': "s' = ?p\<lparr>s_receipts := s_receipts ?p @ [new_refresh_receipt now c i], s_last_receipt_id := i,
        s_fences := s_fences s @ [g], s_bindings := s_bindings ?p @ [new_binding i a g]\<rparr>"
    using assms(2) by (simp_all add: begin_legacy_refresh_Inr Let_def is_fenced_def)
  have "no_open s" using pre(3) has_unresolved_iff [OF assms(1)] by simp
  then have no: "no_open ?p" by (rule no_open_subset) (rule prune_subset)+
  have ids: "\<forall>r\<in>set (s_receipts ?p). rcp_id r < i" using p pre(5) by (auto simp: store_wf_def receipts_wf_def)
  then have bids: "\<forall>b\<in>set (s_bindings ?p). bd_receipt_id b < i"
    using p by (fastforce simp: store_wf_def bound_wf_def)
  have "receipts_wf (s_receipts s') i"
    using p ids pre(5) by (auto simp: s' store_wf_def receipts_wf_def new_refresh_receipt_def less_imp_le)
  moreover have "bound_wf (s_receipts s') (s_bindings s')"
    using p by (auto simp: s' store_wf_def bound_wf_def new_refresh_receipt_def new_binding_def is_refresh_receipt_def)
  moreover have "chain_wf (s_bindings s')"
    using p bids pre(4) unfolding s' store_wf_def chain_wf_def fences_wf_def
    by (auto simp: sorted_wrt_append follows_def new_binding_def)
  moreover have "fences_wf (s_bindings s') (s_fences s')"
    using p pre(1,4) by (auto simp: s' store_wf_def fences_wf_def new_binding_def)
  moreover have "open_wf (s_receipts s') (s_bindings s') (Some g)"
    using no_open_open_wf [OF no, of "Some g"] ids bids
    by (auto simp: s' open_wf_def new_refresh_receipt_def new_binding_def)
  moreover have "current_generation s' = Some g" using pre(2) by (simp add: s' current_generation_def)
  ultimately show ?thesis by (simp add: store_wf_def s')
qed

lemma set_output_simps [simp]:
  "bd_receipt_id (set_output i h b) = bd_receipt_id b" "bd_input (set_output i h b) = bd_input b"
  "bd_output (set_output i h b) = (if bd_receipt_id b = i \<and> bd_output b = None then Some h else bd_output b)"
  by (simp_all add: set_output_def)

lemma set_output_chain:
  assumes "chain_wf bs" "\<forall>b\<in>set bs. bd_input b \<noteq> h" "\<forall>b\<in>set bs. bd_output b \<noteq> Some h"
  shows "chain_wf (map (set_output i h) bs)"
proof -
  have "sorted_wrt (\<lambda>b b'. follows (set_output i h b) (set_output i h b')) bs"
  proof (rule sorted_wrt_mono_rel)
    show "sorted_wrt follows bs" using assms(1) by (simp add: chain_wf_def)
    fix b b' assume "b \<in> set bs" "b' \<in> set bs" "follows b b'"
    then show "follows (set_output i h b) (set_output i h b')"
      using assms(2,3) unfolding follows_def set_output_simps by (metis less_irrefl option.inject option.distinct(1))
  qed
  moreover have "bd_output (set_output i h b) \<noteq> Some (bd_input b)" if "b \<in> set bs" for b
    using that assms by (auto simp: chain_wf_def)
  ultimately show ?thesis by (simp add: chain_wf_def sorted_wrt_map)
qed

lemma complete_wf:
  assumes "store_wf s" "complete_legacy_refresh now i g h t s = Inr s'"
  shows "store_wf s'"
proof -
  let ?c = "close_receipt now i OC_Success (Some 200) None s"
  note pre = assms(2) [unfolded complete_Inr]
  have at: "attempt_bound s i g" "receipt_started s i" using pre stored_input_Some by blast+
  have c: "store_wf ?c" "no_open ?c"
    using close_receipt_wf [OF assms(1)] close_no_open [OF assms(1) at] by auto
  have "bd_input b \<noteq> h" if "b \<in> set (s_bindings s)" for b
    using that pre assms(1) by (auto simp: store_wf_def fences_wf_def is_fenced_def)
  then have "chain_wf (map (set_output i h) (s_bindings s))"
    using pre assms(1) by (intro set_output_chain) (auto simp: store_wf_def)
  moreover have "open_wf (s_receipts ?c) (map (set_output i h) (s_bindings s)) (Some h)"
    using c(2) by (fastforce simp: open_wf_def no_open_def receipt_started_iff simp del: set_output_simps(3))
  moreover have "bound_wf (s_receipts ?c) (map (set_output i h) (s_bindings s))"
    using c(1) by (simp add: store_wf_def bound_wf_def image_image)
  ultimately show ?thesis
    using c(1) pre by (simp add: store_wf_def fences_wf_def image_image current_generation_def)
qed

lemma cancel_unsent_wf: "store_wf s \<Longrightarrow> cancel_unsent_legacy_refresh now i g s = Inr s' \<Longrightarrow> store_wf s'"
  by (auto simp: cancel_unsent_Inr intro: release_wf)

lemma close_attempt_wf:
  "store_wf s \<Longrightarrow> close_legacy_refresh_attempt now i g oc st ra rel s = Inr s' \<Longrightarrow> store_wf s'"
  by (auto simp: close_attempt_Inr intro: release_wf close_receipt_wf)

lemma complete_unrotated_wf:
  "store_wf s \<Longrightarrow> complete_unrotated_legacy_refresh now i g t s = Inr s' \<Longrightarrow> store_wf s'"
  by (auto simp: complete_unrotated_Inr intro!: pair_wf release_wf)

lemma unresolved_inputs_Nil: "unresolved_inputs s = [] \<longleftrightarrow> no_open s"
  by (auto simp: unresolved_inputs_def no_open_def filter_empty_conv)

lemma cancel_all_no_open: "no_open (cancel_all_started now s)"
  by (auto simp: no_open_def receipt_started_iff cancel_all_started_def complete_receipt_def Let_def)

lemma cancel_all_fields [simp]:
  "s_pair (cancel_all_started now s) = s_pair s"
  "s_last_receipt_id (cancel_all_started now s) = s_last_receipt_id s"
  "s_bindings (cancel_all_started now s) = s_bindings s"
  "s_fences (cancel_all_started now s) = s_fences s"
  by (simp_all add: cancel_all_started_def)

lemma replace_Inr:
  assumes "replace_teslamate_legacy_tokens now t s = Inr s'"
  shows "\<exists>s1. s' = s1\<lparr>s_pair := Some t\<rparr> \<and> (s1 = s \<and> no_open s \<or> s1 = cancel_all_started now s)"
    and "\<forall>g. tk_generation t = Some g \<longrightarrow> \<not> is_fenced s g"
  using assms by (auto simp: replace_teslamate_legacy_tokens_def Let_def unresolved_inputs_Nil split: if_splits option.splits)

lemma replace_wf:
  assumes "store_wf s" "replace_teslamate_legacy_tokens now t s = Inr s'"
  shows "store_wf s'"
proof -
  obtain s1 where s1: "s' = s1\<lparr>s_pair := Some t\<rparr>" "s1 = s \<and> no_open s \<or> s1 = cancel_all_started now s"
    using replace_Inr(1) [OF assms(2)] by blast
  then have "store_wf s1" "no_open s1" using assms(1) cancel_all_started_wf cancel_all_no_open by auto
  then show ?thesis unfolding s1(1) by (intro pair_wf) auto
qed

lemma clear_wf: "store_wf s \<Longrightarrow> store_wf (clear_teslamate_legacy_tokens now s)"
  unfolding clear_teslamate_legacy_tokens_def
  by (intro pair_wf disjI1 cancel_all_started_wf cancel_all_no_open)

lemma bind_Inr:
  assumes "bind_teslamate_legacy_credential_generation t g s = Inr s'"
  shows "s' = s \<or> (\<exists>row. s_pair s = Some row \<and> tk_generation row = None
           \<and> s' = s\<lparr>s_pair := Some (row\<lparr>tk_generation := Some g\<rparr>)\<rparr>)"
  using assms by (auto simp: bind_teslamate_legacy_credential_generation_def split: if_splits option.splits)

lemma bind_wf:
  assumes "store_wf s" "bind_teslamate_legacy_credential_generation t g s = Inr s'"
  shows "store_wf s'"
proof (cases "s' = s")
  case False
  then obtain row where row: "s_pair s = Some row" "tk_generation row = None"
    and s': "s' = s\<lparr>s_pair := Some (row\<lparr>tk_generation := Some g\<rparr>)\<rparr>" using bind_Inr [OF assms(2)] by blast
  then have "current_generation s = None" by (simp add: current_generation_def)
  then have "no_open s"
    using assms(1) by (auto simp: no_open_def store_wf_def open_wf_def receipt_started_iff)
  then show ?thesis unfolding s' using assms(1) by (intro pair_wf) auto
qed (use assms(1) in simp)

lemma if_Some_eq_None: "(if P then Some e else X) = None \<longleftrightarrow> \<not> P \<and> X = None"
  by simp

lemma outbound_start_valid_iff:
  "outbound_start_validate q = None \<longleftrightarrow>
     ors_correlation_id q \<noteq> 0 \<and> pred_option (\<lambda>i. 0 < i) (ors_vehicle_tesla_id q)
     \<and> \<not> (ors_transport q = TR_LegacyAuth \<and> ors_operation q = OP_TokenRefresh)
     \<and> (ors_operation q = OP_VehicleData \<longrightarrow>
          ors_safety_class q = SC_ConditionalRead \<and> ors_precondition q = PC_StreamPowerConfirmed)
     \<and> (ors_operation q = OP_VehicleWake \<longrightarrow> ors_vehicle_tesla_id q \<noteq> None
          \<and> ors_safety_class q = SC_DirectWakeCommand \<and> ors_precondition q = PC_NotRequired)
     \<and> (ors_operation q = OP_VehicleCommand \<longrightarrow> ors_vehicle_tesla_id q \<noteq> None
          \<and> ors_safety_class q = SC_ExplicitVehicleCommand \<and> ors_precondition q = PC_NotRequired)"
proof -
  have v: "\<not> (case v of None \<Rightarrow> False | Some i \<Rightarrow> i \<le> 0) \<longleftrightarrow> pred_option (\<lambda>i. 0 < i) v" for v :: "int option"
    by (cases v) auto
  show ?thesis unfolding outbound_start_validate_def if_Some_eq_None v by argo
qed

lemma begin_outbound_Inr:
  assumes "begin_outbound_request now q s = Inr (i, s')"
  obtains r where "s' = (prune_expired_outbound_request_receipts now s)\<lparr>s_receipts :=
        s_receipts (prune_expired_outbound_request_receipts now s) @ [r], s_last_receipt_id := i\<rparr>"
    "i = s_last_receipt_id s + 1" "rcp_id r = i" "rcp_outcome r = None" "rcp_completed_at_ms r = None"
    "rcp_transport r = ors_transport q" "rcp_operation r = ors_operation q"
    "rcp_safety_class r = ors_safety_class q" "rcp_precondition r = ors_precondition q"
    "rcp_vehicle_tesla_id r = ors_vehicle_tesla_id q" "outbound_start_validate q = None"
proof -
  have v: "outbound_start_validate q = None"
    using assms by (cases "outbound_start_validate q") (simp_all add: begin_outbound_request_def)
  obtain s1 where s1: "ensure_outbound_request_capacity now s = Inr s1"
    using assms v by (cases "ensure_outbound_request_capacity now s") (simp_all add: begin_outbound_request_def)
  then have e: "s1 = prune_expired_outbound_request_receipts now s" by (simp add: ensure_capacity_Inr)
  show thesis
    by (rule that [of "last (s_receipts s')"])
       (use assms v s1 in \<open>auto simp: begin_outbound_request_def Let_def e\<close>)
qed

lemma begin_outbound_wf:
  assumes "store_wf s" "begin_outbound_request now q s = Inr (i, s')"
  shows "store_wf s'"
proof -
  let ?p = "prune_expired_outbound_request_receipts now s"
  have p: "store_wf ?p" by (rule prune_wf [OF assms(1)])
  obtain r where r: "s' = ?p\<lparr>s_receipts := s_receipts ?p @ [r], s_last_receipt_id := i\<rparr>"
    "i = s_last_receipt_id s + 1" "rcp_id r = i" "rcp_outcome r = None" "rcp_completed_at_ms r = None"
    "\<not> is_refresh_receipt r"
    by (rule begin_outbound_Inr [OF assms(2)])
       (simp add: is_refresh_receipt_def outbound_start_valid_iff)
  have ids: "\<forall>r\<in>set (s_receipts ?p). rcp_id r < i" using p r(2) by (auto simp: store_wf_def receipts_wf_def)
  then have bids: "\<forall>b\<in>set (s_bindings ?p). bd_receipt_id b < i"
    using p by (fastforce simp: store_wf_def bound_wf_def)
  have "receipts_wf (s_receipts s') i"
    using p ids r(2-5) by (auto simp: r(1) store_wf_def receipts_wf_def less_imp_le)
  moreover have "bound_wf (s_receipts s') (s_bindings s')"
    using p r(6) by (auto simp: r(1) store_wf_def bound_wf_def)
  moreover have "open_wf (s_receipts s') (s_bindings s') (current_generation s')"
    using p bids r(3) by (auto simp: r(1) store_wf_def open_wf_def current_generation_def)
  ultimately show ?thesis using p by (simp add: store_wf_def r(1))
qed

lemma complete_outbound_Inr:
  "complete_outbound_request now i c s = Inr s' \<Longrightarrow>
     i \<notin> bd_receipt_id ` set (s_bindings s) \<and> i \<notin> set (s_fleet_bound s) \<and> receipt_started s i
     \<and> s' = prune_expired_outbound_request_receipts now
             (close_receipt now i (orc_outcome c) (orc_http_status c) (orc_retry_after_seconds c) s)"
  by (auto simp: complete_outbound_request_def split: option.splits if_splits)

lemma complete_outbound_wf: "store_wf s \<Longrightarrow> complete_outbound_request now i c s = Inr s' \<Longrightarrow> store_wf s'"
  by (auto dest!: complete_outbound_Inr intro!: prune_wf close_receipt_wf)

lemma auth_row_wf: "store_wf s \<Longrightarrow> store_wf (s\<lparr>s_auth_row := x\<rparr>)"
  by (simp add: store_wf_def current_generation_def)

end
