(* ===== verification/Fence_Safety.thy ===== *)
theory Fence_Safety
  imports Fence_Invariant
begin

text \<open>
  The single-use guarantee of the refresh fence. The interface \<open>fence_provider\<close> states what the
  refresh unit relies on: a reservation needs an unfenced generation, only the holder of a
  binding releases its generation, everything else keeps the fences. It is interpreted on the
  transactions of the store. The step system of attempts over the store then shows that a
  generation that was presented is never presented again unless the service's own answer
  released it, across crashes, restarts, lost replies of the store and external writes.
\<close>

section \<open>The interface\<close>

locale fence_provider =
  fixes wf :: "'s \<Rightarrow> bool"
    and fenced :: "'s \<Rightarrow> uuid \<Rightarrow> bool"
    and bound :: "'s \<Rightarrow> nat \<Rightarrow> uuid \<Rightarrow> bool"
    and issued :: "'s \<Rightarrow> nat \<Rightarrow> bool"
    and reserves :: "nat \<Rightarrow> uuid \<Rightarrow> 's \<Rightarrow> 's \<Rightarrow> bool"
    and releases :: "nat \<Rightarrow> uuid \<Rightarrow> 's \<Rightarrow> 's \<Rightarrow> bool"
    and keeps :: "'s \<Rightarrow> 's \<Rightarrow> bool"
  assumes reserves_wf: "wf s \<Longrightarrow> reserves i g s s' \<Longrightarrow> wf s'"
    and releases_wf: "wf s \<Longrightarrow> releases i g s s' \<Longrightarrow> wf s'"
    and keeps_wf: "wf s \<Longrightarrow> keeps s s' \<Longrightarrow> wf s'"
    and bound_issued: "wf s \<Longrightarrow> bound s i g \<Longrightarrow> issued s i"
    and bound_fenced: "wf s \<Longrightarrow> bound s i g \<Longrightarrow> fenced s g"
    and reserves_fresh: "wf s \<Longrightarrow> reserves i g s s' \<Longrightarrow> \<not> fenced s g \<and> \<not> issued s i"
    and reserves_fenced: "wf s \<Longrightarrow> reserves i g s s' \<Longrightarrow> fenced s' h \<longleftrightarrow> fenced s h \<or> h = g"
    and reserves_bound: "wf s \<Longrightarrow> reserves i g s s' \<Longrightarrow> bound s' j h \<Longrightarrow> bound s j h \<or> j = i \<and> h = g"
    and reserves_issued: "wf s \<Longrightarrow> reserves i g s s' \<Longrightarrow> issued s j \<or> j = i \<Longrightarrow> issued s' j"
    and releases_own: "wf s \<Longrightarrow> releases i g s s' \<Longrightarrow> bound s i g"
    and releases_fenced: "wf s \<Longrightarrow> releases i g s s' \<Longrightarrow> fenced s' h \<longleftrightarrow> fenced s h \<and> h \<noteq> g"
    and releases_bound: "wf s \<Longrightarrow> releases i g s s' \<Longrightarrow> bound s' j h \<Longrightarrow> bound s j h"
    and releases_issued: "wf s \<Longrightarrow> releases i g s s' \<Longrightarrow> issued s j \<Longrightarrow> issued s' j"
    and keeps_fenced: "wf s \<Longrightarrow> keeps s s' \<Longrightarrow> fenced s' h \<longleftrightarrow> fenced s h"
    and keeps_bound: "wf s \<Longrightarrow> keeps s s' \<Longrightarrow> bound s' j h \<Longrightarrow> bound s j h"
    and keeps_issued: "wf s \<Longrightarrow> keeps s s' \<Longrightarrow> issued s j \<Longrightarrow> issued s' j"
begin

text \<open>Attempt \<open>i\<close> holds generation \<open>g\<close>: it is fenced, and nobody else can release it.\<close>

definition held :: "'s \<Rightarrow> nat \<Rightarrow> uuid \<Rightarrow> bool" where
  "held s i g \<longleftrightarrow> fenced s g \<and> (\<forall>j. bound s j g \<longrightarrow> j = i)"

lemma held_reserve_new: "wf s \<Longrightarrow> reserves i g s s' \<Longrightarrow> held s' i g"
  unfolding held_def using reserves_fenced [of s i g s'] reserves_bound [of s i g s'] reserves_fresh [of s i g s'] bound_fenced [of s] by blast

lemma held_reserve_other: "wf s \<Longrightarrow> reserves i g s s' \<Longrightarrow> held s j h \<Longrightarrow> held s' j h"
  unfolding held_def using reserves_fenced [of s i g s'] reserves_bound [of s i g s'] reserves_fresh [of s i g s'] by blast

lemma held_release: "wf s \<Longrightarrow> releases i g s s' \<Longrightarrow> held s j h \<Longrightarrow> (j, h) \<noteq> (i, g) \<Longrightarrow> held s' j h"
  unfolding held_def using releases_fenced [of s i g s'] releases_bound [of s i g s'] releases_own [of s i g s'] by blast

lemma held_keep: "wf s \<Longrightarrow> keeps s s' \<Longrightarrow> held s j h \<Longrightarrow> held s' j h"
  unfolding held_def using keeps_fenced [of s s'] keeps_bound [of s s'] by blast

lemma held_not_reserved: "wf s \<Longrightarrow> held s i g \<Longrightarrow> \<not> reserves j g s s'"
  unfolding held_def using reserves_fresh [of s j g s'] by blast

end

section \<open>The transactions as moves\<close>

definition issued :: "store \<Rightarrow> nat \<Rightarrow> bool" where
  "issued s i \<longleftrightarrow> i \<le> s_last_receipt_id s"

inductive reserves :: "nat \<Rightarrow> uuid \<Rightarrow> store \<Rightarrow> store \<Rightarrow> bool" where
  reserves_begin: "begin_legacy_refresh now c a g s = Inr (i, s') \<Longrightarrow> reserves i g s s'"

inductive releases :: "nat \<Rightarrow> uuid \<Rightarrow> store \<Rightarrow> store \<Rightarrow> bool" where
  releases_cancel: "cancel_unsent_legacy_refresh now i g s = Inr s' \<Longrightarrow> releases i g s s'"
| releases_close: "close_legacy_refresh_attempt now i g oc st ra True s = Inr s' \<Longrightarrow> releases i g s s'"
| releases_unrotated: "complete_unrotated_legacy_refresh now i g t s = Inr s' \<Longrightarrow> releases i g s s'"

inductive keeps :: "store \<Rightarrow> store \<Rightarrow> bool" where
  keeps_complete: "complete_legacy_refresh now i g h t s = Inr s' \<Longrightarrow> keeps s s'"
| keeps_close: "close_legacy_refresh_attempt now i g oc st ra False s = Inr s' \<Longrightarrow> keeps s s'"
| keeps_replace: "replace_teslamate_legacy_tokens now t s = Inr s' \<Longrightarrow> keeps s s'"
| keeps_bind: "bind_teslamate_legacy_credential_generation t g s = Inr s' \<Longrightarrow> keeps s s'"
| keeps_clear: "keeps s (clear_teslamate_legacy_tokens now s)"
| keeps_ledger_begin: "begin_outbound_request now q s = Inr (i, s') \<Longrightarrow> keeps s s'"
| keeps_ledger_complete: "complete_outbound_request now i c s = Inr s' \<Longrightarrow> keeps s s'"
| keeps_status: "write_collector_auth_row row now s = Inr (b, s') \<Longrightarrow> keeps s s'"
| keeps_digest: "fill_collector_auth_rejected_access_digest p n go d s = Inr s' \<Longrightarrow> keeps s s'"
| keeps_lift: "lift_collector_auth_refusal_in_transaction now s = (b, s') \<Longrightarrow> keeps s s'"

inductive_cases reservesE: "reserves i g s s'"
inductive_cases releasesE: "releases i g s s'"
inductive_cases keepsE: "keeps s s'"

lemma write_status_Inr:
  "write_collector_auth_row row now s = Inr (b, s') \<Longrightarrow> s' = s \<or> s' = s\<lparr>s_auth_row := Some (row, now)\<rparr>"
  by (auto simp: write_collector_auth_row_def split: if_splits)

lemma fill_digest_Inr:
  "fill_collector_auth_rejected_access_digest p n go d s = Inr s' \<Longrightarrow> \<exists>x. s' = s\<lparr>s_auth_row := x\<rparr>"
  by (auto simp: fill_collector_auth_rejected_access_digest_def split: if_splits option.splits prod.splits)

lemma lift_refusal_Inr:
  "lift_collector_auth_refusal_in_transaction now s = (b, s') \<Longrightarrow> s' = s \<or> (\<exists>x. s' = s\<lparr>s_auth_row := x\<rparr>)"
  by (auto simp: lift_collector_auth_refusal_in_transaction_def split: if_splits option.splits)

lemma reserves_effect:
  assumes "store_wf s" "reserves i g s s'"
  shows "store_wf s'" "g \<notin> set (s_fences s)" "i = s_last_receipt_id s + 1" "s_last_receipt_id s' = i"
    "set (s_fences s') = insert g (set (s_fences s))"
    "attempt_bound s' j h \<Longrightarrow> attempt_bound s j h \<or> j = i \<and> h = g" "attempt_bound s' i g"
proof -
  obtain now c a where b: "begin_legacy_refresh now c a g s = Inr (i, s')" using assms(2) by (auto elim: reservesE)
  then show "store_wf s'" by (rule begin_wf [OF assms(1)])
  show "g \<notin> set (s_fences s)" "i = s_last_receipt_id s + 1" "s_last_receipt_id s' = i"
    "set (s_fences s') = insert g (set (s_fences s))" "attempt_bound s' i g"
    using b by (auto simp: begin_legacy_refresh_Inr Let_def is_fenced_def attempt_bound_iff new_binding_def)
  have "set (s_bindings s') \<subseteq> insert (new_binding i a g) (set (s_bindings s))"
    using b prune_subset(2) [of now s] by (auto simp: begin_legacy_refresh_Inr Let_def)
  then show "attempt_bound s' j h \<Longrightarrow> attempt_bound s j h \<or> j = i \<and> h = g"
    by (auto simp: attempt_bound_iff new_binding_def)
qed

lemma releases_release:
  assumes "releases i g s s'"
  shows "attempt_bound s i g \<and> receipt_started s i
    \<and> (\<exists>now oc st ra p. s' = (release now i g oc st ra s)\<lparr>s_pair := p\<rparr>)"
proof -
  have same: "\<exists>now oc st ra p. release now i g oc st ra s = (release now i g oc st ra s)\<lparr>s_pair := p\<rparr>
      \<and> s' = (release now i g oc st ra s)\<lparr>s_pair := p\<rparr>" if "s' = release now i g oc st ra s" for now oc st ra
    by (rule exI [of _ now], rule exI [of _ oc], rule exI [of _ st], rule exI [of _ ra], rule exI [of _ "s_pair s'"])
       (simp add: that)
  show ?thesis using assms
  proof (cases rule: releases.cases)
    case (releases_cancel now)
    then show ?thesis using same by (simp add: cancel_unsent_Inr) blast
  next
    case (releases_close now oc st ra)
    then show ?thesis using same by (simp add: close_attempt_Inr refresh_started_receipt_started) blast
  next
    case (releases_unrotated now t)
    then show ?thesis by (simp add: complete_unrotated_Inr refresh_started_receipt_started) blast
  qed
qed

lemma releases_effect:
  assumes "store_wf s" "releases i g s s'"
  shows "store_wf s'" "attempt_bound s i g" "s_last_receipt_id s' = s_last_receipt_id s"
    "set (s_fences s') = set (s_fences s) - {g}" "attempt_bound s' j h \<Longrightarrow> attempt_bound s j h"
proof -
  show "store_wf s'" using assms(2,1)
    by (cases rule: releases.cases) (auto intro: cancel_unsent_wf close_attempt_wf complete_unrotated_wf)
  obtain now oc st ra p where "s' = (release now i g oc st ra s)\<lparr>s_pair := p\<rparr>" "attempt_bound s i g"
    using releases_release [OF assms(2)] by blast
  then show "attempt_bound s i g" "s_last_receipt_id s' = s_last_receipt_id s"
    "set (s_fences s') = set (s_fences s) - {g}" "attempt_bound s' j h \<Longrightarrow> attempt_bound s j h"
    by (auto simp: attempt_bound_iff)
qed

lemma keeps_effect:
  assumes "store_wf s" "keeps s s'"
  shows "store_wf s'" "s_fences s' = s_fences s" "s_last_receipt_id s \<le> s_last_receipt_id s'"
    "attempt_bound s' j h \<Longrightarrow> attempt_bound s j h"
proof -
  have "store_wf s' \<and> s_fences s' = s_fences s \<and> s_last_receipt_id s \<le> s_last_receipt_id s'
     \<and> (attempt_bound s' j h \<longrightarrow> attempt_bound s j h)"
    using assms(2)
  proof (cases rule: keeps.cases)
    case (keeps_complete now i g hh t)
    then show ?thesis using complete_wf [OF assms(1) keeps_complete]
      by (auto simp: complete_Inr attempt_bound_iff)
  next
    case (keeps_close now i g oc st ra)
    then show ?thesis using close_attempt_wf [OF assms(1) keeps_close]
      by (auto simp: close_attempt_Inr attempt_bound_iff)
  next
    case (keeps_replace now t)
    then show ?thesis using replace_wf [OF assms(1) keeps_replace] replace_Inr(1) [OF keeps_replace]
      by (auto simp: attempt_bound_iff)
  next
    case (keeps_bind t g)
    then show ?thesis using bind_wf [OF assms(1) keeps_bind] bind_Inr [OF keeps_bind]
      by (auto simp: attempt_bound_iff)
  next
    case (keeps_clear now)
    then show ?thesis using clear_wf [OF assms(1)]
      by (auto simp: clear_teslamate_legacy_tokens_def attempt_bound_iff)
  next
    case (keeps_ledger_begin now q i)
    then show ?thesis using begin_outbound_wf [OF assms(1) keeps_ledger_begin] prune_subset(2) [of now s]
      by (auto elim!: begin_outbound_Inr simp: attempt_bound_iff)
  next
    case (keeps_ledger_complete now i c)
    then show ?thesis
      using complete_outbound_wf [OF assms(1) keeps_ledger_complete] complete_outbound_Inr [OF keeps_ledger_complete]
        prune_subset(2) [of now "close_receipt now i (orc_outcome c) (orc_http_status c) (orc_retry_after_seconds c) s"]
      by (auto simp: attempt_bound_iff)
  next
    case (keeps_status row now b)
    then show ?thesis using write_status_Inr [OF keeps_status] assms(1)
      by (auto simp: auth_row_wf attempt_bound_iff)
  next
    case (keeps_digest p n go d)
    then show ?thesis using fill_digest_Inr [OF keeps_digest] assms(1)
      by (auto simp: auth_row_wf attempt_bound_iff)
  next
    case (keeps_lift now b)
    then show ?thesis using lift_refusal_Inr [OF keeps_lift] assms(1)
      by (auto simp: auth_row_wf attempt_bound_iff)
  qed
  then show "store_wf s'" "s_fences s' = s_fences s" "s_last_receipt_id s \<le> s_last_receipt_id s'"
    "attempt_bound s' j h \<Longrightarrow> attempt_bound s j h" by auto
qed

lemma bound_issued: "store_wf s \<Longrightarrow> attempt_bound s i g \<Longrightarrow> issued s i"
  by (fastforce simp: issued_def attempt_bound_iff store_wf_def bound_wf_def receipts_wf_def)

lemma bound_fenced: "store_wf s \<Longrightarrow> attempt_bound s i g \<Longrightarrow> is_fenced s g"
  by (auto simp: is_fenced_def attempt_bound_iff store_wf_def fences_wf_def)

interpretation fp: fence_provider store_wf is_fenced attempt_bound issued reserves releases keeps
proof (unfold_locales, goal_cases)
  case (6 s i g s') then show ?case using reserves_effect(2,3) [OF 6] by (simp add: is_fenced_def issued_def)
next
  case (7 s i g s' h) then show ?case using reserves_effect(5) [OF 7] by (auto simp: is_fenced_def)
next
  case (9 s i g s' j) then show ?case using reserves_effect(3,4) [OF 9(1,2)] by (auto simp: issued_def)
next
  case (11 s i g s' h) then show ?case using releases_effect(4) [OF 11] by (auto simp: is_fenced_def)
next
  case (13 s i g s' j) then show ?case using releases_effect(3) [OF 13(1,2)] by (simp add: issued_def)
next
  case (14 s s' h) then show ?case using keeps_effect(2) [OF 14] by (simp add: is_fenced_def)
next
  case (16 s s' j) then show ?case using keeps_effect(3) [OF 16(1,2)] by (simp add: issued_def)
qed (fact reserves_effect(1) releases_effect(1) keeps_effect(1) bound_issued bound_fenced reserves_effect(6)
       releases_effect(2) releases_effect(5) keeps_effect(4))+

section \<open>Attempts over the store\<close>

text \<open>
  An attempt is reserved, then presented or found unsent; the answer of the service either
  releases its generation (it says that the token was not consumed) or leaves it spent. The
  log records the presentations and the releasing answers, newest first.
\<close>

datatype phase = Reserved | Unsent | Sent | Releasable | Spent

datatype event = Presented nat uuid | Released nat uuid

record system =
  sy_store :: store
  sy_attempts :: "nat \<Rightarrow> (uuid \<times> phase) option"
  sy_log :: "event list"

definition system_init :: system where
  "system_init = \<lparr>sy_store = empty_store, sy_attempts = Map.empty, sy_log = []\<rparr>"

inductive system_step :: "system \<Rightarrow> system \<Rightarrow> bool" where
  step_reserve: "reserves i g (sy_store y) s' \<Longrightarrow>
     system_step y (y\<lparr>sy_store := s', sy_attempts := (sy_attempts y)(i \<mapsto> (g, Reserved))\<rparr>)"
| step_reserve_lost: "reserves i g (sy_store y) s' \<Longrightarrow> system_step y (y\<lparr>sy_store := s'\<rparr>)"
| step_unsent: "sy_attempts y i = Some (g, Reserved) \<Longrightarrow>
     system_step y (y\<lparr>sy_attempts := (sy_attempts y)(i \<mapsto> (g, Unsent))\<rparr>)"
| step_present: "sy_attempts y i = Some (g, Reserved) \<Longrightarrow>
     system_step y (y\<lparr>sy_attempts := (sy_attempts y)(i \<mapsto> (g, Sent)), sy_log := Presented i g # sy_log y\<rparr>)"
| step_answer_releases: "sy_attempts y i = Some (g, Sent) \<Longrightarrow>
     system_step y (y\<lparr>sy_attempts := (sy_attempts y)(i \<mapsto> (g, Releasable)), sy_log := Released i g # sy_log y\<rparr>)"
| step_answer_spends: "sy_attempts y i = Some (g, Sent) \<Longrightarrow>
     system_step y (y\<lparr>sy_attempts := (sy_attempts y)(i \<mapsto> (g, Spent))\<rparr>)"
| step_release: "sy_attempts y i = Some (g, ph) \<Longrightarrow> ph \<in> {Unsent, Releasable} \<Longrightarrow> releases i g (sy_store y) s' \<Longrightarrow>
     system_step y (y\<lparr>sy_store := s'\<rparr>)"
| step_keep: "keeps (sy_store y) s' \<Longrightarrow> system_step y (y\<lparr>sy_store := s'\<rparr>)"
| step_drop: "system_step y (y\<lparr>sy_attempts := (sy_attempts y)(i := None)\<rparr>)"
| step_crash: "system_step y (y\<lparr>sy_attempts := Map.empty\<rparr>)"

fun log_ok :: "event list \<Rightarrow> bool" where
  "log_ok [] = True"
| "log_ok (Presented i g # l) = (log_ok l \<and> (\<forall>h. Presented i h \<notin> set l \<and> Released i h \<notin> set l)
     \<and> (\<forall>j. Presented j g \<in> set l \<longrightarrow> Released j g \<in> set l))"
| "log_ok (Released i g # l) = (log_ok l \<and> Presented i g \<in> set l)"

definition at_risk :: "event list \<Rightarrow> nat \<Rightarrow> uuid \<Rightarrow> bool" where
  "at_risk l i g \<longleftrightarrow> Presented i g \<in> set l \<and> Released i g \<notin> set l"

definition phase_ok :: "event list \<Rightarrow> nat \<Rightarrow> uuid \<Rightarrow> phase \<Rightarrow> bool" where
  "phase_ok l i g ph \<longleftrightarrow>
     (case ph of
        Reserved \<Rightarrow> (\<forall>h. Presented i h \<notin> set l \<and> Released i h \<notin> set l)
      | Unsent \<Rightarrow> (\<forall>h. Presented i h \<notin> set l)
      | Sent \<Rightarrow> Presented i g \<in> set l
      | Releasable \<Rightarrow> Released i g \<in> set l
      | Spent \<Rightarrow> True)"

text \<open>The attempts that may still present a generation, or whose presentation is not answered by a release.\<close>

definition holds :: "system \<Rightarrow> nat \<Rightarrow> uuid \<Rightarrow> bool" where
  "holds y i g \<longleftrightarrow> sy_attempts y i = Some (g, Reserved) \<or> at_risk (sy_log y) i g"

definition system_ok :: "system \<Rightarrow> bool" where
  "system_ok y \<longleftrightarrow> store_wf (sy_store y)
     \<and> (\<forall>i g ph. sy_attempts y i = Some (g, ph) \<longrightarrow> issued (sy_store y) i \<and> phase_ok (sy_log y) i g ph)
     \<and> (\<forall>i h. Presented i h \<in> set (sy_log y) \<or> Released i h \<in> set (sy_log y) \<longrightarrow> issued (sy_store y) i)
     \<and> (\<forall>i g. holds y i g \<longrightarrow> fp.held (sy_store y) i g)
     \<and> (\<forall>i j g. holds y i g \<and> holds y j g \<longrightarrow> i = j)
     \<and> log_ok (sy_log y)"

lemma system_okD:
  assumes "system_ok y"
  shows "store_wf (sy_store y)"
    "sy_attempts y i = Some (g, ph) \<Longrightarrow> issued (sy_store y) i \<and> phase_ok (sy_log y) i g ph"
    "Presented i h \<in> set (sy_log y) \<Longrightarrow> issued (sy_store y) i" "Released i h \<in> set (sy_log y) \<Longrightarrow> issued (sy_store y) i"
    "holds y i g \<Longrightarrow> fp.held (sy_store y) i g" "holds y i g \<Longrightarrow> holds y j g \<Longrightarrow> i = j" "log_ok (sy_log y)"
  using assms unfolding system_ok_def by blast+

lemma system_ok_store:
  assumes "system_ok y" "store_wf s'"
    and "\<And>i. issued (sy_store y) i \<Longrightarrow> issued s' i"
    and "\<And>i g. holds y i g \<Longrightarrow> fp.held (sy_store y) i g \<Longrightarrow> fp.held s' i g"
  shows "system_ok (y\<lparr>sy_store := s'\<rparr>)"
  using assms by (auto simp: system_ok_def holds_def)

text \<open>A change of the attempts and the log that adds no holder.\<close>

lemma system_ok_memory:
  assumes ok: "system_ok y"
    and att: "\<And>i g ph. m i = Some (g, ph) \<Longrightarrow> sy_attempts y i \<noteq> None \<and> phase_ok l i g ph"
    and log: "log_ok l" "\<And>i h. Presented i h \<in> set l \<or> Released i h \<in> set l \<Longrightarrow> issued (sy_store y) i"
    and sub: "\<And>i g. m i = Some (g, Reserved) \<or> at_risk l i g \<Longrightarrow> holds y i g"
  shows "system_ok (y\<lparr>sy_attempts := m, sy_log := l\<rparr>)"
proof -
  have h: "holds (y\<lparr>sy_attempts := m, sy_log := l\<rparr>) i g \<Longrightarrow> holds y i g" for i g
    using sub by (simp add: holds_def)
  have "issued (sy_store y) i \<and> phase_ok l i g ph" if "m i = Some (g, ph)" for i g ph
    using att [OF that] system_okD(2) [OF ok] by fastforce
  then show ?thesis
    using system_okD(1,5,6) [OF ok] h log unfolding system_ok_def by simp blast
qed

lemma reserve_ok:
  assumes ok: "system_ok y" and r: "reserves i g (sy_store y) s'"
  shows "system_ok (y\<lparr>sy_store := s', sy_attempts := (sy_attempts y)(i \<mapsto> (g, Reserved))\<rparr>)" (is "system_ok ?y")
proof -
  note wf = system_okD(1) [OF ok]
  have fresh: "\<not> issued (sy_store y) i" using fp.reserves_fresh [OF wf r] by simp
  have mono: "issued s' j" if "issued (sy_store y) j \<or> j = i" for j using fp.reserves_issued [OF wf r that] .
  have log: "Presented i h \<notin> set (sy_log y)" "Released i h \<notin> set (sy_log y)" for h
    using fresh system_okD(3,4) [OF ok] by blast+
  have h: "holds ?y j k \<longleftrightarrow> holds y j k \<and> j \<noteq> i \<or> j = i \<and> k = g" for j k
    using log by (auto simp: holds_def at_risk_def)
  have none: "\<not> holds y j g" for j using system_okD(5) [OF ok] fp.held_not_reserved [OF wf] r by blast
  have "fp.held s' j k" if "holds ?y j k" for j k
    using that h [of j k] fp.held_reserve_new [OF wf r] fp.held_reserve_other [OF wf r, of j k]
      system_okD(5) [OF ok, of j k] by metis
  moreover have "j = k" if "holds ?y j e" "holds ?y k e" for j k e
    using that h [of j e] h [of k e] none [of j] none [of k] system_okD(6) [OF ok, of j e k] by metis
  moreover have "issued s' j \<and> phase_ok (sy_log y) j k ph" if "sy_attempts ?y j = Some (k, ph)" for j k ph
    using that log mono system_okD(2) [OF ok] by (cases "j = i") (auto simp: phase_ok_def)
  moreover have "issued s' j" if "Presented j e \<in> set (sy_log y) \<or> Released j e \<in> set (sy_log y)" for j e
    using that mono system_okD(3,4) [OF ok] by blast
  ultimately show ?thesis
    using fp.reserves_wf [OF wf r] system_okD(7) [OF ok] unfolding system_ok_def by simp blast
qed

lemma present_ok:
  assumes ok: "system_ok y" and a: "sy_attempts y i = Some (g, Reserved)"
  shows "system_ok (y\<lparr>sy_attempts := (sy_attempts y)(i \<mapsto> (g, Sent)), sy_log := Presented i g # sy_log y\<rparr>)"
proof (rule system_ok_memory [OF ok])
  have r: "issued (sy_store y) i" "\<And>h. Presented i h \<notin> set (sy_log y) \<and> Released i h \<notin> set (sy_log y)"
    using system_okD(2) [OF ok a] by (auto simp: phase_ok_def)
  have hold: "holds y i g" using a by (simp add: holds_def)
  have "Released j g \<in> set (sy_log y)" if "Presented j g \<in> set (sy_log y)" for j
    using that system_okD(6) [OF ok hold, of j] r(2) by (auto simp: holds_def at_risk_def)
  then show "log_ok (Presented i g # sy_log y)" using r(2) system_okD(7) [OF ok] by simp
  show "issued (sy_store y) j" if "Presented j h \<in> set (Presented i g # sy_log y) \<or> Released j h \<in> set (Presented i g # sy_log y)" for j h
    using that r(1) system_okD(3,4) [OF ok] by auto
  show "sy_attempts y j \<noteq> None \<and> phase_ok (Presented i g # sy_log y) j k ph"
    if "((sy_attempts y)(i \<mapsto> (g, Sent))) j = Some (k, ph)" for j k ph
    using that a system_okD(2) [OF ok, of j k ph] by (auto simp: phase_ok_def split: if_splits phase.splits)
  show "holds y j k"
    if "((sy_attempts y)(i \<mapsto> (g, Sent))) j = Some (k, Reserved) \<or> at_risk (Presented i g # sy_log y) j k" for j k
    using that hold by (auto simp: holds_def at_risk_def split: if_splits)
qed

lemma answer_releases_ok:
  assumes ok: "system_ok y" and a: "sy_attempts y i = Some (g, Sent)"
  shows "system_ok (y\<lparr>sy_attempts := (sy_attempts y)(i \<mapsto> (g, Releasable)), sy_log := Released i g # sy_log y\<rparr>)"
proof (rule system_ok_memory [OF ok])
  have r: "issued (sy_store y) i" "Presented i g \<in> set (sy_log y)"
    using system_okD(2) [OF ok a] by (auto simp: phase_ok_def)
  show "log_ok (Released i g # sy_log y)" using r(2) system_okD(7) [OF ok] by simp
  show "issued (sy_store y) j" if "Presented j h \<in> set (Released i g # sy_log y) \<or> Released j h \<in> set (Released i g # sy_log y)" for j h
    using that r(1) system_okD(3,4) [OF ok] by auto
  show "sy_attempts y j \<noteq> None \<and> phase_ok (Released i g # sy_log y) j k ph"
    if "((sy_attempts y)(i \<mapsto> (g, Releasable))) j = Some (k, ph)" for j k ph
    using that a system_okD(2) [OF ok, of j k ph] by (auto simp: phase_ok_def split: if_splits phase.splits)
  show "holds y j k"
    if "((sy_attempts y)(i \<mapsto> (g, Releasable))) j = Some (k, Reserved) \<or> at_risk (Released i g # sy_log y) j k" for j k
    using that by (auto simp: holds_def at_risk_def split: if_splits)
qed

lemma attempts_ok:
  assumes ok: "system_ok y"
    and "\<And>i g ph. m i = Some (g, ph) \<Longrightarrow> sy_attempts y i = Some (g, ph)
           \<or> ph \<noteq> Reserved \<and> sy_attempts y i \<noteq> None \<and> phase_ok (sy_log y) i g ph"
  shows "system_ok (y\<lparr>sy_attempts := m\<rparr>)"
proof -
  have "system_ok (y\<lparr>sy_attempts := m, sy_log := sy_log y\<rparr>)"
  proof (rule system_ok_memory [OF ok])
    show "sy_attempts y i \<noteq> None \<and> phase_ok (sy_log y) i g ph" if "m i = Some (g, ph)" for i g ph
      using assms(2) [OF that] system_okD(2) [OF ok] by fastforce
    show "holds y i g" if "m i = Some (g, Reserved) \<or> at_risk (sy_log y) i g" for i g
      using that assms(2) [of i g Reserved] by (auto simp: holds_def)
  qed (use system_okD(3,4,7) [OF ok] in auto)
  then show ?thesis by simp
qed

lemma release_ok:
  assumes ok: "system_ok y" and a: "sy_attempts y i = Some (g, ph)" "ph \<in> {Unsent, Releasable}"
    and r: "releases i g (sy_store y) s'"
  shows "system_ok (y\<lparr>sy_store := s'\<rparr>)"
proof (rule system_ok_store [OF ok])
  note wf = system_okD(1) [OF ok]
  show "store_wf s'" by (rule fp.releases_wf [OF wf r])
  show "issued s' j" if "issued (sy_store y) j" for j by (rule fp.releases_issued [OF wf r that])
  have "\<not> holds y i g" using a system_okD(2) [OF ok a(1)] by (auto simp: holds_def at_risk_def phase_ok_def)
  then show "fp.held s' j h" if "holds y j h" "fp.held (sy_store y) j h" for j h
    using that fp.held_release [OF wf r] by blast
qed

theorem system_step_ok: "system_step y y' \<Longrightarrow> system_ok y \<Longrightarrow> system_ok y'"
proof (induction rule: system_step.induct)
  case (step_reserve i g y s') then show ?case by (rule reserve_ok [rotated])
next
  case (step_reserve_lost i g y s')
  note wf = system_okD(1) [OF step_reserve_lost(2)]
  show ?case
    by (rule system_ok_store [OF step_reserve_lost(2)])
       (use fp.reserves_wf [OF wf] fp.reserves_issued [OF wf] fp.held_reserve_other [OF wf] step_reserve_lost(1) in blast)+
next
  case (step_unsent y i g)
  then show ?case using system_okD(2) [OF step_unsent(2,1)]
    by (intro attempts_ok) (auto simp: phase_ok_def split: if_splits)
next
  case (step_present y i g) then show ?case by (rule present_ok [rotated])
next
  case (step_answer_releases y i g) then show ?case by (rule answer_releases_ok [rotated])
next
  case (step_answer_spends y i g)
  then show ?case by (intro attempts_ok) (auto simp: phase_ok_def split: if_splits)
next
  case (step_release y i g ph s') then show ?case by (intro release_ok)
next
  case (step_keep y s')
  note wf = system_okD(1) [OF step_keep(2)]
  show ?case
    by (rule system_ok_store [OF step_keep(2)])
       (use fp.keeps_wf [OF wf] fp.keeps_issued [OF wf] fp.held_keep [OF wf] step_keep(1) in blast)+
next
  case (step_drop y i) then show ?case by (intro attempts_ok) (auto split: if_splits)
next
  case (step_crash y) then show ?case by (intro attempts_ok) auto
qed

lemma system_init_ok: "system_ok system_init"
  using empty_store_wf by (simp add: system_ok_def system_init_def holds_def at_risk_def)

lemma reachable_ok: "system_step\<^sup>*\<^sup>* system_init y \<Longrightarrow> system_ok y"
  by (induction rule: rtranclp_induct) (auto intro: system_init_ok system_step_ok)

section \<open>The guarantee\<close>

lemma log_ok_append: "log_ok (xs @ ys) \<Longrightarrow> log_ok ys"
  by (induction xs rule: log_ok.induct) auto

lemma log_ok_again:
  assumes "log_ok (zs @ Presented j g # ys @ Presented i g # xs)"
  shows "Released i g \<in> set ys"
proof -
  have "log_ok (Presented j g # ys @ Presented i g # xs)" by (rule log_ok_append [OF assms])
  then have "Released i g \<in> set (ys @ Presented i g # xs)" "log_ok (Presented i g # xs)"
    using log_ok_append [of ys "Presented i g # xs"] by auto
  then show ?thesis by auto
qed

text \<open>
  C2: a refresh generation that was presented to the token service is presented again only
  after the service's answer to the earlier presentation released it. This holds for every
  interleaving of attempts, store faults after a commit, external credential writes, receipt
  pruning, crashes and restarts.
\<close>
theorem spent_generation_never_presented_again:
  assumes "system_step\<^sup>*\<^sup>* system_init y"
    and "sy_log y = zs @ Presented j g # ys @ Presented i g # xs"
  shows "Released i g \<in> set ys"
  using system_okD(7) [OF reachable_ok [OF assms(1)]] log_ok_again assms(2) by metis

definition example_row :: TokenRow where
  "example_row = \<lparr>tk_access = ''a'', tk_refresh = ''r'', tk_expires_at = 0, tk_next_refresh_at = 0, tk_generation = Some 7\<rparr>"

definition example_receipt :: "nat \<Rightarrow> Outcome option \<Rightarrow> nat option \<Rightarrow> Receipt" where
  "example_receipt i oc st = \<lparr>rcp_id = i, rcp_correlation_id = 1, rcp_started_at_ms = 0,
     rcp_completed_at_ms = map_option (\<lambda>_. 0) oc, rcp_duration_ms = map_option (\<lambda>_. 0) oc,
     rcp_vehicle_tesla_id = None, rcp_transport = TR_LegacyAuth, rcp_operation = OP_TokenRefresh,
     rcp_safety_class = SC_NonWakeEndpoint, rcp_precondition = PC_NotRequired, rcp_outcome = oc,
     rcp_http_status = st, rcp_retry_after_seconds = None\<rparr>"

definition example_store :: "Receipt list \<Rightarrow> nat \<Rightarrow> bool \<Rightarrow> store" where
  "example_store rs n held = \<lparr>s_pair = Some example_row, s_receipts = rs, s_last_receipt_id = n,
     s_bindings = (if held then [new_binding n 2 7] else []), s_fences = (if held then [7] else []),
     s_fleet_bound = [], s_auth_row = None\<rparr>"

definition example_first :: store where
  "example_first = example_store [example_receipt 1 None None] 1 True"

definition example_between :: store where
  "example_between = example_store [example_receipt 1 (Some OC_HttpError) (Some 503)] 1 False"

definition example_second :: store where
  "example_second = example_store [example_receipt 1 (Some OC_HttpError) (Some 503), example_receipt 2 None None] 2 True"

lemmas example_defs = example_row_def example_receipt_def example_store_def example_first_def example_between_def
  example_second_def

lemma example_moves:
  "keeps empty_store (example_store [] 0 False)"
  "reserves 1 7 (example_store [] 0 False) example_first"
  "releases 1 7 example_first example_between"
  "reserves 2 7 example_between example_second"
proof -
  have "replace_teslamate_legacy_tokens 0 example_row empty_store = Inr (example_store [] 0 False)" by code_simp
  then show "keeps empty_store (example_store [] 0 False)" by (rule keeps_replace)
  have "begin_legacy_refresh 0 1 2 7 (example_store [] 0 False) = Inr (1, example_first)" by code_simp
  then show "reserves 1 7 (example_store [] 0 False) example_first" by (rule reserves_begin)
  have "close_legacy_refresh_attempt 0 1 7 OC_HttpError (Some 503) None True example_first = Inr example_between"
    by code_simp
  then show "releases 1 7 example_first example_between" by (rule releases_close)
  have "begin_legacy_refresh 0 1 2 7 example_between = Inr (2, example_second)" by code_simp
  then show "reserves 2 7 example_between example_second" by (rule reserves_begin)
qed

definition example_system :: "store \<Rightarrow> (nat \<Rightarrow> (uuid \<times> phase) option) \<Rightarrow> event list \<Rightarrow> system" where
  "example_system s m l = \<lparr>sy_store = s, sy_attempts = m, sy_log = l\<rparr>"

lemma example_sent:
  "system_step\<^sup>*\<^sup>* system_init (example_system example_first [1 \<mapsto> (7, Sent)] [Presented 1 7])"
proof -
  have "system_step system_init (example_system (example_store [] 0 False) Map.empty [])"
    using step_keep [of system_init "example_store [] 0 False"] example_moves(1)
    by (simp add: system_init_def example_system_def)
  moreover have "system_step (example_system (example_store [] 0 False) Map.empty [])
      (example_system example_first [1 \<mapsto> (7, Reserved)] [])"
    using step_reserve [of 1 7 "example_system (example_store [] 0 False) Map.empty []"] example_moves(2)
    by (simp add: example_system_def)
  moreover have "system_step (example_system example_first [1 \<mapsto> (7, Reserved)] [])
      (example_system example_first [1 \<mapsto> (7, Sent)] [Presented 1 7])"
    using step_present [of "example_system example_first [1 \<mapsto> (7, Reserved)] []" 1 7] by (simp add: example_system_def)
  ultimately show ?thesis by (meson converse_rtranclp_into_rtranclp rtranclp.rtrancl_refl)
qed

lemma example_run:
  "\<exists>m. system_step\<^sup>*\<^sup>* system_init (example_system example_second m [Presented 2 7, Released 1 7, Presented 1 7])"
proof -
  let ?m = "[1 \<mapsto> (7, Releasable)] :: nat \<Rightarrow> (uuid \<times> phase) option"
  have "system_step (example_system example_first [1 \<mapsto> (7, Sent)] [Presented 1 7])
      (example_system example_first ?m [Released 1 7, Presented 1 7])"
    using step_answer_releases [of "example_system example_first [1 \<mapsto> (7, Sent)] [Presented 1 7]" 1 7]
    by (simp add: example_system_def)
  moreover have "system_step (example_system example_first ?m [Released 1 7, Presented 1 7])
      (example_system example_between ?m [Released 1 7, Presented 1 7])"
    using step_release [of "example_system example_first ?m [Released 1 7, Presented 1 7]" 1 7 Releasable] example_moves(3)
    by (simp add: example_system_def)
  moreover have "system_step (example_system example_between ?m [Released 1 7, Presented 1 7])
      (example_system example_second (?m(2 \<mapsto> (7, Reserved))) [Released 1 7, Presented 1 7])"
    using step_reserve [of 2 7 "example_system example_between ?m [Released 1 7, Presented 1 7]"] example_moves(4)
    by (simp add: example_system_def)
  moreover have "system_step (example_system example_second (?m(2 \<mapsto> (7, Reserved))) [Released 1 7, Presented 1 7])
      (example_system example_second (?m(2 \<mapsto> (7, Sent))) [Presented 2 7, Released 1 7, Presented 1 7])"
    using step_present [of "example_system example_second (?m(2 \<mapsto> (7, Reserved))) [Released 1 7, Presented 1 7]" 2 7]
    by (simp add: example_system_def)
  ultimately show ?thesis
    using example_sent by (meson rtranclp.rtrancl_into_rtrancl)
qed

theorem spent_generation_never_presented_again_witness:
  "\<exists>y. system_step\<^sup>*\<^sup>* system_init y \<and> sy_log y = [] @ Presented 2 7 # [Released 1 7] @ Presented 1 7 # []
     \<and> Released 1 7 \<in> set [Released 1 (7::uuid)]"
proof -
  obtain m where r: "system_step\<^sup>*\<^sup>* system_init
      (example_system example_second m [Presented 2 7, Released 1 7, Presented 1 7])" using example_run by blast
  have l: "sy_log (example_system example_second m [Presented 2 7, Released 1 7, Presented 1 7])
      = [] @ Presented 2 7 # [Released 1 7] @ Presented 1 7 # []" by (simp add: example_system_def)
  show ?thesis using r l spent_generation_never_presented_again [OF r l] by blast
qed

text \<open>
  C4: while a presentation has no releasing answer, every transaction that would bring its
  generation back is refused: a new reservation, an import of a pair with that generation and a
  refresh that would store it as its output.
\<close>
theorem at_risk_generation_refused:
  assumes "system_step\<^sup>*\<^sup>* system_init y" and "at_risk (sy_log y) i g"
  shows "begin_legacy_refresh now c a g (sy_store y) = Inl SE_LegacyRefreshOutcomeUnknown
    \<and> replace_teslamate_legacy_tokens now (t\<lparr>tk_generation := Some g\<rparr>) (sy_store y) = Inl SE_LegacyRefreshOutcomeUnknown
    \<and> isl (complete_legacy_refresh now j h g t (sy_store y))"
proof -
  note ok = reachable_ok [OF assms(1)]
  have f: "is_fenced (sy_store y) g"
    using system_okD(5) [OF ok, of i g] assms(2) by (simp add: holds_def fp.held_def)
  then have "g \<noteq> 0" using system_okD(1) [OF ok] by (auto simp: store_wf_def fences_wf_def is_fenced_def)
  moreover have "complete_legacy_refresh now j h g t (sy_store y) \<noteq> Inr s'" for s'
    using f by (simp add: complete_Inr)
  ultimately show ?thesis using f
    by (auto simp: begin_legacy_refresh_def replace_teslamate_legacy_tokens_def Let_def isl_def sum.exhaust_sel
        intro: sum.exhaust [of "complete_legacy_refresh now j h g t (sy_store y)"])
qed

theorem at_risk_generation_refused_witness:
  "\<exists>y. system_step\<^sup>*\<^sup>* system_init y \<and> at_risk (sy_log y) 1 7
     \<and> begin_legacy_refresh 5 1 2 7 (sy_store y) = Inl SE_LegacyRefreshOutcomeUnknown"
proof -
  have "at_risk (sy_log (example_system example_first [1 \<mapsto> (7, Sent)] [Presented 1 7])) 1 7"
    by (simp add: at_risk_def example_system_def)
  then show ?thesis
    using example_sent at_risk_generation_refused [OF example_sent, of 1 7 5 1 2 example_row 1 7] by blast
qed

end
