(* ===== verification/Fence_Identity.thy ===== *)
theory Fence_Identity
  imports Fence_Safety
begin

text \<open>
  What the other readers of the credential tables may rely on: the identity of the credential
  on the Owner wire does not move when the unit refreshes its own pair or when old receipts
  are pruned, pruning never removes a receipt that is unresolved or still in its window, and
  the status row that a synchronised recorder published is the one the next start reads back.
\<close>

section \<open>The walk back to the externally written generation\<close>

definition produced :: "Binding list \<Rightarrow> uuid \<Rightarrow> bool" where
  "produced bs g \<longleftrightarrow> (\<exists>b\<in>set bs. bd_output b = Some g)"

lemma binding_input_of_None: "binding_input_of bs g = None \<longleftrightarrow> \<not> produced bs g"
  by (auto simp: binding_input_of_def find_None_iff produced_def)

lemma binding_input_of_SomeD:
  "binding_input_of bs g = Some i \<Longrightarrow> \<exists>b\<in>set bs. bd_output b = Some g \<and> bd_input b = i"
  by (force simp: binding_input_of_Some find_Some_iff in_set_conv_nth)

lemma binding_input_of_SomeI:
  assumes "chain_wf bs" "b \<in> set bs" "bd_output b = Some g"
  shows "binding_input_of bs g = Some (bd_input b)"
proof -
  obtain i where i: "binding_input_of bs g = Some i"
    using assms binding_input_of_None [of bs g] by (cases "binding_input_of bs g") (auto simp: produced_def)
  then obtain b' where "b' \<in> set bs" "bd_output b' = Some g" "bd_input b' = i"
    using binding_input_of_SomeD by blast
  then show ?thesis using chain_wf_unique [OF assms(1), of b b'] assms(2,3) i by simp
qed

text \<open>The producer of a generation stands before the binding that consumes it.\<close>

lemma producer_before:
  assumes "chain_wf bs" "b \<in> set bs" "b' \<in> set bs" "bd_output b' = Some (bd_input b)"
  shows "bd_receipt_id b' < bd_receipt_id b"
proof -
  have "b \<noteq> b'" "\<not> follows b b'" using assms by (auto simp: chain_wf_def follows_def)
  then have "follows b' b" using sorted_follows_unique [of bs b b'] assms(1-3) by (simp add: chain_wf_def)
  then show ?thesis by (simp add: follows_def)
qed

lemma identity_walk_ends:
  assumes "chain_wf bs"
    and "\<forall>x\<in>set v. \<exists>b\<in>set bs. bd_output b = Some x \<and> (\<forall>b'\<in>set bs. bd_output b' = Some g \<longrightarrow> bd_receipt_id b' < bd_receipt_id b)"
  shows "\<exists>r. identity_walk bs v g = Inr r \<and> \<not> produced bs r"
  using assms
proof (induction bs v g rule: identity_walk.induct)
  case (1 bs v g)
  have new: "g \<notin> set v" using 1(3) by blast
  show ?case
  proof (cases "binding_input_of bs g")
    case None
    then show ?thesis using new binding_input_of_None [of bs g] by (simp add: identity_walk.simps [of bs v g])
  next
    case (Some i)
    then obtain b where b: "b \<in> set bs" "bd_output b = Some g" "bd_input b = i" using binding_input_of_SomeD by blast
    have lt: "bd_receipt_id b' < bd_receipt_id b" if "b' \<in> set bs" "bd_output b' = Some i" for b'
      using producer_before [OF 1(2) b(1) that(1)] that(2) b(3) by simp
    have "\<exists>c\<in>set bs. bd_output c = Some x \<and> (\<forall>b'\<in>set bs. bd_output b' = Some i \<longrightarrow> bd_receipt_id b' < bd_receipt_id c)"
      if x: "x \<in> set (g # v)" for x
    proof (cases "x = g")
      case True then show ?thesis using b lt by blast
    next
      case False
      then obtain c where c: "c \<in> set bs" "bd_output c = Some x"
        "\<forall>b'\<in>set bs. bd_output b' = Some g \<longrightarrow> bd_receipt_id b' < bd_receipt_id c" using x 1(3) by auto
      then show ?thesis using b lt less_trans by blast
    qed
    then show ?thesis
      using 1(1) [OF new Some 1(2)] new Some by (simp add: identity_walk.simps [of bs v g])
  qed
qed

text \<open>The walk depends only on the links of the generations it meets.\<close>

lemma identity_walk_cong:
  assumes "\<And>x. C x \<Longrightarrow> binding_input_of bs' x = binding_input_of bs x"
    and "\<And>x i. C x \<Longrightarrow> binding_input_of bs x = Some i \<Longrightarrow> C i"
    and "C g" and "\<And>x. C x \<Longrightarrow> x \<in> set v' \<longleftrightarrow> x \<in> set v"
  shows "identity_walk bs' v' g = identity_walk bs v g"
  using assms
proof (induction bs v g arbitrary: v' rule: identity_walk.induct)
  case (1 bs v g)
  show ?case
  proof (cases "g \<in> set v")
    case True
    then show ?thesis using 1(4,5) by (simp add: identity_walk.simps [of bs v g] identity_walk.simps [of bs' v' g])
  next
    case new: False
    show ?thesis
    proof (cases "binding_input_of bs g")
      case None
      then show ?thesis using new 1(2,4,5)
        by (simp add: identity_walk.simps [of bs v g] identity_walk.simps [of bs' v' g])
    next
      case (Some i)
      have "identity_walk bs' (g # v') i = identity_walk bs (g # v) i"
        by (rule 1(1) [OF new Some 1(2) 1(3) 1(3) [OF 1(4) Some]]) (use 1(5) in auto)
      then show ?thesis using new Some 1(2,4,5)
        by (simp add: identity_walk.simps [of bs v g] identity_walk.simps [of bs' v' g])
    qed
  qed
qed

lemma owner_identity_total:
  assumes "store_wf s"
  shows "\<exists>r. owner_wire_credential_identity s = Inr r"
proof (cases "current_generation s")
  case (Some g)
  then show ?thesis
    using identity_walk_ends [of "s_bindings s" "[]" g] assms
    by (auto simp: owner_wire_credential_identity_def store_wf_def)
qed (simp add: owner_wire_credential_identity_def)

section \<open>The chain that pruning keeps\<close>

definition chain_inputs :: "Binding list \<Rightarrow> uuid set \<Rightarrow> uuid set" where
  "chain_inputs bs X = {bd_input b | b. b \<in> set bs \<and> (\<exists>g\<in>X. bd_output b = Some g)}"

lemma set_chain_round: "set (chain_round bs gs) = set gs \<union> chain_inputs bs (set gs)"
  by (auto simp: chain_round_def chain_inputs_def split: option.splits)

lemma chain_round_closed:
  assumes "chain_inputs bs (set gs) \<subseteq> set gs"
  shows "set ((chain_round bs ^^ n) gs) = set gs"
  using assms by (induction n) (auto simp: set_chain_round)

lemma chain_rounds_grow:
  "(\<exists>k\<le>n. chain_inputs bs (set ((chain_round bs ^^ k) gs)) \<subseteq> set ((chain_round bs ^^ k) gs))
     \<or> card (set gs) + n \<le> card (set ((chain_round bs ^^ n) gs))"
proof (induction n)
  case (Suc n)
  let ?G = "\<lambda>k. set ((chain_round bs ^^ k) gs)"
  show ?case
  proof (cases "\<exists>k\<le>n. chain_inputs bs (?G k) \<subseteq> ?G k")
    case True then show ?thesis using le_SucI by blast
  next
    case False
    then have "card (set gs) + n \<le> card (?G n)" "\<not> chain_inputs bs (?G n) \<subseteq> ?G n" using Suc by auto
    moreover have "?G (Suc n) = ?G n \<union> chain_inputs bs (?G n)" by (simp add: set_chain_round)
    ultimately have "?G n \<subset> ?G (Suc n)" by blast
    then have "card (?G n) < card (?G (Suc n))" by (intro psubset_card_mono) auto
    then show ?thesis using \<open>card (set gs) + n \<le> card (?G n)\<close> by linarith
  qed
qed simp

lemma chain_rounds_bounded: "set ((chain_round bs ^^ n) gs) \<subseteq> set gs \<union> bd_input ` set bs"
  by (induction n) (auto simp: set_chain_round chain_inputs_def)

text \<open>As many rounds as there are bindings reach the fixed point.\<close>

lemma chain_closed:
  "chain_inputs bs (set ((chain_round bs ^^ length bs) [g])) \<subseteq> set ((chain_round bs ^^ length bs) [g])"
proof -
  let ?G = "\<lambda>k. set ((chain_round bs ^^ k) [g])"
  consider (closed) k where "k \<le> length bs" "chain_inputs bs (?G k) \<subseteq> ?G k"
    | (full) "Suc (length bs) \<le> card (?G (length bs))"
    using chain_rounds_grow [of "length bs" bs "[g]"] by auto
  then show ?thesis
  proof cases
    case closed
    have "?G (length bs) = ?G k"
      using chain_round_closed [OF closed(2), of "length bs - k"] closed(1)
      by (metis funpow_add comp_apply le_add_diff_inverse2)
    then show ?thesis using closed by simp
  next
    case full
    let ?A = "set [g] \<union> bd_input ` set bs"
    have "card ?A \<le> Suc (length bs)"
      using card_Un_le [of "set [g]" "bd_input ` set bs"] card_image_le [of "set bs" bd_input] card_length [of bs] by simp
    then have "card ?A \<le> card (?G (length bs))" using full by (rule le_trans)
    then have "?G (length bs) = ?A"
      using chain_rounds_bounded [of "length bs" bs "[g]"] by (intro card_seteq) simp_all
    then show ?thesis by (auto simp: chain_inputs_def)
  qed
qed

section \<open>The identity under the unit's own moves\<close>

lemma identity_same_links:
  assumes "current_generation s' = current_generation s"
    and "\<And>x. binding_input_of (s_bindings s') x = binding_input_of (s_bindings s) x"
  shows "owner_wire_credential_identity s' = owner_wire_credential_identity s"
proof -
  have "identity_walk (s_bindings s') [] g = identity_walk (s_bindings s) [] g" for g
    by (rule identity_walk_cong [where C = "\<lambda>_. True"]) (use assms(2) in auto)
  then show ?thesis using assms(1)
    by (cases "current_generation s") (simp_all add: owner_wire_credential_identity_def)
qed

lemma prune_keeps_chain:
  assumes "store_wf s" "x \<in> set (chain_generations s)"
  shows "binding_input_of (s_bindings (prune_expired_outbound_request_receipts now s)) x = binding_input_of (s_bindings s) x"
proof (cases "produced (s_bindings s) x")
  case True
  let ?p = "prune_expired_outbound_request_receipts now s"
  obtain b where b: "b \<in> set (s_bindings s)" "bd_output b = Some x" using True by (auto simp: produced_def)
  then have "bd_receipt_id b \<in> set (chain_receipts s)" using assms(2) by (auto simp: chain_receipts_def)
  then have "b \<in> set (s_bindings ?p)"
    using b by (auto simp: prune_expired_outbound_request_receipts_def Let_def receipt_expired_def)
  moreover have "chain_wf (s_bindings s)" "chain_wf (s_bindings ?p)"
    using assms(1) prune_wf [OF assms(1)] by (auto simp: store_wf_def)
  ultimately show ?thesis using b by (simp add: binding_input_of_SomeI)
next
  case False
  then have "\<not> produced (s_bindings (prune_expired_outbound_request_receipts now s)) x"
    using prune_subset(2) [of now s] by (auto simp: produced_def)
  then show ?thesis using False binding_input_of_None by metis
qed

lemma prune_keeps_identity:
  assumes "store_wf s"
  shows "owner_wire_credential_identity (prune_expired_outbound_request_receipts now s) = owner_wire_credential_identity s"
proof (cases "current_generation s")
  case (Some g)
  let ?G = "set (chain_generations s)"
  have chain: "chain_generations s = (chain_round (s_bindings s) ^^ length (s_bindings s)) [g]"
    using Some by (simp add: chain_generations_def)
  have "set [g] \<subseteq> set ((chain_round (s_bindings s) ^^ n) [g])" for n by (induction n) (auto simp: set_chain_round)
  then have g: "g \<in> ?G" by (simp add: chain)
  have closed: "i \<in> ?G" if "x \<in> ?G" "binding_input_of (s_bindings s) x = Some i" for x i
    using chain_closed [of "s_bindings s" g] binding_input_of_SomeD [OF that(2)] that(1)
    by (auto simp: chain chain_inputs_def)
  have "identity_walk (s_bindings (prune_expired_outbound_request_receipts now s)) [] g = identity_walk (s_bindings s) [] g"
    by (rule identity_walk_cong [where C = "\<lambda>x. x \<in> ?G"]) (use g closed prune_keeps_chain [OF assms] in auto)
  then show ?thesis using Some by (simp add: owner_wire_credential_identity_def)
qed (simp add: owner_wire_credential_identity_def)

lemma binding_input_of_append_None: "bd_output b = None \<Longrightarrow> binding_input_of (bs @ [b]) x = binding_input_of bs x"
  by (induction bs) (auto simp: binding_input_of_def)

lemma begin_keeps_identity:
  assumes "store_wf s" "begin_legacy_refresh now c a g s = Inr (i, s')"
  shows "owner_wire_credential_identity s' = owner_wire_credential_identity s"
proof -
  let ?p = "prune_expired_outbound_request_receipts now s"
  have "owner_wire_credential_identity s' = owner_wire_credential_identity ?p"
    using assms(2)
    by (intro identity_same_links)
       (auto simp: begin_legacy_refresh_Inr Let_def current_generation_def binding_input_of_append_None new_binding_def)
  then show ?thesis using prune_keeps_identity [OF assms(1)] by simp
qed

lemma binding_input_of_filter:
  assumes "\<forall>b\<in>set bs. \<not> P b \<longrightarrow> bd_output b = None"
  shows "binding_input_of (filter P bs) x = binding_input_of bs x"
  using assms by (induction bs) (auto simp: binding_input_of_def)

lemma release_keeps_identity:
  assumes "store_wf s" "releases i g s s'" "current_generation s' = current_generation s"
  shows "owner_wire_credential_identity s' = owner_wire_credential_identity s"
proof -
  have r: "attempt_bound s i g" "receipt_started s i" using releases_release [OF assms(2)] by auto
  have "bd_output b = None" if "b \<in> set (s_bindings s)" "bd_receipt_id b = i" for b
    using assms(1) r(2) that by (auto simp: store_wf_def open_wf_def receipt_started_iff)
  then have "binding_input_of (filter (\<lambda>b. \<not> (bd_receipt_id b = i \<and> bd_input b = g)) (s_bindings s)) x
      = binding_input_of (s_bindings s) x" for x
    by (intro binding_input_of_filter) auto
  moreover have "s_bindings s' = filter (\<lambda>b. \<not> (bd_receipt_id b = i \<and> bd_input b = g)) (s_bindings s)"
    using releases_release [OF assms(2)] by auto
  ultimately show ?thesis using assms(3) by (intro identity_same_links) auto
qed

lemma releases_current:
  assumes "releases i g s s'"
  shows "current_generation s' = current_generation s"
  using assms
proof (cases rule: releases.cases)
  case (releases_unrotated now t)
  then show ?thesis by (simp add: complete_unrotated_Inr) (simp add: current_generation_def)
qed (auto simp: cancel_unsent_Inr close_attempt_Inr)

lemma complete_keeps_identity:
  assumes wf: "store_wf s" and c: "complete_legacy_refresh now i g h t s = Inr s'"
  shows "owner_wire_credential_identity s' = owner_wire_credential_identity s"
proof -
  note pre = c [unfolded complete_Inr]
  let ?bs = "s_bindings s" and ?bs' = "map (set_output i h) (s_bindings s)"
  have s': "s_bindings s' = ?bs'" "current_generation s' = Some h"
    using pre by (simp_all add: current_generation_def)
  have ch: "chain_wf ?bs" "chain_wf ?bs'" using wf complete_wf [OF wf c] s'(1) by (simp_all add: store_wf_def)
  obtain b where b: "b \<in> set ?bs" "bd_receipt_id b = i" "bd_output b = None" using pre by blast
  have "attempt_bound s i g" using pre stored_input_Some(1) by blast
  then have bg: "bd_input b = g" using chain_wf_unique [OF ch(1) b(1)] b(2) unfolding attempt_bound_iff by metis
  have hin: "bd_input x \<noteq> h" if "x \<in> set ?bs" for x
    using that wf pre by (auto simp: store_wf_def fences_wf_def is_fenced_def)
  have "set_output i h b \<in> set ?bs'" "bd_output (set_output i h b) = Some h" using b by auto
  then have link: "binding_input_of ?bs' h = Some g"
    using binding_input_of_SomeI [OF ch(2)] bg by fastforce
  have other: "binding_input_of ?bs' x = binding_input_of ?bs x" if "x \<noteq> h" for x
  proof -
    have "find (\<lambda>b. bd_output b = Some x) (map (set_output i h) l) = map_option (set_output i h) (find (\<lambda>b. bd_output b = Some x) l)" for l
      using that by (induction l) auto
    then show ?thesis by (simp add: binding_input_of_def option.map_comp comp_def)
  qed
  have "identity_walk ?bs' [h] g = identity_walk ?bs [] g"
  proof (rule identity_walk_cong [where C = "\<lambda>x. x \<noteq> h"])
    show "k \<noteq> h" if "binding_input_of ?bs x = Some k" for x k using binding_input_of_SomeD [OF that] hin by blast
  qed (use other pre in auto)
  then show ?thesis
    using s' pre link by (simp add: owner_wire_credential_identity_def identity_walk.simps [of ?bs' "[]" h])
qed

lemma bind_identity:
  assumes "bind_teslamate_legacy_credential_generation t g s = Inr s'"
  shows "s' = s \<or> owner_wire_credential_identity s = Inr None
    \<and> owner_wire_credential_identity s' = map_sum id Some (identity_walk (s_bindings s) [] g)"
  using bind_Inr [OF assms]
  by (auto simp: owner_wire_credential_identity_def current_generation_def split: sum.splits)

text \<open>
  What the unit does to the store by itself. The last rule is the bind at its construction, which
  gives an imported pair without a generation the generation of its tokens.
\<close>

inductive own_move :: "store \<Rightarrow> store \<Rightarrow> bool" where
  own_reserve: "reserves i g s s' \<Longrightarrow> own_move s s'"
| own_release: "releases i g s s' \<Longrightarrow> own_move s s'"
| own_complete: "complete_legacy_refresh now i g h t s = Inr s' \<Longrightarrow> own_move s s'"
| own_close: "close_legacy_refresh_attempt now i g oc st ra False s = Inr s' \<Longrightarrow> own_move s s'"
| own_ledger_begin: "begin_outbound_request now q s = Inr (i, s') \<Longrightarrow> own_move s s'"
| own_ledger_complete: "complete_outbound_request now i c s = Inr s' \<Longrightarrow> own_move s s'"
| own_status: "write_collector_auth_row row now s = Inr (b, s') \<Longrightarrow> own_move s s'"
| own_digest: "fill_collector_auth_rejected_access_digest p n go d s = Inr s' \<Longrightarrow> own_move s s'"
| own_lift: "lift_collector_auth_refusal_in_transaction now s = (b, s') \<Longrightarrow> own_move s s'"
| own_bind: "bind_teslamate_legacy_credential_generation t g s = Inr s' \<Longrightarrow> own_move s s'"

text \<open>One move leaves the identity as it was, or is the bind of a pair that had none.\<close>

definition binds_identity :: "store \<Rightarrow> store \<Rightarrow> bool" where
  "binds_identity a b \<longleftrightarrow> owner_wire_credential_identity a = Inr None
     \<and> (\<exists>t g root. bind_teslamate_legacy_credential_generation t g a = Inr b
          \<and> owner_wire_credential_identity b = Inr (Some root)
          \<and> identity_walk (s_bindings a) [] g = Inr root)"

lemma own_move_identity:
  assumes "own_move a b" "store_wf a"
  shows "store_wf b \<and> (owner_wire_credential_identity b = owner_wire_credential_identity a \<or> binds_identity a b)"
  using assms(1)
proof (cases rule: own_move.cases)
  case (own_reserve i g)
  then show ?thesis using assms(2) begin_keeps_identity reserves_effect(1) by (metis reserves.cases)
next
  case (own_release i g)
  then show ?thesis using assms(2) release_keeps_identity releases_current releases_effect(1) by blast
next
  case (own_complete now i g h t)
  then show ?thesis using assms(2) complete_keeps_identity complete_wf by blast
next
  case (own_close now i g oc st ra)
  then have "owner_wire_credential_identity b = owner_wire_credential_identity a"
    by (intro identity_same_links) (auto simp: close_attempt_Inr)
  then show ?thesis using assms(2) close_attempt_wf [OF _ own_close] by blast
next
  case (own_ledger_begin now q i)
  then have "owner_wire_credential_identity b
      = owner_wire_credential_identity (prune_expired_outbound_request_receipts now a)"
    by (elim begin_outbound_Inr, intro identity_same_links) (auto simp: current_generation_def)
  then show ?thesis using assms(2) prune_keeps_identity begin_outbound_wf [OF _ own_ledger_begin] by simp
next
  case (own_ledger_complete now i c)
  let ?c = "close_receipt now i (orc_outcome c) (orc_http_status c) (orc_retry_after_seconds c) a"
  have "b = prune_expired_outbound_request_receipts now ?c" using complete_outbound_Inr [OF own_ledger_complete] by blast
  moreover have "owner_wire_credential_identity ?c = owner_wire_credential_identity a"
    by (intro identity_same_links) auto
  ultimately show ?thesis
    using assms(2) prune_keeps_identity [OF close_receipt_wf [OF assms(2)]] complete_outbound_wf [OF _ own_ledger_complete]
    by simp
next
  case (own_status row now c)
  then show ?thesis using assms(2) write_status_Inr [OF own_status] auth_row_wf
    by (auto intro!: identity_same_links simp: current_generation_def)
next
  case (own_digest p n go d)
  then show ?thesis using assms(2) fill_digest_Inr [OF own_digest] auth_row_wf
    by (auto intro!: identity_same_links simp: current_generation_def)
next
  case (own_lift now c)
  then show ?thesis using assms(2) lift_refusal_Inr [OF own_lift] auth_row_wf
    by (auto intro!: identity_same_links simp: current_generation_def)
next
  case (own_bind t g)
  have wf: "store_wf b" using bind_wf [OF assms(2) own_bind] .
  then obtain x where x: "owner_wire_credential_identity b = Inr x" using owner_identity_total by blast
  have "binds_identity a b" if "b \<noteq> a"
  proof -
    have i: "owner_wire_credential_identity a = Inr None"
      "owner_wire_credential_identity b = map_sum id Some (identity_walk (s_bindings a) [] g)"
      using bind_identity [OF own_bind] that by blast+
    then obtain root where "identity_walk (s_bindings a) [] g = Inr root"
      using x by (cases "identity_walk (s_bindings a) [] g") auto
    then show ?thesis using i own_bind by (auto simp: binds_identity_def)
  qed
  then show ?thesis using wf by blast
qed

text \<open>
  C18: the identity of the credential on the Owner wire is always defined, and once it is there it
  does not move while the unit works by itself: reserving, releasing, completing or closing a
  refresh, keeping the request ledger (which prunes old receipts), writing, completing or lifting
  the status and binding a generation all leave it as it was; only a replacement or the removal
  of the pair is not among these moves. A pair imported without a generation has no identity; the
  one thing the unit itself can do to that is the bind at its construction, which gives the pair
  the identity the bindings lead to from the bound generation (that generation itself when no
  refresh produced it), and this identity stays.
\<close>
theorem owner_identity_stable:
  assumes "store_wf s" and "own_move\<^sup>*\<^sup>* s s'"
  shows "(\<exists>r. owner_wire_credential_identity s' = Inr r)
    \<and> (owner_wire_credential_identity s' = owner_wire_credential_identity s
       \<or> owner_wire_credential_identity s = Inr None
         \<and> (\<exists>a b. own_move\<^sup>*\<^sup>* s a \<and> binds_identity a b \<and> own_move\<^sup>*\<^sup>* b s'
              \<and> owner_wire_credential_identity s' = owner_wire_credential_identity b))"
proof -
  let ?id = owner_wire_credential_identity
  have "store_wf s' \<and> (?id s' = ?id s
       \<or> ?id s = Inr None \<and> (\<exists>a b. own_move\<^sup>*\<^sup>* s a \<and> binds_identity a b \<and> own_move\<^sup>*\<^sup>* b s' \<and> ?id s' = ?id b))"
    using assms(2)
  proof (induction rule: rtranclp_induct)
    case base
    then show ?case using assms(1) by simp
  next
    case (step y z)
    then have z: "store_wf z" "?id z = ?id y \<or> binds_identity y z" using own_move_identity by blast+
    from step.IH consider (same) "?id y = ?id s"
      | (bound) a b where "?id s = Inr None" "own_move\<^sup>*\<^sup>* s a" "binds_identity a b" "own_move\<^sup>*\<^sup>* b y" "?id y = ?id b"
      by blast
    then show ?case
    proof cases
      case same
      from z(2) show ?thesis
      proof
        assume b: "binds_identity y z"
        then have "?id s = Inr None" using same by (simp add: binds_identity_def)
        then show ?thesis using b z(1) step.hyps(1) by blast
      qed (use same z(1) in simp)
    next
      case bound
      then have "\<not> binds_identity y z" by (auto simp: binds_identity_def)
      then have "?id z = ?id b" "own_move\<^sup>*\<^sup>* b z" using z(2) bound(4,5) step.hyps(2) by auto
      then show ?thesis using z(1) bound by blast
    qed
  qed
  then show ?thesis using owner_identity_total by blast
qed

definition example_next_row :: TokenRow where
  "example_next_row = \<lparr>tk_access = ''b'', tk_refresh = ''s'', tk_expires_at = 90, tk_next_refresh_at = 60, tk_generation = Some 9\<rparr>"

lemma example_first_wf: "store_wf example_first"
  using system_okD(1) [OF reachable_ok [OF example_sent]] by (simp add: example_system_def)

theorem owner_identity_stable_witness:
  "\<exists>s'. own_move\<^sup>*\<^sup>* example_first s' \<and> current_generation s' = Some 9
     \<and> owner_wire_credential_identity s' = owner_wire_credential_identity example_first"
proof -
  have "\<exists>s'. complete_legacy_refresh 0 1 7 9 example_next_row example_first = Inr s'"
    by (simp add: complete_Inr stored_input_def is_fenced_def receipt_started_def current_generation_def
        example_defs example_next_row_def new_binding_def)
  then obtain s' where s': "complete_legacy_refresh 0 1 7 9 example_next_row example_first = Inr s'" by blast
  then have "own_move\<^sup>*\<^sup>* example_first s'" by (blast intro: own_complete)
  moreover have "current_generation s' = Some 9" using s' by (simp add: complete_Inr current_generation_def)
  moreover have "owner_wire_credential_identity example_first \<noteq> Inr None"
    by (simp add: owner_wire_credential_identity_def current_generation_def example_defs split: sum.splits)
  ultimately show ?thesis using owner_identity_stable [OF example_first_wf] by blast
qed

section \<open>The request ledger\<close>

text \<open>The CHECK constraints of the receipt table and the rules of the audit, for one receipt.\<close>

definition audit_ok :: "Receipt \<Rightarrow> bool" where
  "audit_ok r \<longleftrightarrow>
     (rcp_operation r = OP_VehicleData \<longrightarrow>
        rcp_safety_class r = SC_ConditionalRead \<and> rcp_precondition r = PC_StreamPowerConfirmed)
     \<and> (rcp_operation r = OP_VehicleWake \<longrightarrow> rcp_vehicle_tesla_id r \<noteq> None
        \<and> rcp_safety_class r = SC_DirectWakeCommand)
     \<and> (rcp_operation r = OP_VehicleCommand \<longrightarrow> rcp_vehicle_tesla_id r \<noteq> None
        \<and> rcp_safety_class r = SC_ExplicitVehicleCommand)
     \<and> (case rcp_completed_at_ms r of
          None \<Rightarrow> rcp_outcome r = None \<and> rcp_duration_ms r = None
        | Some c \<Rightarrow> rcp_outcome r \<noteq> None \<and> rcp_started_at_ms r \<le> c \<and> rcp_duration_ms r = Some (c - rcp_started_at_ms r))"

definition ledger_ok :: "store \<Rightarrow> bool" where
  "ledger_ok s \<longleftrightarrow> (\<forall>r\<in>set (s_receipts s). audit_ok r)
     \<and> length (s_receipts s) \<le> MAX_OUTBOUND_REQUEST_RECEIPTS
     \<and> length (s_fences s) \<le> MAX_LEGACY_REFRESH_INPUT_FENCES"

lemma complete_receipt_audit: "audit_ok r \<Longrightarrow> audit_ok (complete_receipt now oc st ra r)"
  by (simp add: audit_ok_def complete_receipt_def Let_def split: option.splits)

lemma ledger_ok_map:
  "ledger_ok s \<Longrightarrow> (\<And>r. audit_ok r \<Longrightarrow> audit_ok (f r)) \<Longrightarrow> ledger_ok (s\<lparr>s_receipts := map f (s_receipts s)\<rparr>)"
  by (auto simp: ledger_ok_def)

lemma close_receipt_ledger: "ledger_ok s \<Longrightarrow> ledger_ok (close_receipt now i oc st ra s)"
  unfolding close_receipt_def by (erule ledger_ok_map) (simp add: complete_receipt_audit)

lemma cancel_all_ledger: "ledger_ok s \<Longrightarrow> ledger_ok (cancel_all_started now s)"
  unfolding cancel_all_started_def by (erule ledger_ok_map) (simp add: complete_receipt_audit)

lemma prune_ledger: "ledger_ok s \<Longrightarrow> ledger_ok (prune_expired_outbound_request_receipts now s)"
  unfolding ledger_ok_def using prune_subset(1) [of now s]
  by (auto simp: prune_expired_outbound_request_receipts_def Let_def intro: le_trans [OF length_filter_le])

lemma same_ledger: "ledger_ok s \<Longrightarrow> s_receipts s' = s_receipts s \<Longrightarrow> s_fences s' = s_fences s \<Longrightarrow> ledger_ok s'"
  by (simp add: ledger_ok_def)

lemma reserves_ledger:
  assumes "ledger_ok s" "reserves i g s s'"
  shows "ledger_ok s'"
proof -
  obtain now c a where b: "begin_legacy_refresh now c a g s = Inr (i, s')" using assms(2) by (auto elim: reservesE)
  then show ?thesis
    using prune_ledger [OF assms(1), of now]
    by (auto simp: begin_legacy_refresh_Inr Let_def ledger_ok_def outbound_request_capacity_consumers_def
        audit_ok_def new_refresh_receipt_def)
qed

lemma releases_ledger:
  assumes "ledger_ok s" "releases i g s s'"
  shows "ledger_ok s'"
proof -
  obtain now oc st ra p where s': "s' = (release now i g oc st ra s)\<lparr>s_pair := p\<rparr>"
    using releases_release [OF assms(2)] by blast
  show ?thesis
    using close_receipt_ledger [OF assms(1), of now i oc st ra]
    by (auto simp: s' ledger_ok_def release_receipts intro: le_trans [OF length_filter_le])
qed

lemma begin_outbound_ledger:
  assumes "ledger_ok s" "begin_outbound_request now q s = Inr (i, s')"
  shows "ledger_ok s'"
proof -
  let ?p = "prune_expired_outbound_request_receipts now s"
  have cap: "length (s_receipts ?p) < MAX_OUTBOUND_REQUEST_RECEIPTS"
    using assms(2) by (cases "outbound_start_validate q")
      (auto simp: begin_outbound_request_def ensure_outbound_request_capacity_def Let_def
        outbound_request_capacity_consumers_def split: if_splits)
  have dur: "rcp_duration_ms (last (s_receipts s')) = None"
    using assms(2) by (cases "outbound_start_validate q")
      (auto simp: begin_outbound_request_def ensure_outbound_request_capacity_def Let_def split: if_splits)
  show ?thesis
  proof (rule begin_outbound_Inr [OF assms(2)])
    fix r
    assume r: "s' = ?p\<lparr>s_receipts := s_receipts ?p @ [r], s_last_receipt_id := i\<rparr>"
      and f: "rcp_outcome r = None" "rcp_completed_at_ms r = None" "rcp_operation r = ors_operation q"
        "rcp_safety_class r = ors_safety_class q" "rcp_precondition r = ors_precondition q"
        "rcp_vehicle_tesla_id r = ors_vehicle_tesla_id q" "outbound_start_validate q = None"
    then have "audit_ok r" using dur by (simp add: audit_ok_def outbound_start_valid_iff)
    then show ?thesis using prune_ledger [OF assms(1), of now] cap by (auto simp: r ledger_ok_def)
  qed
qed

lemma keeps_ledger:
  assumes "ledger_ok s" "keeps s s'"
  shows "ledger_ok s'"
  using assms(2)
proof (cases rule: keeps.cases)
  case (keeps_complete now i g h t)
  then show ?thesis using same_ledger [OF close_receipt_ledger [OF assms(1)]] by (auto simp: complete_Inr)
next
  case (keeps_close now i g oc st ra)
  then show ?thesis using close_receipt_ledger [OF assms(1)] by (auto simp: close_attempt_Inr)
next
  case (keeps_replace now t)
  then show ?thesis using replace_Inr(1) [OF keeps_replace] same_ledger [OF cancel_all_ledger [OF assms(1)]]
      same_ledger [OF assms(1)] by auto
next
  case (keeps_bind t g)
  then show ?thesis using bind_Inr [OF keeps_bind] same_ledger [OF assms(1)] by auto
next
  case (keeps_clear now)
  then show ?thesis using same_ledger [OF cancel_all_ledger [OF assms(1)]]
    by (simp add: clear_teslamate_legacy_tokens_def)
next
  case (keeps_ledger_begin now q i) then show ?thesis using begin_outbound_ledger [OF assms(1)] by blast
next
  case (keeps_ledger_complete now i c)
  then show ?thesis using complete_outbound_Inr [OF keeps_ledger_complete] prune_ledger close_receipt_ledger [OF assms(1)]
    by blast
next
  case (keeps_status row now b)
  then show ?thesis using write_status_Inr [OF keeps_status] same_ledger [OF assms(1)] by auto
next
  case (keeps_digest p n go d)
  then show ?thesis using fill_digest_Inr [OF keeps_digest] same_ledger [OF assms(1)] by auto
next
  case (keeps_lift now b)
  then show ?thesis using lift_refusal_Inr [OF keeps_lift] same_ledger [OF assms(1)] by auto
qed

text \<open>
  C17: in every reachable state the tables are well formed and the request ledger obeys its
  audit rules: a vehicle-data read is recorded only as a conditional read behind a confirmed
  stream, wake and command receipts name their vehicle, a receipt is complete exactly when it
  has an outcome with a duration that fits its times, and neither the ledger nor the fence
  table grows past its bound.
\<close>
theorem reachable_store_invariant:
  "system_step\<^sup>*\<^sup>* system_init y \<Longrightarrow> store_wf (sy_store y) \<and> ledger_ok (sy_store y)"
proof (induction rule: rtranclp_induct)
  case base
  then show ?case using empty_store_wf by (simp add: system_init_def ledger_ok_def empty_store_def)
next
  case (step y z)
  have "store_wf (sy_store z)"
    using step(1,2) system_okD(1) [OF reachable_ok] by (meson rtranclp.rtrancl_into_rtrancl)
  moreover have "ledger_ok (sy_store z)"
    using step(2,3) by (cases rule: system_step.cases) (auto intro: reserves_ledger releases_ledger keeps_ledger)
  ultimately show ?case by blast
qed

theorem reachable_store_invariant_witness:
  "\<exists>y. system_step\<^sup>*\<^sup>* system_init y \<and> s_receipts (sy_store y) \<noteq> [] \<and> ledger_ok (sy_store y)"
  using reachable_store_invariant [OF example_sent] example_sent
  by (intro exI [of _ "example_system example_first [1 \<mapsto> (7, Sent)] [Presented 1 7]"])
     (simp add: example_system_def example_first_def example_store_def)

section \<open>The status row in the store\<close>

definition write_status :: "store status_sink" where
  "write_status s row now_ms =
     (case write_collector_auth_row row now_ms s of Inl e \<Rightarrow> (Inl e, s) | Inr (changed, s') \<Rightarrow> (Inr changed, s'))"

lemma write_row_stored:
  "write_collector_auth_row row now s = Inr (b, s') \<Longrightarrow> load_collector_auth_row s' = Some row"
  by (auto simp: write_collector_auth_row_def load_collector_auth_row_def split: if_splits)

interpretation row_store: status_store write_status load_collector_auth_row
  by unfold_locales (auto simp: write_status_def write_row_stored split: sum.splits)

lemma reason_code_length: "1 \<le> length (status_reason_code r) \<and> length (status_reason_code r) \<le> 64"
proof (cases r)
  case (SR_Retry x) then show ?thesis by (cases x) simp_all
next
  case (SR_SignOut x) then show ?thesis by (cases x) simp_all
next
  case (SR_Refusal x) then show ?thesis by (cases x) simp_all
next
  case (SR_Configuration x) then show ?thesis by (cases x) simp_all
next
  case (SR_Observer x) then show ?thesis by (cases x) simp_all
qed

definition times_nonnegative :: "AuthStatus \<Rightarrow> bool" where
  "times_nonnegative s \<longleftrightarrow> pred_option (\<lambda>t. t \<ge> 0) (st_retry_at s)
     \<and> pred_option (\<lambda>t. t \<ge> 0) (fs_last_rejection_at (st_fuse s))
     \<and> pred_option (\<lambda>t. t \<ge> 0) (fs_pause_until (st_fuse s))"

lemma state_code_stop:
  "state_code a \<in> {''sign_in_required'', ''signed_out''} \<longleftrightarrow> a \<in> {AS_SignInRequired, AS_SignedOut}"
  "state_code a = ''api_refused'' \<longleftrightarrow> a = AS_ApiRefused"
  "state_code a \<in> {''ready'', ''refreshing'', ''retrying'', ''persistence_pending'', ''awaiting_confirmation'',
     ''observer_waiting'', ''clock_invalid'', ''configuration_error'', ''sign_in_required'', ''signed_out'', ''api_refused''}"
  by (cases a; simp)+

lemma consistent_row_check:
  assumes c: "status_is_consistent s" and t: "times_nonnegative s" and now: "0 \<le> now"
  shows "auth_row_check (to_row s) now"
proof -
  have stops: "(st_state s \<in> {AS_SignInRequired, AS_SignedOut}) = (st_stopped_generation s \<noteq> None)"
    "(st_state s = AS_ApiRefused) = (st_stopped_mode s \<noteq> None)" and f: "fuse_is_consistent (st_fuse s)"
    using c unfolding status_is_consistent_def Let_def by blast+
  have "pred_option (\<lambda>r. 1 \<le> length r \<and> length r \<le> 64) (map_option status_reason_code (st_reason s))"
    using reason_code_length by (cases "st_reason s") simp_all
  moreover have "pred_option (\<lambda>m. m \<in> {''legacy'', ''provider''}) (map_option stopped_mode_code (st_stopped_mode s))"
  proof (cases "st_stopped_mode s")
    case (Some m) then show ?thesis by (cases m) simp_all
  qed simp
  ultimately show ?thesis
    using t now f stops unfolding auth_row_check_def times_nonnegative_def
    by (intro conjI)
       (simp_all only: to_row_def state_code_stop fuse_is_consistent_def FUSE_LIMIT_def CollectorAuthRow.simps
          option.map_disc_iff simp_thms)
qed

text \<open>
  C22: a consistent status with non-negative times that is published, at a time not before the
  epoch, when no retry is waiting and the store takes the write, is written and read back exactly
  by the next start, and the recorder then knows the stored row. The one exception is a recorder
  that already takes this very row for the stored one: it writes nothing. Where what it knows is
  true, or it knows nothing, the status is in the store in that case too. It can be false after a
  write that committed and reported an error, and then the other row stays.
\<close>
theorem published_status_read_back:
  assumes "rec_next_attempt_ms r = None \<or> (\<exists>t. rec_next_attempt_ms r = Some t \<and> t \<le> now)"
    and "status_is_consistent st" "times_nonnegative st" "0 \<le> now"
  shows "\<exists>res r' s'. recorder_set write_status r st now s = (res, r', s') \<and> rec_current r' = st
    \<and> (if rec_written r = Some (to_row st) then res = SW_Unchanged \<and> s' = s
       else res = SW_Written \<and> map_option from_row (load_collector_auth_row s') = Some (Inr st)
         \<and> rec_written r' = load_collector_auth_row s')
    \<and> (rec_written r = None \<or> rec_written r = load_collector_auth_row s \<longrightarrow>
         map_option from_row (load_collector_auth_row s') = Some (Inr st)
         \<and> rec_written r' = load_collector_auth_row s')"
proof -
  have read: "from_row (to_row st) = Inr st" using assms(2) from_row_to_row by blast
  show ?thesis
  proof (cases "rec_written r = Some (to_row st)")
    case True
    then have "recorder_set write_status r st now s
        = (SW_Unchanged, r\<lparr>rec_current := st, rec_failures := 0, rec_next_attempt_ms := None\<rparr>, s)"
      by (simp add: recorder_set_def is_synced_def)
    moreover have "map_option from_row (load_collector_auth_row s) = Some (Inr st)"
      if "rec_written r = load_collector_auth_row s" using that True read by (metis option.map(2))
    ultimately show ?thesis using True by simp
  next
    case False
    then have "recorder_set write_status r st now s = recorder_attempt write_status (r\<lparr>rec_current := st\<rparr>) now s"
      using assms(1) by (auto simp: recorder_set_def is_synced_def Let_def)
    moreover have "\<exists>b s1. write_collector_auth_row (to_row st) now s = Inr (b, s1)"
      using consistent_row_check [OF assms(2-4)] assms(4) by (auto simp: write_collector_auth_row_def)
    then obtain b s1 where w: "write_collector_auth_row (to_row st) now s = Inr (b, s1)" by blast
    ultimately have set: "recorder_set write_status r st now s
        = (SW_Written, r\<lparr>rec_current := st, rec_written := Some (to_row st), rec_failures := 0, rec_next_attempt_ms := None\<rparr>, s1)"
      by (simp add: recorder_attempt_def write_status_def)
    have "load_collector_auth_row s1 = Some (to_row st)" by (rule write_row_stored [OF w])
    then show ?thesis using set False read by simp
  qed
qed

theorem published_status_read_back_witness:
  "\<exists>r' s'. recorder_set write_status (recorder_new (status_ready fuse_default False) None) (status_ready fuse_default True) 5 empty_store
      = (SW_Written, r', s') \<and> map_option from_row (load_collector_auth_row s') = Some (Inr (status_ready fuse_default True))"
proof -
  have "rec_written (recorder_new (status_ready fuse_default False) None) = None"
    "rec_next_attempt_ms (recorder_new (status_ready fuse_default False) None) = None"
    by (simp_all add: recorder_new_def)
  moreover have "status_is_consistent (status_ready fuse_default True)" "times_nonnegative (status_ready fuse_default True)"
    by (code_simp, simp add: times_nonnegative_def status_ready_def fuse_default_def)
  ultimately show ?thesis
    using published_status_read_back [of "recorder_new (status_ready fuse_default False) None" 5 "status_ready fuse_default True" empty_store]
    by auto
qed

end
