(* ===== verification/Auth_Restore.thy ===== *)
theory Auth_Restore
  imports Fence_Identity
begin

text \<open>
  The second part of \<^verbatim>\<open>src/auth/legacy_auth/state.rs\<close>: how the stored pair relates to the
  unit's own writes, the re-read that decides whether a write that reported an error had
  committed, and the restore of the unit's state at start. The lemmas show that the restored
  status is always consistent and never forgets a stop, that the restart floor spaces token
  requests, and that the re-read tells the three possible pasts apart.
\<close>

section \<open>The stored pair and the unit's own writes\<close>

definition CLOCK_RECHECK_SECONDS :: int where
  [hub_consts]: "CLOCK_RECHECK_SECONDS = 60"

definition EXTERNAL_WRITE_RECHECK_SECONDS :: int where
  [hub_consts]: "EXTERNAL_WRITE_RECHECK_SECONDS = 60"

datatype StoredPairRelation = PR_Current | PR_OwnOutput uuid | PR_External | PR_Missing

definition stored_pair_relation :: "store \<Rightarrow> uuid \<Rightarrow> StoredPairRelation" where
  "stored_pair_relation s own =
     (case stored_legacy_credential_generation s of
        SG_NoRow \<Rightarrow> PR_Missing
      | SG_Unbound \<Rightarrow> PR_External
      | SG_Bound stored \<Rightarrow>
          (if stored = own then PR_Current
           else if legacy_generation_is_refresh_output s stored then PR_OwnOutput stored
           else PR_External))"

datatype PersistReread = RR_AlreadyPersisted | RR_ClosedForThisAttempt | RR_StillInput | RR_External | RR_Missing

record PairImage =
  pi_access :: string
  pi_refresh :: string
  pi_expires_at :: int
  pi_next_refresh_at :: int
  pi_generation :: uuid

definition image_of :: "TokenRow \<Rightarrow> uuid \<Rightarrow> PairImage" where
  "image_of row generation =
     \<lparr>pi_access = tk_access row, pi_refresh = tk_refresh row, pi_expires_at = tk_expires_at row,
      pi_next_refresh_at = tk_next_refresh_at row, pi_generation = generation\<rparr>"

definition row_for_a_retry :: "PairImage \<Rightarrow> uuid \<Rightarrow> int \<Rightarrow> int \<Rightarrow> TokenRow option" where
  "row_for_a_retry im generation expires_at next_refresh_at =
     (if pi_generation im \<noteq> generation \<or> pi_expires_at im \<noteq> expires_at
         \<or> pi_next_refresh_at im \<noteq> next_refresh_at then None
      else (case token_row_refreshed (pi_access im) (pi_refresh im) (pi_expires_at im) (pi_next_refresh_at im) of
              Inl _ \<Rightarrow> None
            | Inr row \<Rightarrow> (case with_credential_generation row (pi_generation im) of
                            Inl _ \<Rightarrow> None | Inr row' \<Rightarrow> Some row')))"

definition is_the_row :: "PairImage \<Rightarrow> TokenRow \<Rightarrow> bool" where
  "is_the_row im row \<longleftrightarrow>
     tk_generation row = Some (pi_generation im) \<and> tk_access row = pi_access im \<and> tk_refresh row = pi_refresh im
     \<and> tk_expires_at row = pi_expires_at im \<and> tk_next_refresh_at row = pi_next_refresh_at im"

record OwnWrite =
  ow_receipt :: nat
  ow_image :: PairImage

definition reread_own_write :: "store \<Rightarrow> uuid \<Rightarrow> OwnWrite \<Rightarrow> StoreError + PersistReread" where
  "reread_own_write s successor own =
     (case legacy_pair_and_receipt_snapshot s (ow_receipt own) of
        Inl e \<Rightarrow> Inl e
      | Inr snapshot \<Rightarrow>
         (case lps_row snapshot of
            None \<Rightarrow> Inr RR_Missing
          | Some row \<Rightarrow>
             (case tk_generation row of
                None \<Rightarrow> Inr RR_External
              | Some generation \<Rightarrow>
                 (if generation \<noteq> successor then Inr RR_External
                  else (let receipt = lps_receipt snapshot;
                            is_the_write = is_the_row (ow_image own) row;
                            still_open = (case receipt of None \<Rightarrow> False | Some f \<Rightarrow> facts_is_started f)
                        in if is_the_write
                           then Inr (if (case receipt of None \<Rightarrow> False | Some f \<Rightarrow> facts_is_token_refresh_success f)
                                     then RR_ClosedForThisAttempt else RR_StillInput)
                           else if still_open then Inr RR_StillInput
                           else Inr RR_External)))))"

definition persist_reread :: "store \<Rightarrow> uuid \<Rightarrow> uuid \<Rightarrow> OwnWrite option \<Rightarrow> StoreError + PersistReread" where
  "persist_reread s input successor own =
     (case (if input = successor then own else None) of
        Some w \<Rightarrow> reread_own_write s successor w
      | None \<Rightarrow>
         Inr (case stored_legacy_credential_generation s of
                SG_NoRow \<Rightarrow> RR_Missing
              | SG_Unbound \<Rightarrow> RR_External
              | SG_Bound stored \<Rightarrow>
                  (if stored = successor then RR_AlreadyPersisted
                   else if stored = input then RR_StillInput
                   else RR_External)))"

section \<open>The restore at start\<close>

datatype PairLoad = PL_Loaded uuid "int option" | PL_Invalid uuid

fun pair_generation :: "PairLoad \<Rightarrow> uuid" where
  "pair_generation (PL_Loaded g _) = g"
| "pair_generation (PL_Invalid g) = g"

fun pair_is_usable :: "PairLoad \<Rightarrow> int \<Rightarrow> bool" where
  "pair_is_usable (PL_Loaded _ usable_until) now = (case usable_until of None \<Rightarrow> True | Some until \<Rightarrow> now < until)"
| "pair_is_usable (PL_Invalid _) now = False"

definition pair_is_invalid :: "PairLoad \<Rightarrow> bool" where
  "pair_is_invalid p = (case p of PL_Invalid _ \<Rightarrow> True | PL_Loaded _ _ \<Rightarrow> False)"

record StartInputs =
  si_now :: int
  si_mode :: AuthMode
  si_observer :: bool
  si_pair :: PairLoad
  si_configuration :: "ConfigurationReason option"
  si_c3_reset_refusal :: bool

record StartFacts =
  sf_unresolved_attempt :: bool
  sf_stored :: "CollectorAuthRow option"
  sf_current_is_refresh_output :: bool
  sf_last_receipt_started_at_ms :: "int option"

definition facts_read :: "store \<Rightarrow> uuid \<Rightarrow> StartFacts" where
  "facts_read s current =
     \<lparr>sf_unresolved_attempt = has_unresolved_legacy_refresh s, sf_stored = load_collector_auth_row s,
      sf_current_is_refresh_output = legacy_generation_is_refresh_output s current,
      sf_last_receipt_started_at_ms = latest_legacy_refresh_started_at_ms s\<rparr>"

record RestoredAuth =
  rst_status :: AuthStatus
  rst_clock_valid :: bool
  rst_token_requests_not_before :: int
  rst_pause_elapsed :: bool

definition restored_fuse :: "AuthStatus option \<Rightarrow> uuid \<Rightarrow> bool \<Rightarrow> int \<Rightarrow> bool \<Rightarrow> FuseSnapshot" where
  "restored_fuse stored current current_is_refresh_output now clock_valid =
     (case stored of
        None \<Rightarrow> fuse_default
      | Some status \<Rightarrow>
         (let fuse = st_fuse status
          in if fs_consecutive fuse = 0 then fuse_default
             else (let same_history = (fs_generation fuse = Some current \<or> current_is_refresh_output);
                       recent = (\<not> clock_valid \<or>
                         (case fs_last_rejection_at fuse of None \<Rightarrow> False | Some t \<Rightarrow> rejection_window_open t now))
                   in if same_history \<and> recent then fuse else fuse_default)))"

definition fuse_owes_forced_refresh :: "FuseSnapshot \<Rightarrow> uuid \<Rightarrow> uuid \<Rightarrow> int \<Rightarrow> bool \<Rightarrow> bool" where
  "fuse_owes_forced_refresh fuse current current_access now clock_valid \<longleftrightarrow>
     fs_consecutive fuse \<ge> 1 \<and> fs_generation fuse = Some current
     \<and> fs_rejected_access fuse = Some current_access
     \<and> (\<not> clock_valid \<or>
        (case fs_last_rejection_at fuse of None \<Rightarrow> False | Some t \<Rightarrow> rejection_window_open t now))"

definition restart_floor :: "int \<Rightarrow> int option \<Rightarrow> int" where
  "restart_floor now last_receipt_started_at_ms =
     (case last_receipt_started_at_ms of
        None \<Rightarrow> 0
      | Some started_ms \<Rightarrow>
         (let interval_ms = MIN_REFRESH_INTERVAL_SECONDS * 1000;
              floor = saturating_add (saturating_add started_ms interval_ms) 999 div 1000
          in min floor (saturating_add now MIN_REFRESH_INTERVAL_SECONDS)))"

definition restored_refusal :: "AuthStatus option \<Rightarrow> StoppedMode \<Rightarrow> bool \<Rightarrow> RefusalReason option" where
  "restored_refusal stored mode c3_reset_refusal =
     (case stored of
        None \<Rightarrow> None
      | Some status \<Rightarrow>
         (case status_stop status of
            Some (Stop_ApiRefused reason) \<Rightarrow>
              (if st_stopped_mode status = Some mode \<and> \<not> c3_reset_refusal then Some reason else None)
          | _ \<Rightarrow> None))"

definition restored_stop :: "AuthStatus option \<Rightarrow> uuid \<Rightarrow> AuthStop option" where
  "restored_stop stored current =
     (case stored of
        None \<Rightarrow> None
      | Some status \<Rightarrow>
         (case status_stop status of
            Some (Stop_SignInRequired reason) \<Rightarrow>
              (if st_stopped_generation status = Some current then Some (Stop_SignInRequired reason) else None)
          | Some (Stop_SignedOut reason) \<Rightarrow>
              (if st_stopped_generation status = Some current then Some (Stop_SignedOut reason) else None)
          | _ \<Rightarrow> None))"

definition restored_decision :: "StartInputs \<Rightarrow> StartFacts \<Rightarrow> AuthStatus option \<Rightarrow> AuthStop option" where
  "restored_decision inputs facts stored =
     (let refusal = restored_refusal stored (stopped_mode_of (si_mode inputs)) (si_c3_reset_refusal inputs);
          pair_stop = (if pair_is_invalid (si_pair inputs) then Some (Stop_SignedOut SO_StoredPairInvalid)
                       else if sf_unresolved_attempt facts then Some (Stop_SignedOut SO_RefreshOutcomeUnknown)
                       else None);
          stored_stop = restored_stop stored (pair_generation (si_pair inputs))
      in if pair_is_invalid (si_pair inputs) then pair_stop
         else (case refusal of
                 Some reason \<Rightarrow> Some (Stop_ApiRefused reason)
               | None \<Rightarrow> (case pair_stop of Some x \<Rightarrow> Some x | None \<Rightarrow> stored_stop)))"

definition restored_status :: "StartInputs \<Rightarrow> AuthStop option \<Rightarrow> FuseSnapshot \<Rightarrow> bool \<Rightarrow> bool \<Rightarrow> AuthStatus" where
  "restored_status inputs stop fuse awaiting skew =
     (let now = si_now inputs;
          clock_valid = clock_is_valid now;
          usable = (clock_valid \<and> pair_is_usable (si_pair inputs) now);
          sign_in_expired = (clock_valid \<and> \<not> usable)
      in case stop of
           Some x \<Rightarrow>
             (let status = status_stopped x (pair_generation (si_pair inputs)) (stopped_mode_of (si_mode inputs))
                             usable fuse skew
              in if sign_in_expired then with_sign_in_expired status else status)
         | None \<Rightarrow>
            (if \<not> clock_valid then status_idle AS_ClockInvalid None fuse skew
             else (case si_configuration inputs of
                     Some reason \<Rightarrow> status_idle AS_ConfigurationError (Some (SR_Configuration reason)) fuse skew
                   | None \<Rightarrow>
                      (if awaiting
                       then status_idle AS_AwaitingConfirmation (Some (SR_SignOut SO_AccessTokenRejected)) fuse skew
                       else status_ready fuse skew))))"

definition stored_status :: "StartFacts \<Rightarrow> StoreError + AuthStatus option" where
  "stored_status facts =
     (case sf_stored facts of
        None \<Rightarrow> Inr None
      | Some row \<Rightarrow> (case from_row row of Inl e \<Rightarrow> Inl e | Inr st \<Rightarrow> Inr (Some st)))"

definition restore_from_facts :: "StartInputs \<Rightarrow> StartFacts \<Rightarrow> StoreError + RestoredAuth" where
  "restore_from_facts inputs facts =
     (let now = si_now inputs; clock_valid = clock_is_valid now
      in case stored_status facts of
           Inl e \<Rightarrow> Inl e
         | Inr stored \<Rightarrow>
            (let fuse = restored_fuse stored (pair_generation (si_pair inputs))
                          (sf_current_is_refresh_output facts) now clock_valid;
                 pause = (if si_observer inputs then None else fs_pause_until fuse);
                 awaiting = (clock_valid \<and> (case pause of None \<Rightarrow> False | Some until \<Rightarrow> now < until));
                 pause_elapsed = (clock_valid \<and> (case pause of None \<Rightarrow> False | Some until \<Rightarrow> now \<ge> until));
                 skew = (case stored of None \<Rightarrow> False | Some status \<Rightarrow> st_clock_skew status);
                 status = restored_status inputs (restored_decision inputs facts stored) fuse awaiting skew
             in Inr \<lparr>rst_status = status, rst_clock_valid = clock_valid,
                     rst_token_requests_not_before = restart_floor now (sf_last_receipt_started_at_ms facts),
                     rst_pause_elapsed = pause_elapsed\<rparr>))"

definition restore_at_start :: "store \<Rightarrow> StartInputs \<Rightarrow> StoreError + RestoredAuth" where
  "restore_at_start s inputs = restore_from_facts inputs (facts_read s (pair_generation (si_pair inputs)))"

section \<open>The restored status\<close>

lemma stored_status_consistent: "stored_status facts = Inr (Some st) \<Longrightarrow> status_is_consistent st"
  by (auto simp: stored_status_def split: option.splits sum.splits dest: from_row_consistent)

lemma restored_fuse_consistent:
  assumes "\<And>st. stored = Some st \<Longrightarrow> status_is_consistent st"
  shows "fuse_is_consistent (restored_fuse stored g o_out now v)"
proof (cases stored)
  case (Some st)
  then have "fuse_is_consistent (st_fuse st)" using assms by (simp add: status_is_consistent_def Let_def)
  then show ?thesis using Some by (simp add: restored_fuse_def Let_def)
qed (simp add: restored_fuse_def)

lemma restored_decision_admits:
  assumes "\<And>st. stored = Some st \<Longrightarrow> status_is_consistent st" "restored_decision i f stored = Some x"
  shows "admits (stop_state x) (Some (stop_reason x))"
proof -
  have "x = Stop_SignedOut SO_StoredPairInvalid \<or> x = Stop_SignedOut SO_RefreshOutcomeUnknown
      \<or> (\<exists>reason. x = Stop_ApiRefused reason) \<or> (\<exists>st. stored = Some st \<and> status_stop st = Some x)"
    using assms(2)
    by (auto simp: restored_decision_def restored_refusal_def restored_stop_def Let_def
        split: if_splits option.splits AuthStop.splits)
  then show ?thesis using assms(1) status_stop_admits by auto
qed

lemma restored_status_consistent:
  assumes "fuse_is_consistent fuse" "\<And>x. stop = Some x \<Longrightarrow> admits (stop_state x) (Some (stop_reason x))"
  shows "status_is_consistent (restored_status i stop fuse aw skew)"
  using assms
  by (cases stop) (auto simp: restored_status_def Let_def intro!: status_intros split: option.splits)

lemma restored_status_stop:
  "status_stop (restored_status i (Some x) fuse aw skew) = Some x
   \<or> (\<exists>reason. x = Stop_SignInRequired reason
        \<and> status_stop (restored_status i (Some x) fuse aw skew) = Some (Stop_SignedOut reason))"
  by (cases x) (auto simp: restored_status_def Let_def status_stop_def with_sign_in_expired_def status_stopped_def status_idle_def)

lemma restored_status_collects:
  "st_collecting (restored_status i stop fuse aw skew) \<Longrightarrow>
     clock_is_valid (si_now i) \<and> (\<forall>x. stop = Some x \<longrightarrow> \<not> blocks_requests x \<and> pair_is_usable (si_pair i) (si_now i))
     \<and> (stop = None \<longrightarrow> si_configuration i = None \<and> \<not> aw)"
  by (cases stop; cases "the stop")
     (auto simp: restored_status_def Let_def status_stopped_def status_idle_def status_ready_def with_sign_in_expired_def
        split: option.splits if_splits)

lemma collecting_stop:
  "status_is_consistent s \<Longrightarrow> st_collecting s \<Longrightarrow> status_stop s = Some x \<Longrightarrow> \<not> blocks_requests x"
  by (auto simp: status_is_consistent_def status_stop_def Let_def split: AuthState.splits option.splits StatusReason.splits)

text \<open>
  C19: the restore at start never forgets. Whenever it succeeds the status is consistent (the
  assertion in the code cannot fail); an attempt that is still unresolved leads to a stop that
  blocks every request; a stored refusal of the configured mode and a stored credential stop of
  the current generation are stops again; and the unit collects only with a valid clock and
  with no stop that blocks requests.
\<close>
theorem restore_at_start_sound:
  assumes "restore_at_start s inputs = Inr r"
  shows "status_is_consistent (rst_status r)
    \<and> (has_unresolved_legacy_refresh s \<longrightarrow> (\<exists>x. status_stop (rst_status r) = Some x \<and> blocks_requests x))
    \<and> (\<forall>row old. load_collector_auth_row s = Some row \<longrightarrow> from_row row = Inr old \<longrightarrow>
         (\<forall>reason. status_stop old = Some (Stop_ApiRefused reason) \<longrightarrow> st_stopped_mode old = Some (stopped_mode_of (si_mode inputs))
            \<longrightarrow> \<not> si_c3_reset_refusal inputs \<longrightarrow> \<not> pair_is_invalid (si_pair inputs)
            \<longrightarrow> status_stop (rst_status r) = Some (Stop_ApiRefused reason))
         \<and> (status_stop old \<noteq> None \<longrightarrow> st_stopped_generation old = Some (pair_generation (si_pair inputs))
            \<longrightarrow> status_stop (rst_status r) \<noteq> None))
    \<and> (st_collecting (rst_status r) \<longrightarrow> clock_is_valid (si_now inputs)
         \<and> (\<forall>x. status_stop (rst_status r) = Some x \<longrightarrow> \<not> blocks_requests x))"
proof -
  let ?f = "facts_read s (pair_generation (si_pair inputs))"
  obtain stored where st: "stored_status ?f = Inr stored"
    using assms by (cases "stored_status ?f") (auto simp: restore_at_start_def restore_from_facts_def Let_def)
  define stop where "stop = restored_decision inputs ?f stored"
  obtain fuse aw skew where r: "rst_status r = restored_status inputs stop fuse aw skew" "fuse_is_consistent fuse"
    using assms st restored_fuse_consistent [of stored] stored_status_consistent [of ?f]
    by (auto simp: restore_at_start_def restore_from_facts_def Let_def stop_def)
  have adm: "admits (stop_state x) (Some (stop_reason x))" if "stop = Some x" for x
    using that restored_decision_admits [of stored] stored_status_consistent [of ?f] st by (auto simp: stop_def)
  have "\<exists>x. stop = Some x \<and> blocks_requests x" if "has_unresolved_legacy_refresh s"
    using that by (auto simp: stop_def restored_decision_def Let_def facts_read_def split: option.splits)
  then have unres: "\<exists>x. status_stop (rst_status r) = Some x \<and> blocks_requests x" if "has_unresolved_legacy_refresh s"
    using that restored_status_stop [of inputs _ fuse aw skew] r(1) by (metis blocks_requests.simps(2))
  have old: "stored = Some st" if "load_collector_auth_row s = Some row" "from_row row = Inr st" for row st
    using that \<open>stored_status ?f = Inr stored\<close> by (simp add: stored_status_def facts_read_def)
  have refused: "status_stop (rst_status r) = Some (Stop_ApiRefused reason)"
    if "stored = Some st" "status_stop st = Some (Stop_ApiRefused reason)"
      "st_stopped_mode st = Some (stopped_mode_of (si_mode inputs))" "\<not> si_c3_reset_refusal inputs"
      "\<not> pair_is_invalid (si_pair inputs)" for st reason
    using that restored_status_stop [of inputs "Stop_ApiRefused reason" fuse aw skew] r(1)
    by (simp add: stop_def restored_decision_def restored_refusal_def Let_def)
  have kept: "status_stop (rst_status r) \<noteq> None"
    if "stored = Some st" "status_stop st \<noteq> None" "st_stopped_generation st = Some (pair_generation (si_pair inputs))" for st
  proof -
    have "status_is_consistent st" using that(1) \<open>stored_status ?f = Inr stored\<close> stored_status_consistent [of ?f] by simp
    then have "\<exists>reason. status_stop st = Some (Stop_SignInRequired reason) \<or> status_stop st = Some (Stop_SignedOut reason)"
      using that(2,3) by (auto simp: status_is_consistent_def Let_def status_stop_def
          split: AuthState.splits option.splits StatusReason.splits)
    then have "stop \<noteq> None"
      using that by (auto simp: stop_def restored_decision_def restored_stop_def Let_def split: option.splits)
    then show ?thesis using restored_status_stop [of inputs _ fuse aw skew] r(1) by fastforce
  qed
  have cons: "status_is_consistent (rst_status r)" unfolding r(1) using r(2) adm by (rule restored_status_consistent)
  have coll: "clock_is_valid (si_now inputs) \<and> (\<forall>x. status_stop (rst_status r) = Some x \<longrightarrow> \<not> blocks_requests x)"
    if "st_collecting (rst_status r)"
    using that cons collecting_stop restored_status_collects [of inputs stop fuse aw skew] r(1) by auto
  show ?thesis using cons unres old refused kept coll by blast
qed

definition example_restored_store :: store where
  "example_restored_store = example_first\<lparr>s_auth_row := Some (to_row (status_ready fuse_default False), 0)\<rparr>"

definition example_start :: StartInputs where
  "example_start = \<lparr>si_now = 1700000000, si_mode = Tesla, si_observer = False, si_pair = PL_Loaded 7 None,
     si_configuration = None, si_c3_reset_refusal = False\<rparr>"

theorem restore_at_start_sound_witness:
  "\<exists>r. restore_at_start example_restored_store example_start = Inr r
     \<and> (\<exists>x. status_stop (rst_status r) = Some x \<and> blocks_requests x)"
proof -
  have h: "has_unresolved_legacy_refresh example_restored_store" by code_simp
  have "\<exists>r. restore_at_start example_restored_store example_start = Inr r"
    using from_row_to_row [of "status_ready fuse_default False"]
    by (simp add: restore_at_start_def restore_from_facts_def stored_status_def facts_read_def Let_def
        example_restored_store_def load_collector_auth_row_def status_intros)
  then show ?thesis using restore_at_start_sound [of example_restored_store example_start] h by blast
qed

section \<open>The floor of token requests after a restart\<close>

lemma latest_started_ge:
  assumes "r \<in> set (s_receipts s)" "is_refresh_receipt r"
  shows "\<exists>t. latest_legacy_refresh_started_at_ms s = Some t \<and> rcp_started_at_ms r \<le> t
    \<and> (\<exists>r'\<in>set (s_receipts s). is_refresh_receipt r' \<and> rcp_started_at_ms r' = t)"
proof -
  let ?l = "map rcp_started_at_ms (filter (\<lambda>r. rcp_transport r = TR_LegacyAuth \<and> rcp_operation r = OP_TokenRefresh) (s_receipts s))"
  have m: "rcp_started_at_ms r \<in> set ?l" using assms by (auto simp: is_refresh_receipt_def)
  then obtain y ys where l: "?l = y # ys" by (cases ?l) auto
  have f: "fold max ys y = Max (set (y # ys))" by (rule Max.set_eq_fold [symmetric])
  then have "fold max ys y \<in> set (y # ys)" using Max_in [of "set (y # ys)"] by simp
  then have "fold max ys y \<in> set ?l" using l by simp
  then have "\<exists>r'\<in>set (s_receipts s). is_refresh_receipt r' \<and> rcp_started_at_ms r' = fold max ys y"
    by (auto simp: is_refresh_receipt_def)
  moreover have "rcp_started_at_ms r \<le> fold max ys y" using f m l Max_ge [of "set (y # ys)"] by simp
  ultimately show ?thesis by (simp add: latest_legacy_refresh_started_at_ms_def l)
qed

text \<open>
  C24: after a restart no token request may start within a minute of the start of any earlier one
  that the ledger still holds and that started no later than the current whole second. For one
  that started later in the current second, or that lies in the future because the clock was set
  back, the minute is counted from the current whole second. The wait is never longer than a
  minute from the current second, whatever the clock did.
\<close>
theorem restart_floor_spaces_requests:
  assumes "restore_at_start s inputs = Inr r"
    and "x \<in> set (s_receipts s)" "rcp_transport x = TR_LegacyAuth" "rcp_operation x = OP_TokenRefresh"
    and "\<forall>x\<in>set (s_receipts s). 0 \<le> rcp_started_at_ms x"
    and "0 \<le> si_now inputs" "si_now inputs \<le> 2 ^ 52"
  shows "min (rcp_started_at_ms x) (1000 * si_now inputs) + 60000 \<le> 1000 * rst_token_requests_not_before r
    \<and> rst_token_requests_not_before r \<le> si_now inputs + 60"
proof -
  have "is_refresh_receipt x" using assms(3,4) by (simp add: is_refresh_receipt_def)
  then obtain t where t: "latest_legacy_refresh_started_at_ms s = Some t" "rcp_started_at_ms x \<le> t" "0 \<le> t"
    using latest_started_ge [OF assms(2)] assms(5) by blast
  define floor where "floor = saturating_add (saturating_add t 60000) 999 div 1000"
  have "rst_token_requests_not_before r = restart_floor (si_now inputs) (Some t)"
    using assms(1) t(1) by (cases "stored_status (facts_read s (pair_generation (si_pair inputs)))")
      (auto simp: restore_at_start_def restore_from_facts_def Let_def facts_read_def)
  also have "\<dots> = min floor (si_now inputs + 60)"
    using assms(6,7) by (simp add: restart_floor_def floor_def MIN_REFRESH_INTERVAL_SECONDS_def
        saturating_add_def [of "si_now inputs"] sat_i64_def i64_max_def i64_min_def)
  finally have f: "rst_token_requests_not_before r = min floor (si_now inputs + 60)" .
  have "t + 60000 \<le> 1000 * floor \<or> si_now inputs + 60 \<le> floor"
  proof (cases "t \<le> 2 ^ 62")
    case True
    then have "floor = (t + 60999) div 1000"
      using t(3) by (simp add: floor_def saturating_add_def sat_i64_def i64_max_def i64_min_def)
    then show ?thesis by simp linarith
  next
    case False
    then have "2 ^ 62 \<le> saturating_add (saturating_add t 60000) 999"
      by (simp add: saturating_add_def sat_i64_def i64_max_def i64_min_def)
    then have "2 ^ 62 div 1000 \<le> floor" unfolding floor_def by (intro zdiv_mono1) simp_all
    then show ?thesis using assms(7) by simp
  qed
  then show ?thesis using f t(2) by linarith
qed

theorem restart_floor_spaces_requests_witness:
  "\<exists>r. restore_at_start example_restored_store example_start = Inr r
     \<and> 0 + 60000 \<le> 1000 * rst_token_requests_not_before r"
proof -
  have "\<exists>r. restore_at_start example_restored_store example_start = Inr r"
    using from_row_to_row [of "status_ready fuse_default False"]
    by (simp add: restore_at_start_def restore_from_facts_def stored_status_def facts_read_def Let_def
        example_restored_store_def load_collector_auth_row_def status_intros)
  then obtain r where r: "restore_at_start example_restored_store example_start = Inr r" by blast
  have x: "s_receipts example_restored_store = [example_receipt 1 None None]" "si_now example_start = 1700000000"
    by (simp_all add: example_restored_store_def example_first_def example_store_def example_start_def)
  show ?thesis
    using restart_floor_spaces_requests [OF r, of "example_receipt 1 None None"] r
    by (simp add: x) (simp add: example_receipt_def)
qed

section \<open>The re-read after a write that reported an error\<close>

lemma find_receipt_iff:
  assumes "store_wf s"
  shows "find_receipt s i = Some r \<longleftrightarrow> r \<in> set (s_receipts s) \<and> rcp_id r = i"
proof -
  have "r = r'" if "r \<in> set (s_receipts s)" "r' \<in> set (s_receipts s)" "rcp_id r = rcp_id r'" for r r'
    using receipts_wf_unique assms that by (auto simp: store_wf_def)
  moreover have "r' \<in> set (s_receipts s) \<and> rcp_id r' = i" if "find_receipt s i = Some r'" for r'
    using that by (auto simp: find_receipt_def find_Some_iff)
  moreover have "\<exists>r'. find_receipt s i = Some r'" if "r \<in> set (s_receipts s)" "rcp_id r = i"
    using that by (cases "find_receipt s i") (auto simp: find_receipt_def find_None_iff)
  ultimately show ?thesis by blast
qed

definition row_valid :: "TokenRow option \<Rightarrow> bool" where
  "row_valid p \<longleftrightarrow> revalidate_row p = Inr p"

text \<open>After the write of an equal-generation successor its receipt is found closed and no attempt is open.\<close>

lemma unrotated_closed:
  assumes wf: "store_wf s" and c: "complete_unrotated_legacy_refresh now i g t s = Inr s'"
  obtains r where "find_receipt s' i = Some r" "is_refresh_receipt r" "rcp_outcome r = Some OC_Success"
    "no_open s'" "s_pair s' = Some t" "tk_generation t = Some g"
proof -
  have s': "s' = (release now i g OC_Success (Some 200) None s)\<lparr>s_pair := Some t\<rparr>" "tk_generation t = Some g"
    and open_: "attempt_bound s i g" "refresh_started s i"
    using c by (simp_all add: complete_unrotated_Inr)
  obtain r where r: "r \<in> set (s_receipts s)" "rcp_id r = i" "rcp_outcome r = None" "is_refresh_receipt r"
    using open_(2) by (auto simp: refresh_started_iff)
  let ?r = "complete_receipt now OC_Success (Some 200) None r"
  have "?r \<in> set (s_receipts s')" using r by (force simp: s' release_receipts close_receipt_def)
  then have f: "find_receipt s' i = Some ?r"
    using find_receipt_iff [OF complete_unrotated_wf [OF wf c]] r by (simp add: complete_receipt_def Let_def)
  have "no_open (close_receipt now i OC_Success (Some 200) None s)"
    by (rule close_no_open [OF wf open_(1) refresh_started_receipt_started [OF open_(2)]])
  then have "no_open s'" by (rule no_open_subset) (auto simp: s' release_receipts)
  moreover have "is_refresh_receipt ?r" "rcp_outcome ?r = Some OC_Success"
    using r(4) by (simp_all add: complete_receipt_def Let_def is_refresh_receipt_def)
  ultimately show thesis using that [OF f] s' by simp
qed

text \<open>
  C20: when the write of a successor reported an error, the re-read tells the possible pasts
  apart. While the attempt is open and nothing was committed it says that the input is still
  stored; after the committed rotation, and after the committed write of an equal-generation
  successor, it says so, so nothing is written twice; after an external write of another pair
  it says that the successor must be discarded. This includes a pair with the same refresh token,
  hence the same generation, that replaced the committed row: only the row itself proves the write.
\<close>
theorem persist_reread_tells_the_past:
  assumes wf: "store_wf s" and open_: "attempt_bound s i g" "receipt_started s i" and valid: "row_valid (s_pair s)"
  shows "(h \<noteq> g \<longrightarrow> persist_reread s g h own = Inr RR_StillInput)
    \<and> persist_reread s g g (Some \<lparr>ow_receipt = i, ow_image = im\<rparr>) = Inr RR_StillInput
    \<and> (complete_legacy_refresh now i g h t s = Inr s' \<longrightarrow> persist_reread s' g h own = Inr RR_AlreadyPersisted)
    \<and> (complete_unrotated_legacy_refresh now i g t s = Inr s' \<longrightarrow> row_valid (Some t) \<longrightarrow>
         persist_reread s' g g (Some \<lparr>ow_receipt = i, ow_image = image_of t g\<rparr>) = Inr RR_ClosedForThisAttempt)
    \<and> (replace_teslamate_legacy_tokens now t s = Inr s' \<longrightarrow> row_valid (Some t) \<longrightarrow> tk_generation t \<noteq> Some h \<longrightarrow>
         persist_reread s' g h own = Inr RR_External
         \<and> persist_reread s' g g (Some \<lparr>ow_receipt = i, ow_image = im\<rparr>) = Inr RR_External)
    \<and> (complete_unrotated_legacy_refresh now i g t s = Inr s' \<longrightarrow> replace_teslamate_legacy_tokens now' t' s' = Inr s'' \<longrightarrow>
         row_valid (Some t') \<longrightarrow> t' \<noteq> t \<longrightarrow>
         persist_reread s'' g g (Some \<lparr>ow_receipt = i, ow_image = image_of t g\<rparr>) = Inr RR_External)"
proof (intro conjI impI)
  have cur: "current_generation s = Some g" using bound_started(2) [OF wf open_] .
  then obtain row where row: "s_pair s = Some row" "tk_generation row = Some g"
    by (auto simp: current_generation_def split: bind_splits)
  obtain r where r: "r \<in> set (s_receipts s)" "rcp_id r = i" "rcp_outcome r = None" "is_refresh_receipt r"
    using bound_started(1) [OF wf open_] by (auto simp: refresh_started_iff)
  have fr: "find_receipt s i = Some r" using find_receipt_iff [OF wf] r by simp
  show "persist_reread s g h own = Inr RR_StillInput" if "h \<noteq> g"
    using that row by (simp add: persist_reread_def stored_legacy_credential_generation_def)
  show "persist_reread s g g (Some \<lparr>ow_receipt = i, ow_image = im\<rparr>) = Inr RR_StillInput"
    using row r fr valid
    by (simp add: persist_reread_def reread_own_write_def legacy_pair_and_receipt_snapshot_def row_valid_def
        facts_is_started_def facts_is_token_refresh_success_def Let_def)
  show "persist_reread s' g h own = Inr RR_AlreadyPersisted" if "complete_legacy_refresh now i g h t s = Inr s'"
    using that by (simp add: complete_Inr persist_reread_def stored_legacy_credential_generation_def)
  show "persist_reread s' g g (Some \<lparr>ow_receipt = i, ow_image = image_of t g\<rparr>) = Inr RR_ClosedForThisAttempt"
    if c: "complete_unrotated_legacy_refresh now i g t s = Inr s'" and v: "row_valid (Some t)"
    using v by (rule_tac unrotated_closed [OF wf c])
      (simp add: persist_reread_def reread_own_write_def legacy_pair_and_receipt_snapshot_def row_valid_def
        facts_is_token_refresh_success_def is_the_row_def image_of_def is_refresh_receipt_def Let_def)
  show "persist_reread s'' g g (Some \<lparr>ow_receipt = i, ow_image = image_of t g\<rparr>) = Inr RR_External"
    if c: "complete_unrotated_legacy_refresh now i g t s = Inr s'"
      and rep: "replace_teslamate_legacy_tokens now' t' s' = Inr s''" and v: "row_valid (Some t')" and t': "t' \<noteq> t"
  proof (rule unrotated_closed [OF wf c])
    fix r' assume r': "find_receipt s' i = Some r'" "rcp_outcome r' = Some OC_Success" "no_open s'" "tk_generation t = Some g"
    have s'': "s'' = s'\<lparr>s_pair := Some t'\<rparr>"
      using rep r'(3) by (auto simp: replace_teslamate_legacy_tokens_def unresolved_inputs_Nil Let_def split: if_splits)
    have "\<not> is_the_row (image_of t g) t'" using t' r'(4) by (cases t; cases t') (auto simp: is_the_row_def image_of_def)
    then show ?thesis using v r'(1,2)
      by (auto simp: persist_reread_def reread_own_write_def legacy_pair_and_receipt_snapshot_def row_valid_def s''
          find_receipt_def facts_is_started_def Let_def split: option.splits)
  qed
  assume rep: "replace_teslamate_legacy_tokens now t s = Inr s'" and v: "row_valid (Some t)" and h: "tk_generation t \<noteq> Some h"
  have no: "\<not> no_open s" using open_ by (auto simp: no_open_def attempt_bound_iff)
  then have t: "tk_generation t \<noteq> Some g"
    using rep bound_fenced [OF wf open_(1)] by (auto simp: replace_teslamate_legacy_tokens_def Let_def split: if_splits)
  have p: "s_pair s' = Some t" using replace_Inr(1) [OF rep] by auto
  show "persist_reread s' g h own = Inr RR_External"
    using p t h v by (auto simp: persist_reread_def reread_own_write_def legacy_pair_and_receipt_snapshot_def
        row_valid_def stored_legacy_credential_generation_def split: option.splits)
  show "persist_reread s' g g (Some \<lparr>ow_receipt = i, ow_image = im\<rparr>) = Inr RR_External"
    using p t v by (auto simp: persist_reread_def reread_own_write_def legacy_pair_and_receipt_snapshot_def row_valid_def
        split: option.splits)
qed

theorem persist_reread_tells_the_past_witness:
  "persist_reread example_first 7 9 None = Inr RR_StillInput
   \<and> (\<exists>s'. complete_legacy_refresh 0 1 7 9 example_next_row example_first = Inr s'
        \<and> persist_reread s' 7 9 None = Inr RR_AlreadyPersisted)"
proof -
  have open_: "attempt_bound example_first 1 7" "receipt_started example_first 1" "row_valid (s_pair example_first)"
    unfolding row_valid_def by code_simp+
  have "isl (complete_legacy_refresh 0 1 7 9 example_next_row example_first) = False" by code_simp
  then obtain s' where "complete_legacy_refresh 0 1 7 9 example_next_row example_first = Inr s'"
    by (cases "complete_legacy_refresh 0 1 7 9 example_next_row example_first") auto
  then show ?thesis
    using persist_reread_tells_the_past [OF example_first_wf open_, of 9 None undefined 0 example_next_row] by simp
qed

end
