(* ===== verification/Float64.thy ===== *)
theory Float64
  imports Complex_Main Hub_Prelude
begin

text \<open>
  The part of Rust's \<open>f64\<close> that the sources use. A finite number is its rational value (the
  sign of a zero is not kept: no operation used here depends on it), and the result of an
  operation is the exact one rounded to the nearest double, ties to even, with the exponent
  range of IEEE 754 binary64.
\<close>

datatype f64 = F_NaN | F_Inf bool | F_Fin rat

section \<open>Rounding\<close>

definition pow2 :: "int \<Rightarrow> rat" where
  "pow2 k = (if 0 \<le> k then 2 ^ nat k else 1 / 2 ^ nat (- k))"

fun nat_log2 :: "nat \<Rightarrow> nat" where
  "nat_log2 n = (if n < 2 then 0 else Suc (nat_log2 (n div 2)))"

declare nat_log2.simps [simp del]

text \<open>The exponent \<open>k\<close> with \<open>2^k \<le> x < 2^(k+1)\<close> of a positive rational.\<close>

definition rat_log2 :: "rat \<Rightarrow> int" where
  "rat_log2 x =
     (let (p, q) = quotient_of x; k = int (nat_log2 (nat p)) - int (nat_log2 (nat q))
      in if pow2 k \<le> x then k else k - 1)"

definition ulp_exponent :: "rat \<Rightarrow> int" where
  "ulp_exponent x = (if x = 0 then - 1074 else max (- 1074) (rat_log2 \<bar>x\<bar> - 52))"

definition round_half_even :: "rat \<Rightarrow> int" where
  "round_half_even x =
     (let f = \<lfloor>x\<rfloor>; d = x - of_int f
      in if d < 1 / 2 then f else if 1 / 2 < d then f + 1 else if even f then f else f + 1)"

definition f64_round :: "rat \<Rightarrow> f64" where
  "f64_round x =
     (let e = ulp_exponent x; y = of_int (round_half_even (x / pow2 e)) * pow2 e
      in if pow2 1024 \<le> \<bar>y\<bar> then F_Inf (y < 0) else F_Fin y)"

section \<open>Operations\<close>

definition f64_of_int :: "int \<Rightarrow> f64" where
  "f64_of_int n = f64_round (of_int n)"

fun f64_is_finite :: "f64 \<Rightarrow> bool" where
  "f64_is_finite (F_Fin x) = True"
| "f64_is_finite _ = False"

fun f64_less_eq :: "f64 \<Rightarrow> f64 \<Rightarrow> bool" where
  "f64_less_eq F_NaN _ = False"
| "f64_less_eq _ F_NaN = False"
| "f64_less_eq (F_Inf neg) y = (neg \<or> y = F_Inf False)"
| "f64_less_eq (F_Fin x) (F_Inf neg) = (\<not> neg)"
| "f64_less_eq (F_Fin x) (F_Fin y) = (x \<le> y)"

text \<open>\<open>f64::clamp\<close> to a finite interval.\<close>

fun f64_clamp :: "f64 \<Rightarrow> rat \<Rightarrow> rat \<Rightarrow> f64" where
  "f64_clamp F_NaN lo hi = F_NaN"
| "f64_clamp (F_Inf neg) lo hi = F_Fin (if neg then lo else hi)"
| "f64_clamp (F_Fin x) lo hi = F_Fin (if x < lo then lo else if hi < x then hi else x)"

text \<open>Multiplication and division of finite numbers; an overflowed operand stays special.\<close>

definition f64_sign :: "rat \<Rightarrow> bool" where
  "f64_sign x \<longleftrightarrow> x < 0"

fun f64_mult :: "f64 \<Rightarrow> f64 \<Rightarrow> f64" where
  "f64_mult (F_Fin x) (F_Fin y) = f64_round (x * y)"
| "f64_mult (F_Inf s) (F_Fin y) = (if y = 0 then F_NaN else F_Inf (s \<noteq> f64_sign y))"
| "f64_mult (F_Fin x) (F_Inf s) = (if x = 0 then F_NaN else F_Inf (s \<noteq> f64_sign x))"
| "f64_mult (F_Inf s) (F_Inf t) = F_Inf (s \<noteq> t)"
| "f64_mult _ _ = F_NaN"

text \<open>Division by a finite non-zero number, the only division the sources make.\<close>

fun f64_div_by :: "f64 \<Rightarrow> rat \<Rightarrow> f64" where
  "f64_div_by (F_Fin x) y = f64_round (x / y)"
| "f64_div_by (F_Inf s) y = F_Inf (s \<noteq> f64_sign y)"
| "f64_div_by F_NaN y = F_NaN"

definition rat_trunc :: "rat \<Rightarrow> int" where
  "rat_trunc x = (if x < 0 then - \<lfloor>- x\<rfloor> else \<lfloor>x\<rfloor>)"

fun f64_trunc :: "f64 \<Rightarrow> f64" where
  "f64_trunc (F_Fin x) = F_Fin (of_int (rat_trunc x))"
| "f64_trunc x = x"

text \<open>The saturating cast \<open>as i64\<close>.\<close>

fun f64_as_i64 :: "f64 \<Rightarrow> int" where
  "f64_as_i64 F_NaN = 0"
| "f64_as_i64 (F_Inf neg) = (if neg then i64_min else i64_max)"
| "f64_as_i64 (F_Fin x) = sat_i64 (rat_trunc x)"

section \<open>Rounding keeps integral bounds\<close>

lemma pow2_pos [simp]: "0 < pow2 k"
  by (simp add: pow2_def)

lemma pow2_nonneg [simp]: "0 \<le> pow2 k"
  by (simp add: pow2_def)

lemma pow2_neq_0 [simp]: "pow2 k \<noteq> 0"
  by (simp add: pow2_def)

lemma pow2_mono: "j \<le> k \<Longrightarrow> pow2 j \<le> pow2 k"
proof -
  assume jk: "j \<le> k"
  have one: "(1 :: rat) \<le> 2 ^ n" for n by simp
  consider "0 \<le> j" | "j < 0" "0 \<le> k" | "k < 0" using jk by linarith
  then show ?thesis
  proof cases
    case 1
    with jk show ?thesis by (simp add: pow2_def power_increasing nat_mono)
  next
    case 2
    have "1 / 2 ^ nat (- j) \<le> (1 :: rat)" by simp
    from order_trans [OF this one [of "nat k"]] 2 show ?thesis by (simp add: pow2_def)
  next
    case 3
    then have "(2 :: rat) ^ nat (- k) \<le> 2 ^ nat (- j)" using jk by (intro power_increasing) auto
    with 3 jk show ?thesis by (simp add: pow2_def frac_le)
  qed
qed

lemma pow2_add_nat: "pow2 (k + int n) = pow2 k * 2 ^ n"
proof (induction n arbitrary: k)
  case 0
  then show ?case by simp
next
  case (Suc n)
  have step: "pow2 (k + 1) = 2 * pow2 k" for k
  proof (cases "0 \<le> k")
    case True
    then show ?thesis by (simp add: pow2_def nat_add_distrib)
  next
    case False
    then have "nat (- k) = Suc (nat (- (k + 1)))" by simp
    with False show ?thesis by (simp add: pow2_def)
  qed
  show ?case using Suc [of "k + 1"] step [of k] by (simp add: algebra_simps)
qed

lemma nat_log2_le: "0 < n \<Longrightarrow> 2 ^ nat_log2 n \<le> n"
  and nat_log2_less: "n < 2 ^ Suc (nat_log2 n)"
proof -
  show "0 < n \<Longrightarrow> 2 ^ nat_log2 n \<le> n"
  proof (induction n rule: nat_log2.induct)
    case (1 n)
    then show ?case by (cases "n < 2") (auto simp: nat_log2.simps [of n])
  qed
  show "n < 2 ^ Suc (nat_log2 n)"
  proof (induction n rule: nat_log2.induct)
    case (1 n)
    then show ?case by (cases "n < 2") (auto simp: nat_log2.simps [of n])
  qed
qed

lemma pow2_rat_log2_le:
  assumes "0 < x"
  shows "pow2 (rat_log2 x) \<le> x"
proof -
  obtain p q where pq: "quotient_of x = (p, q)" by (cases "quotient_of x") auto
  have q: "0 < q" and x: "x = of_int p / of_int q"
    using quotient_of_denom_pos [OF pq] quotient_of_div [OF pq] by auto
  then have p: "0 < p" using assms by (simp add: zero_less_divide_iff)
  define a b where "a = nat_log2 (nat p)" and "b = nat_log2 (nat q)"
  have "int (2 ^ a) \<le> p" "q < int (2 ^ Suc b)"
    using nat_log2_le [of "nat p"] nat_log2_less [of "nat q"] p q
    unfolding a_def b_def by linarith+
  then have "rat_of_int (int (2 ^ a)) \<le> of_int p" "rat_of_int q \<le> of_int (int (2 ^ Suc b))"
    by (simp_all only: of_int_le_iff)
  then have bounds: "2 ^ a \<le> rat_of_int p" "rat_of_int q \<le> 2 ^ Suc b" by simp_all
  have exp: "pow2 (int a - int b - 1) * 2 ^ Suc b = 2 ^ a"
    using pow2_add_nat [of "int a - int b - 1" "Suc b"] by (simp add: pow2_def)
  have "pow2 (int a - int b - 1) * of_int q \<le> pow2 (int a - int b - 1) * 2 ^ Suc b"
    using bounds(2) pow2_pos [of "int a - int b - 1"] by (intro mult_left_mono) auto
  also have "\<dots> \<le> of_int p" using exp bounds(1) by simp
  finally have "pow2 (int a - int b - 1) \<le> x" using q by (simp add: x pos_le_divide_eq)
  then show ?thesis by (simp add: rat_log2_def pq a_def b_def Let_def)
qed

lemma round_half_even_le: "x \<le> of_int n \<Longrightarrow> round_half_even x \<le> n"
proof -
  assume le: "x \<le> of_int n"
  have f: "of_int \<lfloor>x\<rfloor> \<le> x" "\<lfloor>x\<rfloor> \<le> n" using le floor_mono [OF le] by auto
  show ?thesis
  proof (cases "\<lfloor>x\<rfloor> = n")
    case True
    then have "x = of_int n" using le f by simp
    then show ?thesis by (simp add: round_half_even_def)
  next
    case False
    with f show ?thesis by (simp add: round_half_even_def Let_def)
  qed
qed

lemma round_half_even_int [simp]: "round_half_even (of_int n) = n"
  by (simp add: round_half_even_def)

lemma round_half_even_nonneg: "0 \<le> x \<Longrightarrow> 0 \<le> round_half_even x"
  by (auto simp: round_half_even_def Let_def)

lemma ulp_exponent_le:
  assumes "0 \<le> x" "x < 2 ^ 53"
  shows "ulp_exponent x \<le> 0"
proof (cases "x = 0")
  case False
  have "rat_log2 x < 53"
  proof (rule ccontr)
    assume "\<not> rat_log2 x < 53"
    then have "pow2 53 \<le> pow2 (rat_log2 x)" by (intro pow2_mono) simp
    with pow2_rat_log2_le [of x] assms False show False by (simp add: pow2_def)
  qed
  with False assms show ?thesis by (simp add: ulp_exponent_def)
qed (simp add: ulp_exponent_def)

lemma div_pow2_int: "e \<le> 0 \<Longrightarrow> of_int n / pow2 e = of_int (n * 2 ^ nat (- e))"
  by (cases "e = 0") (simp_all add: pow2_def)

text \<open>Rounding a number between 0 and an integer below \<open>2^53\<close> stays between them.\<close>

lemma f64_round_bounds:
  assumes "0 \<le> x" "x \<le> of_int n" "n < 2 ^ 53"
  obtains y where "f64_round x = F_Fin y" "0 \<le> y" "y \<le> of_int n"
proof -
  define e where "e = ulp_exponent x"
  define y where "y = of_int (round_half_even (x / pow2 e)) * pow2 e"
  have n: "rat_of_int n < 2 ^ 53"
    using assms(3) by (metis of_int_less_iff of_int_numeral of_int_power)
  then have e: "e \<le> 0" unfolding e_def using assms by (intro ulp_exponent_le) auto
  have "x / pow2 e \<le> of_int n / pow2 e" using assms by (intro divide_right_mono) (auto intro: less_imp_le)
  then have "round_half_even (x / pow2 e) \<le> n * 2 ^ nat (- e)"
    unfolding div_pow2_int [OF e] by (rule round_half_even_le)
  then have "y \<le> of_int (n * 2 ^ nat (- e)) * pow2 e"
    unfolding y_def by (intro mult_right_mono) (auto intro: less_imp_le simp del: of_int_mult)
  also have "\<dots> = of_int n" unfolding div_pow2_int [OF e, symmetric] using pow2_pos [of e] by simp
  finally have yn: "y \<le> of_int n" .
  have y0: "0 \<le> y"
    unfolding y_def using round_half_even_nonneg [of "x / pow2 e"] assms(1) by simp
  have "pow2 53 \<le> pow2 1024" by (rule pow2_mono) simp
  then have "y < pow2 1024" using yn n by (simp add: pow2_def)
  then have "f64_round x = F_Fin y" using y0 by (simp add: f64_round_def e_def y_def Let_def)
  then show thesis using y0 yn by (rule that)
qed

lemma f64_round_int:
  assumes "0 \<le> n" "n < 2 ^ 53"
  shows "f64_round (of_int n) = F_Fin (of_int n)"
proof -
  define e where "e = ulp_exponent (of_int n)"
  have n: "rat_of_int n < 2 ^ 53"
    using assms(2) by (metis of_int_less_iff of_int_numeral of_int_power)
  then have e: "e \<le> 0" unfolding e_def using assms by (intro ulp_exponent_le) auto
  have "of_int (round_half_even (of_int n / pow2 e)) * pow2 e = (of_int n :: rat)"
    unfolding div_pow2_int [OF e] round_half_even_int
    unfolding div_pow2_int [OF e, symmetric] using pow2_pos [of e] by simp
  moreover have "rat_of_int n < pow2 1024"
    using n pow2_mono [of 53 1024] by (simp add: pow2_def)
  ultimately show ?thesis using assms(1) by (simp add: f64_round_def e_def Let_def)
qed

end
