(* ===== verification/Auth_Endpoint.thy ===== *)
theory Auth_Endpoint
  imports Auth_Vocabulary Float64 Http_Date
begin

text \<open>
  Issuer, region and token-endpoint selection of \<^verbatim>\<open>src/auth/legacy_auth/endpoint.rs\<close>: which host a
  refresh token may be sent to is decided here, before any network use.

  The base64url and JSON decoders and the URL parser are third-party code. They are
  parameters: \<open>cd_base64url\<close> and \<open>cd_json\<close> of a \<open>codec\<close>, and \<open>url_parse\<close>. A parsed JSON object
  lists its members in the order of the text, duplicates included; a \<open>serde_json::Value\<close> keeps
  the last member of a name.
\<close>

section \<open>JSON values\<close>

datatype json_number =
    PosInt nat
  | NegInt int
  | Float f64

datatype json =
    JNull
  | JBool bool
  | JNumber json_number
  | JString string
  | JArray "json list"
  | JObject "(string \<times> json) list"

record codec =
  cd_base64url :: "string \<Rightarrow> string option"
  cd_json :: "string \<Rightarrow> json option"

fun number_as_u64 :: "json_number \<Rightarrow> nat option" where
  "number_as_u64 (PosInt n) = Some n"
| "number_as_u64 _ = None"

fun number_as_i64 :: "json_number \<Rightarrow> int option" where
  "number_as_i64 (PosInt n) = (if int n \<le> i64_max then Some (int n) else None)"
| "number_as_i64 (NegInt i) = Some i"
| "number_as_i64 (Float _) = None"

fun number_as_f64 :: "json_number \<Rightarrow> f64 option" where
  "number_as_f64 (PosInt n) = Some (f64_of_int (int n))"
| "number_as_f64 (NegInt i) = Some (f64_of_int i)"
| "number_as_f64 (Float x) = Some x"

fun json_as_str :: "json \<Rightarrow> string option" where
  "json_as_str (JString s) = Some s"
| "json_as_str _ = None"

fun json_as_number :: "json \<Rightarrow> json_number option" where
  "json_as_number (JNumber n) = Some n"
| "json_as_number _ = None"

fun json_as_object :: "json \<Rightarrow> (string \<times> json) list option" where
  "json_as_object (JObject ms) = Some ms"
| "json_as_object _ = None"

definition json_get :: "(string \<times> json) list \<Rightarrow> string \<Rightarrow> json option" where
  "json_get ms key = map_of (rev ms) key"

section \<open>JWT claims\<close>

definition MAX_EXP_SECONDS :: int where
  "MAX_EXP_SECONDS = 253402300799"

record JwtClaims =
  jwt_iss :: "string option"
  jwt_exp :: "int option"

definition exp_seconds :: "json \<Rightarrow> int option" where
  "exp_seconds value = do {
     number \<leftarrow> json_as_number value;
     seconds \<leftarrow>
       (case number_as_u64 number of
          Some n \<Rightarrow> (if int n \<le> i64_max then Some (int n) else None)
        | None \<Rightarrow> (case number_as_i64 number of
            Some i \<Rightarrow> Some i
          | None \<Rightarrow> do {
              float0 \<leftarrow> number_as_f64 number;
              let float = f64_trunc float0;
              if f64_less_eq (F_Fin 0) float \<and> f64_less_eq float (f64_of_int MAX_EXP_SECONDS)
              then Some (f64_as_i64 float) else None
            }));
     if 0 \<le> seconds \<and> seconds \<le> MAX_EXP_SECONDS then Some seconds else None
   }"

definition parse_jwt :: "codec \<Rightarrow> string \<Rightarrow> JwtClaims option" where
  "parse_jwt cd token = do {
     let segments = split_on CHR ''.'' token;
     header \<leftarrow> item segments 0;
     payload \<leftarrow> item segments 1;
     signature \<leftarrow> item segments 2;
     if item segments 3 \<noteq> None \<or> header = [] \<or> payload = [] then None
     else do {
       header_bytes \<leftarrow> cd_base64url cd header;
       header_json \<leftarrow> cd_json cd header_bytes;
       if json_as_object header_json = None then None
       else do {
         payload_bytes \<leftarrow> cd_base64url cd payload;
         payload_json \<leftarrow> cd_json cd payload_bytes;
         claims \<leftarrow> json_as_object payload_json;
         Some \<lparr>jwt_iss = json_get claims ''iss'' \<bind> json_as_str,
               jwt_exp = json_get claims ''exp'' \<bind> exp_seconds\<rparr>
       }
     }
   }"

section \<open>Token grammar\<close>

definition is_ascii_alphanumeric :: "char \<Rightarrow> bool" where
  "is_ascii_alphanumeric c \<longleftrightarrow>
     is_ascii_digit c \<or> 65 \<le> byte c \<and> byte c \<le> 90 \<or> 97 \<le> byte c \<and> byte c \<le> 122"

definition is_access_token :: "string \<Rightarrow> bool" where
  "is_access_token token \<longleftrightarrow>
     list_all (\<lambda>c. is_ascii_alphanumeric c \<or> c \<in> set ''-._~+/='') token
     \<and> list_ex (\<lambda>c. c \<noteq> CHR ''='') token"

definition is_refresh_token :: "string \<Rightarrow> bool" where
  "is_refresh_token token \<longleftrightarrow> token \<noteq> [] \<and> list_all (\<lambda>c. 32 \<le> byte c \<and> byte c \<le> 126) token"

definition trim_with :: "(char \<Rightarrow> bool) \<Rightarrow> string \<Rightarrow> string" where
  "trim_with p s = rev (dropWhile p (rev (dropWhile p s)))"

definition trim_token_whitespace :: "string \<Rightarrow> string" where
  "trim_token_whitespace value = trim_with (\<lambda>c. byte c \<in> {32, 9, 13, 10}) value"

definition check_token_grammar :: "string \<Rightarrow> string \<Rightarrow> AuthMode \<Rightarrow> LegacyAuthError + unit" where
  "check_token_grammar access_token refresh_token mode =
     (if \<not> is_access_token access_token then Inl LE_InvalidAccessToken
      else (let refresh_ok = (case mode of
                  Tesla \<Rightarrow> is_refresh_token refresh_token
                | Provider \<Rightarrow> refresh_token = [] \<or> is_refresh_token refresh_token)
            in if refresh_ok then Inr () else Inl LE_InvalidRefreshToken))"

section \<open>Endpoint selection\<close>

datatype StreamRegion = Global | China

definition GLOBAL_ISSUER :: string where
  "GLOBAL_ISSUER = ''https://auth.tesla.com/oauth2/v3''"

definition CHINA_ISSUER :: string where
  "CHINA_ISSUER = ''https://auth.tesla.cn/oauth2/v3''"

definition GLOBAL_TOKEN_ENDPOINT :: string where
  "GLOBAL_TOKEN_ENDPOINT = ''https://auth.tesla.com/oauth2/v3/token''"

definition CHINA_TOKEN_ENDPOINT :: string where
  "CHINA_TOKEN_ENDPOINT = ''https://auth.tesla.cn/oauth2/v3/token''"

text \<open>
  What the unit reads of a URL of the \<open>url\<close> crate. An IPv4 address is its four octets, an
  IPv6 address its 128-bit value.
\<close>

datatype Host = Domain string | Ipv4 nat nat nat nat | Ipv6 nat

record url =
  url_scheme :: string
  url_host_str :: "string option"
  url_host :: "Host option"
  url_username :: string
  url_password :: "string option"
  url_query :: "string option"
  url_fragment :: "string option"
  url_path :: string

text \<open>A token endpoint: the URL of a pinned text, or a validated URL of the configuration.\<close>

datatype endpoint_url = Pinned_Url string | Provider_Url url

datatype EndpointSource = ProviderConfig | JwtIssuer | ConfiguredRegion

record AuthEndpointConfig =
  aec_mode :: AuthMode
  aec_region :: "StreamRegion option"
  aec_token_url :: "string option"
  aec_allow_loopback_http :: bool

record EndpointSelection =
  sel_token_endpoint :: "endpoint_url option"
  sel_region :: StreamRegion
  sel_source :: EndpointSource
  sel_pinned_issuer :: "string option"

fun endpoint_source_code :: "EndpointSource \<Rightarrow> string" where
  "endpoint_source_code ProviderConfig = ''provider_config''"
| "endpoint_source_code JwtIssuer = ''jwt_issuer''"
| "endpoint_source_code ConfiguredRegion = ''configured_region''"

definition region_of_issuer :: "string \<Rightarrow> StreamRegion option" where
  "region_of_issuer issuer =
     (if issuer = GLOBAL_ISSUER then Some Global
      else if issuer = CHINA_ISSUER then Some China else None)"

fun issuer_of_region :: "StreamRegion \<Rightarrow> string" where
  "issuer_of_region Global = GLOBAL_ISSUER"
| "issuer_of_region China = CHINA_ISSUER"

definition token_endpoint_of_region :: "StreamRegion \<Rightarrow> endpoint_url" where
  "token_endpoint_of_region region =
     Pinned_Url (case region of Global \<Rightarrow> GLOBAL_TOKEN_ENDPOINT | China \<Rightarrow> CHINA_TOKEN_ENDPOINT)"

text \<open>\<open>is_loopback\<close>: the network 127.0.0.0/8, or the address \<open>::1\<close>.\<close>

definition host_is_loopback_ip :: "url \<Rightarrow> bool" where
  "host_is_loopback_ip u =
     (case url_host u of
        Some (Ipv4 a b c d) \<Rightarrow> a = 127
      | Some (Ipv6 x) \<Rightarrow> x = 1
      | _ \<Rightarrow> False)"

definition validate_token_url ::
  "(string \<Rightarrow> url option) \<Rightarrow> string option \<Rightarrow> bool \<Rightarrow> LegacyAuthError + url" where
  "validate_token_url url_parse value allow_loopback_http =
     (case value of None \<Rightarrow> Inl LE_TokenUrlInvalid
      | Some text \<Rightarrow>
       (case url_parse text of None \<Rightarrow> Inl LE_TokenUrlInvalid
        | Some u \<Rightarrow>
         (let has_host = (case url_host_str u of None \<Rightarrow> False | Some h \<Rightarrow> h \<noteq> [])
          in if \<not> has_host \<or> url_username u \<noteq> [] \<or> url_password u \<noteq> None
               \<or> url_query u \<noteq> None \<or> url_fragment u \<noteq> None
             then Inl LE_TokenUrlInvalid
             else if url_scheme u = ''https'' then Inr u
             else if url_scheme u = ''http'' \<and> allow_loopback_http \<and> host_is_loopback_ip u then Inr u
             else Inl LE_TokenUrlInvalid)))"

definition select_tesla ::
  "codec \<Rightarrow> string \<Rightarrow> AuthEndpointConfig \<Rightarrow> LegacyAuthError + EndpointSelection" where
  "select_tesla cd access_token config =
     (if aec_token_url config \<noteq> None then Inl LE_TokenUrlNotAllowed
      else
        (let chosen =
          (case parse_jwt cd access_token \<bind> jwt_iss of
             Some issuer \<Rightarrow>
               (case region_of_issuer issuer of
                  None \<Rightarrow> Inl LE_InvalidIssuer
                | Some region \<Rightarrow>
                    (if (case aec_region config of None \<Rightarrow> False | Some configured \<Rightarrow> configured \<noteq> region)
                     then Inl LE_RegionConflict else Inr (region, JwtIssuer)))
           | None \<Rightarrow>
               (case aec_region config of
                  None \<Rightarrow> Inl LE_RegionRequired
                | Some region \<Rightarrow> Inr (region, ConfiguredRegion)))
         in (case chosen of
               Inl e \<Rightarrow> Inl e
             | Inr (region, source) \<Rightarrow>
                 Inr \<lparr>sel_token_endpoint = Some (token_endpoint_of_region region),
                      sel_region = region, sel_source = source,
                      sel_pinned_issuer = Some (issuer_of_region region)\<rparr>)))"

definition select_endpoint ::
  "codec \<Rightarrow> (string \<Rightarrow> url option) \<Rightarrow> string \<Rightarrow> string \<Rightarrow> AuthEndpointConfig
     \<Rightarrow> LegacyAuthError + EndpointSelection" where
  "select_endpoint cd url_parse access_token refresh_token config =
     (case check_token_grammar access_token refresh_token (aec_mode config) of
        Inl e \<Rightarrow> Inl e
      | Inr _ \<Rightarrow>
         (case aec_mode config of
            Tesla \<Rightarrow> select_tesla cd access_token config
          | Provider \<Rightarrow>
              (let region = (case aec_region config of None \<Rightarrow> Global | Some r \<Rightarrow> r)
               in if refresh_token = [] then
                    Inr \<lparr>sel_token_endpoint = None, sel_region = region,
                         sel_source = ProviderConfig, sel_pinned_issuer = None\<rparr>
                  else
                    (case validate_token_url url_parse (aec_token_url config)
                            (aec_allow_loopback_http config) of
                       Inl e \<Rightarrow> Inl e
                     | Inr u \<Rightarrow> Inr \<lparr>sel_token_endpoint = Some (Provider_Url u), sel_region = region,
                                     sel_source = ProviderConfig, sel_pinned_issuer = None\<rparr>))))"

section \<open>Properties\<close>

lemma exp_seconds_range: "exp_seconds v = Some n \<Longrightarrow> 0 \<le> n \<and> n \<le> MAX_EXP_SECONDS"
  by (auto simp: exp_seconds_def bind_eq_Some_conv split: if_splits)

lemma parse_jwt_exp_range:
  "parse_jwt cd t = Some c \<Longrightarrow> jwt_exp c = Some n \<Longrightarrow> 0 \<le> n \<and> n \<le> MAX_EXP_SECONDS"
  by (auto simp: parse_jwt_def Let_def bind_eq_Some_conv split: if_splits dest: exp_seconds_range)

lemma region_of_issuer_iff: "region_of_issuer i = Some r \<longleftrightarrow> i = issuer_of_region r"
  by (cases r) (auto simp: region_of_issuer_def GLOBAL_ISSUER_def CHINA_ISSUER_def)

lemma issuer_of_region_inj: "issuer_of_region r = issuer_of_region s \<longleftrightarrow> r = s"
  by (cases r; cases s) (simp_all add: GLOBAL_ISSUER_def CHINA_ISSUER_def)

text \<open>What the configuration must satisfy before a provider URL is accepted.\<close>

definition safe_token_url :: "bool \<Rightarrow> url \<Rightarrow> bool" where
  "safe_token_url allow_http u \<longleftrightarrow>
     (\<exists>h. url_host_str u = Some h \<and> h \<noteq> []) \<and> url_username u = [] \<and> url_password u = None
     \<and> url_query u = None \<and> url_fragment u = None
     \<and> (url_scheme u = ''https'' \<or> url_scheme u = ''http'' \<and> allow_http \<and> host_is_loopback_ip u)"

lemma validate_token_url_iff:
  "validate_token_url up v a = Inr u \<longleftrightarrow> (\<exists>t. v = Some t \<and> up t = Some u) \<and> safe_token_url a u"
  by (auto simp: validate_token_url_def safe_token_url_def Let_def split: option.splits if_splits)

lemma select_tesla_pinned:
  assumes "select_tesla cd access config = Inr sel"
  shows "aec_token_url config = None
    \<and> sel_token_endpoint sel = Some (token_endpoint_of_region (sel_region sel))
    \<and> sel_pinned_issuer sel = Some (issuer_of_region (sel_region sel))
    \<and> (aec_region config = None \<or> aec_region config = Some (sel_region sel))
    \<and> (parse_jwt cd access \<bind> jwt_iss = None \<or>
       parse_jwt cd access \<bind> jwt_iss = Some (issuer_of_region (sel_region sel)))"
  using assms
  by (auto simp: select_tesla_def Let_def region_of_issuer_iff split: if_splits option.splits sum.splits)

text \<open>
  C30: the issuer pin. Whenever selection succeeds in Tesla mode, the refresh goes to the
  pinned endpoint of one region, no configured URL is in force, the configured region (if
  any) and the issuer the access token names (if any) are those of that region, and a
  successor will be held to the same issuer.
\<close>

theorem tesla_endpoint_pinned:
  assumes "select_endpoint cd up access refresh config = Inr sel" and "aec_mode config = Tesla"
  shows "(sel_region sel = Global \<and> sel_token_endpoint sel = Some (Pinned_Url GLOBAL_TOKEN_ENDPOINT)
          \<or> sel_region sel = China \<and> sel_token_endpoint sel = Some (Pinned_Url CHINA_TOKEN_ENDPOINT))
    \<and> aec_token_url config = None
    \<and> (aec_region config = None \<or> aec_region config = Some (sel_region sel))
    \<and> (parse_jwt cd access \<bind> jwt_iss = None \<or>
       parse_jwt cd access \<bind> jwt_iss = Some (issuer_of_region (sel_region sel)))
    \<and> sel_pinned_issuer sel = Some (issuer_of_region (sel_region sel))
    \<and> is_access_token access \<and> is_refresh_token refresh"
proof -
  from assms have "select_tesla cd access config = Inr sel" "is_access_token access" "is_refresh_token refresh"
    by (auto simp: select_endpoint_def check_token_grammar_def split: sum.splits if_splits)
  with select_tesla_pinned [of cd access config sel] show ?thesis
    by (cases "sel_region sel") (auto simp: token_endpoint_of_region_def)
qed

definition no_codec :: codec where
  "no_codec = \<lparr>cd_base64url = (\<lambda>_. None), cd_json = (\<lambda>_. None)\<rparr>"

theorem tesla_endpoint_pinned_witness:
  "select_endpoint no_codec (\<lambda>_. None) ''opaque'' ''refresh''
     \<lparr>aec_mode = Tesla, aec_region = Some China, aec_token_url = None, aec_allow_loopback_http = False\<rparr>
   = Inr \<lparr>sel_token_endpoint = Some (Pinned_Url CHINA_TOKEN_ENDPOINT), sel_region = China,
          sel_source = ConfiguredRegion, sel_pinned_issuer = Some CHINA_ISSUER\<rparr>
   \<and> is_access_token ''opaque''"
proof -
  have ok: "select_endpoint no_codec (\<lambda>_. None) ''opaque'' ''refresh''
     \<lparr>aec_mode = Tesla, aec_region = Some China, aec_token_url = None, aec_allow_loopback_http = False\<rparr>
   = Inr \<lparr>sel_token_endpoint = Some (Pinned_Url CHINA_TOKEN_ENDPOINT), sel_region = China,
          sel_source = ConfiguredRegion, sel_pinned_issuer = Some CHINA_ISSUER\<rparr>"
    by code_simp
  from tesla_endpoint_pinned [OF ok] ok show ?thesis by simp
qed

text \<open>
  C31: provider mode never sends a refresh token over an unprotected or ambiguous URL: the
  endpoint is the configured text as parsed, with a host, no credentials, query or fragment,
  and \<open>https\<close> (or \<open>http\<close> to a loopback address under the test flag); a pair without a refresh
  token has no endpoint at all, and no issuer is pinned.
\<close>

theorem provider_endpoint_safe:
  assumes "select_endpoint cd up access refresh config = Inr sel" and "aec_mode config = Provider"
  shows "sel_pinned_issuer sel = None \<and>
    (if refresh = [] then sel_token_endpoint sel = None
     else \<exists>text u. aec_token_url config = Some text \<and> up text = Some u
        \<and> sel_token_endpoint sel = Some (Provider_Url u)
        \<and> safe_token_url (aec_allow_loopback_http config) u)"
proof (cases "refresh = []")
  case True
  with assms show ?thesis
    by (auto simp: select_endpoint_def Let_def split: sum.splits)
next
  case False
  with assms obtain u where
    "validate_token_url up (aec_token_url config) (aec_allow_loopback_http config) = Inr u"
    "sel_token_endpoint sel = Some (Provider_Url u)" "sel_pinned_issuer sel = None"
    by (auto simp: select_endpoint_def Let_def split: sum.splits)
  with False show ?thesis by (auto simp: validate_token_url_iff)
qed

definition example_url :: url where
  "example_url = \<lparr>url_scheme = ''https'', url_host_str = Some ''p.example'', url_host = Some (Domain ''p.example''),
     url_username = [], url_password = None, url_query = None, url_fragment = None, url_path = ''/token''\<rparr>"

theorem provider_endpoint_safe_witness:
  "select_endpoint no_codec (\<lambda>t. if t = ''https://p.example/token'' then Some example_url else None) ''a'' ''r''
     \<lparr>aec_mode = Provider, aec_region = None, aec_token_url = Some ''https://p.example/token'',
      aec_allow_loopback_http = False\<rparr>
   = Inr \<lparr>sel_token_endpoint = Some (Provider_Url example_url), sel_region = Global,
          sel_source = ProviderConfig, sel_pinned_issuer = None\<rparr>
   \<and> safe_token_url False example_url"
proof -
  have ok: "select_endpoint no_codec (\<lambda>t. if t = ''https://p.example/token'' then Some example_url else None) ''a'' ''r''
     \<lparr>aec_mode = Provider, aec_region = None, aec_token_url = Some ''https://p.example/token'',
      aec_allow_loopback_http = False\<rparr>
   = Inr \<lparr>sel_token_endpoint = Some (Provider_Url example_url), sel_region = Global,
          sel_source = ProviderConfig, sel_pinned_issuer = None\<rparr>"
    by code_simp
  from provider_endpoint_safe [OF ok] ok show ?thesis by simp
qed

text \<open>
  The comment on \<open>is_access_token\<close> admits \<open>=\<close> only after another character of the set; the
  code admits it anywhere, a leading one included.
\<close>

lemma access_token_leading_equals: "is_access_token ''=a''"
  by code_simp

end
