(* ===== verification/Auth_Wire.thy ===== *)
theory Auth_Wire
  imports Auth_Endpoint
begin

text \<open>
  The token answer of \<^verbatim>\<open>src/auth/legacy_auth/wire.rs\<close>: reading it within the size cap, recognising
  its error code, classifying a refusal by the outcome table and validating a grant. The
  HTTP client is third-party code; what one send can yield (a client error with its three
  flags, or a response with its chunks) is the argument of \<open>send\<close>. Header values that are
  visible ASCII are listed by lower-case name.
\<close>

section \<open>One send\<close>

definition MAX_TOKEN_RESPONSE_BYTES :: nat where
  "MAX_TOKEN_RESPONSE_BYTES = 64 * 1024"

definition MAX_TOKEN_BYTES :: nat where
  "MAX_TOKEN_BYTES = 16 * 1024"

datatype AnswerBody = Complete string | TooLarge

record RawAnswer =
  ra_status :: nat
  ra_headers :: "(string \<times> string) list"
  ra_body :: AnswerBody

datatype Exchange =
    EX_NotSent
  | EX_ConnectTimedOut
  | EX_Unknown
  | EX_Answer RawAnswer

record send_error =
  se_is_connect :: bool
  se_is_timeout :: bool
  se_is_builder :: bool

record response =
  rs_status :: nat
  rs_headers :: "(string \<times> string) list"
  rs_content_length :: "nat option"
  rs_chunks :: "string option list"

definition from_send_error :: "send_error \<Rightarrow> Exchange" where
  "from_send_error e =
     (if se_is_connect e \<and> se_is_timeout e then EX_ConnectTimedOut
      else if se_is_connect e \<or> se_is_builder e then EX_NotSent
      else EX_Unknown)"

text \<open>The read loop: a chunk that failed is \<open>None\<close>; the accumulator never outgrows the cap.\<close>

fun read_body :: "string \<Rightarrow> string option list \<Rightarrow> AnswerBody option" where
  "read_body bytes [] = Some (Complete bytes)"
| "read_body bytes (None # chunks) = None"
| "read_body bytes (Some chunk # chunks) =
     (if MAX_TOKEN_RESPONSE_BYTES - length bytes < length chunk then Some TooLarge
      else read_body (bytes @ chunk) chunks)"

definition send :: "send_error + response \<Rightarrow> Exchange" where
  "send sent =
     (case sent of
        Inl e \<Rightarrow> from_send_error e
      | Inr r \<Rightarrow>
         (if (case rs_content_length r of None \<Rightarrow> False | Some n \<Rightarrow> MAX_TOKEN_RESPONSE_BYTES < n)
          then EX_Answer \<lparr>ra_status = rs_status r, ra_headers = rs_headers r, ra_body = TooLarge\<rparr>
          else (case read_body [] (rs_chunks r) of
                  None \<Rightarrow> EX_Unknown
                | Some body \<Rightarrow>
                    EX_Answer \<lparr>ra_status = rs_status r, ra_headers = rs_headers r, ra_body = body\<rparr>)))"

section \<open>Error codes\<close>

datatype TokenErrorCode =
    InvalidRequest
  | InvalidClient
  | InvalidGrant
  | UnauthorizedClient
  | UnsupportedGrantType
  | InvalidScope
  | LoginRequired

text \<open>
  A member of a derived struct: absent and \<open>null\<close> are \<open>None\<close>, and a member that occurs twice
  is an error of the reader (the outer \<open>None\<close>).
\<close>

definition struct_field :: "(string \<times> json) list \<Rightarrow> string \<Rightarrow> json option option" where
  "struct_field ms name =
     (case filter (\<lambda>(k, v). k = name) ms of
        [] \<Rightarrow> Some None
      | [(k, v)] \<Rightarrow> Some (case v of JNull \<Rightarrow> None | _ \<Rightarrow> Some v)
      | _ \<Rightarrow> None)"

definition is_json_object_text :: "string \<Rightarrow> bool" where
  "is_json_object_text bytes \<longleftrightarrow>
     find (\<lambda>c. byte c \<notin> {32, 9, 10, 13}) bytes = Some CHR ''{''"

definition token_error_code :: "string \<Rightarrow> TokenErrorCode option" where
  "token_error_code s =
     (if s = ''invalid_request'' then Some InvalidRequest
      else if s = ''invalid_client'' then Some InvalidClient
      else if s = ''invalid_grant'' then Some InvalidGrant
      else if s = ''unauthorized_client'' then Some UnauthorizedClient
      else if s = ''unsupported_grant_type'' then Some UnsupportedGrantType
      else if s = ''invalid_scope'' then Some InvalidScope
      else if s = ''login_required'' then Some LoginRequired
      else None)"

definition parse_error_code :: "codec \<Rightarrow> AnswerBody \<Rightarrow> TokenErrorCode option" where
  "parse_error_code cd body =
     (case body of
        TooLarge \<Rightarrow> None
      | Complete bytes \<Rightarrow>
         (if \<not> is_json_object_text bytes then None
          else do {
            parsed \<leftarrow> cd_json cd bytes;
            ms \<leftarrow> json_as_object parsed;
            error \<leftarrow> struct_field ms ''error'';
            value \<leftarrow> error;
            text \<leftarrow> json_as_str value;
            token_error_code text
          }))"

section \<open>The Fleet API by name\<close>

text \<open>
  \<open>is_fleet_api_named\<close> of \<^verbatim>\<open>src/api/owner_api.rs\<close>. The lossy conversion to text replaces only bytes
  that are not ASCII, none of which the search keeps, so the bytes stand for the text.
\<close>

definition MAX_ERROR_BODY_BYTES :: nat where
  "MAX_ERROR_BODY_BYTES = 4096"

definition FLEET_API_NAME :: string where
  "FLEET_API_NAME = ''fleetapi''"

definition ascii_lower :: "char \<Rightarrow> char" where
  "ascii_lower c = (if 65 \<le> byte c \<and> byte c \<le> 90 then char_of (byte c + 32) else c)"

fun str_contains :: "string \<Rightarrow> string \<Rightarrow> bool" where
  "str_contains p [] = (p = [])"
| "str_contains p (c # s) = (strip_prefix p (c # s) \<noteq> None \<or> str_contains p s)"

definition error_body_texts :: "codec \<Rightarrow> string \<Rightarrow> string list" where
  "error_body_texts cd bytes0 =
     (let bytes = take MAX_ERROR_BODY_BYTES bytes0
      in case cd_json cd bytes \<bind> json_as_object of
           Some members \<Rightarrow>
             List.map_filter (\<lambda>key. json_get members key \<bind> json_as_str) [''error'', ''error_description'']
         | None \<Rightarrow> [bytes])"

definition is_fleet_api_named :: "codec \<Rightarrow> string \<Rightarrow> bool" where
  "is_fleet_api_named cd bytes =
     list_ex (\<lambda>text. str_contains FLEET_API_NAME (map ascii_lower (filter is_ascii_alphanumeric text)))
       (error_body_texts cd bytes)"

section \<open>Classification\<close>

datatype AttemptClass =
    AC_NotSent
  | AC_Rotated
  | AC_NotRotated
  | AC_ConsumedWithoutSuccessor
  | AC_Unknown
  | AC_ClientRefused
  | AC_Dead
  | AC_RequestRejected
  | AC_Refused
  | AC_Misrouted
  | AC_Blocked
  | AC_Transient
  | AC_NotRenewed

record FailedAnswer =
  fa_class :: AttemptClass
  fa_error :: LegacyAuthError

definition classify_error_answer :: "nat \<Rightarrow> TokenErrorCode option \<Rightarrow> bool \<Rightarrow> FailedAnswer" where
  "classify_error_answer status code names_fleet_api =
     (let (class, error) =
        (if status \<in> {400, 401} \<and> code \<in> {Some InvalidClient, Some UnauthorizedClient}
         then (AC_ClientRefused, LE_ClientRefused)
         else if status \<in> {400, 401} \<and> code \<in> {Some InvalidGrant, Some LoginRequired}
         then (AC_Dead, LE_RefreshTokenRejected)
         else if status = 400 \<or> status = 401 \<and> code = None
         then (AC_RequestRejected, LE_HttpStatus status)
         else if status = 403 \<and> names_fleet_api then (AC_Refused, LE_OwnerApiRefused RF_OwnerApi)
         else if status = 403 then (AC_Blocked, LE_HttpStatus status)
         else if status \<in> {408, 425, 429} \<or> 500 \<le> status \<and> status \<le> 599
         then (AC_Transient, LE_HttpStatus status)
         else (AC_Misrouted, LE_HttpStatus status))
      in \<lparr>fa_class = class, fa_error = error\<rparr>)"

datatype AcceptedKind = AK_Rotated | AK_NotRotated | AK_NotRenewed

record AcceptedTokens =
  at_access_token :: string
  at_refresh_token :: string
  at_kind :: AcceptedKind
  at_expires_in :: "json option"

datatype Member = M_Text string | M_Other

definition member_of :: "json \<Rightarrow> Member" where
  "member_of v = (case v of JString s \<Rightarrow> M_Text s | _ \<Rightarrow> M_Other)"

record WireAnswer =
  wa_access_token :: "Member option"
  wa_refresh_token :: "Member option"
  wa_id_token :: "Member option"
  wa_expires_in :: "json option"
  wa_token_type :: "Member option"

definition read_wire_answer :: "codec \<Rightarrow> string \<Rightarrow> WireAnswer option" where
  "read_wire_answer cd bytes = do {
     parsed \<leftarrow> cd_json cd bytes;
     ms \<leftarrow> json_as_object parsed;
     access \<leftarrow> struct_field ms ''access_token'';
     refresh \<leftarrow> struct_field ms ''refresh_token'';
     id_token \<leftarrow> struct_field ms ''id_token'';
     expires_in \<leftarrow> struct_field ms ''expires_in'';
     token_type \<leftarrow> struct_field ms ''token_type'';
     Some \<lparr>wa_access_token = map_option member_of access,
           wa_refresh_token = map_option member_of refresh,
           wa_id_token = map_option member_of id_token,
           wa_expires_in = expires_in,
           wa_token_type = map_option member_of token_type\<rparr>
   }"

definition eq_ignore_ascii_case :: "string \<Rightarrow> string \<Rightarrow> bool" where
  "eq_ignore_ascii_case a b \<longleftrightarrow> map ascii_lower a = map ascii_lower b"

definition accept_tokens ::
  "codec \<Rightarrow> AnswerBody \<Rightarrow> string \<Rightarrow> string \<Rightarrow> string option \<Rightarrow> FailedAnswer + AcceptedTokens" where
  "accept_tokens cd body presented_access presented_refresh pinned_issuer =
     (let unusable = (\<lambda>error. \<lparr>fa_class = AC_ConsumedWithoutSuccessor, fa_error = error\<rparr>);
          invalid = Inl (unusable LE_InvalidResponse)
      in case body of
        TooLarge \<Rightarrow> Inl (unusable LE_ResponseTooLarge)
      | Complete bytes \<Rightarrow>
        (if \<not> is_json_object_text bytes then invalid
         else case read_wire_answer cd bytes of None \<Rightarrow> invalid | Some wire \<Rightarrow>
        (case wa_access_token wire of
          Some (M_Text access_token) \<Rightarrow>
           (if \<not> (is_access_token access_token \<and> length access_token \<le> MAX_TOKEN_BYTES) then invalid
            else (case (case wa_refresh_token wire of
                          None \<Rightarrow> Some None
                        | Some (M_Text text) \<Rightarrow>
                            (if is_refresh_token text \<and> length text \<le> MAX_TOKEN_BYTES
                             then Some (Some text) else None)
                        | Some M_Other \<Rightarrow> None) of
               None \<Rightarrow> invalid
             | Some new_refresh \<Rightarrow>
               (if \<not> (case wa_token_type wire of
                        None \<Rightarrow> True
                      | Some (M_Text text) \<Rightarrow> eq_ignore_ascii_case text ''bearer''
                      | Some M_Other \<Rightarrow> False)
                then invalid
                else if (case pinned_issuer of None \<Rightarrow> False | Some pinned \<Rightarrow>
                          (case parse_jwt cd access_token \<bind> jwt_iss of
                             None \<Rightarrow> False | Some issuer \<Rightarrow> issuer \<noteq> pinned))
                then invalid
                else
                 (let rotated = (case new_refresh of None \<Rightarrow> False
                                 | Some refresh \<Rightarrow> refresh \<noteq> presented_refresh);
                      kind = (if rotated then AK_Rotated
                              else if access_token = presented_access then AK_NotRenewed
                              else AK_NotRotated);
                      refresh_token = (case new_refresh of
                                         Some refresh \<Rightarrow> (if rotated then refresh else presented_refresh)
                                       | None \<Rightarrow> presented_refresh)
                  in Inr \<lparr>at_access_token = access_token, at_refresh_token = refresh_token,
                          at_kind = kind, at_expires_in = wa_expires_in wire\<rparr>))))
        | _ \<Rightarrow> invalid)))"

definition classify_answer ::
  "codec \<Rightarrow> RawAnswer \<Rightarrow> string \<Rightarrow> string \<Rightarrow> string option \<Rightarrow> FailedAnswer + AcceptedTokens" where
  "classify_answer cd answer presented_access presented_refresh pinned_issuer =
     (if 200 \<le> ra_status answer \<and> ra_status answer < 300
      then accept_tokens cd (ra_body answer) presented_access presented_refresh pinned_issuer
      else
        (let code = parse_error_code cd (ra_body answer);
             names_fleet_api = (ra_status answer = 403
               \<and> (case ra_body answer of Complete bytes \<Rightarrow> is_fleet_api_named cd bytes | TooLarge \<Rightarrow> False))
         in Inl (classify_error_answer (ra_status answer) code names_fleet_api)))"

fun consumes_input :: "AttemptClass \<Rightarrow> bool" where
  "consumes_input AC_Rotated = True"
| "consumes_input AC_ConsumedWithoutSuccessor = True"
| "consumes_input AC_Unknown = True"
| "consumes_input AC_Dead = True"
| "consumes_input _ = False"

section \<open>Properties\<close>

lemma read_body_complete:
  "length acc \<le> MAX_TOKEN_RESPONSE_BYTES \<Longrightarrow>
   read_body acc chunks = Some (Complete b) \<longleftrightarrow>
     (\<exists>cs. chunks = map Some cs \<and> b = acc @ concat cs \<and> length b \<le> MAX_TOKEN_RESPONSE_BYTES)"
proof (induction acc chunks rule: read_body.induct)
  case (3 bytes chunk chunks)
  show ?case
  proof (cases "length (bytes @ chunk) \<le> MAX_TOKEN_RESPONSE_BYTES")
    case True
    with 3 show ?thesis by (auto simp: map_eq_Cons_conv Cons_eq_map_conv)
  next
    case False
    with 3(2) show ?thesis by (auto simp: Cons_eq_map_conv)
  qed
qed auto

text \<open>
  the answer body is read whole or not at all. A send yields a complete body exactly when
  the declared length is within 64 KiB, no chunk failed and the chunks together fit; the
  body is then their concatenation.
\<close>

theorem send_complete_iff:
  "send (Inr r) = EX_Answer \<lparr>ra_status = st, ra_headers = hs, ra_body = Complete b\<rparr> \<longleftrightarrow>
     st = rs_status r \<and> hs = rs_headers r
     \<and> pred_option (\<lambda>n. n \<le> MAX_TOKEN_RESPONSE_BYTES) (rs_content_length r)
     \<and> (\<exists>cs. rs_chunks r = map Some cs \<and> b = concat cs \<and> length b \<le> MAX_TOKEN_RESPONSE_BYTES)"
proof -
  have "send (Inr r) = EX_Answer \<lparr>ra_status = st, ra_headers = hs, ra_body = Complete b\<rparr> \<longleftrightarrow>
     st = rs_status r \<and> hs = rs_headers r
     \<and> pred_option (\<lambda>n. n \<le> MAX_TOKEN_RESPONSE_BYTES) (rs_content_length r)
     \<and> read_body [] (rs_chunks r) = Some (Complete b)"
    by (cases "rs_content_length r"; cases "read_body [] (rs_chunks r)") (auto simp: send_def)
  also have "read_body [] (rs_chunks r) = Some (Complete b) \<longleftrightarrow>
     (\<exists>cs. rs_chunks r = map Some cs \<and> b = concat cs \<and> length b \<le> MAX_TOKEN_RESPONSE_BYTES)"
    using read_body_complete [of "[]" "rs_chunks r" b] by simp
  finally show ?thesis .
qed

lemma error_class_consumes:
  "consumes_input (fa_class (classify_error_answer st c f)) \<longleftrightarrow>
     st \<in> {400, 401} \<and> c \<in> {Some InvalidGrant, Some LoginRequired}"
  by (auto simp: classify_error_answer_def Let_def)

lemma accept_tokens_failure: "accept_tokens cd body pa pr pin = Inl f \<Longrightarrow> fa_class f = AC_ConsumedWithoutSuccessor"
  by (auto simp: accept_tokens_def Let_def
      split: AnswerBody.splits if_splits option.splits Member.splits)

text \<open>
  C26: a failed answer spends the presented refresh token exactly when a grant was issued (a
  2xx that cannot be used) or the endpoint said, with status 400 or 401, that the grant is
  invalid or a login is required. Every other refusal leaves the token valid.
\<close>

theorem failed_answer_consumes:
  assumes "classify_answer cd answer pa pr pin = Inl f"
  shows "consumes_input (fa_class f) \<longleftrightarrow>
    (200 \<le> ra_status answer \<and> ra_status answer < 300)
    \<or> (ra_status answer = 400 \<or> ra_status answer = 401)
      \<and> parse_error_code cd (ra_body answer) \<in> {Some InvalidGrant, Some LoginRequired}"
proof (cases "200 \<le> ra_status answer \<and> ra_status answer < 300")
  case True
  with assms accept_tokens_failure [of cd "ra_body answer" pa pr pin f] show ?thesis
    by (auto simp: classify_answer_def)
next
  case False
  with assms show ?thesis
    by (auto simp: classify_answer_def Let_def error_class_consumes)
qed

definition error_codec :: "string \<Rightarrow> codec" where
  "error_codec code = \<lparr>cd_base64url = (\<lambda>_. None),
     cd_json = (\<lambda>_. Some (JObject [(''error'', JString code)]))\<rparr>"

theorem failed_answer_consumes_witness:
  "classify_answer (error_codec ''invalid_grant'') \<lparr>ra_status = 401, ra_headers = [], ra_body = Complete ''{}''\<rparr>
     ''a'' ''r'' None = Inl \<lparr>fa_class = AC_Dead, fa_error = LE_RefreshTokenRejected\<rparr>
   \<and> parse_error_code (error_codec ''invalid_grant'') (Complete ''{}'') \<in> {Some InvalidGrant, Some LoginRequired}"
proof -
  have ok: "classify_answer (error_codec ''invalid_grant'') \<lparr>ra_status = 401, ra_headers = [], ra_body = Complete ''{}''\<rparr>
     ''a'' ''r'' None = Inl \<lparr>fa_class = AC_Dead, fa_error = LE_RefreshTokenRejected\<rparr>"
    by code_simp
  from failed_answer_consumes [OF ok] ok show ?thesis by simp
qed

lemma accept_tokens_sound:
  assumes "accept_tokens cd body pa pr pin = Inr t"
  shows "is_access_token (at_access_token t)" "length (at_access_token t) \<le> MAX_TOKEN_BYTES"
    "at_kind t = AK_Rotated \<longleftrightarrow> at_refresh_token t \<noteq> pr"
    "at_kind t = AK_NotRenewed \<longleftrightarrow> at_refresh_token t = pr \<and> at_access_token t = pa"
    "at_refresh_token t \<noteq> pr \<Longrightarrow> is_refresh_token (at_refresh_token t) \<and> length (at_refresh_token t) \<le> MAX_TOKEN_BYTES"
    "pin = None \<or> parse_jwt cd (at_access_token t) \<bind> jwt_iss \<in> {None, pin}"
  using assms
  by (auto simp: accept_tokens_def Let_def
      split: AnswerBody.splits if_splits option.splits Member.splits)

text \<open>
  C27: an accepted answer is a usable successor: its access token fits the grammar and the
  store, it is a rotation exactly when the refresh token changed (and then the new one fits
  the grammar and the store), it renews nothing exactly when both tokens are the presented
  ones, and a JWT that names an issuer names the pinned one.
\<close>

theorem accepted_answer_sound:
  assumes "classify_answer cd answer pa pr pin = Inr t"
  shows "200 \<le> ra_status answer \<and> ra_status answer < 300
    \<and> is_access_token (at_access_token t) \<and> length (at_access_token t) \<le> MAX_TOKEN_BYTES
    \<and> (at_kind t = AK_Rotated \<longleftrightarrow> at_refresh_token t \<noteq> pr)
    \<and> (at_kind t = AK_NotRenewed \<longleftrightarrow> at_refresh_token t = pr \<and> at_access_token t = pa)
    \<and> (at_refresh_token t = pr \<or>
       is_refresh_token (at_refresh_token t) \<and> length (at_refresh_token t) \<le> MAX_TOKEN_BYTES)
    \<and> (pin = None \<or> parse_jwt cd (at_access_token t) \<bind> jwt_iss \<in> {None, pin})"
proof -
  from assms have ok: "200 \<le> ra_status answer \<and> ra_status answer < 300"
    and acc: "accept_tokens cd (ra_body answer) pa pr pin = Inr t"
    by (auto simp: classify_answer_def Let_def split: if_splits)
  from ok accept_tokens_sound [OF acc] show ?thesis by blast
qed

definition grant_codec :: codec where
  "grant_codec = \<lparr>cd_base64url = (\<lambda>_. None),
     cd_json = (\<lambda>_. Some (JObject [(''access_token'', JString ''new''), (''refresh_token'', JString ''next''),
                                   (''expires_in'', JNumber (PosInt 28800))]))\<rparr>"

theorem accepted_answer_sound_witness:
  "classify_answer grant_codec \<lparr>ra_status = 200, ra_headers = [], ra_body = Complete ''{}''\<rparr> ''a'' ''r'' None
     = Inr \<lparr>at_access_token = ''new'', at_refresh_token = ''next'', at_kind = AK_Rotated,
            at_expires_in = Some (JNumber (PosInt 28800))\<rparr>
   \<and> is_refresh_token ''next''"
proof -
  have ok: "classify_answer grant_codec \<lparr>ra_status = 200, ra_headers = [], ra_body = Complete ''{}''\<rparr> ''a'' ''r'' None
     = Inr \<lparr>at_access_token = ''new'', at_refresh_token = ''next'', at_kind = AK_Rotated,
            at_expires_in = Some (JNumber (PosInt 28800))\<rparr>"
    by code_simp
  from accepted_answer_sound [OF ok] ok show ?thesis by simp
qed

end
