(* ===== verification/Auth_Schedule.thy ===== *)
theory Auth_Schedule
  imports Auth_Endpoint Auth_Status
begin

text \<open>
  The refresh schedule and the retry policy of \<^verbatim>\<open>src/auth/legacy_auth/schedule.rs\<close>: arithmetic on
  epoch seconds, with the saturating operations of the source and exact arithmetic where it
  uses plain operators; the lemmas show that those stay within 64 bits.
\<close>

section \<open>Constants\<close>

definition LIFETIME_FALLBACK_SECONDS :: int where
  [hub_consts]: "LIFETIME_FALLBACK_SECONDS = 28800"

definition SCHEDULE_CEILING_SECONDS :: int where
  [hub_consts]: "SCHEDULE_CEILING_SECONDS = 86400"

definition MIN_STORED_SPAN_SECONDS :: int where
  [hub_consts]: "MIN_STORED_SPAN_SECONDS = 2"

definition SHORT_LIFETIME_SECONDS :: int where
  [hub_consts]: "SHORT_LIFETIME_SECONDS = 120"

definition DUE_GAP_SECONDS :: int where
  [hub_consts]: "DUE_GAP_SECONDS = SCHEDULE_CEILING_SECONDS + SKEW_ALLOWANCE_SECONDS"

definition RETRY_BASE_SECONDS :: int where
  [hub_consts]: "RETRY_BASE_SECONDS = MIN_REFRESH_INTERVAL_SECONDS"

definition RETRY_CAP_SECONDS :: int where
  [hub_consts]: "RETRY_CAP_SECONDS = 300"

definition RETRY_STEP_LIMIT :: nat where
  [hub_consts]: "RETRY_STEP_LIMIT = 3"

definition RETRY_SPREAD_PERCENT :: int where
  [hub_consts]: "RETRY_SPREAD_PERCENT = 10"

definition RETRY_AFTER_MIN_SECONDS :: int where
  [hub_consts]: "RETRY_AFTER_MIN_SECONDS = 60"

definition RETRY_AFTER_MAX_SECONDS :: int where
  [hub_consts]: "RETRY_AFTER_MAX_SECONDS = 3600"

definition SLOW_RETRY_SECONDS :: int where
  [hub_consts]: "SLOW_RETRY_SECONDS = 3600"

definition CLIENT_CHECK_SECONDS :: int where
  [hub_consts]: "CLIENT_CHECK_SECONDS = 60"

definition CLIENT_REFUSAL_LIMIT :: nat where
  [hub_consts]: "CLIENT_REFUSAL_LIMIT = 2"

section \<open>Lifetimes\<close>

text \<open>\<open>text.parse::<i64>()\<close> on a non-empty string of digits.\<close>

definition parse_i64_digits :: "string \<Rightarrow> int option" where
  "parse_i64_digits text = (if int (dec_val text) \<le> i64_max then Some (int (dec_val text)) else None)"

fun expires_in_seconds :: "json \<Rightarrow> int option" where
  "expires_in_seconds (JNumber number) =
     (case number_as_u64 number of
        None \<Rightarrow> None
      | Some n \<Rightarrow>
         (let seconds = (if int n \<le> i64_max then int n else i64_max)
          in if seconds \<ge> 1 then Some seconds else None))"
| "expires_in_seconds (JString text) =
     (if text = [] \<or> \<not> list_all is_ascii_digit text then None
      else (let seconds = (case parse_i64_digits text of None \<Rightarrow> i64_max | Some n \<Rightarrow> n)
            in if seconds \<ge> 1 then Some seconds else None))"
| "expires_in_seconds _ = None"

definition lifetime_seconds :: "json option \<Rightarrow> int option \<Rightarrow> int \<Rightarrow> int" where
  "lifetime_seconds expires_in claim t_s =
     (case Option.bind expires_in expires_in_seconds of
        Some seconds \<Rightarrow> seconds
      | None \<Rightarrow>
         (case claim of
            Some e \<Rightarrow> saturating_sub (saturating_sub e SKEW_ALLOWANCE_SECONDS) t_s
          | None \<Rightarrow> LIFETIME_FALLBACK_SECONDS))"

section \<open>The schedule of a successor\<close>

record Schedule =
  sc_usable_until :: int
  sc_expires_at :: int
  sc_next_refresh_at :: int

definition schedule_of :: "int \<Rightarrow> json option \<Rightarrow> int option \<Rightarrow> Schedule" where
  "schedule_of t_s expires_in claim =
     (let lifetime = min (lifetime_seconds expires_in claim t_s) SCHEDULE_CEILING_SECONDS;
          usable0 = saturating_add t_s lifetime;
          usable_until = (case claim of
                            Some e \<Rightarrow> min usable0 (saturating_sub e SKEW_ALLOWANCE_SECONDS)
                          | None \<Rightarrow> usable0);
          expires_at = max usable_until (saturating_add t_s MIN_STORED_SPAN_SECONDS);
          lead = max ((expires_at - t_s) sdiv 4) 1
      in \<lparr>sc_usable_until = usable_until, sc_expires_at = expires_at,
          sc_next_refresh_at = expires_at - lead\<rparr>)"

definition after_send :: "codec \<Rightarrow> int \<Rightarrow> json option \<Rightarrow> string \<Rightarrow> Schedule" where
  "after_send cd t_s expires_in access_token =
     schedule_of t_s expires_in (Option.bind (parse_jwt cd access_token) jwt_exp)"

definition is_short :: "Schedule \<Rightarrow> int \<Rightarrow> bool" where
  "is_short s t_s \<longleftrightarrow> saturating_sub (sc_usable_until s) t_s < SHORT_LIFETIME_SECONDS"

definition refreshed_form_due :: "int \<Rightarrow> int \<Rightarrow> int \<Rightarrow> bool" where
  "refreshed_form_due expires_at next_refresh_at now \<longleftrightarrow>
     now \<ge> next_refresh_at \<or> expires_at > saturating_add now DUE_GAP_SECONDS"

section \<open>Retries\<close>

datatype RetryPlan = RP_Backoff | RP_RetryAfter int | RP_Slow | RP_ClientCheck

definition backoff_base :: "nat \<Rightarrow> int" where
  "backoff_base step = min (push_bit step RETRY_BASE_SECONDS) RETRY_CAP_SECONDS"

definition backoff_spread :: "int \<Rightarrow> f64 \<Rightarrow> int" where
  "backoff_spread base spread_unit =
     (let unit = (if f64_is_finite spread_unit then f64_clamp spread_unit 0 1 else F_Fin 0)
      in f64_as_i64
           (f64_mult (f64_div_by (f64_mult (f64_of_int base) (f64_of_int RETRY_SPREAD_PERCENT)) 100) unit))"

fun retry_delay :: "RetryPlan \<Rightarrow> nat \<Rightarrow> f64 \<Rightarrow> int \<times> nat" where
  "retry_delay RP_Backoff step0 spread_unit =
     (let step = min step0 RETRY_STEP_LIMIT;
          base = backoff_base step;
          spread = backoff_spread base spread_unit
      in (base + spread, min (u8_saturating_add step 1) RETRY_STEP_LIMIT))"
| "retry_delay (RP_RetryAfter seconds) step spread_unit =
     (min (max seconds RETRY_AFTER_MIN_SECONDS) RETRY_AFTER_MAX_SECONDS,
      min (u8_saturating_add step 1) RETRY_STEP_LIMIT)"
| "retry_delay RP_Slow step spread_unit = (SLOW_RETRY_SECONDS, step)"
| "retry_delay RP_ClientCheck step spread_unit = (CLIENT_CHECK_SECONDS, step)"

text \<open>
  \<open>HeaderValue::to_str\<close> yields visible ASCII, spaces and tabs only, so \<open>str::trim\<close> removes the
  spaces and tabs around the value.
\<close>

definition header_get :: "(string \<times> string) list \<Rightarrow> string \<Rightarrow> string option" where
  "header_get headers name = map_of headers name"

definition retry_after_seconds :: "(string \<times> string) list \<Rightarrow> int \<Rightarrow> int option" where
  "retry_after_seconds headers now =
     (case header_get headers ''retry-after'' of
        None \<Rightarrow> None
      | Some raw \<Rightarrow>
         (let value = trim_with (\<lambda>c. byte c \<in> {32, 9}) raw
          in if value \<noteq> [] \<and> list_all is_ascii_digit value
             then Some (case parse_i64_digits value of None \<Rightarrow> i64_max | Some n \<Rightarrow> n)
             else map_option (\<lambda>date. saturating_sub date now) (parse_http_date value)))"

fun plan_for_reason :: "RetryReason \<Rightarrow> RetryPlan" where
  "plan_for_reason RT_RefreshRequestRejected = RP_Slow"
| "plan_for_reason RT_TokenEndpointMisrouted = RP_Slow"
| "plan_for_reason RT_ClientCheck = RP_ClientCheck"
| "plan_for_reason _ = RP_Backoff"

section \<open>Soundness of the schedule\<close>

lemma schedule_shape:
  fixes t_s :: int
  assumes "0 \<le> t_s" "t_s \<le> 2 ^ 62" "e - t_s \<ge> 2" "e \<le> t_s + 86400"
  defines "lead \<equiv> max ((e - t_s) sdiv 4) 1"
  shows "t_s < e - lead \<and> e - lead < e \<and> 4 * lead \<le> max 4 (e - t_s)"
proof -
  have "(e - t_s) sdiv 4 = (e - t_s) div 4"
    using assms(3) by (simp add: signed_divide_int_def sgn_if)
  then show ?thesis using assms by (auto simp: max_def)
qed

lemma lifetime_in_range:
  assumes "0 \<le> t_s" "t_s \<le> 2 ^ 62" "\<forall>e. claim = Some e \<longrightarrow> 0 \<le> e \<and> e \<le> MAX_EXP_SECONDS"
  shows "in_i64 (t_s + min (lifetime_seconds ei claim t_s) SCHEDULE_CEILING_SECONDS)"
proof -
  have ei: "Option.bind ei expires_in_seconds = Some s \<Longrightarrow> 1 \<le> s" for s
    by (cases ei; cases "the ei") (auto split: option.splits if_splits simp: Let_def)
  have "- (2 ^ 62) - 300 \<le> lifetime_seconds ei claim t_s"
  proof (cases "Option.bind ei expires_in_seconds")
    case (Some s)
    with ei [of s] show ?thesis by (simp add: lifetime_seconds_def)
  next
    case None
    with assms show ?thesis
      by (auto simp: lifetime_seconds_def i64_defs hub_consts MAX_EXP_SECONDS_def split: option.splits)
  qed
  with assms(1,2) show ?thesis by (auto simp: i64_defs hub_consts min_def)
qed

lemma schedule_of_sound:
  fixes t_s :: int and ei :: "json option" and claim :: "int option"
  assumes t: "0 < t_s" "t_s \<le> 2 ^ 62" and claim: "\<forall>e. claim = Some e \<longrightarrow> 0 \<le> e \<and> e \<le> MAX_EXP_SECONDS"
  defines "s \<equiv> schedule_of t_s ei claim"
  shows "t_s < sc_next_refresh_at s" "sc_next_refresh_at s < sc_expires_at s"
    "sc_expires_at s \<le> t_s + SCHEDULE_CEILING_SECONDS" "sc_usable_until s \<le> sc_expires_at s"
    "4 * (sc_expires_at s - sc_next_refresh_at s) \<le> max 4 (sc_expires_at s - t_s)"
    "pred_option (\<lambda>e. sc_usable_until s \<le> e - SKEW_ALLOWANCE_SECONDS) claim"
    "in_i64 (sc_usable_until s)"
proof -
  define l where "l = min (lifetime_seconds ei claim t_s) SCHEDULE_CEILING_SECONDS"
  define u where "u = (case claim of Some e \<Rightarrow> min (t_s + l) (e - SKEW_ALLOWANCE_SECONDS) | None \<Rightarrow> t_s + l)"
  define x where "x = max u (t_s + 2)"
  have i: "in_i64 (t_s + l)" unfolding l_def using t claim by (intro lifetime_in_range) auto
  have l: "l \<le> 86400" by (simp add: l_def hub_consts)
  have sub: "saturating_sub e SKEW_ALLOWANCE_SECONDS = e - SKEW_ALLOWANCE_SECONDS" if "claim = Some e" for e
    using claim that by (auto simp: i64_defs hub_consts MAX_EXP_SECONDS_def)
  have two: "saturating_add t_s MIN_STORED_SPAN_SECONDS = t_s + 2"
    using t by (simp add: i64_defs hub_consts)
  have "(case claim of Some e \<Rightarrow> min (saturating_add t_s l) (saturating_sub e SKEW_ALLOWANCE_SECONDS)
      | None \<Rightarrow> saturating_add t_s l) = u"
    by (simp add: u_def i64_simps i sub split: option.split)
  then have s: "s = \<lparr>sc_usable_until = u, sc_expires_at = x,
      sc_next_refresh_at = x - max ((x - t_s) sdiv 4) 1\<rparr>"
    by (simp add: s_def schedule_of_def two x_def Let_def flip: l_def)
  have u: "u \<le> t_s + 86400" using l by (auto simp: u_def split: option.splits)
  then have x: "x - t_s \<ge> 2" "x \<le> t_s + 86400" "u \<le> x" by (auto simp: x_def)
  from schedule_shape [of t_s x] t x s
  show "t_s < sc_next_refresh_at s" "sc_next_refresh_at s < sc_expires_at s"
    "4 * (sc_expires_at s - sc_next_refresh_at s) \<le> max 4 (sc_expires_at s - t_s)" by auto
  from x s show "sc_expires_at s \<le> t_s + SCHEDULE_CEILING_SECONDS" "sc_usable_until s \<le> sc_expires_at s"
    by (auto simp: hub_consts)
  show "pred_option (\<lambda>e. sc_usable_until s \<le> e - SKEW_ALLOWANCE_SECONDS) claim"
    using s by (auto simp: u_def split: option.splits)
  show "in_i64 (sc_usable_until s)"
    using s i claim by (auto simp: u_def i64_defs hub_consts MAX_EXP_SECONDS_def split: option.splits)
qed

lemma claim_range:
  "\<forall>e. Option.bind (parse_jwt cd tok) jwt_exp = Some e \<longrightarrow> 0 \<le> e \<and> e \<le> MAX_EXP_SECONDS"
  by (auto simp: bind_eq_Some_conv dest: parse_jwt_exp_range)

text \<open>
  the stored schedule of a successor satisfies the table's own constraint and the due
  rule. Its refresh time lies strictly between the send time and the expiry (so both are
  positive), the expiry is at most a day after the send time, the lead is at most a quarter
  of the span (or one second), the token is never used past the stored expiry or past its own
  \<open>exp\<close> less the skew allowance, and the pair is not due at its send time but is due at its
  expiry. The bound on the send time rules out the saturation of 64-bit arithmetic only.
\<close>

theorem after_send_sound:
  fixes cd :: codec and t_s :: int and expires_in :: "json option" and token :: string
  assumes "clock_is_valid t_s" "t_s \<le> 2 ^ 62"
  defines "s \<equiv> after_send cd t_s expires_in token"
  shows "0 < sc_next_refresh_at s \<and> t_s < sc_next_refresh_at s \<and> sc_next_refresh_at s < sc_expires_at s
    \<and> sc_expires_at s \<le> t_s + SCHEDULE_CEILING_SECONDS
    \<and> sc_usable_until s \<le> sc_expires_at s
    \<and> 4 * (sc_expires_at s - sc_next_refresh_at s) \<le> max 4 (sc_expires_at s - t_s)
    \<and> pred_option (\<lambda>e. sc_usable_until s \<le> e - SKEW_ALLOWANCE_SECONDS)
        (Option.bind (parse_jwt cd token) jwt_exp)
    \<and> \<not> refreshed_form_due (sc_expires_at s) (sc_next_refresh_at s) t_s
    \<and> refreshed_form_due (sc_expires_at s) (sc_next_refresh_at s) (sc_expires_at s)"
proof -
  have t: "0 < t_s" using assms(1) by (simp add: clock_is_valid_def hub_consts)
  note sound = schedule_of_sound [OF t assms(2) claim_range, of expires_in cd token, folded after_send_def, folded s_def]
  have gap: "saturating_add t_s DUE_GAP_SECONDS = t_s + DUE_GAP_SECONDS"
    using t assms(2) by (simp add: i64_defs hub_consts)
  show ?thesis
    using sound t gap by (auto simp: refreshed_form_due_def hub_consts)
qed

theorem after_send_sound_witness:
  "clock_is_valid 1800000000
   \<and> after_send no_codec 1800000000 (Some (JNumber (PosInt 28800))) ''opaque''
     = \<lparr>sc_usable_until = 1800028800, sc_expires_at = 1800028800, sc_next_refresh_at = 1800021600\<rparr>
   \<and> \<not> refreshed_form_due 1800028800 1800021600 1800000000"
proof -
  have c: "clock_is_valid 1800000000" by code_simp
  have e: "after_send no_codec 1800000000 (Some (JNumber (PosInt 28800))) ''opaque''
     = \<lparr>sc_usable_until = 1800028800, sc_expires_at = 1800028800, sc_next_refresh_at = 1800021600\<rparr>"
    by code_simp
  from after_send_sound [OF c, of no_codec "Some (JNumber (PosInt 28800))" "''opaque''"] c e show ?thesis by simp
qed

section \<open>Bounds of the retry delays\<close>

lemma backoff_base_cases: "backoff_base 0 = 60" "backoff_base (Suc 0) = 120" "backoff_base 2 = 240" "backoff_base 3 = 300"
  by (simp_all add: backoff_base_def hub_consts push_bit_int_def)

lemma backoff_spread_bounds:
  assumes "0 \<le> k" "k < 1000000"
  shows "0 \<le> backoff_spread (10 * k) u \<and> backoff_spread (10 * k) u \<le> k"
proof -
  define unit where "unit = (if f64_is_finite u then f64_clamp u 0 1 else F_Fin 0)"
  obtain x where x: "unit = F_Fin x" "0 \<le> x" "x \<le> 1"
    by (cases u) (auto simp: unit_def)
  have "f64_of_int (10 * k) = F_Fin (of_int (10 * k))" "f64_of_int RETRY_SPREAD_PERCENT = F_Fin (of_int 10)"
    unfolding f64_of_int_def hub_consts using assms by (intro f64_round_int; simp)+
  then have "f64_mult (f64_of_int (10 * k)) (f64_of_int RETRY_SPREAD_PERCENT) = F_Fin (of_int (100 * k))"
    using f64_round_int [of "100 * k"] assms by (simp add: mult.commute)
  then have base: "f64_div_by (f64_mult (f64_of_int (10 * k)) (f64_of_int RETRY_SPREAD_PERCENT)) 100 = F_Fin (of_int k)"
    using f64_round_int [of k] assms by simp
  have "0 \<le> of_int k * x" "of_int k * x \<le> of_int k"
    using x assms by (auto intro: mult_left_le)
  then obtain y where y: "f64_round (of_int k * x) = F_Fin y" "0 \<le> y" "y \<le> of_int k"
    by (rule f64_round_bounds) (use assms in auto)
  have "0 \<le> rat_trunc y" "rat_trunc y \<le> k"
    using y floor_mono [OF y(3)] by (auto simp: rat_trunc_def)
  then show ?thesis
    using assms x y base by (simp add: backoff_spread_def sat_i64_id in_i64_def i64_min_def i64_max_def flip: unit_def)
qed

lemma backoff_bounds:
  assumes "step \<le> 3"
  shows "let base = backoff_base step in 60 \<le> base \<and> base \<le> 300
    \<and> 0 \<le> backoff_spread base u \<and> 10 * backoff_spread base u \<le> base"
proof -
  consider "step = 0" | "step = 1" | "step = 2" | "step = 3" using assms by linarith
  then show ?thesis
    using backoff_spread_bounds [of 6 u] backoff_spread_bounds [of 12 u]
      backoff_spread_bounds [of 24 u] backoff_spread_bounds [of 30 u]
    by cases (simp_all add: backoff_base_cases Let_def)
qed

lemma retry_delay_bounded:
  "60 \<le> fst (retry_delay plan step u) \<and> fst (retry_delay plan step u) \<le> 3600
   \<and> (plan = RP_Backoff \<longrightarrow>
        backoff_base (min step 3) \<le> fst (retry_delay plan step u)
        \<and> 10 * fst (retry_delay plan step u) \<le> 11 * backoff_base (min step 3))
   \<and> snd (retry_delay plan step u) \<le> max 3 step"
proof (cases plan)
  case RP_Backoff
  then show ?thesis
    using backoff_bounds [of "min step 3" u] by (auto simp: Let_def hub_consts)
qed (auto simp: hub_consts u8_saturating_add_def)

text \<open>
  every retry waits between one minute and one hour, whatever the plan, the step, the
  header and the random number (infinities and NaN included): a backoff waits its base of
  60 to 300 seconds plus at most a tenth of it, and the step stays an index of the schedule.
\<close>

theorem retry_delay_bounds:
  "60 \<le> fst (retry_delay plan step u) \<and> fst (retry_delay plan step u) \<le> 3600
   \<and> (plan = RP_Backoff \<longrightarrow>
        backoff_base (min step 3) \<le> fst (retry_delay plan step u)
        \<and> 10 * fst (retry_delay plan step u) \<le> 11 * backoff_base (min step 3))
   \<and> snd (retry_delay plan step u) \<le> max 3 step"
  by (rule retry_delay_bounded)

theorem retry_delay_bounds_witness:
  "300 \<le> fst (retry_delay RP_Backoff 7 (F_Fin (1 / 2))) \<and> fst (retry_delay RP_Backoff 7 (F_Fin (1 / 2))) \<le> 330
   \<and> snd (retry_delay RP_Backoff 7 (F_Fin (1 / 2))) = 3"
proof -
  have "snd (retry_delay RP_Backoff 7 (F_Fin (1 / 2))) = 3"
    by (simp add: hub_consts u8_saturating_add_def Let_def)
  moreover have "backoff_base (min 7 3) = 300" by (simp add: backoff_base_cases)
  ultimately show ?thesis
    using retry_delay_bounds [of RP_Backoff 7 "F_Fin (1 / 2)"] by simp
qed

end
