(* ===== verification/Token_Cipher.thy ===== *)
theory Token_Cipher
  imports Auth_Endpoint Fence_Store
begin

text \<open>
  The stored form of an owner token (\<^verbatim>\<open>src/auth/teslamate_token.rs\<close>) and the checks of a
  token pair (\<^verbatim>\<open>src/auth/credentials.rs\<close>): the Cloak envelope around an AES-GCM ciphertext, the
  token files of the set-up command and the credential generations. The authenticated cipher
  and SHA-256 are parameters; the round trip assumes the two facts every AEAD documents, that a
  ciphertext is 16 bytes longer than its message and that decryption inverts encryption.
\<close>

section \<open>UTF-8\<close>

text \<open>The byte sequences that \<open>str::from_utf8\<close> accepts.\<close>

definition utf8_cont :: "char \<Rightarrow> bool" where
  "utf8_cont c \<longleftrightarrow> 128 \<le> byte c \<and> byte c \<le> 191"

fun is_utf8 :: "string \<Rightarrow> bool" where
  "is_utf8 [] = True"
| "is_utf8 (a # as) =
     (if byte a < 128 then is_utf8 as
      else if 194 \<le> byte a \<and> byte a \<le> 223 then
        (case as of b # bs \<Rightarrow> utf8_cont b \<and> is_utf8 bs | [] \<Rightarrow> False)
      else if 224 \<le> byte a \<and> byte a \<le> 239 then
        (case as of b # c # cs \<Rightarrow>
             utf8_cont b \<and> (byte a = 224 \<longrightarrow> 160 \<le> byte b) \<and> (byte a = 237 \<longrightarrow> byte b \<le> 159)
             \<and> utf8_cont c \<and> is_utf8 cs
         | _ \<Rightarrow> False)
      else if 240 \<le> byte a \<and> byte a \<le> 244 then
        (case as of b # c # d # ds \<Rightarrow>
             utf8_cont b \<and> (byte a = 240 \<longrightarrow> 144 \<le> byte b) \<and> (byte a = 244 \<longrightarrow> byte b \<le> 143)
             \<and> utf8_cont c \<and> utf8_cont d \<and> is_utf8 ds
         | _ \<Rightarrow> False)
      else False)"

section \<open>A token pair\<close>

datatype CredentialError = CE_EmptyToken | CE_TokenTooLarge | CE_InvalidTokenBytes

definition MAX_LEGACY_TOKEN_PLAINTEXT_BYTES :: nat where
  [hub_consts]: "MAX_LEGACY_TOKEN_PLAINTEXT_BYTES = 16 * 1024"

definition is_ascii_control :: "char \<Rightarrow> bool" where
  "is_ascii_control c \<longleftrightarrow> byte c < 32 \<or> byte c = 127"

definition validate_token_component :: "string \<Rightarrow> CredentialError option" where
  "validate_token_component value =
     (if value = [] then Some CE_EmptyToken
      else if length value > MAX_LEGACY_TOKEN_PLAINTEXT_BYTES then Some CE_TokenTooLarge
      else if list_ex (\<lambda>b. byte b = 0 \<or> byte b = 13 \<or> byte b = 10 \<or> is_ascii_control b) value
      then Some CE_InvalidTokenBytes
      else None)"

record OwnerTokens =
  ot_access_token :: string
  ot_refresh_token :: string

definition from_secret_parts :: "string \<Rightarrow> string \<Rightarrow> CredentialError + OwnerTokens" where
  "from_secret_parts access_token refresh_token =
     (case validate_token_component access_token of
        Some e \<Rightarrow> Inl e
      | None \<Rightarrow>
         (case validate_token_component refresh_token of
            Some e \<Rightarrow> Inl e
          | None \<Rightarrow> Inr \<lparr>ot_access_token = access_token, ot_refresh_token = refresh_token\<rparr>))"

definition decode_token_file :: "string \<Rightarrow> CredentialError + string" where
  "decode_token_file bytes =
     (let text = (if length bytes \<ge> 2 \<and> drop (length bytes - 2) bytes = [char_of (13::nat), char_of (10::nat)]
                  then take (length bytes - 2) bytes
                  else if bytes \<noteq> [] \<and> last bytes = char_of (10::nat) then butlast bytes
                  else bytes)
      in if is_utf8 text then Inr text else Inl CE_InvalidTokenBytes)"

definition from_file_bytes :: "string \<Rightarrow> string \<Rightarrow> CredentialError + OwnerTokens" where
  "from_file_bytes access_token refresh_token =
     (case decode_token_file access_token of
        Inl e \<Rightarrow> Inl e
      | Inr a \<Rightarrow> (case decode_token_file refresh_token of Inl e \<Rightarrow> Inl e | Inr r \<Rightarrow> from_secret_parts a r))"

section \<open>The envelope\<close>

datatype TeslaMateTokenError =
    TE_EntropyUnavailable
  | TE_EmptyEncryptionKey
  | TE_InvalidEncryptionKey
  | TE_UnsupportedEnvelope
  | TE_AuthenticationFailed
  | TE_EncryptionFailed
  | TE_InvalidPlaintext

definition CLOAK_TYPE :: nat where [hub_consts]: "CLOAK_TYPE = 1"
definition CLOAK_TAG :: string where "CLOAK_TAG = ''AES.GCM.V1''"
definition NONCE_BYTES :: nat where [hub_consts]: "NONCE_BYTES = 12"
definition AUTH_TAG_BYTES :: nat where [hub_consts]: "AUTH_TAG_BYTES = 16"
definition ASSOCIATED_DATA :: string where "ASSOCIATED_DATA = ''AES256GCM''"

definition CLOAK_ENVELOPE_OVERHEAD_BYTES :: nat where
  "CLOAK_ENVELOPE_OVERHEAD_BYTES = 2 + length CLOAK_TAG + NONCE_BYTES + AUTH_TAG_BYTES"

text \<open>
  The cipher: SHA-256, and AES-256-GCM under a key and a nonce with associated data. A missing
  nonce is a failure of the operating system's entropy.
\<close>

record cipher =
  cf_sha256 :: "string \<Rightarrow> string"
  cf_encrypt :: "string \<Rightarrow> string \<Rightarrow> string \<Rightarrow> string \<Rightarrow> string option"
  cf_decrypt :: "string \<Rightarrow> string \<Rightarrow> string \<Rightarrow> string \<Rightarrow> string option"

definition cloak_cipher :: "cipher \<Rightarrow> string \<Rightarrow> TeslaMateTokenError + string" where
  "cloak_cipher cf encryption_key =
     (if encryption_key = [] then Inl TE_EmptyEncryptionKey
      else (let key = cf_sha256 cf encryption_key
            in if length key = 32 then Inr key else Inl TE_InvalidEncryptionKey))"

definition decrypt_cloak_value :: "cipher \<Rightarrow> string \<Rightarrow> string \<Rightarrow> TeslaMateTokenError + string" where
  "decrypt_cloak_value cf key encrypted =
     (if length encrypted < 2 \<or> byte (encrypted ! 0) \<noteq> CLOAK_TYPE then Inl TE_UnsupportedEnvelope
      else (let tag_bytes = byte (encrypted ! 1);
                nonce_start = 2;
                nonce_end = nonce_start + tag_bytes;
                auth_tag_start = nonce_end + NONCE_BYTES;
                ciphertext_start = auth_tag_start + AUTH_TAG_BYTES
            in if tag_bytes \<noteq> length CLOAK_TAG \<or> length encrypted \<le> ciphertext_start
                  \<or> take tag_bytes (drop nonce_start encrypted) \<noteq> CLOAK_TAG
               then Inl TE_UnsupportedEnvelope
               else (case cf_decrypt cf key (take NONCE_BYTES (drop nonce_end encrypted)) ASSOCIATED_DATA
                            (drop ciphertext_start encrypted @ take AUTH_TAG_BYTES (drop auth_tag_start encrypted)) of
                       None \<Rightarrow> Inl TE_AuthenticationFailed
                     | Some plain \<Rightarrow> Inr plain)))"

definition encrypt_cloak_value :: "cipher \<Rightarrow> string \<Rightarrow> string option \<Rightarrow> string \<Rightarrow> TeslaMateTokenError + string" where
  "encrypt_cloak_value cf key nonce plaintext =
     (case nonce of
        None \<Rightarrow> Inl TE_EntropyUnavailable
      | Some n \<Rightarrow>
         (case cf_encrypt cf key n ASSOCIATED_DATA plaintext of
            None \<Rightarrow> Inl TE_EncryptionFailed
          | Some ct \<Rightarrow>
             (if length ct < AUTH_TAG_BYTES then Inl TE_EncryptionFailed
              else (let tag_start = length ct - AUTH_TAG_BYTES
                    in Inr ([char_of CLOAK_TYPE, char_of (length CLOAK_TAG)] @ CLOAK_TAG @ n
                            @ drop tag_start ct @ take tag_start ct)))))"

definition secret_utf8_copy :: "string \<Rightarrow> TeslaMateTokenError + string" where
  "secret_utf8_copy bytes = (if is_utf8 bytes then Inr bytes else Inl TE_InvalidPlaintext)"

definition decrypt_legacy_owner_tokens ::
  "cipher \<Rightarrow> string \<Rightarrow> string \<Rightarrow> string \<Rightarrow> TeslaMateTokenError + OwnerTokens" where
  "decrypt_legacy_owner_tokens cf encryption_key encrypted_access encrypted_refresh =
     (case cloak_cipher cf encryption_key of
        Inl e \<Rightarrow> Inl e
      | Inr key \<Rightarrow>
     (case decrypt_cloak_value cf key encrypted_access of
        Inl e \<Rightarrow> Inl e
      | Inr access \<Rightarrow>
     (case decrypt_cloak_value cf key encrypted_refresh of
        Inl e \<Rightarrow> Inl e
      | Inr refresh \<Rightarrow>
     (case secret_utf8_copy access of
        Inl e \<Rightarrow> Inl e
      | Inr a \<Rightarrow>
     (case secret_utf8_copy refresh of
        Inl e \<Rightarrow> Inl e
      | Inr r \<Rightarrow>
     (case from_secret_parts a r of Inl _ \<Rightarrow> Inl TE_InvalidPlaintext | Inr t \<Rightarrow> Inr t))))))"

definition encrypt_pair ::
  "cipher \<Rightarrow> string \<Rightarrow> string option \<Rightarrow> string option \<Rightarrow> string \<Rightarrow> string \<Rightarrow> TeslaMateTokenError + string \<times> string" where
  "encrypt_pair cf key n1 n2 access refresh =
     (case encrypt_cloak_value cf key n1 access of
        Inl e \<Rightarrow> Inl e
      | Inr a \<Rightarrow> (case encrypt_cloak_value cf key n2 refresh of Inl e \<Rightarrow> Inl e | Inr r \<Rightarrow> Inr (a, r)))"

definition encrypt_legacy_owner_tokens ::
  "cipher \<Rightarrow> string \<Rightarrow> string option \<Rightarrow> string option \<Rightarrow> OwnerTokens \<Rightarrow> TeslaMateTokenError + string \<times> string" where
  "encrypt_legacy_owner_tokens cf encryption_key n1 n2 tokens =
     (case cloak_cipher cf encryption_key of
        Inl e \<Rightarrow> Inl e
      | Inr key \<Rightarrow> encrypt_pair cf key n1 n2 (ot_access_token tokens) (ot_refresh_token tokens))"

definition strip_line_ending :: "string \<Rightarrow> string" where
  "strip_line_ending bytes =
     (if bytes \<noteq> [] \<and> last bytes = char_of (10::nat)
      then (let b = butlast bytes in if b \<noteq> [] \<and> last b = char_of (13::nat) then butlast b else b)
      else bytes)"

definition validate_file_token_plaintext :: "string \<Rightarrow> TeslaMateTokenError option" where
  "validate_file_token_plaintext value =
     (if value = [] \<or> length value > MAX_LEGACY_TOKEN_PLAINTEXT_BYTES \<or> \<not> is_utf8 value
         \<or> list_ex (\<lambda>b. byte b = 0 \<or> byte b = 13 \<or> byte b = 10 \<or> is_ascii_control b) value
      then Some TE_InvalidPlaintext else None)"

definition encrypt_legacy_owner_token_files ::
  "cipher \<Rightarrow> string \<Rightarrow> string option \<Rightarrow> string option \<Rightarrow> string \<Rightarrow> string \<Rightarrow> TeslaMateTokenError + string \<times> string" where
  "encrypt_legacy_owner_token_files cf encryption_key n1 n2 access_file refresh_file =
     (let access_token = strip_line_ending access_file; refresh_token = strip_line_ending refresh_file
      in case validate_file_token_plaintext access_token of
           Some e \<Rightarrow> Inl e
         | None \<Rightarrow>
            (case validate_file_token_plaintext refresh_token of
               Some e \<Rightarrow> Inl e
             | None \<Rightarrow>
                (case cloak_cipher cf encryption_key of
                   Inl e \<Rightarrow> Inl e
                 | Inr key \<Rightarrow> encrypt_pair cf key n1 n2 access_token refresh_token)))"

section \<open>Generations\<close>

fun le_bytes :: "nat \<Rightarrow> nat \<Rightarrow> string" where
  "le_bytes 0 n = []"
| "le_bytes (Suc k) n = char_of (n mod 256) # le_bytes k (n div 256)"

definition uuid_from_bytes :: "string \<Rightarrow> uuid" where
  "uuid_from_bytes bs = foldl (\<lambda>n c. n * 256 + byte c) 0 bs"

definition legacy_refresh_credential_generation :: "cipher \<Rightarrow> OwnerTokens \<Rightarrow> uuid" where
  "legacy_refresh_credential_generation cf tokens =
     (let refresh = ot_refresh_token tokens
      in uuid_from_bytes (take 16 (cf_sha256 cf
           (''teslatlas-hub:legacy-refresh-generation:v1'' @ [char_of (0::nat)] @ le_bytes 8 (length refresh) @ refresh))))"

definition legacy_access_token_digest :: "cipher \<Rightarrow> string \<Rightarrow> uuid" where
  "legacy_access_token_digest cf access_token =
     (let access = trim_token_whitespace access_token
      in uuid_from_bytes (take 16 (cf_sha256 cf
           (''teslatlas-hub:legacy-access-rejected:v1'' @ [char_of (0::nat)] @ le_bytes 8 (length access) @ access))))"

section \<open>Round trip\<close>

definition aead_laws :: "cipher \<Rightarrow> bool" where
  "aead_laws cf \<longleftrightarrow> (\<forall>m. length (cf_sha256 cf m) = 32)
     \<and> (\<forall>k n ad m ct. cf_encrypt cf k n ad m = Some ct \<longrightarrow>
          length ct = length m + AUTH_TAG_BYTES \<and> (length n = NONCE_BYTES \<longrightarrow> cf_decrypt cf k n ad ct = Some m))"

lemma cloak_value_roundtrip:
  assumes "aead_laws cf" "length n = NONCE_BYTES" "m \<noteq> []"
    and e: "encrypt_cloak_value cf key (Some n) m = Inr v"
  shows "decrypt_cloak_value cf key v = Inr m" "length v = length m + CLOAK_ENVELOPE_OVERHEAD_BYTES"
proof -
  obtain ct where ct: "cf_encrypt cf key n ASSOCIATED_DATA m = Some ct"
    using e by (cases "cf_encrypt cf key n ASSOCIATED_DATA m") (auto simp: encrypt_cloak_value_def)
  then have len: "length ct = length m + 16" and dec: "cf_decrypt cf key n ASSOCIATED_DATA ct = Some m"
    using assms(1,2) by (auto simp: aead_laws_def AUTH_TAG_BYTES_def)
  define body where "body = drop (length m) ct @ take (length m) ct"
  have v: "v = [char_of CLOAK_TYPE, char_of (length CLOAK_TAG)] @ CLOAK_TAG @ n @ body"
    using e ct len by (simp add: encrypt_cloak_value_def AUTH_TAG_BYTES_def body_def Let_def)
  have n: "length n = 12" using assms(2) by (simp add: NONCE_BYTES_def)
  have m: "0 < length m" using assms(3) by simp
  have lt: "length CLOAK_TAG = 10" by (simp add: CLOAK_TAG_def)
  have lb: "length body = length m + 16" using len by (simp add: body_def)
  show "length v = length m + CLOAK_ENVELOPE_OVERHEAD_BYTES"
    by (simp add: v CLOAK_ENVELOPE_OVERHEAD_BYTES_def n lb NONCE_BYTES_def AUTH_TAG_BYTES_def)
  have v0: "byte (v ! 0) = CLOAK_TYPE" "byte (v ! 1) = 10" by (simp_all add: v byte_def CLOAK_TYPE_def lt)
  have d2: "drop 2 v = CLOAK_TAG @ n @ body" by (simp add: v)
  have d12: "drop 12 v = n @ body" using drop_drop [of 10 2 v] lt by (simp add: d2)
  have d24: "drop 24 v = body" using drop_drop [of 12 12 v] n by (simp add: d12)
  have d40: "drop 40 v = take (length m) ct" using drop_drop [of 16 24 v] len by (simp add: d24 body_def)
  have "take 16 body = drop (length m) ct" using len by (simp add: body_def)
  then have "drop 40 v @ take 16 (drop 24 v) = ct" by (simp add: d40 d24)
  then show "decrypt_cloak_value cf key v = Inr m"
    using v0 n m lb dec
    by (simp add: decrypt_cloak_value_def Let_def lt d2 d12 NONCE_BYTES_def AUTH_TAG_BYTES_def numeral_eq_Suc v)
qed

lemma validate_token_component_None:
  "validate_token_component v = None \<longleftrightarrow> v \<noteq> [] \<and> length v \<le> MAX_LEGACY_TOKEN_PLAINTEXT_BYTES
     \<and> (\<forall>b\<in>set v. \<not> is_ascii_control b)"
proof -
  have "(byte b = 0 \<or> byte b = 13 \<or> byte b = 10 \<or> is_ascii_control b) = is_ascii_control b" for b
    by (auto simp: is_ascii_control_def)
  then show ?thesis by (simp add: validate_token_component_def list_ex_iff not_less)
qed

lemma from_secret_parts_Inr:
  "from_secret_parts a r = Inr t \<longleftrightarrow> validate_token_component a = None \<and> validate_token_component r = None
     \<and> t = \<lparr>ot_access_token = a, ot_refresh_token = r\<rparr>"
  by (auto simp: from_secret_parts_def split: option.splits)

lemma encrypt_pair_Inr:
  "encrypt_pair cf key n1 n2 a r = Inr (ea, er) \<longleftrightarrow>
     encrypt_cloak_value cf key n1 a = Inr ea \<and> encrypt_cloak_value cf key n2 r = Inr er"
  by (auto simp: encrypt_pair_def split: sum.splits)

lemma pair_envelopes:
  assumes "aead_laws cf" "length n1 = NONCE_BYTES" "length n2 = NONCE_BYTES"
    and "from_secret_parts a r = Inr t" "is_utf8 a" "is_utf8 r"
    and "encrypt_legacy_owner_tokens cf key (Some n1) (Some n2) t = Inr (ea, er)"
  shows "decrypt_legacy_owner_tokens cf key ea er = Inr t
    \<and> length ea \<le> MAX_LEGACY_TOKEN_CIPHERTEXT_BYTES \<and> length er \<le> MAX_LEGACY_TOKEN_CIPHERTEXT_BYTES
    \<and> (0 < next \<and> next < expires \<longrightarrow> (\<exists>row. token_row_refreshed ea er expires next = Inr row
         \<and> tk_access row = ea \<and> tk_refresh row = er))"
proof -
  have ok: "validate_token_component a = None" "validate_token_component r = None"
    and t: "t = \<lparr>ot_access_token = a, ot_refresh_token = r\<rparr>" using assms(4) by (auto simp: from_secret_parts_Inr)
  then have ne: "a \<noteq> []" "r \<noteq> []" "length a \<le> 16384" "length r \<le> 16384"
    by (auto simp: validate_token_component_None MAX_LEGACY_TOKEN_PLAINTEXT_BYTES_def)
  obtain k where k: "cloak_cipher cf key = Inr k"
    using assms(7) by (cases "cloak_cipher cf key") (auto simp: encrypt_legacy_owner_tokens_def)
  then have e: "encrypt_cloak_value cf k (Some n1) a = Inr ea" "encrypt_cloak_value cf k (Some n2) r = Inr er"
    using assms(7) by (auto simp: encrypt_legacy_owner_tokens_def t encrypt_pair_Inr)
  note ra = cloak_value_roundtrip [OF assms(1,2) ne(1) e(1)] and rr = cloak_value_roundtrip [OF assms(1,3) ne(2) e(2)]
  have ov: "CLOAK_ENVELOPE_OVERHEAD_BYTES = 40"
    by (simp add: CLOAK_ENVELOPE_OVERHEAD_BYTES_def CLOAK_TAG_def NONCE_BYTES_def AUTH_TAG_BYTES_def)
  have d: "decrypt_legacy_owner_tokens cf key ea er = Inr t"
    using k ra(1) rr(1) assms(4,5,6) by (simp add: decrypt_legacy_owner_tokens_def secret_utf8_copy_def)
  have l: "length ea \<le> MAX_LEGACY_TOKEN_CIPHERTEXT_BYTES" "length er \<le> MAX_LEGACY_TOKEN_CIPHERTEXT_BYTES"
    using ra(2) rr(2) ne ov by (simp_all add: MAX_LEGACY_TOKEN_CIPHERTEXT_BYTES_def)
  have "ea \<noteq> []" "er \<noteq> []" using ra(2) rr(2) ov by auto
  then have "\<exists>row. token_row_refreshed ea er expires next = Inr row \<and> tk_access row = ea \<and> tk_refresh row = er"
    if "0 < next \<and> next < expires"
    using that l by (auto simp: token_row_refreshed_def token_row_new_def Let_def)
  then show ?thesis using d l by blast
qed

text \<open>
  C23: a token pair survives the store. Whatever pair the checks admit, its envelopes decrypt to
  exactly that pair under the same key, both fit the limit of the table, and with a valid
  schedule the row is accepted.
\<close>
theorem owner_tokens_roundtrip:
  assumes "aead_laws cf" "length n1 = NONCE_BYTES" "length n2 = NONCE_BYTES"
    and "from_secret_parts a r = Inr t" "is_utf8 a" "is_utf8 r"
    and "encrypt_legacy_owner_tokens cf key (Some n1) (Some n2) t = Inr (ea, er)"
  shows "decrypt_legacy_owner_tokens cf key ea er = Inr t
    \<and> length ea \<le> MAX_LEGACY_TOKEN_CIPHERTEXT_BYTES \<and> length er \<le> MAX_LEGACY_TOKEN_CIPHERTEXT_BYTES
    \<and> (0 < next \<and> next < expires \<longrightarrow> (\<exists>row. token_row_refreshed ea er expires next = Inr row
         \<and> tk_access row = ea \<and> tk_refresh row = er))"
  using assms by (rule pair_envelopes)

definition example_cipher :: cipher where
  "example_cipher = \<lparr>cf_sha256 = (\<lambda>_. replicate 32 (CHR ''x'')),
     cf_encrypt = (\<lambda>k n ad m. Some (m @ replicate 16 (CHR ''t''))),
     cf_decrypt = (\<lambda>k n ad ct. Some (take (length ct - 16) ct))\<rparr>"

lemma example_cipher_laws: "aead_laws example_cipher"
  by (simp add: aead_laws_def example_cipher_def AUTH_TAG_BYTES_def)

theorem owner_tokens_roundtrip_witness:
  "\<exists>ea er. encrypt_legacy_owner_tokens example_cipher ''k'' (Some ''abcdefghijkl'') (Some ''mnopqrstuvwx'')
       \<lparr>ot_access_token = ''A'', ot_refresh_token = ''R''\<rparr> = Inr (ea, er)
     \<and> decrypt_legacy_owner_tokens example_cipher ''k'' ea er = Inr \<lparr>ot_access_token = ''A'', ot_refresh_token = ''R''\<rparr>"
proof -
  let ?t = "\<lparr>ot_access_token = ''A'', ot_refresh_token = ''R''\<rparr>"
  have "\<not> isl (encrypt_legacy_owner_tokens example_cipher ''k'' (Some ''abcdefghijkl'') (Some ''mnopqrstuvwx'') ?t)"
    by code_simp
  then obtain ea er where
    e: "encrypt_legacy_owner_tokens example_cipher ''k'' (Some ''abcdefghijkl'') (Some ''mnopqrstuvwx'') ?t = Inr (ea, er)"
    by (cases "encrypt_legacy_owner_tokens example_cipher ''k'' (Some ''abcdefghijkl'') (Some ''mnopqrstuvwx'') ?t") auto
  have "length ''abcdefghijkl'' = NONCE_BYTES" "length ''mnopqrstuvwx'' = NONCE_BYTES" "from_secret_parts ''A'' ''R'' = Inr ?t"
    "is_utf8 ''A''" "is_utf8 ''R''" by code_simp+
  then show ?thesis using owner_tokens_roundtrip [OF example_cipher_laws _ _ _ _ _ e] e by blast
qed

section \<open>The two readers of token files\<close>

lemma decode_token_file_strip:
  "decode_token_file b = (if is_utf8 (strip_line_ending b) then Inr (strip_line_ending b) else Inl CE_InvalidTokenBytes)"
proof (cases b rule: rev_cases)
  case Nil then show ?thesis by (simp add: decode_token_file_def strip_line_ending_def)
next
  case (snoc ys y)
  show ?thesis
  proof (cases ys rule: rev_cases)
    case Nil then show ?thesis using snoc by (simp add: decode_token_file_def strip_line_ending_def)
  next
    case (snoc zs z)
    then show ?thesis using \<open>b = ys @ [y]\<close> by (simp add: decode_token_file_def strip_line_ending_def Let_def butlast_append)
  qed
qed

lemma validate_file_token_plaintext_None:
  "validate_file_token_plaintext v = None \<longleftrightarrow> is_utf8 v \<and> validate_token_component v = None"
  by (auto simp: validate_file_token_plaintext_def validate_token_component_def)

text \<open>
  the two readers of token files agree. The set-up command, which encrypts the files, and
  the reader of a decrypted pair accept exactly the same two files, and the pair is in both
  cases the files with one trailing line ending removed.
\<close>
theorem token_file_readers_agree:
  "from_file_bytes fa fr = Inr t \<longleftrightarrow>
     validate_file_token_plaintext (strip_line_ending fa) = None
     \<and> validate_file_token_plaintext (strip_line_ending fr) = None
     \<and> t = \<lparr>ot_access_token = strip_line_ending fa, ot_refresh_token = strip_line_ending fr\<rparr>"
  by (auto simp: from_file_bytes_def decode_token_file_strip validate_file_token_plaintext_None from_secret_parts_Inr)

end
