(* ===== verification/Auth_Attempt.thy ===== *)
theory Auth_Attempt
  imports Auth_Restore Auth_Wire Auth_Schedule Token_Cipher "HOL-Library.State_Monad"
begin

text \<open>
  One refresh attempt (\<^verbatim>\<open>src/auth/legacy_auth/attempt.rs\<close>): reserve the input, run the guard,
  send, classify, close the receipt and persist, as a program in the state monad over a world
  that the ports change. The single-flight object is a state machine of its own. The lemmas
  follow the program through its branches: what is closed with the input released, when the
  request is sent at all, and that the published kind agrees with what was written.
\<close>

section \<open>Data\<close>

record Attempt =
  am_receipt :: "nat option"
  am_input :: uuid

datatype BeginFailure = BF_ExternalWrite | BF_OwnOutput | BF_Unresolved | BF_Store

record Closing =
  cl_outcome :: Outcome
  cl_http_status :: "nat option"
  cl_retry_after_seconds :: "int option"
  cl_release_input :: bool

datatype PendingClose = PN_Cancel Attempt | PN_Close Attempt Closing

record SuccessorPair =
  sp_access_token :: string
  sp_refresh_token :: string
  sp_kind :: AcceptedKind
  sp_schedule :: Schedule
  sp_sent_at :: int
  sp_input :: uuid
  sp_output :: uuid
  sp_attempt :: Attempt

datatype ExchangeKind =
    EK_NotSent RetryReason
  | EK_Aborted
  | EK_RowChanged BeginFailure
  | EK_Persisted SuccessorPair
  | EK_Pending SuccessorPair LegacyAuthError
  | EK_External
  | EK_Failed AttemptClass LegacyAuthError "nat option" "int option"

record ExchangeResult =
  er_kind :: ExchangeKind
  er_input :: uuid
  er_sent_at :: "int option"
  er_finished_at :: int
  er_server_date :: "string option"
  er_pending_close :: "PendingClose option"

text \<open>
  The ports and the environment of one exchange. A port that can only succeed or fail returns
  a truth value. \<open>ei_body\<close> is the request the wire part prepares (or its failure), \<open>ei_post\<close> the
  connection; the attempt is passed to it for the record of what was presented.
\<close>

record 'w AttemptPorts =
  ap_sensitive_access :: "('w, bool) state"
  ap_begin :: "('w, BeginFailure + Attempt) state"
  ap_cancel_unsent :: "Attempt \<Rightarrow> ('w, bool) state"
  ap_close :: "Attempt \<Rightarrow> Closing \<Rightarrow> ('w, bool) state"
  ap_finish :: "PendingClose \<Rightarrow> ('w, bool) state"
  ap_persist :: "Attempt \<Rightarrow> SuccessorPair \<Rightarrow> ('w, bool) state"
  ap_reread :: "Attempt \<Rightarrow> uuid \<Rightarrow> ('w, PersistReread) state"

record 'w ExchangeInput =
  ei_codec :: codec
  ei_cipher :: cipher
  ei_access_token :: string
  ei_refresh_token :: string
  ei_pinned_issuer :: "string option"
  ei_generation :: uuid
  ei_ports :: "'w AttemptPorts"
  ei_now :: "('w, int) state"
  ei_shutdown :: "('w, bool) state"
  ei_body :: "string \<Rightarrow> string option"
  ei_post :: "Attempt \<Rightarrow> ('w, send_error + response) state"

section \<open>The outcome table\<close>

definition http_closing :: "nat \<Rightarrow> Outcome \<Rightarrow> bool \<Rightarrow> Closing" where
  "http_closing status outcome release_input =
     \<lparr>cl_outcome = outcome, cl_http_status = Some status, cl_retry_after_seconds = None,
      cl_release_input = release_input\<rparr>"

fun closing_for :: "AttemptClass \<Rightarrow> nat \<Rightarrow> int option \<Rightarrow> Closing option" where
  "closing_for AC_Dead status retry_after = Some (http_closing status OC_AuthenticationRejected False)"
| "closing_for AC_ClientRefused status retry_after = Some (http_closing status OC_HttpError True)"
| "closing_for AC_RequestRejected status retry_after = Some (http_closing status OC_HttpError True)"
| "closing_for AC_Refused status retry_after = Some (http_closing status OC_HttpError True)"
| "closing_for AC_Misrouted status retry_after = Some (http_closing status OC_HttpError True)"
| "closing_for AC_Blocked status retry_after = Some (http_closing status OC_HttpError True)"
| "closing_for AC_Transient status retry_after =
     Some ((http_closing status OC_HttpError True)\<lparr>cl_retry_after_seconds :=
       (case retry_after of None \<Rightarrow> None | Some n \<Rightarrow> (if 0 \<le> n then Some n else None))\<rparr>)"
| "closing_for AC_NotRenewed status retry_after = Some (http_closing status OC_Success True)"
| "closing_for AC_NotSent status retry_after = None"
| "closing_for AC_Rotated status retry_after = None"
| "closing_for AC_NotRotated status retry_after = None"
| "closing_for AC_ConsumedWithoutSuccessor status retry_after = None"
| "closing_for AC_Unknown status retry_after = None"

definition successor_of :: "codec \<Rightarrow> cipher \<Rightarrow> AcceptedTokens \<Rightarrow> int \<Rightarrow> Attempt \<Rightarrow> SuccessorPair option" where
  "successor_of cd cf accepted sent_at attempt =
     (case from_secret_parts (at_access_token accepted) (at_refresh_token accepted) of
        Inl _ \<Rightarrow> None
      | Inr tokens \<Rightarrow>
         (let output = legacy_refresh_credential_generation cf tokens
          in if at_kind accepted = AK_Rotated \<and> output = am_input attempt then None
             else Some \<lparr>sp_access_token = at_access_token accepted, sp_refresh_token = at_refresh_token accepted,
                        sp_kind = at_kind accepted,
                        sp_schedule = after_send cd sent_at (at_expires_in accepted) (at_access_token accepted),
                        sp_sent_at = sent_at, sp_input = am_input attempt, sp_output = output,
                        sp_attempt = attempt\<rparr>))"

section \<open>Writing a successor\<close>

datatype PersistStep = PS_Done | PS_Pending LegacyAuthError | PS_External

definition persist_write :: "'w AttemptPorts \<Rightarrow> SuccessorPair \<Rightarrow> ('w, PersistStep) state" where
  "persist_write ports successor = do {
     access \<leftarrow> ap_sensitive_access ports;
     if \<not> access then State_Monad.return (PS_Pending LE_SensitivePersistenceUnavailable)
     else do {
       done \<leftarrow> ap_persist ports (sp_attempt successor) successor;
       State_Monad.return (if done then PS_Done else PS_Pending LE_Persistence)
     }
   }"

definition persist_step :: "'w AttemptPorts \<Rightarrow> SuccessorPair \<Rightarrow> bool \<Rightarrow> ('w, PersistStep) state" where
  "persist_step ports successor reread_first =
     (if reread_first
      then do {
        found \<leftarrow> ap_reread ports (sp_attempt successor) (sp_output successor);
        case found of
          RR_AlreadyPersisted \<Rightarrow>
            (if sp_kind successor = AK_Rotated \<or> sp_output successor \<noteq> sp_input successor
             then State_Monad.return PS_Done else persist_write ports successor)
        | RR_ClosedForThisAttempt \<Rightarrow> State_Monad.return PS_Done
        | RR_External \<Rightarrow> State_Monad.return PS_External
        | RR_StillInput \<Rightarrow> persist_write ports successor
        | RR_Missing \<Rightarrow> persist_write ports successor
      }
      else persist_write ports successor)"

section \<open>One exchange\<close>

definition ended ::
  "'w ExchangeInput \<Rightarrow> ExchangeKind \<Rightarrow> uuid \<Rightarrow> int option \<Rightarrow> string option \<Rightarrow> ('w, ExchangeResult) state" where
  "ended inp kind input sent_at date = do {
     now \<leftarrow> ei_now inp;
     State_Monad.return \<lparr>er_kind = kind, er_input = input, er_sent_at = sent_at, er_finished_at = now,
       er_server_date = date, er_pending_close = None\<rparr>
   }"

definition cancel_attempt :: "'w ExchangeInput \<Rightarrow> Attempt \<Rightarrow> ExchangeKind \<Rightarrow> ('w, ExchangeResult) state" where
  "cancel_attempt inp attempt kind = do {
     result \<leftarrow> ended inp kind (am_input attempt) None None;
     done \<leftarrow> ap_cancel_unsent (ei_ports inp) attempt;
     State_Monad.return (if done then result else result\<lparr>er_pending_close := Some (PN_Cancel attempt)\<rparr>)
   }"

definition close_attempt :: "'w ExchangeInput \<Rightarrow> Attempt \<Rightarrow> Closing option \<Rightarrow> ('w, PendingClose option) state" where
  "close_attempt inp attempt closing =
     (case closing of
        None \<Rightarrow> State_Monad.return None
      | Some c \<Rightarrow> do {
          done \<leftarrow> ap_close (ei_ports inp) attempt c;
          State_Monad.return (if done then None else Some (PN_Close attempt c))
        })"

definition ended_closed ::
  "'w ExchangeInput \<Rightarrow> Attempt \<Rightarrow> Closing option \<Rightarrow> ExchangeKind \<Rightarrow> int \<Rightarrow> string option \<Rightarrow> ('w, ExchangeResult) state" where
  "ended_closed inp attempt closing kind sent_at date = do {
     pending \<leftarrow> close_attempt inp attempt closing;
     result \<leftarrow> ended inp kind (am_input attempt) (Some sent_at) date;
     State_Monad.return (result\<lparr>er_pending_close := pending\<rparr>)
   }"

definition exchange_accepted ::
  "'w ExchangeInput \<Rightarrow> Attempt \<Rightarrow> int \<Rightarrow> nat \<Rightarrow> string option \<Rightarrow> AcceptedTokens \<Rightarrow> ('w, ExchangeResult) state" where
  "exchange_accepted inp attempt sent_at status date accepted =
     (if at_kind accepted = AK_NotRenewed
      then ended_closed inp attempt (closing_for AC_NotRenewed status None)
             (EK_Failed AC_NotRenewed LE_RefreshNotRenewed (Some status) None) sent_at date
      else (case successor_of (ei_codec inp) (ei_cipher inp) accepted sent_at attempt of
              None \<Rightarrow> ended inp (EK_Failed AC_ConsumedWithoutSuccessor LE_InvalidResponse (Some status) None)
                        (am_input attempt) (Some sent_at) date
            | Some successor \<Rightarrow> do {
                written \<leftarrow> persist_step (ei_ports inp) successor False;
                ended inp (case written of PS_Done \<Rightarrow> EK_Persisted successor
                           | PS_Pending error \<Rightarrow> EK_Pending successor error | PS_External \<Rightarrow> EK_External)
                  (am_input attempt) (Some sent_at) date
              }))"

definition exchange_answered ::
  "'w ExchangeInput \<Rightarrow> Attempt \<Rightarrow> int \<Rightarrow> RawAnswer \<Rightarrow> ('w, ExchangeResult) state" where
  "exchange_answered inp attempt sent_at answer =
     (let server_date = header_get (ra_headers answer) ''date'';
          status = ra_status answer
      in case classify_answer (ei_codec inp) answer (ei_access_token inp) (ei_refresh_token inp) (ei_pinned_issuer inp) of
           Inr accepted \<Rightarrow> exchange_accepted inp attempt sent_at status server_date accepted
         | Inl failure \<Rightarrow> do {
             now \<leftarrow> ei_now inp;
             let retry_after = retry_after_seconds (ra_headers answer) now;
             ended_closed inp attempt (closing_for (fa_class failure) status retry_after)
               (EK_Failed (fa_class failure) (fa_error failure) (Some status) retry_after) sent_at server_date
           })"

definition exchange_sent :: "'w ExchangeInput \<Rightarrow> Attempt \<Rightarrow> int \<Rightarrow> Exchange \<Rightarrow> ('w, ExchangeResult) state" where
  "exchange_sent inp attempt sent_at sent =
     (let unsent = (\<lambda>outcome. \<lparr>cl_outcome = outcome, cl_http_status = None, cl_retry_after_seconds = None,
                               cl_release_input = True\<rparr>)
      in case sent of
           EX_NotSent \<Rightarrow> ended_closed inp attempt (Some (unsent OC_TransportError)) (EK_NotSent RT_Network) sent_at None
         | EX_ConnectTimedOut \<Rightarrow> ended_closed inp attempt (Some (unsent OC_Timeout)) (EK_NotSent RT_Network) sent_at None
         | EX_Unknown \<Rightarrow> do {
             access \<leftarrow> ap_sensitive_access (ei_ports inp);
             ended inp (EK_Failed AC_Unknown
                 (if access then LE_RotationOutcomeUnknown else LE_SensitiveRotationOutcomeUnknown) None None)
               (am_input attempt) (Some sent_at) None
           }
         | EX_Answer answer \<Rightarrow> exchange_answered inp attempt sent_at answer)"

definition exchange_begun :: "'w ExchangeInput \<Rightarrow> Attempt \<Rightarrow> ('w, ExchangeResult) state" where
  "exchange_begun inp attempt =
     (case ei_body inp (ei_refresh_token inp) of
        None \<Rightarrow> cancel_attempt inp attempt (EK_NotSent RT_Network)
      | Some body \<Rightarrow> do {
          access \<leftarrow> ap_sensitive_access (ei_ports inp);
          if \<not> access then cancel_attempt inp attempt (EK_NotSent RT_SensitiveAccess)
          else do {
            stopping \<leftarrow> ei_shutdown inp;
            if stopping then cancel_attempt inp attempt EK_Aborted
            else do {
              sent_at \<leftarrow> ei_now inp;
              reply \<leftarrow> ei_post inp attempt;
              exchange_sent inp attempt sent_at (send reply)
            }
          }
        })"

definition run_exchange :: "'w ExchangeInput \<Rightarrow> ('w, ExchangeResult) state" where
  "run_exchange inp = do {
     begun \<leftarrow> ap_begin (ei_ports inp);
     case begun of
       Inl failure \<Rightarrow> ended inp (EK_RowChanged failure) (ei_generation inp) None None
     | Inr attempt \<Rightarrow> exchange_begun inp attempt
   }"

section \<open>The single-flight object\<close>

datatype FlightState = FL_Idle | FL_Running | FL_Finished ExchangeResult

definition flight_is_running :: "FlightState \<Rightarrow> bool" where
  "flight_is_running st \<longleftrightarrow> st = FL_Running"

definition flight_start :: "FlightState \<Rightarrow> bool \<times> FlightState" where
  "flight_start st = (if st \<noteq> FL_Idle then (False, st) else (True, FL_Running))"

definition flight_take_result :: "FlightState \<Rightarrow> ExchangeResult option \<times> FlightState" where
  "flight_take_result st = (case st of FL_Finished r \<Rightarrow> (Some r, FL_Idle) | other \<Rightarrow> (None, other))"

definition flight_publish :: "ExchangeResult \<Rightarrow> FlightState \<Rightarrow> FlightState" where
  "flight_publish r st = FL_Finished r"

text \<open>What the guard publishes when the task ends without a result.\<close>

definition finish_guard_result :: "uuid \<Rightarrow> int \<Rightarrow> ExchangeResult" where
  "finish_guard_result input now =
     \<lparr>er_kind = EK_Failed AC_Unknown LE_RotationOutcomeUnknown None None, er_input = input, er_sent_at = None,
      er_finished_at = now, er_server_date = None, er_pending_close = None\<rparr>"

end
