(* ===== verification/Attempt_Contract.thy ===== *)
theory Attempt_Contract
  imports Auth_Attempt
begin

text \<open>
  What an exchange relies on and what it guarantees. \<open>refines\<close> relates a program over a concrete
  world to the step system of attempts: whatever the program does is a sequence of steps there.
  The interface \<open>attempt_contract\<close> states this for every port; the lemmas inside it carry it
  through the exchange and through the retries of a write.
\<close>

section \<open>Programs as sequences of steps\<close>

definition refines ::
  "('w \<Rightarrow> system \<Rightarrow> bool) \<Rightarrow> (system \<Rightarrow> bool) \<Rightarrow> ('w, 'a) state \<Rightarrow> ('a \<Rightarrow> system \<Rightarrow> bool) \<Rightarrow> bool" where
  "refines sim P m Q \<longleftrightarrow>
     (\<forall>w y. sim w y \<and> P y \<longrightarrow>
        (case run_state m w of (a, w') \<Rightarrow> \<exists>y'. system_step\<^sup>*\<^sup>* y y' \<and> sim w' y' \<and> Q a y'))"

lemma refinesI:
  "(\<And>w y a w'. sim w y \<Longrightarrow> P y \<Longrightarrow> run_state m w = (a, w') \<Longrightarrow> \<exists>y'. system_step\<^sup>*\<^sup>* y y' \<and> sim w' y' \<and> Q a y')
   \<Longrightarrow> refines sim P m Q"
  unfolding refines_def by (auto split: prod.splits)

lemma refinesD:
  assumes "refines sim P m Q" "sim w y" "P y" "run_state m w = (a, w')"
  obtains y' where "system_step\<^sup>*\<^sup>* y y'" "sim w' y'" "Q a y'"
  using assms unfolding refines_def by (fastforce split: prod.splits)

lemma refines_return [intro]: "(\<And>y. P y \<Longrightarrow> Q a y) \<Longrightarrow> refines sim P (State_Monad.return a) Q"
  by (rule refinesI) (auto simp: State_Monad.return_def)

lemma refines_bind:
  assumes "refines sim P m R" "\<And>a. refines sim (R a) (f a) Q"
  shows "refines sim P (State_Monad.bind m f) Q"
proof (rule refinesI)
  fix w y b w' assume s: "sim w y" "P y" "run_state (State_Monad.bind m f) w = (b, w')"
  obtain a v where a: "run_state m w = (a, v)" by force
  then have b: "run_state (f a) v = (b, w')" using s(3) by (simp add: State_Monad.bind_def)
  obtain y1 where y1: "system_step\<^sup>*\<^sup>* y y1" "sim v y1" "R a y1" by (rule refinesD [OF assms(1) s(1,2) a])
  obtain y2 where "system_step\<^sup>*\<^sup>* y1 y2" "sim w' y2" "Q b y2" by (rule refinesD [OF assms(2) y1(2,3) b])
  then show "\<exists>y'. system_step\<^sup>*\<^sup>* y y' \<and> sim w' y' \<and> Q b y'" using y1(1) by (meson rtranclp_trans)
qed

lemma refines_conseq:
  "refines sim P m Q \<Longrightarrow> (\<And>y. P' y \<Longrightarrow> P y) \<Longrightarrow> (\<And>a y. Q a y \<Longrightarrow> Q' a y) \<Longrightarrow> refines sim P' m Q'"
  unfolding refines_def by (fastforce split: prod.splits)

lemma refines_fact: "(F \<Longrightarrow> refines sim P m Q) \<Longrightarrow> refines sim (\<lambda>y. P y \<and> F) m Q"
  unfolding refines_def by auto

text \<open>A program that leaves the attempts of this process as they are.\<close>

definition quiet :: "('w \<Rightarrow> system \<Rightarrow> bool) \<Rightarrow> ('w, 'a) state \<Rightarrow> bool" where
  "quiet sim m \<longleftrightarrow> (\<forall>A. refines sim (\<lambda>y. sy_attempts y = A) m (\<lambda>_ y. sy_attempts y = A))"

lemma quiet_refines:
  assumes "quiet sim m" "\<And>y y'. sy_attempts y = sy_attempts y' \<Longrightarrow> P y \<Longrightarrow> Q y'"
  shows "refines sim P m (\<lambda>_. Q)"
proof (rule refinesI)
  fix w y a w' assume s: "sim w y" "P y" "run_state m w = (a, w')"
  have "refines sim (\<lambda>z. sy_attempts z = sy_attempts y) m (\<lambda>_ z. sy_attempts z = sy_attempts y)"
    using assms(1) unfolding quiet_def by blast
  from refinesD [OF this s(1) _ s(3)]
  obtain y' where "system_step\<^sup>*\<^sup>* y y'" "sim w' y'" "sy_attempts y' = sy_attempts y" by blast
  then show "\<exists>y'. system_step\<^sup>*\<^sup>* y y' \<and> sim w' y' \<and> Q y'" using assms(2) [of y y'] s(2) by auto
qed

section \<open>The state of an attempt\<close>

definition in_phase :: "Attempt \<Rightarrow> phase \<Rightarrow> system \<Rightarrow> bool" where
  "in_phase a ph y \<longleftrightarrow> (\<exists>i. am_receipt a = Some i \<and> sy_attempts y i = Some (am_input a, ph))"

text \<open>What the answer says of the presented token, as the outcome table reads it.\<close>

definition answer_releases :: "codec \<Rightarrow> string \<Rightarrow> string \<Rightarrow> string option \<Rightarrow> (send_error + response) \<Rightarrow> bool" where
  "answer_releases cd access refresh pinned_issuer reply \<longleftrightarrow>
     (case send reply of
        EX_NotSent \<Rightarrow> True
      | EX_ConnectTimedOut \<Rightarrow> True
      | EX_Unknown \<Rightarrow> False
      | EX_Answer answer \<Rightarrow>
         (case classify_answer cd answer access refresh pinned_issuer of
            Inl failure \<Rightarrow> \<not> consumes_input (fa_class failure)
          | Inr accepted \<Rightarrow> at_kind accepted \<noteq> AK_Rotated))"

definition answered_phase :: "'w ExchangeInput \<Rightarrow> (send_error + response) \<Rightarrow> phase" where
  "answered_phase inp reply =
     (if answer_releases (ei_codec inp) (ei_access_token inp) (ei_refresh_token inp) (ei_pinned_issuer inp) reply
      then Releasable else Spent)"

fun pending_ok :: "PendingClose \<Rightarrow> system \<Rightarrow> bool" where
  "pending_ok (PN_Cancel a) y = in_phase a Unsent y"
| "pending_ok (PN_Close a c) y = (cl_release_input c \<longrightarrow> in_phase a Releasable y)"

definition successor_wf :: "cipher \<Rightarrow> SuccessorPair \<Rightarrow> bool" where
  "successor_wf cf sp \<longleftrightarrow> sp_input sp = am_input (sp_attempt sp)
     \<and> (\<exists>t. from_secret_parts (sp_access_token sp) (sp_refresh_token sp) = Inr t
          \<and> sp_output sp = legacy_refresh_credential_generation cf t)"

definition successor_ok :: "SuccessorPair \<Rightarrow> system \<Rightarrow> bool" where
  "successor_ok sp y \<longleftrightarrow> (sp_output sp = sp_input sp \<longrightarrow> in_phase (sp_attempt sp) Releasable y)"

definition result_ok :: "cipher \<Rightarrow> ExchangeResult \<Rightarrow> system \<Rightarrow> bool" where
  "result_ok cf r y \<longleftrightarrow>
     (case er_pending_close r of None \<Rightarrow> True | Some p \<Rightarrow> pending_ok p y)
     \<and> (case er_kind r of EK_Pending sp _ \<Rightarrow> successor_wf cf sp \<and> successor_ok sp y \<and> er_pending_close r = None
         | _ \<Rightarrow> True)"

lemma in_phase_attempts: "sy_attempts y = sy_attempts y' \<Longrightarrow> in_phase a ph y \<Longrightarrow> in_phase a ph y'"
  by (simp add: in_phase_def)

lemma successor_ok_attempts: "sy_attempts y = sy_attempts y' \<Longrightarrow> successor_ok sp y \<Longrightarrow> successor_ok sp y'"
  by (simp add: successor_ok_def in_phase_def)

lemma pending_ok_attempts: "sy_attempts y = sy_attempts y' \<Longrightarrow> pending_ok p y \<Longrightarrow> pending_ok p y'"
  by (cases p) (simp_all add: in_phase_def)

lemma quiet_in_phase: "quiet sim m \<Longrightarrow> refines sim (in_phase a ph) m (\<lambda>_. in_phase a ph)"
  by (rule quiet_refines) (auto elim: in_phase_attempts)

lemma quiet_successor: "quiet sim m \<Longrightarrow> refines sim (successor_ok sp) m (\<lambda>_. successor_ok sp)"
  by (rule quiet_refines) (auto elim: successor_ok_attempts)

section \<open>The outcome table\<close>

lemma closing_for_release:
  "closing_for c st ra = Some cl \<Longrightarrow> cl_release_input cl \<longleftrightarrow> \<not> consumes_input c"
  by (cases c) (auto simp: http_closing_def)

lemma successor_of_wf:
  assumes "successor_of cd cf acc sent a = Some sp"
  shows "successor_wf cf sp" "sp_attempt sp = a" "sp_kind sp = at_kind acc"
    "sp_output sp = sp_input sp \<Longrightarrow> at_kind acc \<noteq> AK_Rotated"
  using assms by (auto simp: successor_of_def successor_wf_def Let_def split: sum.splits if_splits)

section \<open>The contract\<close>

locale attempt_contract =
  fixes inp :: "'w ExchangeInput" and sim :: "'w \<Rightarrow> system \<Rightarrow> bool"
  assumes now_quiet: "quiet sim (ei_now inp)"
    and shutdown_quiet: "quiet sim (ei_shutdown inp)"
    and access_quiet: "quiet sim (ap_sensitive_access (ei_ports inp))"
    and reread_quiet: "quiet sim (ap_reread (ei_ports inp) a g)"
    and begin_law: "refines sim (\<lambda>_. True) (ap_begin (ei_ports inp)) (\<lambda>r y. \<forall>a. r = Inr a \<longrightarrow> in_phase a Reserved y)"
    and cancel_law: "refines sim (in_phase a Reserved) (ap_cancel_unsent (ei_ports inp) a) (\<lambda>_. in_phase a Unsent)"
    and post_law: "refines sim (in_phase a Reserved) (ei_post inp a) (\<lambda>reply. in_phase a (answered_phase inp reply))"
    and close_law: "(cl_release_input c \<Longrightarrow> ph = Releasable) \<Longrightarrow>
      refines sim (in_phase a ph) (ap_close (ei_ports inp) a c) (\<lambda>_. in_phase a ph)"
    and finish_law: "refines sim (pending_ok p) (ap_finish (ei_ports inp) p) (\<lambda>_. pending_ok p)"
    and persist_law: "successor_wf (ei_cipher inp) sp \<Longrightarrow>
      refines sim (successor_ok sp) (ap_persist (ei_ports inp) (sp_attempt sp) sp) (\<lambda>_. successor_ok sp)"
begin

lemma ended_refines:
  assumes "\<And>now y y'. sy_attempts y = sy_attempts y' \<Longrightarrow> P y \<Longrightarrow>
      Q \<lparr>er_kind = k, er_input = g, er_sent_at = t, er_finished_at = now, er_server_date = d, er_pending_close = None\<rparr> y'"
  shows "refines sim P (ended inp k g t d) Q"
  unfolding ended_def
  by (rule refines_bind [OF quiet_refines [OF now_quiet, of P "\<lambda>y. \<exists>z. sy_attempts z = sy_attempts y \<and> P z"]])
     (use assms in \<open>auto intro!: refines_return\<close>)

lemma persist_write_refines:
  assumes "successor_wf (ei_cipher inp) sp"
  shows "refines sim (successor_ok sp) (persist_write (ei_ports inp) sp) (\<lambda>_. successor_ok sp)"
  unfolding persist_write_def
  by (rule refines_bind [OF quiet_successor [OF access_quiet]])
     (auto intro!: refines_return refines_bind [OF persist_law [OF assms]])

lemma persist_step_refines:
  assumes "successor_wf (ei_cipher inp) sp"
  shows "refines sim (successor_ok sp) (persist_step (ei_ports inp) sp b) (\<lambda>_. successor_ok sp)"
proof (cases b)
  case True
  have "refines sim (successor_ok sp)
      (case r of RR_AlreadyPersisted \<Rightarrow> (if sp_kind sp = AK_Rotated \<or> sp_output sp \<noteq> sp_input sp
             then State_Monad.return PS_Done else persist_write (ei_ports inp) sp)
        | RR_ClosedForThisAttempt \<Rightarrow> State_Monad.return PS_Done
        | RR_External \<Rightarrow> State_Monad.return PS_External
        | RR_StillInput \<Rightarrow> persist_write (ei_ports inp) sp
        | RR_Missing \<Rightarrow> persist_write (ei_ports inp) sp) (\<lambda>_. successor_ok sp)" for r
    using persist_write_refines [OF assms] by (cases r) auto
  then show ?thesis unfolding persist_step_def if_P [OF True]
    by (rule refines_bind [OF quiet_successor [OF reread_quiet]])
qed (simp add: persist_step_def persist_write_refines [OF assms])

lemma cancel_attempt_refines:
  assumes "\<And>sp e. k \<noteq> EK_Pending sp e"
  shows "refines sim (in_phase a Reserved) (cancel_attempt inp a k) (result_ok cf)"
  unfolding cancel_attempt_def
proof (rule refines_bind [OF ended_refines])
  let ?R = "\<lambda>r y. er_kind r = k \<and> er_pending_close r = None \<and> in_phase a Reserved y"
  show "?R \<lparr>er_kind = k, er_input = am_input a, er_sent_at = None, er_finished_at = now, er_server_date = None,
      er_pending_close = None\<rparr> y'" if "sy_attempts y = sy_attempts y'" "in_phase a Reserved y" for now y y'
    using in_phase_attempts [OF that] by simp
  fix r
  have "refines sim (\<lambda>y. in_phase a Reserved y \<and> (er_kind r = k \<and> er_pending_close r = None))
     (State_Monad.bind (ap_cancel_unsent (ei_ports inp) a)
       (\<lambda>done. State_Monad.return (if done then r else r\<lparr>er_pending_close := Some (PN_Cancel a)\<rparr>))) (result_ok cf)"
    by (intro refines_fact refines_bind [OF cancel_law])
       (use assms in \<open>auto intro!: refines_return simp: result_ok_def split: ExchangeKind.splits\<close>)
  then show "refines sim (?R r) (State_Monad.bind (ap_cancel_unsent (ei_ports inp) a)
       (\<lambda>done. State_Monad.return (if done then r else r\<lparr>er_pending_close := Some (PN_Cancel a)\<rparr>))) (result_ok cf)"
    by (rule refines_conseq) auto
qed

lemma ended_closed_refines:
  assumes "\<And>c. cl = Some c \<Longrightarrow> cl_release_input c \<Longrightarrow> ph = Releasable" "\<And>sp e. k \<noteq> EK_Pending sp e"
  shows "refines sim (in_phase a ph) (ended_closed inp a cl k t d) (result_ok cf)"
proof -
  let ?R = "\<lambda>pc y. case pc of None \<Rightarrow> True | Some p \<Rightarrow> pending_ok p y"
  have "refines sim (in_phase a ph) (close_attempt inp a cl) ?R"
  proof (cases cl)
    case (Some c)
    have "refines sim (in_phase a ph) (ap_close (ei_ports inp) a c) (\<lambda>_. in_phase a ph)"
      using assms(1) [OF Some] by (rule close_law)
    with assms(1) [OF Some] show ?thesis unfolding close_attempt_def Some
      by (auto intro!: refines_bind refines_return)
  qed (auto simp: close_attempt_def)
  moreover have "refines sim (?R pc)
      (State_Monad.bind (ended inp k (am_input a) (Some t) d) (\<lambda>r. State_Monad.return (r\<lparr>er_pending_close := pc\<rparr>)))
      (result_ok cf)" for pc
    by (rule refines_bind [OF ended_refines [of _ "\<lambda>r y. er_kind r = k \<and> ?R pc y"]])
       (use assms(2) in \<open>auto intro!: refines_return elim: pending_ok_attempts simp: result_ok_def split: option.splits ExchangeKind.splits\<close>)
  ultimately show ?thesis unfolding ended_closed_def by (rule refines_bind)
qed

lemma ended_plain_refines:
  "(\<And>sp e. k \<noteq> EK_Pending sp e) \<Longrightarrow> refines sim P (ended inp k g t d) (result_ok cf)"
  by (rule ended_refines) (auto simp: result_ok_def split: ExchangeKind.splits)

lemma exchange_accepted_refines:
  assumes "at_kind acc \<noteq> AK_Rotated \<Longrightarrow> ph = Releasable"
  shows "refines sim (in_phase a ph) (exchange_accepted inp a t st d acc) (result_ok (ei_cipher inp))"
proof (cases "at_kind acc = AK_NotRenewed")
  case True
  then show ?thesis using assms by (simp add: exchange_accepted_def ended_closed_refines)
next
  case renewed: False
  show ?thesis
  proof (cases "successor_of (ei_codec inp) (ei_cipher inp) acc t a")
    case None
    then show ?thesis using renewed by (simp add: exchange_accepted_def ended_plain_refines)
  next
    case (Some sp)
    note wf = successor_of_wf [OF Some]
    have "refines sim (in_phase a ph) (persist_step (ei_ports inp) sp False) (\<lambda>_. successor_ok sp)"
      using persist_step_refines [OF wf(1)]
      by (rule refines_conseq) (use wf assms in \<open>auto simp: successor_ok_def\<close>)
    moreover have "refines sim (successor_ok sp)
        (ended inp (case s of PS_Done \<Rightarrow> EK_Persisted sp | PS_Pending e \<Rightarrow> EK_Pending sp e | PS_External \<Rightarrow> EK_External)
          (am_input a) (Some t) d) (result_ok (ei_cipher inp))" for s
      by (rule ended_refines) (use wf(1) in \<open>auto elim: successor_ok_attempts simp: result_ok_def split: PersistStep.splits\<close>)
    ultimately show ?thesis using renewed Some by (auto simp: exchange_accepted_def intro: refines_bind)
  qed
qed

lemma exchange_sent_refines:
  "refines sim (in_phase a (answered_phase inp reply)) (exchange_sent inp a t (send reply)) (result_ok (ei_cipher inp))"
proof (cases "send reply")
  case EX_NotSent
  then show ?thesis by (simp add: exchange_sent_def Let_def answered_phase_def answer_releases_def ended_closed_refines)
next
  case EX_ConnectTimedOut
  then show ?thesis by (simp add: exchange_sent_def Let_def answered_phase_def answer_releases_def ended_closed_refines)
next
  case EX_Unknown
  then show ?thesis
    by (auto simp: exchange_sent_def intro!: refines_bind [OF quiet_refines [OF access_quiet, of _ "\<lambda>_. True"]] ended_plain_refines)
next
  case (EX_Answer ans)
  let ?c = "classify_answer (ei_codec inp) ans (ei_access_token inp) (ei_refresh_token inp) (ei_pinned_issuer inp)"
  show ?thesis
  proof (cases ?c)
    case (Inl f)
    have ph: "answered_phase inp reply = Releasable" if "\<not> consumes_input (fa_class f)"
      using that EX_Answer Inl by (simp add: answered_phase_def answer_releases_def)
    show ?thesis using EX_Answer Inl
      by (auto simp: exchange_sent_def exchange_answered_def Let_def closing_for_release ph
          intro!: refines_bind [OF quiet_in_phase [OF now_quiet]] ended_closed_refines)
  next
    case (Inr acc)
    then show ?thesis using EX_Answer
      by (auto simp: exchange_sent_def exchange_answered_def Let_def answered_phase_def answer_releases_def
          intro!: exchange_accepted_refines)
  qed
qed

lemma exchange_begun_refines:
  "refines sim (in_phase a Reserved) (exchange_begun inp a) (result_ok (ei_cipher inp))"
proof -
  let ?P = "in_phase a Reserved"
  note c = cancel_attempt_refines [of _ a "ei_cipher inp"]
  have send: "refines sim ?P
      (State_Monad.bind (ei_now inp) (\<lambda>t. State_Monad.bind (ei_post inp a) (\<lambda>reply. exchange_sent inp a t (send reply))))
      (result_ok (ei_cipher inp))"
    by (rule refines_bind [OF quiet_in_phase [OF now_quiet]], rule refines_bind [OF post_law])
       (rule exchange_sent_refines)
  show ?thesis
  proof (cases "ei_body inp (ei_refresh_token inp)")
    case (Some body)
    show ?thesis unfolding exchange_begun_def Some option.case
      by (rule refines_bind [OF quiet_in_phase [OF access_quiet]])
         (auto intro!: c send refines_bind [OF quiet_in_phase [OF shutdown_quiet]])
  qed (simp add: exchange_begun_def c)
qed

lemma run_exchange_refines: "refines sim (\<lambda>_. True) (run_exchange inp) (result_ok (ei_cipher inp))"
  unfolding run_exchange_def
proof (rule refines_bind [OF begin_law])
  fix r
  have "refines sim (in_phase a Reserved) (exchange_begun inp a) (result_ok (ei_cipher inp))" for a
    by (rule exchange_begun_refines)
  then show "refines sim (\<lambda>y. \<forall>a. r = Inr a \<longrightarrow> in_phase a Reserved y)
      (case r of Inl e \<Rightarrow> ended inp (EK_RowChanged e) (ei_generation inp) None None | Inr a \<Rightarrow> exchange_begun inp a)
      (result_ok (ei_cipher inp))"
    by (cases r) (simp_all add: ended_plain_refines)
qed

end

end
