(* ===== verification/Manager_Ports.thy ===== *)
theory Manager_Ports
  imports Attempt_Contract
begin

text \<open>
  The ports of the exchange over the store (\<^verbatim>\<open>HubTeslaMatePersistence\<close> and \<^verbatim>\<open>ManagerPorts\<close> of
  \<^verbatim>\<open>src/auth/credentials.rs\<close>). The world holds the store, the generation the manager has in
  memory, the image of its latest equal-generation write and what was sent to the token
  service. Everything the unit does not decide comes from an environment indexed by the number of
  the call: the clocks, the guard, entropy, the answers of the service, failures of the store
  before a commit and after it, and the commits of other connections between two calls.
\<close>

section \<open>The world\<close>

record Presentation =
  pn_receipt :: nat
  pn_generation :: uuid
  pn_access_token :: string
  pn_refresh_token :: string
  pn_pinned_issuer :: "string option"
  pn_reply :: "send_error + response"

record hub =
  hb_store :: store
  hb_generation :: uuid
  hb_own_write :: "(nat \<times> PairImage) option"
  hb_tick :: nat
  hb_sent :: "Presentation list"

text \<open>The commits of other connections; a transaction that is refused changes nothing.\<close>

datatype move =
    MV_Replace int TokenRow
  | MV_Bind TokenRow uuid
  | MV_Clear int
  | MV_Reserve int uuid uuid uuid
  | MV_LedgerBegin int OutboundRequestStart
  | MV_LedgerComplete int nat OutboundRequestCompletion
  | MV_Status CollectorAuthRow int
  | MV_Digest TokenRow nat "uuid option" uuid
  | MV_LiftRefusal int

definition or_same :: "store \<Rightarrow> StoreError + store \<Rightarrow> store" where
  "or_same s r = (case r of Inl _ \<Rightarrow> s | Inr s' \<Rightarrow> s')"

definition or_same_snd :: "store \<Rightarrow> StoreError + 'a \<times> store \<Rightarrow> store" where
  "or_same_snd s r = (case r of Inl _ \<Rightarrow> s | Inr (_, s') \<Rightarrow> s')"

fun apply_move :: "move \<Rightarrow> store \<Rightarrow> store" where
  "apply_move (MV_Replace now t) s = or_same s (replace_teslamate_legacy_tokens now t s)"
| "apply_move (MV_Bind t g) s = or_same s (bind_teslamate_legacy_credential_generation t g s)"
| "apply_move (MV_Clear now) s = clear_teslamate_legacy_tokens now s"
| "apply_move (MV_Reserve now c a g) s = or_same_snd s (begin_legacy_refresh now c a g s)"
| "apply_move (MV_LedgerBegin now q) s = or_same_snd s (begin_outbound_request now q s)"
| "apply_move (MV_LedgerComplete now i c) s = or_same s (complete_outbound_request now i c s)"
| "apply_move (MV_Status row now) s = or_same_snd s (write_collector_auth_row row now s)"
| "apply_move (MV_Digest p n go d) s = or_same s (fill_collector_auth_rejected_access_digest p n go d s)"
| "apply_move (MV_LiftRefusal now) s = snd (lift_collector_auth_refusal_in_transaction now s)"

record environment =
  oc_moves :: "nat \<Rightarrow> move list"
  oc_fault :: "nat \<Rightarrow> bool"
  oc_ack_lost :: "nat \<Rightarrow> bool"
  oc_now_ms :: "nat \<Rightarrow> int"
  oc_now :: "nat \<Rightarrow> int"
  oc_ids :: "nat \<Rightarrow> uuid \<times> uuid"
  oc_guard :: "nat \<Rightarrow> bool"
  oc_lost :: "nat \<Rightarrow> bool"
  oc_shutdown :: "nat \<Rightarrow> bool"
  oc_nonces :: "nat \<Rightarrow> string option \<times> string option"
  oc_reply :: "nat \<Rightarrow> send_error + response"

definition next_tick :: "environment \<Rightarrow> (hub, nat) state" where
  "next_tick env = do {
     w \<leftarrow> State_Monad.get;
     State_Monad.set (w\<lparr>hb_tick := hb_tick w + 1,
       hb_store := fold apply_move (oc_moves env (hb_tick w)) (hb_store w)\<rparr>);
     State_Monad.return (hb_tick w)
   }"

text \<open>
  A transaction can fail before it changes anything, be refused, commit, or commit and report
  an error.
\<close>

definition transact :: "environment \<Rightarrow> (nat \<Rightarrow> store \<Rightarrow> StoreError + 'a \<times> store) \<Rightarrow> (hub, StoreError + 'a) state" where
  "transact env f = do {
     t \<leftarrow> next_tick env;
     w \<leftarrow> State_Monad.get;
     if oc_fault env t then State_Monad.return (Inl SE_Fault)
     else (case f t (hb_store w) of
             Inl e \<Rightarrow> State_Monad.return (Inl e)
           | Inr (a, s') \<Rightarrow> do {
               State_Monad.set (w\<lparr>hb_store := s'\<rparr>);
               State_Monad.return (if oc_ack_lost env t then Inl SE_Fault else Inr a)
             })
   }"

definition commits :: "(nat \<Rightarrow> store \<Rightarrow> StoreError + store) \<Rightarrow> nat \<Rightarrow> store \<Rightarrow> StoreError + unit \<times> store" where
  "commits f t s = (case f t s of Inl e \<Rightarrow> Inl e | Inr s' \<Rightarrow> Inr ((), s'))"

definition read_store :: "environment \<Rightarrow> (store \<Rightarrow> StoreError + 'a) \<Rightarrow> (hub, StoreError + 'a) state" where
  "read_store env f = do {
     t \<leftarrow> next_tick env;
     w \<leftarrow> State_Monad.get;
     State_Monad.return (if oc_fault env t then Inl SE_Fault else f (hb_store w))
   }"

definition ask :: "environment \<Rightarrow> (nat \<Rightarrow> 'a) \<Rightarrow> (hub, 'a) state" where
  "ask env f = do { t \<leftarrow> next_tick env; State_Monad.return (f t) }"

section \<open>The persistence\<close>

datatype PersistError = PE_Credential CredentialError | PE_Cipher TeslaMateTokenError | PE_Store StoreError

definition begin_refresh :: "environment \<Rightarrow> (hub, StoreError + nat \<times> uuid) state" where
  "begin_refresh env = do {
     w \<leftarrow> State_Monad.get;
     let input_generation = hb_generation w;
     begun \<leftarrow> transact env (\<lambda>t. begin_legacy_refresh (oc_now_ms env t) (fst (oc_ids env t)) (snd (oc_ids env t)) input_generation);
     State_Monad.return (case begun of Inl e \<Rightarrow> Inl e | Inr receipt_id \<Rightarrow> Inr (receipt_id, input_generation))
   }"

definition cancel_refresh :: "environment \<Rightarrow> nat \<Rightarrow> uuid \<Rightarrow> (hub, StoreError + unit) state" where
  "cancel_refresh env receipt_id input_generation =
     transact env (commits (\<lambda>t. cancel_unsent_legacy_refresh (oc_now_ms env t) receipt_id input_generation))"

definition own_write_for :: "hub \<Rightarrow> nat option \<Rightarrow> (nat \<times> PairImage) option" where
  "own_write_for w receipt =
     (case receipt of
        None \<Rightarrow> None
      | Some r \<Rightarrow> (case hb_own_write w of
                     None \<Rightarrow> None
                   | Some (kept, im) \<Rightarrow> (if kept = r then Some (kept, im) else None)))"

definition encrypted_row ::
  "cipher \<Rightarrow> string \<Rightarrow> string option \<times> string option \<Rightarrow> OwnerTokens \<Rightarrow> int \<Rightarrow> int \<Rightarrow> uuid \<Rightarrow> PersistError + TokenRow" where
  "encrypted_row cf key nonces tokens expires_at next_refresh_at output_generation =
     (case encrypt_legacy_owner_tokens cf key (fst nonces) (snd nonces) tokens of
        Inl e \<Rightarrow> Inl (PE_Cipher e)
      | Inr (access, refresh) \<Rightarrow>
         (case token_row_refreshed access refresh expires_at next_refresh_at of
            Inl e \<Rightarrow> Inl (PE_Store e)
          | Inr row \<Rightarrow> (case with_credential_generation row output_generation of
                          Inl e \<Rightarrow> Inl (PE_Store e) | Inr row' \<Rightarrow> Inr row')))"

definition set_generation :: "uuid \<Rightarrow> (hub, unit) state" where
  "set_generation g = State_Monad.update (\<lambda>w. w\<lparr>hb_generation := g\<rparr>)"

definition persist_stored ::
  "environment \<Rightarrow> nat \<Rightarrow> uuid \<Rightarrow> uuid \<Rightarrow> bool \<Rightarrow> TokenRow \<Rightarrow> (hub, PersistError + unit) state" where
  "persist_stored env receipt_id input_generation output_generation reused stored = do {
     written \<leftarrow>
       (if output_generation = input_generation
        then do {
          (if reused then State_Monad.return ()
           else State_Monad.update (\<lambda>w. w\<lparr>hb_own_write := Some (receipt_id, image_of stored output_generation)\<rparr>));
          transact env (commits (\<lambda>t. complete_unrotated_legacy_refresh (oc_now_ms env t) receipt_id input_generation stored))
        }
        else transact env (commits (\<lambda>t. complete_legacy_refresh (oc_now_ms env t) receipt_id input_generation
               output_generation stored)));
     case written of
       Inl e \<Rightarrow> State_Monad.return (Inl (PE_Store e))
     | Inr _ \<Rightarrow> do { set_generation output_generation; State_Monad.return (Inr ()) }
   }"

definition persist_refreshed ::
  "environment \<Rightarrow> cipher \<Rightarrow> string \<Rightarrow> nat \<Rightarrow> uuid \<Rightarrow> string \<Rightarrow> string \<Rightarrow> int \<Rightarrow> int \<Rightarrow> (hub, PersistError + unit) state" where
  "persist_refreshed env cf key receipt_id input_generation access refresh expires_at next_refresh_at =
     (case from_secret_parts access refresh of
        Inl e \<Rightarrow> State_Monad.return (Inl (PE_Credential e))
      | Inr tokens \<Rightarrow> do {
          let output_generation = legacy_refresh_credential_generation cf tokens;
          w \<leftarrow> State_Monad.get;
          let kept = (if output_generation = input_generation
                      then (case own_write_for w (Some receipt_id) of
                              None \<Rightarrow> None
                            | Some (_, im) \<Rightarrow> row_for_a_retry im output_generation expires_at next_refresh_at)
                      else None);
          case (case kept of
                  Some row \<Rightarrow> Inr row
                | None \<Rightarrow> encrypted_row cf key (oc_nonces env (hb_tick w)) tokens expires_at next_refresh_at
                           output_generation) of
            Inl e \<Rightarrow> State_Monad.return (Inl e)
          | Inr stored \<Rightarrow> persist_stored env receipt_id input_generation output_generation (kept \<noteq> None) stored
        })"

section \<open>The ports\<close>

definition mp_sensitive_access :: "environment \<Rightarrow> (hub, bool) state" where
  "mp_sensitive_access env = ask env (\<lambda>t. \<not> oc_lost env t \<and> oc_guard env t)"

definition mp_begin :: "environment \<Rightarrow> (hub, BeginFailure + Attempt) state" where
  "mp_begin env = do {
     lost \<leftarrow> ask env (oc_lost env);
     if lost then State_Monad.return (Inl BF_Store)
     else do {
       begun \<leftarrow> begin_refresh env;
       case begun of
         Inr (receipt, input) \<Rightarrow> State_Monad.return (Inr \<lparr>am_receipt = Some receipt, am_input = input\<rparr>)
       | Inl e \<Rightarrow>
           (if e = SE_LegacyRefreshOutcomeUnknown
            then do {
              w \<leftarrow> State_Monad.get;
              related \<leftarrow> read_store env (\<lambda>s. Inr (stored_pair_relation s (hb_generation w)));
              State_Monad.return (Inl
                (case related of
                   Inr PR_External \<Rightarrow> BF_ExternalWrite
                 | Inr (PR_OwnOutput _) \<Rightarrow> BF_OwnOutput
                 | Inr PR_Current \<Rightarrow> BF_Unresolved
                 | Inr PR_Missing \<Rightarrow> BF_Unresolved
                 | Inl _ \<Rightarrow> BF_Store))
            }
            else State_Monad.return (Inl BF_Store))
     }
   }"

definition mp_cancel_unsent :: "environment \<Rightarrow> Attempt \<Rightarrow> (hub, bool) state" where
  "mp_cancel_unsent env attempt = do {
     lost \<leftarrow> ask env (oc_lost env);
     if lost then State_Monad.return False
     else (case am_receipt attempt of
             None \<Rightarrow> State_Monad.return True
           | Some receipt \<Rightarrow> do {
               cancelled \<leftarrow> cancel_refresh env receipt (am_input attempt);
               State_Monad.return (\<not> isl cancelled)
             })
   }"

definition mp_close :: "environment \<Rightarrow> Attempt \<Rightarrow> Closing \<Rightarrow> (hub, bool) state" where
  "mp_close env attempt closing = do {
     lost \<leftarrow> ask env (oc_lost env);
     if lost then State_Monad.return False
     else (case am_receipt attempt of
             None \<Rightarrow> State_Monad.return True
           | Some receipt \<Rightarrow> do {
               closed \<leftarrow> transact env (commits (\<lambda>t. close_legacy_refresh_attempt (oc_now_ms env t) receipt (am_input attempt)
                 (cl_outcome closing) (cl_http_status closing) (cl_retry_after_seconds closing) (cl_release_input closing)));
               State_Monad.return (\<not> isl closed)
             })
   }"

definition mp_finish :: "environment \<Rightarrow> PendingClose \<Rightarrow> (hub, bool) state" where
  "mp_finish env pending = do {
     done \<leftarrow> (case pending of PN_Cancel attempt \<Rightarrow> mp_cancel_unsent env attempt
               | PN_Close attempt closing \<Rightarrow> mp_close env attempt closing);
     if done then State_Monad.return True
     else do {
       unresolved \<leftarrow> read_store env (\<lambda>s. Inr (has_unresolved_legacy_refresh s));
       State_Monad.return (unresolved = Inr False)
     }
   }"

definition mp_persist :: "environment \<Rightarrow> cipher \<Rightarrow> string \<Rightarrow> Attempt \<Rightarrow> SuccessorPair \<Rightarrow> (hub, bool) state" where
  "mp_persist env cf key attempt successor =
     (case am_receipt attempt of
        None \<Rightarrow> State_Monad.return False
      | Some receipt \<Rightarrow> do {
          persisted \<leftarrow> persist_refreshed env cf key receipt (am_input attempt) (sp_access_token successor)
            (sp_refresh_token successor) (sc_expires_at (sp_schedule successor)) (sc_next_refresh_at (sp_schedule successor));
          State_Monad.return (\<not> isl persisted)
        })"

definition mp_reread :: "environment \<Rightarrow> Attempt \<Rightarrow> uuid \<Rightarrow> (hub, PersistReread) state" where
  "mp_reread env attempt successor = do {
     w \<leftarrow> State_Monad.get;
     let own = map_option (\<lambda>(receipt, im). \<lparr>ow_receipt = receipt, ow_image = im\<rparr>) (own_write_for w (am_receipt attempt));
     found \<leftarrow> read_store env (\<lambda>s. persist_reread s (am_input attempt) successor own);
     State_Monad.return (case found of Inl _ \<Rightarrow> RR_StillInput | Inr r \<Rightarrow> r)
   }"

definition manager_ports :: "environment \<Rightarrow> cipher \<Rightarrow> string \<Rightarrow> hub AttemptPorts" where
  "manager_ports env cf key =
     \<lparr>ap_sensitive_access = mp_sensitive_access env, ap_begin = mp_begin env, ap_cancel_unsent = mp_cancel_unsent env,
      ap_close = mp_close env, ap_finish = mp_finish env, ap_persist = mp_persist env cf key, ap_reread = mp_reread env\<rparr>"

section \<open>The exchange of the manager\<close>

text \<open>What is fixed for the unit, and the pair the manager holds when it starts the exchange.\<close>

record unit_setup =
  us_codec :: codec
  us_cipher :: cipher
  us_key :: string
  us_body :: "string \<Rightarrow> string option"

record held_pair =
  hp_access_token :: string
  hp_refresh_token :: string
  hp_pinned_issuer :: "string option"
  hp_generation :: uuid

definition post_to_service :: "environment \<Rightarrow> held_pair \<Rightarrow> Attempt \<Rightarrow> (hub, send_error + response) state" where
  "post_to_service env hp attempt = do {
     t \<leftarrow> next_tick env;
     let reply = oc_reply env t;
     State_Monad.update (\<lambda>w. case am_receipt attempt of
         None \<Rightarrow> w
       | Some receipt \<Rightarrow> w\<lparr>hb_sent := \<lparr>pn_receipt = receipt, pn_generation = am_input attempt,
            pn_access_token = hp_access_token hp, pn_refresh_token = hp_refresh_token hp,
            pn_pinned_issuer = hp_pinned_issuer hp, pn_reply = reply\<rparr> # hb_sent w\<rparr>);
     State_Monad.return reply
   }"

definition exchange_input :: "unit_setup \<Rightarrow> environment \<Rightarrow> held_pair \<Rightarrow> hub ExchangeInput" where
  "exchange_input us env hp =
     \<lparr>ei_codec = us_codec us, ei_cipher = us_cipher us,
      ei_access_token = hp_access_token hp, ei_refresh_token = hp_refresh_token hp,
      ei_pinned_issuer = hp_pinned_issuer hp, ei_generation = hp_generation hp,
      ei_ports = manager_ports env (us_cipher us) (us_key us), ei_now = ask env (oc_now env),
      ei_shutdown = ask env (oc_shutdown env), ei_body = us_body us, ei_post = post_to_service env hp\<rparr>"

end
