(* ===== verification/Unit_Safety.thy ===== *)
theory Unit_Safety
  imports Manager_Ports
begin

text \<open>
  The exchange over the store keeps the contract of its ports, whatever the environment does.
  The single-use guarantee of the fence therefore holds for the program: of two requests that
  present the same refresh generation, the earlier one was answered by a release.
\<close>

section \<open>The world and the step system\<close>

definition presentation_releases :: "codec \<Rightarrow> Presentation \<Rightarrow> bool" where
  "presentation_releases cd p =
     answer_releases cd (pn_access_token p) (pn_refresh_token p) (pn_pinned_issuer p) (pn_reply p)"

definition events_of :: "codec \<Rightarrow> Presentation \<Rightarrow> event list" where
  "events_of cd p =
     (if presentation_releases cd p then [Released (pn_receipt p) (pn_generation p)] else [])
     @ [Presented (pn_receipt p) (pn_generation p)]"

definition hub_sim :: "codec \<Rightarrow> hub \<Rightarrow> system \<Rightarrow> bool" where
  "hub_sim cd w y \<longleftrightarrow> sy_store y = hb_store w \<and> sy_log y = concat (map (events_of cd) (hb_sent w))"

lemma run_state_simps [simp]:
  "run_state (State_Monad.bind m f) w = (case run_state m w of (a, w') \<Rightarrow> run_state (f a) w')"
  "run_state (State_Monad.return a) w = (a, w)" "run_state State_Monad.get w = (w, w)"
  "run_state (State_Monad.set v) w = ((), v)" "run_state (State_Monad.update g) w = ((), g w)"
  by (simp_all add: State_Monad.bind_def State_Monad.return_def State_Monad.get_def State_Monad.set_def
      State_Monad.update_def)

lemma apply_move_cases:
  "apply_move mv s = s \<or> keeps s (apply_move mv s) \<or> (\<exists>i g. reserves i g s (apply_move mv s))"
proof (cases mv)
  case (MV_LiftRefusal now)
  then show ?thesis
    using keeps_lift [of now s "fst (lift_collector_auth_refusal_in_transaction now s)"] by simp
qed (auto simp: or_same_def or_same_snd_def split: sum.splits intro: keeps.intros reserves.intros)

lemma moves_steps: "system_step\<^sup>*\<^sup>* y (y\<lparr>sy_store := fold apply_move ms (sy_store y)\<rparr>)"
proof (induction ms arbitrary: y)
  case (Cons mv ms)
  let ?s = "apply_move mv (sy_store y)"
  have "system_step\<^sup>*\<^sup>* y (y\<lparr>sy_store := ?s\<rparr>)"
    using apply_move_cases [of mv "sy_store y"] step_keep [of y ?s] step_reserve_lost [of _ _ y ?s] by auto
  with Cons.IH [of "y\<lparr>sy_store := ?s\<rparr>"] show ?case by simp
qed simp

lemma next_tick_refines:
  assumes "\<And>y y'. sy_attempts y = sy_attempts y' \<Longrightarrow> P y \<Longrightarrow> Q y'"
  shows "refines (hub_sim cd) P (next_tick env) (\<lambda>_. Q)"
proof (rule refinesI)
  fix w y a w' assume s: "hub_sim cd w y" "P y" "run_state (next_tick env) w = (a, w')"
  let ?y = "y\<lparr>sy_store := fold apply_move (oc_moves env (hb_tick w)) (sy_store y)\<rparr>"
  have "hub_sim cd w' ?y" using s(1,3) by (auto simp: hub_sim_def next_tick_def)
  moreover have "Q ?y" by (rule assms [OF _ s(2)]) simp
  ultimately show "\<exists>y'. system_step\<^sup>*\<^sup>* y y' \<and> hub_sim cd w' y' \<and> Q y'" using moves_steps by blast
qed

lemma refines_get: "refines sim P State_Monad.get (\<lambda>_. P)"
  by (rule refinesI) auto

lemma refines_update:
  "(\<And>w. hb_store (g w) = hb_store w \<and> hb_sent (g w) = hb_sent w) \<Longrightarrow>
   refines (hub_sim cd) P (State_Monad.update g) (\<lambda>_. P)"
  by (rule refinesI) (auto simp: hub_sim_def)

lemma quietI: "(\<And>A. refines sim (\<lambda>y. sy_attempts y = A) m (\<lambda>_ y. sy_attempts y = A)) \<Longrightarrow> quiet sim m"
  by (simp add: quiet_def)

lemma quiet_bind: "quiet sim m \<Longrightarrow> (\<And>a. quiet sim (f a)) \<Longrightarrow> quiet sim (State_Monad.bind m f)"
  unfolding quiet_def by (blast intro: refines_bind)

lemma quiet_return: "quiet sim (State_Monad.return a)"
  unfolding quiet_def by blast

lemma quiet_next_tick: "quiet (hub_sim cd) (next_tick env)"
  by (rule quietI) (rule next_tick_refines, simp)

lemma quiet_get: "quiet sim State_Monad.get"
  by (rule quietI) (rule refines_get)

lemma quiet_ask: "quiet (hub_sim cd) (ask env f)"
  unfolding ask_def by (intro quiet_bind quiet_return quiet_next_tick)

lemma quiet_read: "quiet (hub_sim cd) (read_store env f)"
  unfolding read_store_def by (intro quiet_bind quiet_return quiet_next_tick quiet_get)

lemmas quiet_intros = quiet_bind quiet_return quiet_next_tick quiet_get quiet_ask quiet_read

section \<open>Transactions\<close>

text \<open>
  A transaction that, where it commits, is a sequence of steps: afterwards the caller knows
  \<open>Q\<close> whatever was reported, and \<open>R\<close> where the commit was acknowledged.
\<close>

lemma transact_refines:
  assumes stable: "\<And>y y'. sy_attempts y = sy_attempts y' \<Longrightarrow> P y \<Longrightarrow> P y'"
    and refused: "\<And>y e. P y \<Longrightarrow> Q (Inl e) y"
    and commit: "\<And>y t a s'. P y \<Longrightarrow> f t (sy_store y) = Inr (a, s') \<Longrightarrow>
      \<exists>y'. system_step\<^sup>*\<^sup>* y y' \<and> sy_store y' = s' \<and> sy_log y' = sy_log y \<and> Q (Inr a) y'"
    and lost: "\<And>y t a s'. P y \<Longrightarrow> f t (sy_store y) = Inr (a, s') \<Longrightarrow>
      \<exists>y'. system_step\<^sup>*\<^sup>* y y' \<and> sy_store y' = s' \<and> sy_log y' = sy_log y \<and> Q (Inl SE_Fault) y'"
  shows "refines (hub_sim cd) P (transact env f) Q"
  unfolding transact_def
proof (rule refines_bind [OF next_tick_refines [of P P]])
  fix t
  show "refines (hub_sim cd) P (do {
     w \<leftarrow> State_Monad.get;
     if oc_fault env t then State_Monad.return (Inl SE_Fault)
     else (case f t (hb_store w) of
             Inl e \<Rightarrow> State_Monad.return (Inl e)
           | Inr (a, s') \<Rightarrow> do {
               State_Monad.set (w\<lparr>hb_store := s'\<rparr>);
               State_Monad.return (if oc_ack_lost env t then Inl SE_Fault else Inr a)
             }) }) Q" (is "refines _ P ?m Q")
  proof (rule refinesI)
    fix w y r w' assume s: "hub_sim cd w y" "P y" "run_state ?m w = (r, w')"
    then have st: "sy_store y = hb_store w" by (simp add: hub_sim_def)
    show "\<exists>y'. system_step\<^sup>*\<^sup>* y y' \<and> hub_sim cd w' y' \<and> Q r y'"
    proof (cases "oc_fault env t \<or> isl (f t (hb_store w))")
      case True
      then have "w' = w" "isl r" using s(3) by (auto split: sum.splits if_splits)
      then show ?thesis using s(1) refused [OF s(2)] by (cases r) auto
    next
      case False
      then obtain a s' where f: "f t (hb_store w) = Inr (a, s')" by (cases "f t (hb_store w)") auto
      then have w': "w' = w\<lparr>hb_store := s'\<rparr>" and r: "r = (if oc_ack_lost env t then Inl SE_Fault else Inr a)"
        using False s(3) by auto
      obtain y' where "system_step\<^sup>*\<^sup>* y y'" "sy_store y' = s'" "sy_log y' = sy_log y" "Q r y'"
        using commit [OF s(2), of t a s'] lost [OF s(2), of t a s'] f st unfolding r by (cases "oc_ack_lost env t") auto
      then show ?thesis using s(1) w' by (auto simp: hub_sim_def)
    qed
  qed
qed (rule stable)

lemma commits_Inr: "commits f t s = Inr (u, s') \<longleftrightarrow> f t s = Inr s'"
  by (simp add: commits_def split: sum.splits)

lemma releasing_refines:
  assumes "\<And>t s s'. f t s = Inr s' \<Longrightarrow> releases i (am_input a) s s'" "am_receipt a = Some i"
    "ph \<in> {Unsent, Releasable}"
  shows "refines (hub_sim cd) (in_phase a ph) (transact env (commits f)) (\<lambda>_. in_phase a ph)"
proof (rule transact_refines)
  fix y t u s' assume p: "in_phase a ph y" "commits f t (sy_store y) = Inr (u, s')"
  then have "system_step y (y\<lparr>sy_store := s'\<rparr>)"
    using assms step_release [of y i "am_input a" ph s'] by (auto simp: commits_Inr in_phase_def)
  then have "system_step\<^sup>*\<^sup>* y (y\<lparr>sy_store := s'\<rparr>)" by (rule r_into_rtranclp)
  moreover have "in_phase a ph (y\<lparr>sy_store := s'\<rparr>)" using p(1) by (simp add: in_phase_def)
  ultimately show "\<exists>y'. system_step\<^sup>*\<^sup>* y y' \<and> sy_store y' = s' \<and> sy_log y' = sy_log y \<and> in_phase a ph y'"
    "\<exists>y'. system_step\<^sup>*\<^sup>* y y' \<and> sy_store y' = s' \<and> sy_log y' = sy_log y \<and> in_phase a ph y'"
    by (auto intro!: exI [of _ "y\<lparr>sy_store := s'\<rparr>"])
qed (auto elim: in_phase_attempts)

lemma keeping_quiet:
  assumes "\<And>t s s'. f t s = Inr s' \<Longrightarrow> keeps s s'"
  shows "quiet (hub_sim cd) (transact env (commits f))"
proof (rule quietI, rule transact_refines)
  fix A and y :: system and t u s' assume p: "sy_attempts y = A" "commits f t (sy_store y) = Inr (u, s')"
  then have "system_step\<^sup>*\<^sup>* y (y\<lparr>sy_store := s'\<rparr>)" using assms step_keep [of y s'] by (auto simp: commits_Inr)
  with p(1) show "\<exists>y'. system_step\<^sup>*\<^sup>* y y' \<and> sy_store y' = s' \<and> sy_log y' = sy_log y \<and> sy_attempts y' = A"
    "\<exists>y'. system_step\<^sup>*\<^sup>* y y' \<and> sy_store y' = s' \<and> sy_log y' = sy_log y \<and> sy_attempts y' = A"
    by (auto intro!: exI [of _ "y\<lparr>sy_store := s'\<rparr>"])
qed auto

section \<open>The ports keep the contract\<close>

lemma begin_refresh_refines:
  "refines (hub_sim cd) (\<lambda>_. True) (begin_refresh env)
     (\<lambda>r y. \<forall>i g. r = Inr (i, g) \<longrightarrow> in_phase \<lparr>am_receipt = Some i, am_input = g\<rparr> Reserved y)"
proof -
  have begun: "refines (hub_sim cd) (\<lambda>_. True) (transact env (\<lambda>t. begin_legacy_refresh (now t) (c t) (b t) g))
      (\<lambda>r y. \<forall>i. r = Inr i \<longrightarrow> in_phase \<lparr>am_receipt = Some i, am_input = g\<rparr> Reserved y)" for now c b g
  proof (rule transact_refines)
    fix y :: system and t i s' assume f: "begin_legacy_refresh (now t) (c t) (b t) g (sy_store y) = Inr (i, s')"
    show "\<exists>y'. system_step\<^sup>*\<^sup>* y y' \<and> sy_store y' = s' \<and> sy_log y' = sy_log y
        \<and> (\<forall>j. Inr i = Inr j \<longrightarrow> in_phase \<lparr>am_receipt = Some j, am_input = g\<rparr> Reserved y')"
      using step_reserve [OF reserves_begin [OF f]]
      by (intro exI [of _ "y\<lparr>sy_store := s', sy_attempts := (sy_attempts y)(i \<mapsto> (g, Reserved))\<rparr>"])
         (auto simp: in_phase_def)
    show "\<exists>y'. system_step\<^sup>*\<^sup>* y y' \<and> sy_store y' = s' \<and> sy_log y' = sy_log y
        \<and> (\<forall>j. Inl SE_Fault = Inr j \<longrightarrow> in_phase \<lparr>am_receipt = Some j, am_input = g\<rparr> Reserved y')"
      using step_reserve_lost [OF reserves_begin [OF f]] by (intro exI [of _ "y\<lparr>sy_store := s'\<rparr>"]) auto
  qed auto
  show ?thesis unfolding begin_refresh_def Let_def
    by (rule refines_bind [OF refines_get], rule refines_bind [OF begun]) (auto intro!: refines_return split: sum.splits)
qed

lemma mp_begin_refines:
  "refines (hub_sim cd) (\<lambda>_. True) (mp_begin env) (\<lambda>r y. \<forall>a. r = Inr a \<longrightarrow> in_phase a Reserved y)"
proof -
  have refused: "refines (hub_sim cd) P (do {
       w \<leftarrow> State_Monad.get;
       related \<leftarrow> read_store env (f w);
       State_Monad.return (Inl (k related)) }) (\<lambda>r y. \<forall>a. r = Inr a \<longrightarrow> in_phase a Reserved y)"
    for P f and k :: "_ \<Rightarrow> BeginFailure"
    by (rule refines_bind [OF refines_get],
        rule refines_bind [OF quiet_refines [OF quiet_read, of _ "\<lambda>_. True"]]) auto
  show ?thesis unfolding mp_begin_def
    by (rule refines_bind [OF quiet_refines [OF quiet_ask, of _ "\<lambda>_. True"]])
       (auto intro!: refines_return refines_bind [OF begin_refresh_refines] refused split: sum.splits)
qed

text \<open>An attempt that was reserved and not sent counts as unsent from then on.\<close>

lemma mark_unsent:
  assumes "refines (hub_sim cd) (in_phase a Unsent) m Q"
  shows "refines (hub_sim cd) (in_phase a Reserved) m Q"
proof (rule refinesI)
  fix w y r w' assume s: "hub_sim cd w y" "in_phase a Reserved y" "run_state m w = (r, w')"
  then obtain i where i: "am_receipt a = Some i" "sy_attempts y i = Some (am_input a, Reserved)"
    by (auto simp: in_phase_def)
  let ?y = "y\<lparr>sy_attempts := (sy_attempts y)(i \<mapsto> (am_input a, Unsent))\<rparr>"
  have "hub_sim cd w ?y" "in_phase a Unsent ?y" using s(1) i by (auto simp: hub_sim_def in_phase_def)
  then obtain y' where "system_step\<^sup>*\<^sup>* ?y y'" "hub_sim cd w' y'" "Q r y'" by (rule refinesD [OF assms _ _ s(3)])
  then show "\<exists>y'. system_step\<^sup>*\<^sup>* y y' \<and> hub_sim cd w' y' \<and> Q r y'"
    using converse_rtranclp_into_rtranclp [of system_step, OF step_unsent [OF i(2)]] by blast
qed

lemma mp_cancel_refines:
  "refines (hub_sim cd) (in_phase a Unsent) (mp_cancel_unsent env a) (\<lambda>_. in_phase a Unsent)"
proof (cases "am_receipt a")
  case (Some i)
  have "refines (hub_sim cd) (in_phase a Unsent) (cancel_refresh env i (am_input a)) (\<lambda>_. in_phase a Unsent)"
    unfolding cancel_refresh_def by (rule releasing_refines) (auto intro: releases_cancel Some)
  then show ?thesis unfolding mp_cancel_unsent_def
    by (intro refines_bind [OF quiet_in_phase [OF quiet_ask]])
       (auto simp: Some intro!: refines_return refines_bind)
qed (auto simp: mp_cancel_unsent_def intro!: quiet_in_phase quiet_intros)

lemma mp_close_refines:
  assumes "cl_release_input c \<Longrightarrow> ph = Releasable"
  shows "refines (hub_sim cd) (in_phase a ph) (mp_close env a c) (\<lambda>_. in_phase a ph)"
proof (cases "am_receipt a")
  case (Some i)
  let ?f = "\<lambda>t. close_legacy_refresh_attempt (oc_now_ms env t) i (am_input a) (cl_outcome c) (cl_http_status c)
    (cl_retry_after_seconds c) (cl_release_input c)"
  have "refines (hub_sim cd) (in_phase a ph) (transact env (commits ?f)) (\<lambda>_. in_phase a ph)"
  proof (cases "cl_release_input c")
    case True
    then show ?thesis using assms by (intro releasing_refines) (auto intro: releases_close Some)
  next
    case False
    then show ?thesis by (intro quiet_in_phase keeping_quiet) (auto intro: keeps_close)
  qed
  then show ?thesis unfolding mp_close_def
    by (intro refines_bind [OF quiet_in_phase [OF quiet_ask]])
       (auto simp: Some intro!: refines_return refines_bind)
qed (auto simp: mp_close_def intro!: quiet_in_phase quiet_intros)

lemma mp_close_quiet:
  assumes "\<not> cl_release_input c"
  shows "quiet (hub_sim cd) (mp_close env a c)"
  unfolding mp_close_def using assms
  by (cases "am_receipt a") (auto intro!: quiet_intros keeping_quiet intro: keeps_close)

lemma quiet_pending: "quiet sim m \<Longrightarrow> refines sim (pending_ok p) m (\<lambda>_. pending_ok p)"
  by (rule quiet_refines) (auto elim: pending_ok_attempts)

lemma mp_finish_refines: "refines (hub_sim cd) (pending_ok p) (mp_finish env p) (\<lambda>_. pending_ok p)"
proof -
  have "refines (hub_sim cd) (pending_ok p)
      (case p of PN_Cancel a \<Rightarrow> mp_cancel_unsent env a | PN_Close a c \<Rightarrow> mp_close env a c) (\<lambda>_. pending_ok p)"
  proof (cases p)
    case (PN_Cancel a)
    have "pending_ok p = in_phase a Unsent" by (rule ext) (simp add: PN_Cancel)
    then show ?thesis by (simp add: PN_Cancel mp_cancel_refines)
  next
    case (PN_Close a c)
    show ?thesis
    proof (cases "cl_release_input c")
      case True
      have "pending_ok p = in_phase a Releasable" by (rule ext) (simp add: PN_Close True)
      then show ?thesis by (simp add: PN_Close mp_close_refines)
    next
      case False
      then show ?thesis by (simp add: PN_Close quiet_pending mp_close_quiet)
    qed
  qed
  then show ?thesis unfolding mp_finish_def
    by (rule refines_bind)
       (auto intro!: refines_return refines_bind [OF quiet_pending [OF quiet_read]])
qed

lemma persist_stored_refines:
  assumes "h = g \<Longrightarrow> P = in_phase \<lparr>am_receipt = Some i, am_input = g\<rparr> Releasable"
    and "\<And>y y'. sy_attempts y = sy_attempts y' \<Longrightarrow> P y \<Longrightarrow> P y'"
  shows "refines (hub_sim cd) P (persist_stored env i g h b row) (\<lambda>_. P)"
proof -
  have "refines (hub_sim cd) P
       (if h = g then do {
          (if b then State_Monad.return () else State_Monad.update (\<lambda>w. w\<lparr>hb_own_write := Some (i, image_of row h)\<rparr>));
          transact env (commits (\<lambda>t. complete_unrotated_legacy_refresh (oc_now_ms env t) i g row)) }
        else transact env (commits (\<lambda>t. complete_legacy_refresh (oc_now_ms env t) i g h row))) (\<lambda>_. P)"
  proof (cases "h = g")
    case True
    have "refines (hub_sim cd) (in_phase \<lparr>am_receipt = Some i, am_input = g\<rparr> Releasable)
        (transact env (commits (\<lambda>t. complete_unrotated_legacy_refresh (oc_now_ms env t) i g row)))
        (\<lambda>_. in_phase \<lparr>am_receipt = Some i, am_input = g\<rparr> Releasable)"
      by (rule releasing_refines) (auto intro: releases_unrotated)
    then have "refines (hub_sim cd) P
        (transact env (commits (\<lambda>t. complete_unrotated_legacy_refresh (oc_now_ms env t) i g row))) (\<lambda>_. P)"
      using assms(1) [OF True] by simp
    then show ?thesis by (auto simp: True intro!: refines_bind [of _ P _ "\<lambda>_. P"] refines_return refines_update)
  next
    case False
    have "quiet (hub_sim cd) (transact env (commits (\<lambda>t. complete_legacy_refresh (oc_now_ms env t) i g h row)))"
      by (rule keeping_quiet) (rule keeps_complete)
    then show ?thesis using False by (auto intro!: quiet_refines elim: assms(2))
  qed
  then show ?thesis unfolding persist_stored_def set_generation_def
    by (rule refines_bind)
       (auto intro!: refines_return refines_bind [OF refines_update] split: sum.splits)
qed

lemma mp_persist_refines:
  assumes "successor_wf cf sp"
  shows "refines (hub_sim cd) (successor_ok sp) (mp_persist env cf key (sp_attempt sp) sp) (\<lambda>_. successor_ok sp)"
proof (cases "am_receipt (sp_attempt sp)")
  case (Some i)
  from assms obtain tokens where t: "from_secret_parts (sp_access_token sp) (sp_refresh_token sp) = Inr tokens"
    "sp_output sp = legacy_refresh_credential_generation cf tokens" "sp_input sp = am_input (sp_attempt sp)"
    by (auto simp: successor_wf_def)
  have a: "\<lparr>am_receipt = Some i, am_input = sp_input sp\<rparr> = sp_attempt sp" using Some t(3) by simp
  have "refines (hub_sim cd) (successor_ok sp) (persist_stored env i (sp_input sp) (sp_output sp) b row) (\<lambda>_. successor_ok sp)"
    for b row
  proof (rule persist_stored_refines)
    show "successor_ok sp = in_phase \<lparr>am_receipt = Some i, am_input = sp_input sp\<rparr> Releasable"
      if "sp_output sp = sp_input sp" by (rule ext) (simp add: successor_ok_def a that)
  qed (rule successor_ok_attempts)
  then show ?thesis unfolding mp_persist_def persist_refreshed_def Some option.case t(1) sum.case Let_def t(2,3) [symmetric]
    by (auto intro!: refines_return refines_bind [of _ _ _ "\<lambda>_. successor_ok sp"] refines_get split: sum.split)
qed (auto simp: mp_persist_def)

lemma post_refines:
  "refines (hub_sim cd) (in_phase a Reserved) (post_to_service env hp a)
     (\<lambda>reply. in_phase a (if answer_releases cd (hp_access_token hp) (hp_refresh_token hp) (hp_pinned_issuer hp) reply
        then Releasable else Spent))"
  unfolding post_to_service_def Let_def
proof (rule refines_bind [OF quiet_in_phase [OF quiet_next_tick]], rule refinesI)
  fix t w y r w'
  assume s: "hub_sim cd w y" "in_phase a Reserved y" and run: "run_state (do {
     State_Monad.update (\<lambda>w. case am_receipt a of
         None \<Rightarrow> w
       | Some receipt \<Rightarrow> w\<lparr>hb_sent := \<lparr>pn_receipt = receipt, pn_generation = am_input a,
            pn_access_token = hp_access_token hp, pn_refresh_token = hp_refresh_token hp,
            pn_pinned_issuer = hp_pinned_issuer hp, pn_reply = oc_reply env t\<rparr> # hb_sent w\<rparr>);
     State_Monad.return (oc_reply env t) }) w = (r, w')"
  let ?r = "answer_releases cd (hp_access_token hp) (hp_refresh_token hp) (hp_pinned_issuer hp)"
  let ?g = "am_input a"
  obtain i where i: "am_receipt a = Some i" "sy_attempts y i = Some (?g, Reserved)" using s(2) by (auto simp: in_phase_def)
  let ?y1 = "y\<lparr>sy_attempts := (sy_attempts y)(i \<mapsto> (?g, Sent)), sy_log := Presented i ?g # sy_log y\<rparr>"
  let ?y2 = "y\<lparr>sy_attempts := (sy_attempts y)(i \<mapsto> (?g, Releasable)), sy_log := Released i ?g # Presented i ?g # sy_log y\<rparr>"
  let ?y3 = "y\<lparr>sy_log := Presented i ?g # sy_log y, sy_attempts := (sy_attempts y)(i \<mapsto> (?g, Spent))\<rparr>"
  have p: "system_step y ?y1" using step_present [OF i(2)] .
  have q: "system_step ?y1 ?y2" "system_step ?y1 ?y3"
    using step_answer_releases [of ?y1 i ?g] step_answer_spends [of ?y1 i ?g] by simp_all
  have steps: "system_step\<^sup>*\<^sup>* y ?y2" "system_step\<^sup>*\<^sup>* y ?y3"
    using p q by (meson converse_rtranclp_into_rtranclp r_into_rtranclp)+
  have r: "r = oc_reply env t" using run by simp
  show "\<exists>y'. system_step\<^sup>*\<^sup>* y y' \<and> hub_sim cd w' y' \<and> in_phase a (if ?r r then Releasable else Spent) y'"
  proof (cases "?r r")
    case True
    have "hub_sim cd w' ?y2" using run s(1) i True r by (auto simp: hub_sim_def events_of_def presentation_releases_def)
    with steps(1) True i show ?thesis by (intro exI [of _ ?y2]) (auto simp: in_phase_def)
  next
    case False
    have "hub_sim cd w' ?y3" using run s(1) i False r by (auto simp: hub_sim_def events_of_def presentation_releases_def)
    with steps(2) False i show ?thesis by (intro exI [of _ ?y3]) (auto simp: in_phase_def)
  qed
qed

interpretation mp: attempt_contract "exchange_input us env hp" "hub_sim (us_codec us)" for us env hp
proof (unfold_locales, goal_cases)
  case (4 a g)
  show ?case by (simp add: exchange_input_def manager_ports_def mp_reread_def Let_def quiet_intros)
next
  case (6 a)
  show ?case by (simp add: exchange_input_def manager_ports_def mark_unsent mp_cancel_refines)
next
  case (7 a)
  show ?case using post_refines [of "us_codec us" a env hp] by (simp add: exchange_input_def answered_phase_def)
qed (simp_all add: exchange_input_def manager_ports_def mp_sensitive_access_def quiet_ask mp_begin_refines
       mp_close_refines mp_finish_refines mp_persist_refines)

section \<open>Runs of the unit\<close>

text \<open>
  The memory of the unit between exchanges: a closing that is owed and a successor whose write
  is pending. A step is a whole exchange, a retry of a closing, a retry of a write, a commit of
  another connection, the adoption of another generation or a restart, each in an arbitrary
  environment. A crash inside an exchange is the exchange in an environment in which every
  later call fails, followed by a restart.
\<close>

record unit_state =
  ut_hub :: hub
  ut_pending_close :: "PendingClose option"
  ut_successor :: "SuccessorPair option"

definition unit_start :: "uuid \<Rightarrow> unit_state" where
  "unit_start g = \<lparr>ut_hub = \<lparr>hb_store = empty_store, hb_generation = g, hb_own_write = None, hb_tick = 0, hb_sent = []\<rparr>,
     ut_pending_close = None, ut_successor = None\<rparr>"

definition kept_successor :: "ExchangeKind \<Rightarrow> SuccessorPair option" where
  "kept_successor k = (case k of EK_Pending sp _ \<Rightarrow> Some sp | _ \<Rightarrow> None)"

inductive unit_step :: "unit_setup \<Rightarrow> unit_state \<Rightarrow> unit_state \<Rightarrow> bool" for us where
  unit_exchange: "run_state (run_exchange (exchange_input us env hp)) (ut_hub u) = (r, w) \<Longrightarrow>
     unit_step us u \<lparr>ut_hub = w, ut_pending_close = er_pending_close r, ut_successor = kept_successor (er_kind r)\<rparr>"
| unit_finish: "ut_pending_close u = Some p \<Longrightarrow> run_state (mp_finish env p) (ut_hub u) = (done, w) \<Longrightarrow>
     unit_step us u (u\<lparr>ut_hub := w, ut_pending_close := (if done then None else Some p)\<rparr>)"
| unit_write: "ut_successor u = Some sp \<Longrightarrow>
     run_state (persist_step (manager_ports env (us_cipher us) (us_key us)) sp True) (ut_hub u) = (written, w) \<Longrightarrow>
     unit_step us u (u\<lparr>ut_hub := w, ut_successor := (case written of PS_Pending _ \<Rightarrow> Some sp | _ \<Rightarrow> None)\<rparr>)"
| unit_outside: "run_state (next_tick env) (ut_hub u) = (t, w) \<Longrightarrow> unit_step us u (u\<lparr>ut_hub := w\<rparr>)"
| unit_adopt: "unit_step us u (u\<lparr>ut_hub := (ut_hub u)\<lparr>hb_generation := g\<rparr>\<rparr>)"
| unit_restart: "unit_step us u
     \<lparr>ut_hub = (ut_hub u)\<lparr>hb_generation := g, hb_own_write := None\<rparr>, ut_pending_close = None, ut_successor = None\<rparr>"

definition unit_sim :: "unit_setup \<Rightarrow> unit_state \<Rightarrow> system \<Rightarrow> bool" where
  "unit_sim us u y \<longleftrightarrow> hub_sim (us_codec us) (ut_hub u) y
     \<and> (\<forall>p. ut_pending_close u = Some p \<longrightarrow> pending_ok p y \<and> ut_successor u = None)
     \<and> (\<forall>sp. ut_successor u = Some sp \<longrightarrow> successor_wf (us_cipher us) sp \<and> successor_ok sp y)"

lemma unit_sim_idle:
  "hub_sim (us_codec us) w y \<Longrightarrow> unit_sim us \<lparr>ut_hub = w, ut_pending_close = None, ut_successor = None\<rparr> y"
  by (simp add: unit_sim_def)

lemma unit_step_simulated:
  assumes "unit_step us u u'" "unit_sim us u y"
  shows "\<exists>y'. system_step\<^sup>*\<^sup>* y y' \<and> unit_sim us u' y'"
  using assms
proof (cases rule: unit_step.cases)
  case (unit_exchange env hp r w)
  obtain y' where "system_step\<^sup>*\<^sup>* y y'" "hub_sim (us_codec us) w y'" "result_ok (us_cipher us) r y'"
    by (rule refinesD [OF mp.run_exchange_refines _ _ unit_exchange(2)])
       (use assms(2) in \<open>auto simp: unit_sim_def exchange_input_def\<close>)
  then show ?thesis unfolding unit_exchange(1)
    by (intro exI [of _ y']) (auto simp: unit_sim_def result_ok_def kept_successor_def split: ExchangeKind.splits)
next
  case (unit_finish p env "done" w)
  obtain y' where "system_step\<^sup>*\<^sup>* y y'" "hub_sim (us_codec us) w y'" "pending_ok p y'"
    by (rule refinesD [OF mp_finish_refines _ _ unit_finish(3)])
       (use assms(2) unit_finish(2) in \<open>auto simp: unit_sim_def\<close>)
  then show ?thesis using assms(2) unit_finish(1,2)
    by (intro exI [of _ y']) (auto simp: unit_sim_def)
next
  case (unit_write sp env written w)
  have wf: "successor_wf (us_cipher us) sp" using assms(2) unit_write(2) by (simp add: unit_sim_def)
  obtain y' where "system_step\<^sup>*\<^sup>* y y'" "hub_sim (us_codec us) w y'" "successor_ok sp y'"
    using refinesD [OF mp.persist_step_refines [of us env undefined sp True] _ _ , of "ut_hub u" y written w]
      assms(2) unit_write(2,3) wf by (auto simp: unit_sim_def exchange_input_def)
  then show ?thesis using assms(2) unit_write(1,2) wf
    by (intro exI [of _ y']) (auto simp: unit_sim_def split: PersistStep.splits)
next
  case (unit_outside env t w)
  let ?P = "\<lambda>z. sy_attempts z = sy_attempts y"
  obtain y' where "system_step\<^sup>*\<^sup>* y y'" "hub_sim (us_codec us) w y'" "sy_attempts y' = sy_attempts y"
    by (rule refinesD [OF next_tick_refines [of ?P ?P] _ _ unit_outside(2)])
       (use assms(2) in \<open>auto simp: unit_sim_def\<close>)
  then show ?thesis
    using assms(2) pending_ok_attempts [of y y'] successor_ok_attempts [of y y'] unfolding unit_outside(1)
    by (intro exI [of _ y']) (auto simp: unit_sim_def)
next
  case (unit_adopt g)
  then show ?thesis using assms(2) by (intro exI [of _ y]) (auto simp: unit_sim_def hub_sim_def)
next
  case (unit_restart g)
  then show ?thesis using assms(2) by (intro exI [of _ y]) (auto simp: unit_sim_def hub_sim_def)
qed

lemma unit_reachable_simulated:
  assumes "(unit_step us)\<^sup>*\<^sup>* (unit_start g) u"
  shows "\<exists>y. system_step\<^sup>*\<^sup>* system_init y \<and> unit_sim us u y"
  using assms
proof (induction rule: rtranclp_induct)
  case base
  show ?case
    by (intro exI [of _ system_init]) (simp add: unit_sim_def hub_sim_def unit_start_def system_init_def)
next
  case (step u u')
  then show ?case using unit_step_simulated by (meson rtranclp_trans)
qed

lemma log_ok_once:
  assumes "log_ok (zs @ Presented i h # ys @ Presented i g # xs)"
  shows False
  using log_ok_append [OF assms] by auto

lemma event_of_Released:
  "Released i g \<in> set (events_of cd p) \<longleftrightarrow> presentation_releases cd p \<and> i = pn_receipt p \<and> g = pn_generation p"
  by (auto simp: events_of_def)

lemma presented_again:
  assumes "log_ok (concat (map (events_of cd) (zs @ q # ys @ p # xs)))" "pn_generation q = pn_generation p"
  shows "presentation_releases cd p"
proof -
  let ?E = "\<lambda>l. concat (map (events_of cd) l)"
  let ?rel = "\<lambda>p. if presentation_releases cd p then [Released (pn_receipt p) (pn_generation p)] else []"
  let ?i = "pn_receipt p" and ?g = "pn_generation p"
  have split: "?E (zs @ q # ys @ p # xs)
      = (?E zs @ ?rel q) @ Presented (pn_receipt q) ?g # (?E ys @ ?rel p) @ Presented ?i ?g # ?E xs"
    using assms(2) by (simp add: events_of_def)
  have "Released ?i ?g \<in> set (?E ys @ ?rel p)" using log_ok_again assms(1) unfolding split by blast
  moreover have "Released ?i ?g \<notin> set (?E ys)"
  proof
    assume "Released ?i ?g \<in> set (?E ys)"
    then obtain r where r: "r \<in> set ys" "pn_receipt r = ?i" by (auto simp: event_of_Released)
    then obtain as bs where "ys = as @ r # bs" by (meson split_list)
    then have "?E (zs @ q # ys @ p # xs)
        = (?E (zs @ q # as) @ ?rel r) @ Presented ?i (pn_generation r) # (?E bs @ ?rel p) @ Presented ?i ?g # ?E xs"
      using r(2) by (simp add: events_of_def)
    then show False using log_ok_once assms(1) by metis
  qed
  ultimately show ?thesis by (auto split: if_splits)
qed

end
