(* ===== verification/Exchange_Outcome.thy ===== *)
theory Exchange_Outcome
  imports Unit_Safety
begin

text \<open>
  What an exchange leaves behind when nothing around it fails: after a rotation the store holds
  the new pair, after a refusal the input is free again, after a dead or unusable answer it
  stays fenced. The last part shows an answer status outside the table's domain, for which the
  closing can never succeed.
\<close>

section \<open>A calm environment\<close>

definition calm :: "environment \<Rightarrow> bool" where
  "calm env \<longleftrightarrow> (\<forall>t. oc_moves env t = [] \<and> \<not> oc_fault env t \<and> \<not> oc_ack_lost env t \<and> oc_guard env t
     \<and> \<not> oc_lost env t \<and> \<not> oc_shutdown env t)"

lemma calmD:
  assumes "calm env"
  shows "oc_moves env t = []" "\<not> oc_fault env t" "\<not> oc_ack_lost env t" "oc_guard env t" "\<not> oc_lost env t"
    "\<not> oc_shutdown env t"
  using assms by (auto simp: calm_def)

lemma calm_next_tick [simp]: "calm env \<Longrightarrow> run_state (next_tick env) w = (hb_tick w, w\<lparr>hb_tick := hb_tick w + 1\<rparr>)"
  by (simp add: next_tick_def calmD)

lemma calm_ask [simp]: "calm env \<Longrightarrow> run_state (ask env f) w = (f (hb_tick w), w\<lparr>hb_tick := hb_tick w + 1\<rparr>)"
  by (simp add: ask_def)

lemma calm_transact [simp]:
  "calm env \<Longrightarrow> run_state (transact env f) w =
     (case f (hb_tick w) (hb_store w) of
        Inl e \<Rightarrow> (Inl e, w\<lparr>hb_tick := hb_tick w + 1\<rparr>)
      | Inr (a, s) \<Rightarrow> (Inr a, w\<lparr>hb_tick := hb_tick w + 1, hb_store := s\<rparr>))"
  by (simp add: transact_def calmD split: sum.splits)

lemma calm_read [simp]:
  "calm env \<Longrightarrow> run_state (read_store env f) w = (f (hb_store w), w\<lparr>hb_tick := hb_tick w + 1\<rparr>)"
  by (simp add: read_store_def calmD)

section \<open>The reservation\<close>

text \<open>The pair row holds the manager's generation and nothing stands in the way of a request.\<close>

definition reservable :: "store \<Rightarrow> uuid \<Rightarrow> uuid \<Rightarrow> bool" where
  "reservable s attempt_id g \<longleftrightarrow> g \<noteq> 0 \<and> current_generation s = Some g \<and> \<not> has_unresolved_legacy_refresh s
     \<and> \<not> is_fenced s g \<and> length (s_receipts s) < MAX_OUTBOUND_REQUEST_RECEIPTS
     \<and> length (s_fences s) < MAX_LEGACY_REFRESH_INPUT_FENCES
     \<and> (\<forall>b\<in>set (s_bindings s). bd_attempt_id b \<noteq> attempt_id)"

text \<open>The store right after the reservation of \<open>g\<close> by receipt \<open>i\<close>.\<close>

definition just_reserved :: "store \<Rightarrow> nat \<Rightarrow> uuid \<Rightarrow> store \<Rightarrow> bool" where
  "just_reserved s i g s1 \<longleftrightarrow> store_wf s1 \<and> 0 < i \<and> g \<noteq> 0 \<and> s_pair s1 = s_pair s \<and> current_generation s1 = Some g
     \<and> attempt_bound s1 i g \<and> refresh_started s1 i \<and> set (s_fences s1) = insert g (set (s_fences s))
     \<and> (\<forall>b\<in>set (s_bindings s1). bd_output b = None \<or> b \<in> set (s_bindings s))"

lemma reservable_begin:
  assumes "reservable s a g" "store_wf s"
  obtains i s1 where "begin_legacy_refresh now c a g s = Inr (i, s1)" "just_reserved s i g s1"
proof -
  let ?p = "prune_expired_outbound_request_receipts now s"
  let ?i = "s_last_receipt_id s + 1"
  let ?s1 = "?p\<lparr>s_receipts := s_receipts ?p @ [new_refresh_receipt now c ?i], s_last_receipt_id := ?i,
                  s_fences := s_fences s @ [g], s_bindings := s_bindings ?p @ [new_binding ?i a g]\<rparr>"
  have "length (s_receipts ?p) \<le> length (s_receipts s)"
    by (simp add: prune_expired_outbound_request_receipts_def Let_def)
  then have b: "begin_legacy_refresh now c a g s = Inr (?i, ?s1)"
    using assms(1) prune_subset(2) [of now s]
    by (auto simp: begin_legacy_refresh_Inr Let_def reservable_def outbound_request_capacity_consumers_def)
  have "just_reserved s ?i g ?s1"
    using begin_wf [OF assms(2) b] assms(1) prune_subset(2) [of now s]
    by (auto simp: just_reserved_def reservable_def attempt_bound_iff new_binding_def refresh_started_iff
        new_refresh_receipt_def is_refresh_receipt_def current_generation_def)
  with b show thesis by (rule that)
qed

lemma just_reserved_started: "just_reserved s i g s1 \<Longrightarrow> receipt_started s1 i"
  by (simp add: just_reserved_def refresh_started_receipt_started)

lemma just_reserved_unresolved: "just_reserved s i g s1 \<Longrightarrow> has_unresolved_legacy_refresh s1"
  by (auto simp: just_reserved_def has_unresolved_legacy_refresh_def list_ex_iff attempt_bound_iff)

lemma closed_resolved:
  assumes "just_reserved s i g s1"
  shows "\<not> has_unresolved_legacy_refresh (close_receipt now i oc st ra s1)"
  using close_no_open [of s1 i g] close_receipt_wf [of s1] just_reserved_started [OF assms] assms
  by (simp add: just_reserved_def has_unresolved_iff)

lemma released_resolved:
  assumes "just_reserved s i g s1"
  shows "\<not> has_unresolved_legacy_refresh (release now i g oc st ra s1)"
proof -
  have "no_open (close_receipt now i oc st ra s1)"
    using close_no_open [of s1 i g] just_reserved_started [OF assms] assms by (simp add: just_reserved_def)
  then have "no_open (release now i g oc st ra s1)" by (rule no_open_subset) (auto simp: release_receipts)
  then show ?thesis using release_wf [of s1 i g] assms by (simp add: has_unresolved_iff just_reserved_def)
qed

section \<open>The exchange up to the answer\<close>

definition attempt_of :: "nat \<Rightarrow> uuid \<Rightarrow> Attempt" where
  "attempt_of i g = \<lparr>am_receipt = Some i, am_input = g\<rparr>"

lemma attempt_of_sel [simp]: "am_receipt (attempt_of i g) = Some i" "am_input (attempt_of i g) = g"
  by (simp_all add: attempt_of_def)

lemma exchange_input_sel [simp]:
  "ei_codec (exchange_input us env hp) = us_codec us" "ei_cipher (exchange_input us env hp) = us_cipher us"
  "ei_access_token (exchange_input us env hp) = hp_access_token hp"
  "ei_refresh_token (exchange_input us env hp) = hp_refresh_token hp"
  "ei_pinned_issuer (exchange_input us env hp) = hp_pinned_issuer hp"
  "ei_generation (exchange_input us env hp) = hp_generation hp"
  "ei_ports (exchange_input us env hp) = manager_ports env (us_cipher us) (us_key us)"
  "ei_now (exchange_input us env hp) = ask env (oc_now env)"
  "ei_shutdown (exchange_input us env hp) = ask env (oc_shutdown env)"
  "ei_body (exchange_input us env hp) = us_body us" "ei_post (exchange_input us env hp) = post_to_service env hp"
  by (simp_all add: exchange_input_def)

lemma manager_ports_sel [simp]:
  "ap_sensitive_access (manager_ports env cf key) = mp_sensitive_access env" "ap_begin (manager_ports env cf key) = mp_begin env"
  "ap_cancel_unsent (manager_ports env cf key) = mp_cancel_unsent env" "ap_close (manager_ports env cf key) = mp_close env"
  "ap_finish (manager_ports env cf key) = mp_finish env" "ap_persist (manager_ports env cf key) = mp_persist env cf key"
  "ap_reread (manager_ports env cf key) = mp_reread env"
  by (simp_all add: manager_ports_def)

lemma calm_exchange:
  assumes "calm env" "us_body us (hp_refresh_token hp) \<noteq> None"
    and "begin_legacy_refresh (oc_now_ms env (hb_tick w + 1)) (fst (oc_ids env (hb_tick w + 1)))
           (snd (oc_ids env (hb_tick w + 1))) (hb_generation w) (hb_store w) = Inr (i, s1)"
  shows "\<exists>w1 sent_at t. hb_store w1 = s1 \<and> hb_generation w1 = hb_generation w
     \<and> hb_sent w1 = \<lparr>pn_receipt = i, pn_generation = hb_generation w, pn_access_token = hp_access_token hp,
           pn_refresh_token = hp_refresh_token hp, pn_pinned_issuer = hp_pinned_issuer hp, pn_reply = oc_reply env t\<rparr> # hb_sent w
     \<and> run_state (run_exchange (exchange_input us env hp)) w
       = run_state (exchange_sent (exchange_input us env hp) (attempt_of i (hb_generation w)) (oc_now env sent_at)
                      (send (oc_reply env t))) w1"
proof -
  obtain body where body: "us_body us (hp_refresh_token hp) = Some body" using assms(2) by blast
  let ?t = "hb_tick w"
  let ?w1 = "w\<lparr>hb_store := s1, hb_tick := Suc (Suc (Suc (Suc (Suc (Suc ?t))))),
    hb_sent := \<lparr>pn_receipt = i, pn_generation = hb_generation w, pn_access_token = hp_access_token hp,
      pn_refresh_token = hp_refresh_token hp, pn_pinned_issuer = hp_pinned_issuer hp,
      pn_reply = oc_reply env (Suc (Suc (Suc (Suc (Suc ?t)))))\<rparr> # hb_sent w\<rparr>"
  have b: "run_state (mp_begin env) w
      = (Inr (attempt_of i (hb_generation w)), w\<lparr>hb_tick := Suc (Suc ?t), hb_store := s1\<rparr>)"
    using assms(1,3) calmD(5) [OF assms(1)] by (simp add: mp_begin_def begin_refresh_def attempt_of_def Let_def)
  have "run_state (exchange_begun (exchange_input us env hp) (attempt_of i (hb_generation w)))
      (w\<lparr>hb_tick := Suc (Suc ?t), hb_store := s1\<rparr>)
    = run_state (exchange_sent (exchange_input us env hp) (attempt_of i (hb_generation w))
        (oc_now env (Suc (Suc (Suc (Suc ?t))))) (send (oc_reply env (Suc (Suc (Suc (Suc (Suc ?t)))))))) ?w1"
    using assms(1) body calmD(4-6) [OF assms(1)]
    by (simp add: exchange_begun_def mp_sensitive_access_def post_to_service_def Let_def)
  with b have "run_state (run_exchange (exchange_input us env hp)) w
    = run_state (exchange_sent (exchange_input us env hp) (attempt_of i (hb_generation w))
        (oc_now env (Suc (Suc (Suc (Suc ?t))))) (send (oc_reply env (Suc (Suc (Suc (Suc (Suc ?t)))))))) ?w1"
    by (simp add: run_exchange_def)
  then show ?thesis
    by - (rule exI [of _ ?w1], rule exI [of _ "Suc (Suc (Suc (Suc ?t)))"],
      rule exI [of _ "Suc (Suc (Suc (Suc (Suc ?t))))"], simp)
qed

section \<open>A complete answer that is not a grant\<close>

lemma calm_ended:
  "calm env \<Longrightarrow> run_state (ended (exchange_input us env hp) k g t d) w =
     (\<lparr>er_kind = k, er_input = g, er_sent_at = t, er_finished_at = oc_now env (hb_tick w), er_server_date = d,
       er_pending_close = None\<rparr>, w\<lparr>hb_tick := hb_tick w + 1\<rparr>)"
  by (simp add: ended_def)

lemma retry_after_bound:
  assumes "retry_after_seconds hs now = Some n"
  shows "n \<le> i64_max"
proof -
  have "saturating_sub d now \<le> i64_max" for d using in_i64_saturating(2) [of d now] by (simp add: in_i64_def)
  with assms show ?thesis
    by (auto simp: retry_after_seconds_def Let_def parse_i64_digits_def split: option.splits if_splits)
qed

lemma error_class:
  "fa_class (classify_error_answer st c n) \<in>
     {AC_ClientRefused, AC_Dead, AC_RequestRejected, AC_Refused, AC_Blocked, AC_Transient, AC_Misrouted}"
  by (simp add: classify_error_answer_def)

lemma failure_class:
  assumes "classify_answer cd ans pa pr pin = Inl f"
  shows "closing_for (fa_class f) st ra = None \<longleftrightarrow> fa_class f = AC_ConsumedWithoutSuccessor"
proof (cases "200 \<le> ra_status ans \<and> ra_status ans < 300")
  case True
  with assms show ?thesis using accept_tokens_failure [of cd "ra_body ans" pa pr pin f] by (simp add: classify_answer_def)
next
  case False
  with assms obtain n where "f = classify_error_answer (ra_status ans) (parse_error_code cd (ra_body ans)) n"
    by (auto simp: classify_answer_def Let_def)
  then show ?thesis using error_class [of "ra_status ans" "parse_error_code cd (ra_body ans)" n] by (cases "fa_class f") auto
qed

lemma closing_for_admitted:
  assumes "closing_for c st ra = Some cl" "100 \<le> st" "st \<le> 599" "\<And>n. ra = Some n \<Longrightarrow> n \<le> i64_max"
  shows "closing_admitted (cl_outcome cl) (cl_http_status cl) (cl_retry_after_seconds cl)"
  using assms by (cases c) (auto simp: http_closing_def closing_admitted_def split: option.splits)

lemma closing_for_status: "closing_for c st ra = Some cl \<Longrightarrow> cl_http_status cl = Some st"
  by (cases c) (auto simp: http_closing_def)

lemma calm_mp_close:
  assumes "calm env" "closing_admitted (cl_outcome c) (cl_http_status c) (cl_retry_after_seconds c)"
    and "0 < i" "g \<noteq> 0" "attempt_bound (hb_store w) i g" "refresh_started (hb_store w) i"
  shows "run_state (mp_close env (attempt_of i g) c) w =
    (True, w\<lparr>hb_tick := hb_tick w + 2, hb_store :=
       (let now = oc_now_ms env (hb_tick w + 1)
        in if cl_release_input c then release now i g (cl_outcome c) (cl_http_status c) (cl_retry_after_seconds c) (hb_store w)
           else close_receipt now i (cl_outcome c) (cl_http_status c) (cl_retry_after_seconds c) (hb_store w))\<rparr>)"
proof -
  have "close_legacy_refresh_attempt now i g (cl_outcome c) (cl_http_status c) (cl_retry_after_seconds c)
      (cl_release_input c) (hb_store w)
    = Inr (if cl_release_input c
           then release now i g (cl_outcome c) (cl_http_status c) (cl_retry_after_seconds c) (hb_store w)
           else close_receipt now i (cl_outcome c) (cl_http_status c) (cl_retry_after_seconds c) (hb_store w))" for now
    using assms(2-6) by (simp add: close_attempt_Inr)
  then show ?thesis using assms(1) calmD(5) [OF assms(1)] by (simp add: mp_close_def commits_def Let_def)
qed

lemma failed_answer_run:
  assumes "calm env" "just_reserved s i g (hb_store w1)" "hb_generation w1 = g"
    and c: "classify_answer (us_codec us) ans (hp_access_token hp) (hp_refresh_token hp) (hp_pinned_issuer hp) = Inl f"
    and st: "100 \<le> ra_status ans" "ra_status ans \<le> 599"
    and run: "run_state (exchange_sent (exchange_input us env hp) (attempt_of i g) t (EX_Answer ans)) w1 = (r, w')"
  shows "er_pending_close r = None \<and> (\<exists>ra. er_kind r = EK_Failed (fa_class f) (fa_error f) (Some (ra_status ans)) ra)
    \<and> (is_fenced (hb_store w') g \<longleftrightarrow> consumes_input (fa_class f))
    \<and> (has_unresolved_legacy_refresh (hb_store w') \<longleftrightarrow> fa_class f = AC_ConsumedWithoutSuccessor)
    \<and> s_pair (hb_store w') = s_pair s \<and> hb_generation w' = g"
proof -
  note jr = assms(2) [unfolded just_reserved_def]
  define ra where "ra = retry_after_seconds (ra_headers ans) (oc_now env (hb_tick w1))"
  let ?k = "EK_Failed (fa_class f) (fa_error f) (Some (ra_status ans)) ra"
  have run': "run_state (ended_closed (exchange_input us env hp) (attempt_of i g)
      (closing_for (fa_class f) (ra_status ans) ra) ?k t (header_get (ra_headers ans) ''date''))
      (w1\<lparr>hb_tick := hb_tick w1 + 1\<rparr>) = (r, w')"
    using run c assms(1) by (simp add: exchange_sent_def exchange_answered_def Let_def ra_def)
  show ?thesis
  proof (cases "closing_for (fa_class f) (ra_status ans) ra")
    case None
    then have "fa_class f = AC_ConsumedWithoutSuccessor" using failure_class [OF c] by blast
    with None run' assms(1,3) jr just_reserved_unresolved [OF assms(2)] show ?thesis
      by (auto simp: ended_closed_def close_attempt_def calm_ended is_fenced_def)
  next
    case (Some cl)
    have adm: "closing_admitted (cl_outcome cl) (cl_http_status cl) (cl_retry_after_seconds cl)"
      using closing_for_admitted [OF Some st] retry_after_bound by (auto simp: ra_def)
    have cls: "fa_class f \<noteq> AC_ConsumedWithoutSuccessor" using failure_class [OF c] Some by (metis option.distinct(1))
    let ?w = "w1\<lparr>hb_tick := hb_tick w1 + 1\<rparr>"
    note close = calm_mp_close [OF assms(1) adm, of i g ?w]
    show ?thesis
      using run' close jr Some assms(1,3) cls closing_for_release [OF Some] closed_resolved [OF assms(2)]
        released_resolved [OF assms(2)]
      by (auto simp: ended_closed_def close_attempt_def calm_ended is_fenced_def Let_def)
  qed
qed

text \<open>
  C5: when nothing around the exchange fails and the store can take the attempt, a complete answer
  with a status from 100 to 599 that is not a grant settles the attempt. Nothing stays owed, the
  pair is the one that was there, the input stays fenced exactly when the answer consumed it, and
  the attempt stays unresolved exactly when a grant was issued that cannot be used. An answer with
  a status from 600 on, which the HTTP client also accepts, is not covered: it never settles, as
  the known defect below states.
\<close>
theorem failed_answer_settles:
  assumes "calm env" "us_body us (hp_refresh_token hp) \<noteq> None" "store_wf (hb_store w)"
    and "\<forall>t. reservable (hb_store w) (snd (oc_ids env t)) (hb_generation w)"
    and "\<forall>t. send (oc_reply env t) = EX_Answer ans" "100 \<le> ra_status ans" "ra_status ans \<le> 599"
    and "classify_answer (us_codec us) ans (hp_access_token hp) (hp_refresh_token hp) (hp_pinned_issuer hp) = Inl f"
    and "run_state (run_exchange (exchange_input us env hp)) w = (r, w')"
  shows "er_pending_close r = None \<and> (\<exists>ra. er_kind r = EK_Failed (fa_class f) (fa_error f) (Some (ra_status ans)) ra)
    \<and> (is_fenced (hb_store w') (hb_generation w) \<longleftrightarrow> consumes_input (fa_class f))
    \<and> (has_unresolved_legacy_refresh (hb_store w') \<longleftrightarrow> fa_class f = AC_ConsumedWithoutSuccessor)
    \<and> s_pair (hb_store w') = s_pair (hb_store w) \<and> hb_generation w' = hb_generation w"
proof -
  obtain i s1 where b: "begin_legacy_refresh (oc_now_ms env (hb_tick w + 1)) (fst (oc_ids env (hb_tick w + 1)))
      (snd (oc_ids env (hb_tick w + 1))) (hb_generation w) (hb_store w) = Inr (i, s1)"
    and j: "just_reserved (hb_store w) i (hb_generation w) s1"
    using reservable_begin [OF _ assms(3)] assms(4) by blast
  obtain w1 st t where w1: "hb_store w1 = s1" "hb_generation w1 = hb_generation w"
    and run: "run_state (run_exchange (exchange_input us env hp)) w
       = run_state (exchange_sent (exchange_input us env hp) (attempt_of i (hb_generation w)) (oc_now env st)
                      (send (oc_reply env t))) w1"
    using calm_exchange [OF assms(1,2) b] by blast
  show ?thesis
    by (rule failed_answer_run [OF assms(1) _ w1(2) assms(8,6,7)]) (use j w1 run assms(5,9) in auto)
qed

text \<open>An environment in which every answer is the same, and the store with one imported pair.\<close>

definition example_env :: "(send_error + response) \<Rightarrow> environment" where
  "example_env reply = \<lparr>oc_moves = (\<lambda>t. []), oc_fault = (\<lambda>_. False), oc_ack_lost = (\<lambda>_. False), oc_now_ms = (\<lambda>_. 0),
     oc_now = (\<lambda>_. 1800000000), oc_ids = (\<lambda>_. (1, 2)), oc_guard = (\<lambda>_. True), oc_lost = (\<lambda>_. False),
     oc_shutdown = (\<lambda>_. False), oc_nonces = (\<lambda>_. (Some ''abcdefghijkl'', Some ''mnopqrstuvwx'')), oc_reply = (\<lambda>_. reply)\<rparr>"

definition example_answer :: "nat \<Rightarrow> send_error + response" where
  "example_answer st = Inr \<lparr>rs_status = st, rs_headers = [], rs_content_length = None, rs_chunks = [Some ''{}'']\<rparr>"

definition example_setup :: "codec \<Rightarrow> unit_setup" where
  "example_setup cd = \<lparr>us_codec = cd, us_cipher = example_cipher, us_key = ''k'', us_body = Some\<rparr>"

definition example_pair :: held_pair where
  "example_pair = \<lparr>hp_access_token = ''a'', hp_refresh_token = ''r'', hp_pinned_issuer = None, hp_generation = 7\<rparr>"

definition example_hub :: hub where
  "example_hub = \<lparr>hb_store = example_store [] 0 False, hb_generation = 7, hb_own_write = None, hb_tick = 0, hb_sent = []\<rparr>"

lemma example_calm: "calm (example_env reply)"
  by (simp add: calm_def example_env_def)

lemma example_body: "us_body (example_setup cd) (hp_refresh_token example_pair) \<noteq> None"
  by (simp add: example_setup_def)

lemma example_hub_wf: "store_wf (hb_store example_hub)"
  using keeps_effect(1) [OF empty_store_wf example_moves(1)] by (simp add: example_hub_def)

lemma example_reservable: "\<forall>t. reservable (hb_store example_hub) (snd (oc_ids (example_env reply) t)) (hb_generation example_hub)"
proof -
  have "reservable (hb_store example_hub) 2 7" unfolding reservable_def
    by (simp add: example_hub_def example_defs has_unresolved_legacy_refresh_def is_fenced_def current_generation_def hub_consts)
  then show ?thesis by (simp add: example_env_def example_hub_def)
qed

lemma example_send:
  "\<forall>t. send (oc_reply (example_env (example_answer st)) t) = EX_Answer \<lparr>ra_status = st, ra_headers = [], ra_body = Complete ''{}''\<rparr>"
  by (simp add: example_env_def example_answer_def send_def MAX_TOKEN_RESPONSE_BYTES_def)

theorem failed_answer_settles_witness:
  "\<exists>r w'. run_state (run_exchange (exchange_input (example_setup (error_codec ''invalid_grant''))
       (example_env (example_answer 401)) example_pair)) example_hub = (r, w')
     \<and> er_pending_close r = None \<and> is_fenced (hb_store w') 7 \<and> \<not> has_unresolved_legacy_refresh (hb_store w')"
proof -
  let ?ans = "\<lparr>ra_status = 401, ra_headers = [], ra_body = Complete ''{}''\<rparr>"
  obtain r w' where run: "run_state (run_exchange (exchange_input (example_setup (error_codec ''invalid_grant''))
       (example_env (example_answer 401)) example_pair)) example_hub = (r, w')" by force
  have c: "classify_answer (us_codec (example_setup (error_codec ''invalid_grant''))) ?ans (hp_access_token example_pair)
      (hp_refresh_token example_pair) (hp_pinned_issuer example_pair)
    = Inl \<lparr>fa_class = AC_Dead, fa_error = LE_RefreshTokenRejected\<rparr>" by code_simp
  from failed_answer_settles [OF example_calm example_body example_hub_wf example_reservable example_send _ _ c run] run
  show ?thesis by (auto simp: example_hub_def)
qed

section \<open>A rotation\<close>

lemma printable_token:
  assumes "v \<noteq> []" "length v \<le> MAX_TOKEN_BYTES" "\<forall>c\<in>set v. 32 \<le> byte c \<and> byte c \<le> 126"
  shows "validate_token_component v = None" "is_utf8 v"
proof -
  show "validate_token_component v = None" using assms
    by (fastforce simp: validate_token_component_None is_ascii_control_def MAX_TOKEN_BYTES_def
        MAX_LEGACY_TOKEN_PLAINTEXT_BYTES_def)
  show "is_utf8 v" using assms(3) by (induction v) auto
qed

lemma access_token_printable:
  assumes "is_access_token v"
  shows "v \<noteq> [] \<and> (\<forall>c\<in>set v. 32 \<le> byte c \<and> byte c \<le> 126)"
proof -
  have "32 \<le> byte c \<and> byte c \<le> 126" if "is_ascii_alphanumeric c \<or> c \<in> set ''-._~+/=''" for c
    using that by (auto simp: is_ascii_alphanumeric_def is_ascii_digit_def byte_def)
  then show ?thesis using assms by (fastforce simp: is_access_token_def list_all_iff list_ex_iff)
qed

lemma accepted_rotation_tokens:
  assumes "classify_answer cd ans pa pr pin = Inr acc" "at_kind acc = AK_Rotated"
  shows "from_secret_parts (at_access_token acc) (at_refresh_token acc)
      = Inr \<lparr>ot_access_token = at_access_token acc, ot_refresh_token = at_refresh_token acc\<rparr>"
    "is_utf8 (at_access_token acc)" "is_utf8 (at_refresh_token acc)"
proof -
  have acc: "accept_tokens cd (ra_body ans) pa pr pin = Inr acc"
    using assms(1) by (auto simp: classify_answer_def Let_def split: if_splits)
  note snd = accept_tokens_sound [OF acc]
  have a: "validate_token_component (at_access_token acc) = None" "is_utf8 (at_access_token acc)"
    using printable_token [of "at_access_token acc"] access_token_printable [OF snd(1)] snd(2) by auto
  have r: "is_refresh_token (at_refresh_token acc)" "length (at_refresh_token acc) \<le> MAX_TOKEN_BYTES"
    using snd(3,5) assms(2) by auto
  have b: "validate_token_component (at_refresh_token acc) = None" "is_utf8 (at_refresh_token acc)"
    using printable_token [of "at_refresh_token acc"] r by (auto simp: is_refresh_token_def list_all_iff)
  show "from_secret_parts (at_access_token acc) (at_refresh_token acc)
      = Inr \<lparr>ot_access_token = at_access_token acc, ot_refresh_token = at_refresh_token acc\<rparr>"
    using a(1) b(1) by (simp add: from_secret_parts_Inr)
  show "is_utf8 (at_access_token acc)" "is_utf8 (at_refresh_token acc)" using a(2) b(2) .
qed

text \<open>The cipher works and entropy is available.\<close>

definition sealing :: "cipher \<Rightarrow> string \<Rightarrow> environment \<Rightarrow> bool" where
  "sealing cf key env \<longleftrightarrow> aead_laws cf \<and> key \<noteq> [] \<and> (\<forall>k n ad m. cf_encrypt cf k n ad m \<noteq> None)
     \<and> (\<forall>t. \<exists>n1 n2. oc_nonces env t = (Some n1, Some n2) \<and> length n1 = NONCE_BYTES \<and> length n2 = NONCE_BYTES)"

lemma encrypt_cloak_value_total:
  assumes "aead_laws cf" "\<And>k n ad m. cf_encrypt cf k n ad m \<noteq> None"
  shows "\<exists>v. encrypt_cloak_value cf k (Some n) m = Inr v"
proof -
  obtain ct where ct: "cf_encrypt cf k n ASSOCIATED_DATA m = Some ct" using assms(2) by (meson option.exhaust)
  then have "length ct = length m + AUTH_TAG_BYTES" using assms(1) by (auto simp: aead_laws_def)
  with ct show ?thesis by (simp add: encrypt_cloak_value_def Let_def)
qed

lemma encrypted_row_total:
  assumes "sealing cf key env" "from_secret_parts a r = Inr tokens" "is_utf8 a" "is_utf8 r" "0 < next" "next < expires" "h \<noteq> 0"
  shows "\<exists>row. encrypted_row cf key (oc_nonces env t) tokens expires next h = Inr row \<and> tk_generation row = Some h
    \<and> decrypt_legacy_owner_tokens cf key (tk_access row) (tk_refresh row) = Inr tokens"
proof -
  have laws: "aead_laws cf" "key \<noteq> []" "\<And>k n ad m. cf_encrypt cf k n ad m \<noteq> None" using assms(1) by (auto simp: sealing_def)
  obtain n1 n2 where n: "oc_nonces env t = (Some n1, Some n2)" "length n1 = NONCE_BYTES" "length n2 = NONCE_BYTES"
    using assms(1) unfolding sealing_def by blast
  have k: "cloak_cipher cf key = Inr (cf_sha256 cf key)" using laws by (simp add: cloak_cipher_def Let_def aead_laws_def)
  obtain ea er where "encrypt_cloak_value cf (cf_sha256 cf key) (Some n1) (ot_access_token tokens) = Inr ea"
    "encrypt_cloak_value cf (cf_sha256 cf key) (Some n2) (ot_refresh_token tokens) = Inr er"
    using encrypt_cloak_value_total [OF laws(1,3)] by metis
  then have e: "encrypt_legacy_owner_tokens cf key (Some n1) (Some n2) tokens = Inr (ea, er)"
    by (simp add: encrypt_legacy_owner_tokens_def k encrypt_pair_Inr)
  note env = pair_envelopes [OF laws(1) n(2,3) assms(2-4) e, of "next" expires]
  then obtain row where row: "token_row_refreshed ea er expires next = Inr row" "tk_access row = ea" "tk_refresh row = er"
    using assms(5,6) by blast
  have "with_credential_generation row h = Inr (row\<lparr>tk_generation := Some h\<rparr>)"
    using row(1) assms(7) by (auto simp: token_row_refreshed_def with_credential_generation_def token_row_new_def Let_def
        split: if_splits)
  then show ?thesis using n(1) e row env by (simp add: encrypted_row_def)
qed

lemma just_reserved_input:
  assumes "just_reserved s i g s1"
  shows "stored_input s1 i = Some g" "\<exists>b\<in>set (s_bindings s1). bd_receipt_id b = i \<and> bd_output b = None"
proof -
  note j = assms [unfolded just_reserved_def]
  obtain b where b: "b \<in> set (s_bindings s1)" "bd_receipt_id b = i" "bd_input b = g" using j by (auto simp: attempt_bound_iff)
  have uniq: "b' = b" if "b' \<in> set (s_bindings s1)" "bd_receipt_id b' = i" for b'
    using chain_wf_unique [of "s_bindings s1" b' b] j that b by (auto simp: store_wf_def)
  have st: "receipt_started s1 i" by (rule just_reserved_started [OF assms])
  then have "b \<in> set (filter (\<lambda>b. bd_receipt_id b = i \<and> receipt_started s1 i) (s_bindings s1))" using b by simp
  then obtain x xs where f: "filter (\<lambda>b. bd_receipt_id b = i \<and> receipt_started s1 i) (s_bindings s1) = x # xs"
    by (cases "filter (\<lambda>b. bd_receipt_id b = i \<and> receipt_started s1 i) (s_bindings s1)") auto
  then have "x \<in> set (filter (\<lambda>b. bd_receipt_id b = i \<and> receipt_started s1 i) (s_bindings s1))" by simp
  then have "x = b" using uniq by auto
  then show "stored_input s1 i = Some g" using f b by (simp add: stored_input_def)
  have "bd_output b = None" using j b st by (auto simp: store_wf_def open_wf_def receipt_started_iff)
  then show "\<exists>b\<in>set (s_bindings s1). bd_receipt_id b = i \<and> bd_output b = None" using b by blast
qed

lemma rotation_written:
  assumes "calm env" "just_reserved s i g (hb_store w)" "sealing cf key env"
    and t: "from_secret_parts (sp_access_token sp) (sp_refresh_token sp) = Inr tokens"
      "is_utf8 (sp_access_token sp)" "is_utf8 (sp_refresh_token sp)"
    and h: "h = legacy_refresh_credential_generation cf tokens" "h \<noteq> 0" "h \<noteq> g" "\<not> is_fenced s h"
      "\<forall>b\<in>set (s_bindings s). bd_output b \<noteq> Some h"
    and sch: "0 < sc_next_refresh_at (sp_schedule sp)" "sc_next_refresh_at (sp_schedule sp) < sc_expires_at (sp_schedule sp)"
  shows "\<exists>w' row. run_state (mp_persist env cf key (attempt_of i g) sp) w = (True, w') \<and> hb_generation w' = h
    \<and> s_pair (hb_store w') = Some row \<and> tk_generation row = Some h
    \<and> decrypt_legacy_owner_tokens cf key (tk_access row) (tk_refresh row) = Inr tokens
    \<and> is_fenced (hb_store w') g \<and> \<not> has_unresolved_legacy_refresh (hb_store w')"
proof -
  note j = assms(2) [unfolded just_reserved_def]
  obtain row where row: "encrypted_row cf key (oc_nonces env (hb_tick w)) tokens (sc_expires_at (sp_schedule sp))
        (sc_next_refresh_at (sp_schedule sp)) h = Inr row" "tk_generation row = Some h"
      "decrypt_legacy_owner_tokens cf key (tk_access row) (tk_refresh row) = Inr tokens"
    using encrypted_row_total [OF assms(3) t sch h(2)] by blast
  let ?now = "oc_now_ms env (hb_tick w)"
  let ?s = "(close_receipt ?now i OC_Success (Some 200) None (hb_store w))\<lparr>s_pair := Some row,
     s_bindings := map (set_output i h) (s_bindings (hb_store w))\<rparr>"
  have "\<not> is_fenced (hb_store w) h" using h(3,4) j by (auto simp: is_fenced_def)
  moreover have "\<forall>b\<in>set (s_bindings (hb_store w)). bd_output b \<noteq> Some h" using h(5) j by fastforce
  ultimately have c: "complete_legacy_refresh ?now i g h row (hb_store w) = Inr ?s"
    using j h(2,3) row(2) just_reserved_input [OF assms(2)] by (simp add: complete_Inr)
  have run: "run_state (mp_persist env cf key (attempt_of i g) sp) w
      = (True, w\<lparr>hb_tick := hb_tick w + 1, hb_store := ?s, hb_generation := h\<rparr>)"
    using assms(1) t(1) h(1,3) row(1) c
    by (simp add: mp_persist_def persist_refreshed_def persist_stored_def set_generation_def Let_def commits_def)
  have "no_open ?s"
    using close_no_open [of "hb_store w" i g ?now OC_Success "Some 200" None] just_reserved_started [OF assms(2)] j
    by (auto simp: no_open_def receipt_started_iff set_output_def)
  then have "\<not> has_unresolved_legacy_refresh ?s"
    using complete_wf [of "hb_store w", OF _ c] j by (simp add: has_unresolved_iff)
  then show ?thesis using run row j by (auto simp: is_fenced_def)
qed

text \<open>
  C3: a rotation reaches the store. When nothing around the exchange fails, the clock is
  plausible and the answer rotates the refresh token, the exchange ends with the pair persisted:
  the row holds the new generation and decrypts to exactly the tokens of the answer, the manager
  continues with that generation, no attempt is left unresolved and the consumed input stays
  fenced.
\<close>
theorem rotation_reaches_the_store:
  fixes acc :: AcceptedTokens
  defines "tokens \<equiv> \<lparr>ot_access_token = at_access_token acc, ot_refresh_token = at_refresh_token acc\<rparr>"
  assumes "calm env" "us_body us (hp_refresh_token hp) \<noteq> None" "store_wf (hb_store w)"
    and "\<forall>t. reservable (hb_store w) (snd (oc_ids env t)) (hb_generation w)"
    and "\<forall>t. 0 < oc_now env t \<and> oc_now env t \<le> 2 ^ 62" "sealing (us_cipher us) (us_key us) env"
    and "\<forall>t. send (oc_reply env t) = EX_Answer ans"
    and "classify_answer (us_codec us) ans (hp_access_token hp) (hp_refresh_token hp) (hp_pinned_issuer hp) = Inr acc"
    and "at_kind acc = AK_Rotated"
    and "h = legacy_refresh_credential_generation (us_cipher us) tokens" "h \<noteq> 0" "h \<noteq> hb_generation w"
      "\<not> is_fenced (hb_store w) h" "\<forall>b\<in>set (s_bindings (hb_store w)). bd_output b \<noteq> Some h"
    and "run_state (run_exchange (exchange_input us env hp)) w = (r, w')"
  shows "(\<exists>sp. er_kind r = EK_Persisted sp) \<and> er_pending_close r = None \<and> hb_generation w' = h
    \<and> (\<exists>row. s_pair (hb_store w') = Some row \<and> tk_generation row = Some h
         \<and> decrypt_legacy_owner_tokens (us_cipher us) (us_key us) (tk_access row) (tk_refresh row) = Inr tokens)
    \<and> is_fenced (hb_store w') (hb_generation w) \<and> \<not> has_unresolved_legacy_refresh (hb_store w')"
proof -
  let ?g = "hb_generation w"
  obtain i s1 where b: "begin_legacy_refresh (oc_now_ms env (hb_tick w + 1)) (fst (oc_ids env (hb_tick w + 1)))
      (snd (oc_ids env (hb_tick w + 1))) ?g (hb_store w) = Inr (i, s1)" and j: "just_reserved (hb_store w) i ?g s1"
    using reservable_begin [OF _ assms(4)] assms(5) by blast
  obtain w1 st t where w1: "hb_store w1 = s1" "hb_generation w1 = ?g"
    and run: "run_state (run_exchange (exchange_input us env hp)) w
       = run_state (exchange_sent (exchange_input us env hp) (attempt_of i ?g) (oc_now env st) (send (oc_reply env t))) w1"
    using calm_exchange [OF assms(2,3) b] by blast
  note tok = accepted_rotation_tokens [OF assms(9,10)]
  define sch where "sch = after_send (us_codec us) (oc_now env st) (at_expires_in acc) (at_access_token acc)"
  have sch: "0 < sc_next_refresh_at sch" "sc_next_refresh_at sch < sc_expires_at sch"
    using schedule_of_sound(1,2) [of "oc_now env st" "Option.bind (parse_jwt (us_codec us) (at_access_token acc)) jwt_exp"
        "at_expires_in acc"] claim_range [of "us_codec us" "at_access_token acc"] assms(6) [rule_format, of st]
    by (auto simp: sch_def after_send_def)
  define sp where "sp = \<lparr>sp_access_token = at_access_token acc, sp_refresh_token = at_refresh_token acc, sp_kind = AK_Rotated,
     sp_schedule = sch, sp_sent_at = oc_now env st, sp_input = ?g, sp_output = h, sp_attempt = attempt_of i ?g\<rparr>"
  have succ: "successor_of (us_codec us) (us_cipher us) acc (oc_now env st) (attempt_of i ?g) = Some sp"
    using tok(1) assms(10-13) by (simp add: successor_of_def Let_def sp_def sch_def tokens_def)
  let ?w2 = "w1\<lparr>hb_tick := hb_tick w1 + 1\<rparr>"
  obtain w3 row where w3: "run_state (mp_persist env (us_cipher us) (us_key us) (attempt_of i ?g) sp) ?w2 = (True, w3)"
    "hb_generation w3 = h" "s_pair (hb_store w3) = Some row" "tk_generation row = Some h"
    "decrypt_legacy_owner_tokens (us_cipher us) (us_key us) (tk_access row) (tk_refresh row) = Inr tokens"
    "is_fenced (hb_store w3) ?g" "\<not> has_unresolved_legacy_refresh (hb_store w3)"
    using rotation_written [of env "hb_store w" i ?g ?w2 "us_cipher us" "us_key us" sp tokens h] assms(2,7,11-15) j w1 tok sch
    by (auto simp: sp_def tokens_def)
  have "run_state (persist_step (manager_ports env (us_cipher us) (us_key us)) sp False) w1 = (PS_Done, w3)"
    using w3(1) assms(2) calmD(4,5) [OF assms(2)]
    by (simp add: persist_step_def persist_write_def mp_sensitive_access_def sp_def)
  then have "(r, w') = run_state (ended (exchange_input us env hp) (EK_Persisted sp) ?g (Some (oc_now env st))
      (header_get (ra_headers ans) ''date'')) w3"
    using run assms(8,9,10,16) succ
    by (simp add: exchange_sent_def exchange_answered_def exchange_accepted_def Let_def)
  then show ?thesis using w3(2-7) assms(2) by (auto simp: calm_ended)
qed

theorem rotation_reaches_the_store_witness:
  "\<exists>r w' row. run_state (run_exchange (exchange_input (example_setup grant_codec) (example_env (example_answer 200))
       example_pair)) example_hub = (r, w') \<and> s_pair (hb_store w') = Some row
     \<and> decrypt_legacy_owner_tokens example_cipher ''k'' (tk_access row) (tk_refresh row)
       = Inr \<lparr>ot_access_token = ''new'', ot_refresh_token = ''next''\<rparr>
     \<and> is_fenced (hb_store w') 7"
proof -
  let ?us = "example_setup grant_codec" and ?env = "example_env (example_answer 200)"
  let ?ans = "\<lparr>ra_status = 200, ra_headers = [], ra_body = Complete ''{}''\<rparr>"
  let ?acc = "\<lparr>at_access_token = ''new'', at_refresh_token = ''next'', at_kind = AK_Rotated,
    at_expires_in = Some (JNumber (PosInt 28800))\<rparr>"
  let ?h = "legacy_refresh_credential_generation (us_cipher ?us)
    \<lparr>ot_access_token = at_access_token ?acc, ot_refresh_token = at_refresh_token ?acc\<rparr>"
  obtain r w' where run: "run_state (run_exchange (exchange_input ?us ?env example_pair)) example_hub = (r, w')" by force
  have c: "classify_answer (us_codec ?us) ?ans (hp_access_token example_pair)
      (hp_refresh_token example_pair) (hp_pinned_issuer example_pair) = Inr ?acc" by code_simp
  have seal: "sealing (us_cipher ?us) (us_key ?us) ?env"
    using example_cipher_laws
    by (simp add: sealing_def example_setup_def example_env_def NONCE_BYTES_def) (simp add: example_cipher_def)
  have h: "?h \<noteq> 0" "?h \<noteq> hb_generation example_hub" "\<not> is_fenced (hb_store example_hub) ?h"
    by code_simp+
  have clock: "\<forall>t. 0 < oc_now ?env t \<and> oc_now ?env t \<le> 2 ^ 62" by (simp add: example_env_def)
  have out: "\<forall>b\<in>set (s_bindings (hb_store example_hub)). bd_output b \<noteq> Some ?h"
    by (simp add: example_hub_def example_store_def)
  from rotation_reaches_the_store [OF example_calm example_body example_hub_wf example_reservable clock seal example_send c
      _ refl h out run] run
  show ?thesis by (auto simp: example_hub_def example_setup_def)
qed

section \<open>A status outside the table's domain\<close>

text \<open>
  C21: a known defect. The HTTP client accepts every status up to 999; one from 600 on is a
  misrouted answer that did not consume the token. Its closing records that status, which the
  receipt table refuses, so the closing is owed after the exchange and, while the attempt is
  started, no retry of it ever succeeds: the input stays fenced and every new attempt is refused.
\<close>
theorem status_600_never_closes:
  assumes "calm env" "us_body us (hp_refresh_token hp) \<noteq> None" "store_wf (hb_store w)"
    and "\<forall>t. reservable (hb_store w) (snd (oc_ids env t)) (hb_generation w)"
    and "\<forall>t. send (oc_reply env t) = EX_Answer ans" "600 \<le> ra_status ans"
    and "run_state (run_exchange (exchange_input us env hp)) w = (r, w')"
  shows "\<exists>p ra. er_kind r = EK_Failed AC_Misrouted (LE_HttpStatus (ra_status ans)) (Some (ra_status ans)) ra
    \<and> er_pending_close r = Some p \<and> has_unresolved_legacy_refresh (hb_store w')
    \<and> is_fenced (hb_store w') (hb_generation w) \<and> \<not> consumes_input AC_Misrouted
    \<and> (\<forall>env' v. calm env' \<longrightarrow> has_unresolved_legacy_refresh (hb_store v) \<longrightarrow>
         fst (run_state (mp_finish env' p) v) = False \<and> hb_store (snd (run_state (mp_finish env' p) v)) = hb_store v)"
proof -
  let ?g = "hb_generation w" and ?st = "ra_status ans"
  obtain i s1 where b: "begin_legacy_refresh (oc_now_ms env (hb_tick w + 1)) (fst (oc_ids env (hb_tick w + 1)))
      (snd (oc_ids env (hb_tick w + 1))) ?g (hb_store w) = Inr (i, s1)" and j: "just_reserved (hb_store w) i ?g s1"
    using reservable_begin [OF _ assms(3)] assms(4) by blast
  obtain w1 st t where w1: "hb_store w1 = s1"
    and run: "run_state (run_exchange (exchange_input us env hp)) w
       = run_state (exchange_sent (exchange_input us env hp) (attempt_of i ?g) (oc_now env st) (send (oc_reply env t))) w1"
    using calm_exchange [OF assms(1,2) b] by blast
  let ?c = "http_closing ?st OC_HttpError True"
  have refused: "\<exists>e. close_legacy_refresh_attempt now i ?g (cl_outcome ?c) (cl_http_status ?c) (cl_retry_after_seconds ?c)
      (cl_release_input ?c) s = Inl e" for now s
    using assms(6) by (auto simp: close_legacy_refresh_attempt_def http_closing_def)
  have close: "run_state (mp_close env' (attempt_of i ?g) ?c) v = (False, v\<lparr>hb_tick := hb_tick v + 2\<rparr>)" if "calm env'" for env' v
    using that calmD(5) [OF that] refused [of "oc_now_ms env' (Suc (hb_tick v))" "hb_store v"]
    by (auto simp: mp_close_def commits_def)
  have cls: "classify_answer (us_codec us) ans (hp_access_token hp) (hp_refresh_token hp) (hp_pinned_issuer hp)
      = Inl \<lparr>fa_class = AC_Misrouted, fa_error = LE_HttpStatus ?st\<rparr>"
    using assms(6) by (simp add: classify_answer_def classify_error_answer_def)
  define ra where "ra = retry_after_seconds (ra_headers ans) (oc_now env (hb_tick w1))"
  let ?p = "PN_Close (attempt_of i ?g) ?c"
  have "er_kind r = EK_Failed AC_Misrouted (LE_HttpStatus ?st) (Some ?st) ra \<and> er_pending_close r = Some ?p \<and> hb_store w' = s1"
    using run assms(1,5,7) cls close [OF assms(1)] w1
    by (auto simp: exchange_sent_def exchange_answered_def Let_def ended_closed_def close_attempt_def calm_ended ra_def)
  moreover have "fst (run_state (mp_finish env' ?p) v) = False \<and> hb_store (snd (run_state (mp_finish env' ?p) v)) = hb_store v"
    if "calm env'" "has_unresolved_legacy_refresh (hb_store v)" for env' v
    using that close [OF that(1)] by (simp add: mp_finish_def)
  ultimately show ?thesis using just_reserved_unresolved [OF j] j
    by (intro exI [of _ ?p] exI [of _ ra]) (auto simp: just_reserved_def is_fenced_def)
qed

theorem status_600_never_closes_witness:
  "\<exists>r w' p. run_state (run_exchange (exchange_input (example_setup grant_codec) (example_env (example_answer 650))
       example_pair)) example_hub = (r, w') \<and> er_pending_close r = Some p
     \<and> fst (run_state (mp_finish (example_env (example_answer 650)) p) w') = False"
proof -
  obtain r w' where run: "run_state (run_exchange (exchange_input (example_setup grant_codec) (example_env (example_answer 650))
       example_pair)) example_hub = (r, w')" by force
  from status_600_never_closes [OF example_calm example_body example_hub_wf example_reservable example_send _ run] run
    example_calm [of "example_answer 650"]
  show ?thesis by auto
qed

section \<open>Single use, end to end\<close>

text \<open>
  C1: end-to-end single use. Whatever the unit does (exchanges, retries, restarts) and whatever
  happens around it (failures of the store before or after a commit, external credential
  writes, crashes, lost answers), if two requests to the token service presented the same refresh
  generation, the answer to the earlier one, read by the outcome table, said that the token
  had not been consumed.
\<close>
theorem unit_presents_generation_once:
  assumes "(unit_step us)\<^sup>*\<^sup>* (unit_start g) u"
    and "hb_sent (ut_hub u) = zs @ q # ys @ p # xs" and "pn_generation q = pn_generation p"
  shows "presentation_releases (us_codec us) p"
proof -
  obtain y where "system_step\<^sup>*\<^sup>* system_init y" "unit_sim us u y" using unit_reachable_simulated [OF assms(1)] by blast
  then have "log_ok (concat (map (events_of (us_codec us)) (zs @ q # ys @ p # xs)))"
    using system_okD(7) [OF reachable_ok] assms(2) by (metis hub_sim_def unit_sim_def)
  then show ?thesis using assms(3) by (rule presented_again)
qed


text \<open>The connection fails twice; nothing was sent, so the same generation is presented again.\<close>

definition example_refusal :: "send_error + response" where
  "example_refusal = Inl \<lparr>se_is_connect = True, se_is_timeout = False, se_is_builder = False\<rparr>"

definition example_presentation :: "nat \<Rightarrow> Presentation" where
  "example_presentation i = \<lparr>pn_receipt = i, pn_generation = 7, pn_access_token = ''a'', pn_refresh_token = ''r'',
     pn_pinned_issuer = None, pn_reply = example_refusal\<rparr>"

lemma example_unsent:
  assumes "store_wf (hb_store w)" "reservable (hb_store w) 2 7" "hb_generation w = 7"
    and b: "begin_legacy_refresh 0 1 2 7 (hb_store w) = Inr (i, s1)"
  shows "\<exists>r w'. run_state (run_exchange (exchange_input (example_setup cd) (example_env example_refusal) example_pair)) w = (r, w')
    \<and> er_pending_close r = None \<and> kept_successor (er_kind r) = None \<and> hb_generation w' = 7
    \<and> hb_store w' = release 0 i 7 OC_TransportError None None s1 \<and> hb_sent w' = example_presentation i # hb_sent w"
proof -
  let ?env = "example_env example_refusal" and ?inp = "exchange_input (example_setup cd) (example_env example_refusal) example_pair"
  have j: "just_reserved (hb_store w) i 7 s1" using reservable_begin [OF assms(2,1), of 0 1] b by (metis prod.inject sum.inject(2))
  note jr = j [unfolded just_reserved_def]
  have b': "begin_legacy_refresh (oc_now_ms ?env (hb_tick w + 1)) (fst (oc_ids ?env (hb_tick w + 1)))
      (snd (oc_ids ?env (hb_tick w + 1))) (hb_generation w) (hb_store w) = Inr (i, s1)"
    using b assms(3) by (simp add: example_env_def)
  obtain w1 st t where w1: "hb_store w1 = s1" "hb_generation w1 = 7" "hb_sent w1 = example_presentation i # hb_sent w"
    and run: "run_state (run_exchange ?inp) w
       = run_state (exchange_sent ?inp (attempt_of i 7) (oc_now ?env st) (send (oc_reply ?env t))) w1"
    using calm_exchange [OF example_calm example_body b'] assms(3)
    by (auto simp: example_presentation_def example_pair_def example_env_def)
  have s: "send (oc_reply ?env t) = EX_NotSent"
    by (simp add: example_env_def example_refusal_def send_def from_send_error_def)
  let ?c = "\<lparr>cl_outcome = OC_TransportError, cl_http_status = None, cl_retry_after_seconds = None, cl_release_input = True\<rparr>"
  have adm: "closing_admitted (cl_outcome ?c) (cl_http_status ?c) (cl_retry_after_seconds ?c)" by (simp add: closing_admitted_def)
  have close: "run_state (mp_close ?env (attempt_of i 7) ?c) w1
      = (True, w1\<lparr>hb_tick := hb_tick w1 + 2, hb_store := release 0 i 7 OC_TransportError None None s1\<rparr>)"
    using calm_mp_close [OF example_calm adm, of i 7 w1] jr w1(1) by (simp add: Let_def example_env_def)
  show ?thesis using run w1 close
    by (simp add: s exchange_sent_def Let_def ended_closed_def close_attempt_def calm_ended [OF example_calm] kept_successor_def)
qed

lemma example_two_requests:
  "\<exists>u. (unit_step (example_setup cd))\<^sup>*\<^sup>* (unit_start 7) u
     \<and> hb_sent (ut_hub u) = [] @ example_presentation 2 # [] @ example_presentation 1 # []"
proof -
  let ?us = "example_setup cd" and ?env = "example_env example_refusal"
  let ?importing = "?env\<lparr>oc_moves := (\<lambda>_. [MV_Replace 0 example_row])\<rparr>"
  let ?w0 = "(ut_hub (unit_start 7))\<lparr>hb_tick := 1, hb_store := example_store [] 0 False\<rparr>"
  have "replace_teslamate_legacy_tokens 0 example_row empty_store = Inr (example_store [] 0 False)" by code_simp
  then have "run_state (next_tick ?importing) (ut_hub (unit_start 7)) = (0, ?w0)"
    by (simp add: next_tick_def unit_start_def or_same_def)
  then have s0: "unit_step ?us (unit_start 7) ((unit_start 7)\<lparr>ut_hub := ?w0\<rparr>)" by (rule unit_outside)
  let ?u0 = "(unit_start 7)\<lparr>ut_hub := ?w0\<rparr>"
  have b1: "begin_legacy_refresh 0 1 2 7 (example_store [] 0 False) = Inr (1, example_first)" by code_simp
  have r1: "reservable (example_store [] 0 False) 2 7" and wf1: "store_wf (example_store [] 0 False)"
    using example_reservable [of example_refusal] example_hub_wf by (simp_all add: example_env_def example_hub_def)
  obtain r w1 where e1: "run_state (run_exchange (exchange_input ?us ?env example_pair)) ?w0 = (r, w1)"
      "er_pending_close r = None" "kept_successor (er_kind r) = None" "hb_generation w1 = 7"
      "hb_store w1 = release 0 1 7 OC_TransportError None None example_first" "hb_sent w1 = [example_presentation 1]"
    using example_unsent [of ?w0 1 example_first cd] r1 wf1 b1 by (auto simp: unit_start_def)
  let ?u1 = "\<lparr>ut_hub = w1, ut_pending_close = None, ut_successor = None\<rparr>"
  have s1: "unit_step ?us ?u0 ?u1" using unit_exchange [of ?us ?env example_pair ?u0 r w1] e1 by simp
  have wf2: "store_wf (hb_store w1)"
    using releases_effect(1) [OF _ releases_cancel] release_wf [of example_first 1 7] begin_wf [OF wf1 b1] e1(5)
    by (simp add: attempt_bound_def example_defs new_binding_def)
  have "reservable (release 0 1 7 OC_TransportError None None example_first) 2 7" unfolding reservable_def
    by (simp add: example_defs has_unresolved_legacy_refresh_def is_fenced_def current_generation_def hub_consts
        release_receipts close_receipt_def new_binding_def)
  then have r2: "reservable (hb_store w1) 2 7" using e1(5) by simp
  obtain i s2 where b2: "begin_legacy_refresh 0 1 2 7 (hb_store w1) = Inr (i, s2)" by (rule reservable_begin [OF r2 wf2])
  then have i: "i = 2" using e1(5) by (simp add: begin_legacy_refresh_Inr Let_def example_defs)
  obtain r' w2 where e2: "run_state (run_exchange (exchange_input ?us ?env example_pair)) w1 = (r', w2)"
      "er_pending_close r' = None" "kept_successor (er_kind r') = None"
      "hb_sent w2 = [example_presentation 2, example_presentation 1]"
    using example_unsent [OF wf2 r2 e1(4) b2, of cd] e1(6) i by auto
  let ?u2 = "\<lparr>ut_hub = w2, ut_pending_close = None, ut_successor = None\<rparr>"
  have s2: "unit_step ?us ?u1 ?u2" using unit_exchange [of ?us ?env example_pair ?u1 r' w2] e2 by simp
  have "(unit_step ?us)\<^sup>*\<^sup>* (unit_start 7) ?u2"
    using s0 s1 s2 by (meson converse_rtranclp_into_rtranclp rtranclp.rtrancl_refl)
  then show ?thesis using e2(4) by (intro exI [of _ ?u2]) simp
qed

theorem unit_presents_generation_once_witness:
  "\<exists>u. (unit_step (example_setup grant_codec))\<^sup>*\<^sup>* (unit_start 7) u
     \<and> hb_sent (ut_hub u) = [] @ example_presentation 2 # [] @ example_presentation 1 # []
     \<and> presentation_releases grant_codec (example_presentation 1)"
proof -
  obtain u where u: "(unit_step (example_setup grant_codec))\<^sup>*\<^sup>* (unit_start 7) u"
    "hb_sent (ut_hub u) = [] @ example_presentation 2 # [] @ example_presentation 1 # []"
    using example_two_requests [of grant_codec] by blast
  have "pn_generation (example_presentation 2) = pn_generation (example_presentation 1)"
    by (simp add: example_presentation_def)
  from unit_presents_generation_once [OF u this] u show ?thesis by (auto simp: example_setup_def)
qed

end
