(* ===== verification/Auth_Authority.thy ===== *)
theory Auth_Authority
  imports Auth_Attempt
begin

text \<open>
  The in-memory authority of the legacy credential (\<^verbatim>\<open>LegacyAuth\<close> of \<^verbatim>\<open>src/auth/legacy_auth.rs\<close>
  with the operations of \<^verbatim>\<open>src/auth/legacy_auth/authority.rs\<close>): how a stored pair is loaded, the
  gates before a token request, the due rule, what a published exchange result does, and the
  status that follows. The lemmas show that token requests are spaced, that only an answer that
  consumed the token asks the owner to sign in again, and that the derived status is always
  a consistent one.
\<close>

section \<open>The authority\<close>

record LegacyAuth =
  la_access_token :: string
  la_refresh_token :: string
  la_token_type :: string
  la_expires_at :: int
  la_next_refresh_at :: int
  la_token_endpoint :: "endpoint_url option"
  la_endpoint_source :: EndpointSource
  la_pinned_issuer :: "string option"
  la_region :: StreamRegion
  la_usable_until :: "int option"
  la_retry_at :: "int option"
  la_retry_step :: nat
  la_retry_reason :: "RetryReason option"
  la_startup_refresh_pending :: bool
  la_last_success_at :: "int option"
  la_client_refusals :: nat
  la_stop :: "AuthStop option"
  la_clock_skew :: bool
  la_pending_successor :: "SuccessorPair option"
  la_persist_failures :: nat
  la_persist_retry_at :: "int option"
  la_pending_close :: "PendingClose option"
  la_close_failures :: nat
  la_close_retry_at :: "int option"
  la_token_requests_not_before :: int
  la_hold_until :: "int option"
  la_forced_after_hold :: bool
  la_observer_rejected :: bool
  la_schedule_diagnostic :: "LegacyAuthError option"

datatype StoredSchedule = SS_Imported | SS_Refreshed | SS_Invalid

definition classify_stored_schedule :: "int \<Rightarrow> int \<Rightarrow> StoredSchedule" where
  "classify_stored_schedule expires_at next_refresh_at =
     (if expires_at = 0 \<and> next_refresh_at = 0 then SS_Imported
      else if next_refresh_at > 0 \<and> expires_at > next_refresh_at then SS_Refreshed
      else SS_Invalid)"

definition usable_until_of :: "codec \<Rightarrow> string \<Rightarrow> bool \<Rightarrow> int \<Rightarrow> int option" where
  "usable_until_of cd access_token refreshed expires_at =
     (let exp_limit = map_option (\<lambda>e. e - SKEW_ALLOWANCE_SECONDS) (Option.bind (parse_jwt cd access_token) jwt_exp)
      in if refreshed
         then Some (case exp_limit of None \<Rightarrow> expires_at | Some limit \<Rightarrow> min limit expires_at)
         else exp_limit)"

definition stored_usable_until :: "codec \<Rightarrow> string \<Rightarrow> int \<Rightarrow> int \<Rightarrow> int option" where
  "stored_usable_until cd access_token expires_at next_refresh_at =
     usable_until_of cd (trim_token_whitespace access_token)
       (classify_stored_schedule expires_at next_refresh_at = SS_Refreshed) expires_at"

definition stored_pair_passes_grammar :: "string \<Rightarrow> string \<Rightarrow> StoppedMode \<Rightarrow> bool" where
  "stored_pair_passes_grammar access_token refresh_token mode =
     (let m = (case mode of SM_Legacy \<Rightarrow> Tesla | SM_Provider \<Rightarrow> Provider)
      in \<not> isl (check_token_grammar (trim_token_whitespace access_token) (trim_token_whitespace refresh_token) m))"

definition inert :: "StreamRegion \<Rightarrow> LegacyAuth" where
  "inert region =
     \<lparr>la_access_token = [], la_refresh_token = [], la_token_type = ''Bearer'', la_expires_at = 0,
      la_next_refresh_at = 0, la_token_endpoint = None, la_endpoint_source = ConfiguredRegion,
      la_pinned_issuer = None, la_region = region, la_usable_until = None, la_retry_at = None, la_retry_step = 0,
      la_retry_reason = None, la_startup_refresh_pending = False, la_last_success_at = None, la_client_refusals = 0,
      la_stop = None, la_clock_skew = False, la_pending_successor = None, la_persist_failures = 0,
      la_persist_retry_at = None, la_pending_close = None, la_close_failures = 0, la_close_retry_at = None,
      la_token_requests_not_before = 0, la_hold_until = None, la_forced_after_hold = False,
      la_observer_rejected = False, la_schedule_diagnostic = None\<rparr>"

definition from_persisted_state ::
  "codec \<Rightarrow> (string \<Rightarrow> url option) \<Rightarrow> string \<Rightarrow> string \<Rightarrow> int \<Rightarrow> int \<Rightarrow> AuthEndpointConfig
     \<Rightarrow> LegacyAuthError + LegacyAuth" where
  "from_persisted_state cd url_parse access0 refresh0 expires0 next0 config =
     (let access_token = trim_token_whitespace access0; refresh_token = trim_token_whitespace refresh0
      in case select_endpoint cd url_parse access_token refresh_token config of
           Inl e \<Rightarrow> Inl e
         | Inr selection \<Rightarrow>
            (let schedule = classify_stored_schedule expires0 next0;
                 refreshed = (schedule = SS_Refreshed);
                 expires_at = (if refreshed then expires0 else 0);
                 next_refresh_at = (if refreshed then next0 else 0)
             in Inr ((inert (sel_region selection))
                  \<lparr>la_startup_refresh_pending := \<not> refreshed \<and> refresh_token \<noteq> [],
                   la_access_token := access_token, la_refresh_token := refresh_token, la_expires_at := expires_at,
                   la_next_refresh_at := next_refresh_at, la_token_endpoint := sel_token_endpoint selection,
                   la_endpoint_source := sel_source selection, la_pinned_issuer := sel_pinned_issuer selection,
                   la_usable_until := usable_until_of cd access_token refreshed expires_at,
                   la_schedule_diagnostic :=
                     (if schedule = SS_Invalid then Some LE_InvalidPersistedSchedule else None)\<rparr>)))"

section \<open>Gates and the due rule\<close>

datatype Block =
    BL_InFlight
  | BL_SuccessorPending
  | BL_ClosePending
  | BL_Stopped
  | BL_NoRefreshPath
  | BL_ClockInvalid
  | BL_Until int

datatype Applied = AP_Done "LegacyAuthError option" | AP_Adopt bool

definition is_usable :: "LegacyAuth \<Rightarrow> int \<Rightarrow> bool" where
  "is_usable la now \<longleftrightarrow> (case la_usable_until la of None \<Rightarrow> True | Some until \<Rightarrow> now < until)"

definition effective_stop :: "LegacyAuth \<Rightarrow> int \<Rightarrow> AuthStop option" where
  "effective_stop la now =
     (case la_stop la of
        Some (Stop_SignInRequired reason) \<Rightarrow>
          (if \<not> is_usable la now then Some (Stop_SignedOut reason) else la_stop la)
      | None \<Rightarrow>
          (if la_token_endpoint la = None \<and> \<not> is_usable la now then Some (Stop_SignedOut SO_ProviderTokenExpired) else None)
      | stop \<Rightarrow> stop)"

definition settle_stop :: "LegacyAuth \<Rightarrow> int \<Rightarrow> LegacyAuth" where
  "settle_stop la now = (case effective_stop la now of Some stop \<Rightarrow> la\<lparr>la_stop := Some stop\<rparr> | None \<Rightarrow> la)"

definition remedy_pending :: "LegacyAuth \<Rightarrow> bool" where
  "remedy_pending la \<longleftrightarrow> la_retry_at la \<noteq> None \<or> la_startup_refresh_pending la \<or> la_pending_successor la \<noteq> None"

definition time_gates :: "LegacyAuth \<Rightarrow> int list" where
  "time_gates la =
     List.map_filter id
       [la_retry_at la, map_option (\<lambda>sent. saturating_add sent MIN_REFRESH_INTERVAL_SECONDS) (la_last_success_at la),
        Some (la_token_requests_not_before la), la_hold_until la]"

definition gate :: "LegacyAuth \<Rightarrow> int \<Rightarrow> bool \<Rightarrow> Block option" where
  "gate la now in_flight =
     (if in_flight then Some BL_InFlight
      else if la_pending_successor la \<noteq> None then Some BL_SuccessorPending
      else if la_pending_close la \<noteq> None then Some BL_ClosePending
      else if effective_stop la now \<noteq> None then Some BL_Stopped
      else if la_token_endpoint la = None then Some BL_NoRefreshPath
      else if \<not> clock_is_valid now then Some BL_ClockInvalid
      else (case filter (\<lambda>until. until > now) (time_gates la) of
              [] \<Rightarrow> None
            | t # ts \<Rightarrow> Some (BL_Until (fold max ts t))))"

definition is_due :: "LegacyAuth \<Rightarrow> int \<Rightarrow> bool" where
  "is_due la now \<longleftrightarrow> la_startup_refresh_pending la \<or> la_retry_at la \<noteq> None
     \<or> la_token_endpoint la \<noteq> None \<and> \<not> is_usable la now
     \<or> la_expires_at la > 0 \<and> refreshed_form_due (la_expires_at la) (la_next_refresh_at la) now"

fun stop_error :: "AuthStop \<Rightarrow> LegacyAuthError" where
  "stop_error (Stop_ApiRefused reason) = LE_OwnerApiRefused reason"
| "stop_error (Stop_SignInRequired _) = LE_RefreshNotPossible"
| "stop_error (Stop_SignedOut SO_AccessTokenRejected) = LE_AccessTokenRejected"
| "stop_error (Stop_SignedOut SO_ProviderTokenRejected) = LE_ProviderTokenRejected"
| "stop_error (Stop_SignedOut SO_ProviderTokenExpired) = LE_ProviderTokenExpired"
| "stop_error (Stop_SignedOut other) = LE_SignedOut other"

definition token_available :: "LegacyAuth \<Rightarrow> int \<Rightarrow> LegacyAuthError + unit" where
  "token_available la now =
     (if la_access_token la = [] then Inl (LE_AuthUnavailable None)
      else (case option_filter blocks_requests (effective_stop la now) of
              Some stop \<Rightarrow> Inl (stop_error stop)
            | None \<Rightarrow>
               (if \<not> clock_is_valid now
                then Inl (LE_AuthUnavailable (Some (saturating_add now CLOCK_RECHECK_SECONDS)))
                else (case option_filter (\<lambda>until. now < until) (la_hold_until la) of
                        Some until \<Rightarrow> Inl (LE_AuthUnavailable (Some until))
                      | None \<Rightarrow>
                         (if la_observer_rejected la then Inl (LE_AuthUnavailable None)
                          else if \<not> is_usable la now
                          then Inl (LE_AuthUnavailable
                                 (case la_persist_retry_at la of Some t \<Rightarrow> Some t | None \<Rightarrow> la_retry_at la))
                          else Inr ())))))"

section \<open>Retries and pending work\<close>

definition schedule_retry :: "RetryReason \<Rightarrow> RetryPlan \<Rightarrow> int \<Rightarrow> f64 \<Rightarrow> LegacyAuth \<Rightarrow> LegacyAuth" where
  "schedule_retry reason plan now spread_unit la =
     (let (delay, next_step) = retry_delay plan (la_retry_step la) spread_unit
      in la\<lparr>la_retry_at := Some (saturating_add now delay), la_retry_reason := Some reason, la_retry_step := next_step\<rparr>)"

definition clear_retry :: "LegacyAuth \<Rightarrow> LegacyAuth" where
  "clear_retry la = la\<lparr>la_retry_at := None, la_retry_reason := None, la_retry_step := 0\<rparr>"

definition apply_persisted :: "SuccessorPair \<Rightarrow> int \<Rightarrow> f64 \<Rightarrow> LegacyAuth \<Rightarrow> LegacyAuth" where
  "apply_persisted successor now spread_unit la0 =
     (let schedule = sp_schedule successor;
          la = la0\<lparr>la_access_token := sp_access_token successor, la_refresh_token := sp_refresh_token successor,
            la_token_type := ''Bearer'', la_expires_at := sc_expires_at schedule,
            la_next_refresh_at := sc_next_refresh_at schedule, la_usable_until := Some (sc_usable_until schedule),
            la_last_success_at := Some (sp_sent_at successor), la_startup_refresh_pending := False,
            la_client_refusals := 0, la_schedule_diagnostic := None, la_pending_successor := None,
            la_persist_failures := 0, la_persist_retry_at := None\<rparr>
      in if is_short schedule (sp_sent_at successor)
         then (let reason = (if la_clock_skew la then RT_ClockSkew else RT_ShortTokenLifetime)
               in schedule_retry reason (plan_for_reason reason) now spread_unit la)
         else clear_retry la)"

definition usize_saturating_add :: "nat \<Rightarrow> nat \<Rightarrow> nat" where
  "usize_saturating_add a b = min (2 ^ 64 - 1) (a + b)"

definition persistence_delay :: "nat \<Rightarrow> int" where
  "persistence_delay failures = PERSISTENCE_RETRY_SECONDS ! min failures (length PERSISTENCE_RETRY_SECONDS - 1)"

definition note_persist_failure :: "int \<Rightarrow> LegacyAuth \<Rightarrow> LegacyAuth" where
  "note_persist_failure now la =
     la\<lparr>la_persist_retry_at := Some (saturating_add now (persistence_delay (la_persist_failures la))),
        la_persist_failures := usize_saturating_add (la_persist_failures la) 1\<rparr>"

definition hold_successor :: "SuccessorPair \<Rightarrow> int \<Rightarrow> LegacyAuth \<Rightarrow> LegacyAuth" where
  "hold_successor successor now la = note_persist_failure now (la\<lparr>la_pending_successor := Some successor\<rparr>)"

definition note_close_failure :: "int \<Rightarrow> LegacyAuth \<Rightarrow> LegacyAuth" where
  "note_close_failure now la =
     la\<lparr>la_close_retry_at := Some (saturating_add now (persistence_delay (la_close_failures la))),
        la_close_failures := usize_saturating_add (la_close_failures la) 1\<rparr>"

definition hold_close :: "PendingClose \<Rightarrow> int \<Rightarrow> LegacyAuth \<Rightarrow> LegacyAuth" where
  "hold_close pending now la = note_close_failure now (la\<lparr>la_pending_close := Some pending\<rparr>)"

definition clear_close :: "LegacyAuth \<Rightarrow> LegacyAuth" where
  "clear_close la = la\<lparr>la_pending_close := None, la_close_failures := 0, la_close_retry_at := None\<rparr>"

definition close_retry_due :: "LegacyAuth \<Rightarrow> int \<Rightarrow> bool" where
  "close_retry_due la now \<longleftrightarrow> la_pending_close la \<noteq> None
     \<and> (case la_close_retry_at la of None \<Rightarrow> True | Some t \<Rightarrow> now \<ge> t)"

definition persist_retry_due :: "LegacyAuth \<Rightarrow> int \<Rightarrow> bool" where
  "persist_retry_due la now \<longleftrightarrow> la_pending_successor la \<noteq> None
     \<and> (case la_persist_retry_at la of None \<Rightarrow> True | Some t \<Rightarrow> now \<ge> t)"

definition set_stop :: "AuthStop \<Rightarrow> LegacyAuth \<Rightarrow> LegacyAuth" where
  "set_stop stop la = la\<lparr>la_stop := Some stop, la_retry_at := None, la_retry_reason := None\<rparr>"

definition store_unavailable :: "int \<Rightarrow> f64 \<Rightarrow> LegacyAuth \<Rightarrow> LegacyAuthError \<times> LegacyAuth" where
  "store_unavailable now spread_unit la0 =
     (let la = schedule_retry RT_StoreUnavailable (plan_for_reason RT_StoreUnavailable) now spread_unit
                 (la0\<lparr>la_client_refusals := 0\<rparr>)
      in (LE_AuthUnavailable (la_retry_at la), la))"

section \<open>Applying a result\<close>

definition apply_failure ::
  "AttemptClass \<Rightarrow> LegacyAuthError \<Rightarrow> nat option \<Rightarrow> int option \<Rightarrow> int \<Rightarrow> f64 \<Rightarrow> LegacyAuth \<Rightarrow> Applied \<times> LegacyAuth" where
  "apply_failure class error status retry_after now u la0 =
     (let la = (if class \<noteq> AC_ClientRefused then la0\<lparr>la_client_refusals := 0\<rparr> else la0);
          failed = (\<lambda>la'. (AP_Done (Some error), la'))
      in case class of
           AC_ConsumedWithoutSuccessor \<Rightarrow> failed (set_stop (Stop_SignInRequired SO_RefreshResponseUnusable) la)
         | AC_Unknown \<Rightarrow> failed (set_stop (Stop_SignInRequired SO_RefreshOutcomeUnknown) la)
         | AC_Dead \<Rightarrow> failed (set_stop (Stop_SignInRequired SO_RefreshTokenRejected) la)
         | AC_ClientRefused \<Rightarrow>
             (let la1 = la\<lparr>la_client_refusals := u8_saturating_add (la_client_refusals la) 1\<rparr>
              in if la_client_refusals la1 \<ge> CLIENT_REFUSAL_LIMIT
                 then (AP_Done (Some (LE_OwnerApiRefused RF_Client)), set_stop (Stop_ApiRefused RF_Client) la1)
                 else failed (schedule_retry RT_ClientCheck RP_ClientCheck now u la1))
         | AC_Refused \<Rightarrow> failed (set_stop (Stop_ApiRefused RF_OwnerApi) la)
         | AC_RequestRejected \<Rightarrow> failed (schedule_retry RT_RefreshRequestRejected RP_Slow now u la)
         | AC_Misrouted \<Rightarrow> failed (schedule_retry RT_TokenEndpointMisrouted RP_Slow now u la)
         | AC_Blocked \<Rightarrow> failed (schedule_retry RT_RefreshBlocked RP_Backoff now u la)
         | AC_Transient \<Rightarrow>
             (let plan = (case (status, retry_after) of
                            (Some st, Some seconds) \<Rightarrow> (if st = 429 \<or> st = 503 then RP_RetryAfter seconds else RP_Backoff)
                          | _ \<Rightarrow> RP_Backoff)
              in failed (schedule_retry RT_TeslaUnavailable plan now u la))
         | AC_NotRenewed \<Rightarrow> failed (schedule_retry RT_RefreshNotRenewed RP_Backoff now u la)
         | AC_NotSent \<Rightarrow> failed la
         | AC_Rotated \<Rightarrow> failed la
         | AC_NotRotated \<Rightarrow> failed la)"

definition apply_kind :: "ExchangeKind \<Rightarrow> int \<Rightarrow> f64 \<Rightarrow> LegacyAuth \<Rightarrow> Applied \<times> LegacyAuth" where
  "apply_kind kind now u la =
     (case kind of
        EK_NotSent reason \<Rightarrow>
          (AP_Done (Some (if reason = RT_SensitiveAccess then LE_SensitiveAccessUnavailable else LE_Transport)),
           schedule_retry reason (plan_for_reason reason) now u (la\<lparr>la_client_refusals := 0\<rparr>))
      | EK_Aborted \<Rightarrow> (AP_Done (Some LE_RefreshDeferred), la)
      | EK_RowChanged BF_ExternalWrite \<Rightarrow> (AP_Adopt True, la)
      | EK_External \<Rightarrow> (AP_Adopt True, la)
      | EK_RowChanged BF_OwnOutput \<Rightarrow> (AP_Adopt False, la)
      | EK_RowChanged BF_Unresolved \<Rightarrow>
          (AP_Done (Some (LE_SignedOut SO_RefreshOutcomeUnknown)), set_stop (Stop_SignedOut SO_RefreshOutcomeUnknown) la)
      | EK_RowChanged BF_Store \<Rightarrow> (case store_unavailable now u la of (e, la') \<Rightarrow> (AP_Done (Some e), la'))
      | EK_Persisted successor \<Rightarrow> (AP_Done None, apply_persisted successor now u la)
      | EK_Pending successor _ \<Rightarrow> (AP_Done None, hold_successor successor now la)
      | EK_Failed class error status retry_after \<Rightarrow> apply_failure class error status retry_after now u la)"

definition apply_result :: "ExchangeResult \<Rightarrow> f64 \<Rightarrow> LegacyAuth \<Rightarrow> Applied \<times> LegacyAuth" where
  "apply_result result u la0 =
     (let now = er_finished_at result;
          la1 = la0\<lparr>la_clock_skew := skew_after_answer (la_clock_skew la0) (er_server_date result) now\<rparr>;
          la = (case er_pending_close result of None \<Rightarrow> la1 | Some pending \<Rightarrow> hold_close pending now la1)
      in apply_kind (er_kind result) now u la)"

section \<open>The status\<close>

datatype HolderKind = HK_Managed | HK_Observer | HK_AccessTokenOnly

definition derive_status :: "LegacyAuth \<Rightarrow> int \<Rightarrow> uuid \<Rightarrow> StoppedMode \<Rightarrow> bool \<Rightarrow> FuseSnapshot \<Rightarrow> AuthStatus" where
  "derive_status la now generation mode in_flight fuse =
     (let usable = (clock_is_valid now \<and> is_usable la now);
          skew = la_clock_skew la
      in case effective_stop la now of
           Some stop \<Rightarrow> status_stopped stop generation mode usable fuse skew
         | None \<Rightarrow>
            (if \<not> clock_is_valid now then status_idle AS_ClockInvalid None fuse skew
             else if la_pending_successor la \<noteq> None
             then with_usability (status_idle AS_PersistencePending None fuse skew) usable
             else if in_flight then (status_idle AS_Refreshing None fuse skew)\<lparr>st_collecting := True\<rparr>
             else (case (la_retry_reason la, la_retry_at la) of
                     (Some reason, Some retry_at) \<Rightarrow>
                       with_usability ((status_idle AS_Retrying (Some (SR_Retry reason)) fuse skew)
                         \<lparr>st_retry_at := Some retry_at\<rparr>) usable
                   | _ \<Rightarrow> status_ready fuse skew)))"

definition derive_full_status ::
  "LegacyAuth \<Rightarrow> int \<Rightarrow> uuid \<Rightarrow> StoppedMode \<Rightarrow> bool \<Rightarrow> FuseSnapshot \<Rightarrow> HolderKind \<Rightarrow> AuthStatus" where
  "derive_full_status la now generation mode in_flight fuse holder =
     (let base = derive_status la now generation mode in_flight fuse
      in if st_state base \<in> {AS_SignedOut, AS_SignInRequired, AS_ApiRefused, AS_ClockInvalid} then base
         else if holder = HK_Observer
         then (if la_observer_rejected la
               then status_observer_waiting OB_TokenRejected fuse (la_clock_skew la)
               else if \<not> is_usable la now
               then status_observer_waiting (if la_clock_skew la then OB_ClockSkew else OB_TokenExpired) fuse (la_clock_skew la)
               else base)
         else if (case la_hold_until la of None \<Rightarrow> False | Some until \<Rightarrow> now < until)
         then status_awaiting_confirmation fuse (la_clock_skew la)
         else base)"

section \<open>The invariant\<close>

text \<open>
  A retry time and its reason are set together, and a \<^verbatim>\<open>sign_in_required\<close> stop has a reason its
  state admits.
\<close>

definition auth_wf :: "LegacyAuth \<Rightarrow> bool" where
  "auth_wf la \<longleftrightarrow> (la_retry_at la = None) = (la_retry_reason la = None)
     \<and> (\<forall>stop. la_stop la = Some stop \<longrightarrow> admits (stop_state stop) (Some (stop_reason stop)))"

named_theorems authority_ops \<open>the operations of the authority\<close>

declare schedule_retry_def [authority_ops] clear_retry_def [authority_ops] apply_persisted_def [authority_ops]
  note_persist_failure_def [authority_ops] hold_successor_def [authority_ops] note_close_failure_def [authority_ops]
  hold_close_def [authority_ops] clear_close_def [authority_ops] set_stop_def [authority_ops]
  store_unavailable_def [authority_ops]

lemma schedule_retry_wf: "auth_wf la \<Longrightarrow> auth_wf (schedule_retry reason plan now u la)"
  by (simp add: auth_wf_def schedule_retry_def split: prod.splits)

lemma set_stop_wf: "admits (stop_state x) (Some (stop_reason x)) \<Longrightarrow> auth_wf (set_stop x la)"
  by (simp add: auth_wf_def set_stop_def)

lemma auth_wf_fields [simp]:
  "auth_wf (la\<lparr>la_client_refusals := n\<rparr>) = auth_wf la" "auth_wf (la\<lparr>la_clock_skew := k\<rparr>) = auth_wf la"
  "auth_wf (hold_close p now la) = auth_wf la" "auth_wf (hold_successor sp now la) = auth_wf la"
  "auth_wf (clear_close la) = auth_wf la"
  by (simp_all add: auth_wf_def authority_ops)

lemma apply_persisted_wf: "auth_wf la \<Longrightarrow> auth_wf (apply_persisted sp now u la)"
  by (simp add: apply_persisted_def Let_def auth_wf_def clear_retry_def schedule_retry_def split: prod.splits)

lemma apply_failure_wf:
  assumes "auth_wf la" "apply_failure c e st ra now u la = (a, la')"
  shows "auth_wf la'"
proof -
  have x: "auth_wf (if c \<noteq> AC_ClientRefused then la\<lparr>la_client_refusals := 0\<rparr> else la)" using assms(1) by simp
  show ?thesis using assms x
    by (cases c) (auto simp: apply_failure_def Let_def schedule_retry_wf set_stop_wf split: if_splits option.splits)
qed

lemma apply_kind_wf:
  assumes "auth_wf la" "apply_kind k now u la = (a, la')"
  shows "auth_wf la'"
proof (cases k)
  case (EK_Failed c e st ra)
  then show ?thesis using assms by (auto simp: apply_kind_def intro: apply_failure_wf)
next
  case (EK_RowChanged f)
  then show ?thesis using assms
    by (cases f) (auto simp: apply_kind_def store_unavailable_def Let_def schedule_retry_wf set_stop_wf)
qed (use assms in \<open>auto simp: apply_kind_def schedule_retry_wf apply_persisted_wf\<close>)

lemma apply_result_wf:
  assumes "auth_wf la" "apply_result r u la = (a, la')"
  shows "auth_wf la'"
proof -
  obtain la1 where "apply_kind (er_kind r) (er_finished_at r) u la1 = (a, la')" "auth_wf la1"
    using assms by (auto simp: apply_result_def Let_def split: option.splits)
  then show ?thesis using apply_kind_wf by blast
qed

lemma from_persisted_state_wf: "from_persisted_state cd up a r e n config = Inr la \<Longrightarrow> auth_wf la"
  by (auto simp: from_persisted_state_def Let_def inert_def auth_wf_def split: sum.splits)

lemma effective_stop_admits:
  "auth_wf la \<Longrightarrow> effective_stop la now = Some x \<Longrightarrow> admits (stop_state x) (Some (stop_reason x))"
  by (auto simp: auth_wf_def effective_stop_def split: option.splits AuthStop.splits if_splits)

lemma refreshing_consistent [status_intros]:
  "fuse_is_consistent f \<Longrightarrow> status_is_consistent ((status_idle AS_Refreshing None f k)\<lparr>st_collecting := True\<rparr>)"
  by (simp add: status_is_consistent_def status_idle_def)

lemma retrying_consistent [status_intros]:
  "fuse_is_consistent f \<Longrightarrow>
   status_is_consistent ((status_idle AS_Retrying (Some (SR_Retry reason)) f k)\<lparr>st_retry_at := Some t\<rparr>)"
  by (simp add: status_is_consistent_def status_idle_def)

lemma derive_status_consistent:
  assumes "auth_wf la" "fuse_is_consistent fuse"
  shows "status_is_consistent (derive_status la now g mode b fuse)"
proof (cases "effective_stop la now")
  case (Some x)
  then show ?thesis using assms effective_stop_admits by (simp add: derive_status_def Let_def status_intros)
next
  case None
  then show ?thesis using assms(2)
    by (auto simp: derive_status_def Let_def intro!: status_intros split: option.splits)
qed

lemma derive_full_status_consistent:
  assumes "auth_wf la" "fuse_is_consistent fuse"
  shows "status_is_consistent (derive_full_status la now g mode b fuse holder)"
  using derive_status_consistent [OF assms] assms(2)
  by (simp add: derive_full_status_def Let_def status_observer_waiting_def status_awaiting_confirmation_def status_intros)

section \<open>Spacing of token requests\<close>

text \<open>The times an exchange can end at; they keep every sum below the saturation bound.\<close>

definition plausible_time :: "int \<Rightarrow> bool" where
  "plausible_time t \<longleftrightarrow> 0 \<le> t \<and> t \<le> 2 ^ 62"

lemma plausible_add: "plausible_time t \<Longrightarrow> 0 \<le> d \<Longrightarrow> d \<le> 3600 \<Longrightarrow> saturating_add t d = t + d"
  by (simp add: plausible_time_def saturating_add_def sat_i64_def i64_max_def i64_min_def)

lemma map_filter_id_set: "set (List.map_filter id xs) = {x. Some x \<in> set xs}"
  by (induction xs) (auto simp: List.map_filter_simps split: option.splits)

lemma time_gates_set:
  "set (time_gates la) = {t. Some t = la_retry_at la \<or> t = la_token_requests_not_before la \<or> Some t = la_hold_until la
     \<or> (\<exists>sent. Some sent = la_last_success_at la \<and> t = saturating_add sent MIN_REFRESH_INTERVAL_SECONDS)}"
  unfolding time_gates_def map_filter_id_set by (cases "la_last_success_at la") auto

lemma gate_time: "t \<in> set (time_gates la) \<Longrightarrow> now < t \<Longrightarrow> gate la now b \<noteq> None"
  by (auto simp: gate_def filter_empty_conv split: list.splits)

lemma gate_stop: "la_stop la \<noteq> None \<Longrightarrow> gate la now b \<noteq> None"
  by (auto simp: gate_def effective_stop_def split: option.splits AuthStop.splits)

lemma scheduled_gate:
  assumes "plausible_time fin" "now < fin + 60"
  shows "gate (schedule_retry reason plan fin u la) now b \<noteq> None"
proof -
  let ?d = "fst (retry_delay plan (la_retry_step la) u)"
  have d: "60 \<le> ?d" "?d \<le> 3600" using retry_delay_bounded [of plan "la_retry_step la" u] by auto
  then have "la_retry_at (schedule_retry reason plan fin u la) = Some (fin + ?d)"
    using plausible_add [OF assms(1), of ?d] by (simp add: schedule_retry_def case_prod_beta)
  then show ?thesis using d(1) assms(2) by (intro gate_time [of "fin + ?d"]) (simp_all add: time_gates_set)
qed

lemma stopped_gate: "gate (set_stop x la) now b \<noteq> None"
  by (rule gate_stop) (simp add: set_stop_def)

lemma persisted_gate:
  assumes "plausible_time (sp_sent_at sp)" "now < sp_sent_at sp + 60"
  shows "gate (apply_persisted sp fin u la) now b \<noteq> None"
proof -
  have "la_last_success_at (apply_persisted sp fin u la) = Some (sp_sent_at sp)"
    by (simp add: apply_persisted_def Let_def clear_retry_def schedule_retry_def split: prod.splits)
  then show ?thesis
    using assms plausible_add [OF assms(1), of 60]
    by (intro gate_time [of "sp_sent_at sp + 60"]) (auto simp: time_gates_set MIN_REFRESH_INTERVAL_SECONDS_def)
qed

text \<open>The kinds of result that leave the authority as it was.\<close>

definition changes_nothing :: "ExchangeKind \<Rightarrow> bool" where
  "changes_nothing k \<longleftrightarrow>
     (case k of EK_Aborted \<Rightarrow> True | EK_External \<Rightarrow> True
      | EK_RowChanged f \<Rightarrow> f = BF_ExternalWrite \<or> f = BF_OwnOutput
      | EK_Failed c _ _ _ \<Rightarrow> c \<in> {AC_NotSent, AC_Rotated, AC_NotRotated} | _ \<Rightarrow> False)"

definition counted_from :: "ExchangeKind \<Rightarrow> int \<Rightarrow> int" where
  "counted_from k finished_at = (case k of EK_Persisted sp \<Rightarrow> sp_sent_at sp | _ \<Rightarrow> finished_at)"

lemma apply_failure_gate:
  assumes "c \<notin> {AC_NotSent, AC_Rotated, AC_NotRotated}" "plausible_time fin" "now < fin + 60"
  shows "gate (snd (apply_failure c e st ra fin u la)) now b \<noteq> None"
  using assms
  by (cases c) (simp_all add: apply_failure_def Let_def scheduled_gate stopped_gate del: not_None_eq split: option.splits)

text \<open>
  C36: token requests are spaced. After every result that changes the authority the gate stays
  closed for a minute, counted from the end of the exchange, or from the send time where the
  exchange succeeded. It may stay closed longer.
\<close>
theorem result_spaces_requests:
  assumes "\<not> changes_nothing (er_kind r)" "plausible_time (er_finished_at r)"
    and "plausible_time (counted_from (er_kind r) (er_finished_at r))"
    and "now < counted_from (er_kind r) (er_finished_at r) + 60"
  shows "gate (snd (apply_result r u la)) now in_flight \<noteq> None"
proof -
  obtain la1 where "apply_result r u la = apply_kind (er_kind r) (er_finished_at r) u la1"
    by (simp add: apply_result_def Let_def)
  moreover have "gate (snd (apply_kind (er_kind r) (er_finished_at r) u la1)) now in_flight \<noteq> None"
  proof (cases "er_kind r")
    case (EK_RowChanged f)
    then show ?thesis using assms
      by (cases f) (simp_all add: apply_kind_def changes_nothing_def counted_from_def store_unavailable_def Let_def
          scheduled_gate stopped_gate del: not_None_eq)
  next
    case (EK_Pending sp e)
    then show ?thesis by (simp add: apply_kind_def hold_successor_def note_persist_failure_def gate_def)
  qed (use assms in \<open>simp_all add: apply_kind_def changes_nothing_def counted_from_def scheduled_gate persisted_gate
         apply_failure_gate del: not_None_eq\<close>)
  ultimately show ?thesis by simp
qed

definition example_auth :: LegacyAuth where
  "example_auth = (inert Global)\<lparr>la_access_token := ''a'', la_refresh_token := ''r''\<rparr>"

definition example_result :: "ExchangeKind \<Rightarrow> ExchangeResult" where
  "example_result k = \<lparr>er_kind = k, er_input = 7, er_sent_at = Some 1800000000, er_finished_at = 1800000005,
     er_server_date = None, er_pending_close = None\<rparr>"

theorem result_spaces_requests_witness:
  "gate (snd (apply_result (example_result (EK_NotSent RT_Network)) (F_Fin 0) example_auth)) 1800000064 False \<noteq> None"
  by (rule result_spaces_requests)
     (simp_all add: example_result_def changes_nothing_def plausible_time_def counted_from_def)

section \<open>Sign-in is asked for exactly when the token was consumed\<close>

lemma schedule_retry_stop [simp]: "la_stop (schedule_retry reason plan now u la) = la_stop la"
  by (simp add: schedule_retry_def case_prod_beta)

lemma set_stop_fields [simp]:
  "la_stop (set_stop x la) = Some x" "la_retry_at (set_stop x la) = None"
  by (simp_all add: set_stop_def)

text \<open>The classes an answer is given that is neither a success nor unsent.\<close>

definition failed_class :: "AttemptClass \<Rightarrow> bool" where
  "failed_class c \<longleftrightarrow> c \<notin> {AC_NotSent, AC_Rotated, AC_NotRotated}"

lemma consumed_failure:
  assumes "failed_class c" "consumes_input c"
  shows "\<exists>reason la1. snd (apply_failure c e st ra now u la) = set_stop (Stop_SignInRequired reason) la1"
  using assms by (cases c) (auto simp: failed_class_def apply_failure_def Let_def)

lemma unconsumed_failure:
  assumes "failed_class c" "\<not> consumes_input c"
  shows "la_stop (snd (apply_failure c e st ra now u la)) = la_stop la
    \<or> (\<exists>reason. la_stop (snd (apply_failure c e st ra now u la)) = Some (Stop_ApiRefused reason))"
  using assms by (cases c) (simp_all add: failed_class_def apply_failure_def Let_def)

text \<open>
  C37: an answer makes the unit ask for a new sign-in exactly when it consumed the refresh token
  without leaving a successor. Such a stop ends the pending retry and closes the gate for good.
  Any other failed answer leaves the stop as it was, or reports that the API refuses the account,
  which a retry by the owner lifts.
\<close>
theorem sign_in_exactly_when_consumed:
  assumes "failed_class c" and "\<nexists>reason. la_stop la = Some (Stop_SignInRequired reason)"
    and la': "la' = snd (apply_failure c e st ra now u la)"
  shows "((\<exists>reason. la_stop la' = Some (Stop_SignInRequired reason)) \<longleftrightarrow> consumes_input c)
    \<and> (consumes_input c \<longrightarrow> la_retry_at la' = None \<and> (\<forall>t b. gate la' t b \<noteq> None))
    \<and> (\<not> consumes_input c \<longrightarrow> la_stop la' = la_stop la
         \<or> (\<exists>reason. la_stop la' = Some (Stop_ApiRefused reason) \<and> lifted_by_owner_retry (Stop_ApiRefused reason)))"
proof (cases "consumes_input c")
  case True
  then obtain reason la1 where "la' = set_stop (Stop_SignInRequired reason) la1"
    unfolding la' using consumed_failure [OF assms(1)] by blast
  then show ?thesis using True stopped_gate by auto
next
  case False
  then show ?thesis unfolding la' using assms(2) unconsumed_failure [OF assms(1) False, of e st ra now u la] by auto
qed

theorem sign_in_exactly_when_consumed_witness:
  "\<exists>reason. la_stop (snd (apply_failure AC_Unknown LE_Transport (Some 500) None 1800000005 (F_Fin 0) example_auth))
     = Some (Stop_SignInRequired reason)"
  using sign_in_exactly_when_consumed [of AC_Unknown example_auth _ LE_Transport "Some 500" None 1800000005 "F_Fin 0"]
  by (simp add: failed_class_def example_auth_def inert_def)

section \<open>The gate\<close>

lemma gate_until:
  assumes "gate la now b = Some (BL_Until t)"
  shows "t \<in> set (time_gates la)" "now < t" "\<forall>t'\<in>set (time_gates la). t' \<le> t"
    "la_pending_successor la = None" "la_pending_close la = None" "la_token_endpoint la \<noteq> None" "clock_is_valid now"
proof -
  let ?late = "filter (\<lambda>until. until > now) (time_gates la)"
  have "?late \<noteq> [] \<and> t = Max (set ?late)"
    using assms by (auto simp: gate_def Max.set_eq_fold [symmetric] simp del: set_filter split: if_splits list.splits)
  then have t: "t \<in> set ?late" "\<And>t'. t' \<in> set ?late \<Longrightarrow> t' \<le> t"
    using Max_in [of "set ?late"] Max_ge [of "set ?late"] by (auto simp del: set_filter)
  show "t \<in> set (time_gates la)" "now < t" using t(1) by simp_all
  then show "\<forall>t'\<in>set (time_gates la). t' \<le> t" using t(2) by force
qed (use assms in \<open>auto simp: gate_def split: if_splits list.splits\<close>)

text \<open>
  C38: the gate opens exactly when no exchange runs, nothing is pending, no stop is in effect,
  there is an endpoint to ask, the clock is trusted and every wait is over. A time the gate names
  is the last of the waits, and at that time the gate is open unless a stop took effect.
\<close>
theorem gate_exact:
  "(gate la now in_flight = None \<longleftrightarrow>
      \<not> in_flight \<and> la_pending_successor la = None \<and> la_pending_close la = None \<and> effective_stop la now = None
      \<and> la_token_endpoint la \<noteq> None \<and> clock_is_valid now \<and> list_all (\<lambda>t. t \<le> now) (time_gates la))
   \<and> (gate la now in_flight = Some (BL_Until t) \<longrightarrow>
        now < t \<and> t \<in> set (time_gates la) \<and> (gate la t False = None \<longleftrightarrow> effective_stop la t = None))"
proof -
  have open_iff: "gate la n b = None \<longleftrightarrow>
      \<not> b \<and> la_pending_successor la = None \<and> la_pending_close la = None \<and> effective_stop la n = None
      \<and> la_token_endpoint la \<noteq> None \<and> clock_is_valid n \<and> (\<forall>t \<in> set (time_gates la). t \<le> n)" for n b
    by (auto simp: gate_def filter_empty_conv not_less filter_eq_Cons_iff split: list.splits)
  have "gate la t False = None \<longleftrightarrow> effective_stop la t = None" if "gate la now in_flight = Some (BL_Until t)"
    using gate_until [OF that] unfolding open_iff by (auto simp: clock_is_valid_def)
  then show ?thesis using gate_until(1,2) [of la now in_flight t] by (simp add: open_iff list_all_iff)
qed

definition waiting_auth :: LegacyAuth where
  "waiting_auth = example_auth\<lparr>la_token_endpoint := Some (Pinned_Url GLOBAL_TOKEN_ENDPOINT), la_retry_at := Some 1800000060,
     la_retry_reason := Some RT_TeslaUnavailable\<rparr>"

theorem gate_exact_witness:
  "gate waiting_auth 1800000000 False = Some (BL_Until 1800000060) \<and> gate waiting_auth 1800000060 False = None"
proof -
  have "gate waiting_auth 1800000000 False = Some (BL_Until 1800000060)" by code_simp
  moreover have "effective_stop waiting_auth 1800000060 = None" by code_simp
  ultimately show ?thesis using gate_exact [of waiting_auth 1800000000 False 1800000060] by blast
qed

section \<open>The token handed out, the status and the stored pair\<close>

text \<open>
  C39: the access token is handed out only while the published status says that the unit
  collects.
\<close>
theorem token_only_while_collecting:
  assumes "token_available la now = Inr ()"
  shows "st_collecting (derive_full_status la now g mode in_flight fuse holder)
    \<and> clock_is_valid now \<and> is_usable la now"
proof -
  have facts: "clock_is_valid now" "is_usable la now" "\<not> la_observer_rejected la"
      "option_filter blocks_requests (effective_stop la now) = None"
      "option_filter (\<lambda>until. now < until) (la_hold_until la) = None"
    using assms by (auto simp: token_available_def split: if_splits option.splits)
  then have stop: "effective_stop la now = None \<or> (\<exists>r. effective_stop la now = Some (Stop_SignInRequired r))"
    by (cases "effective_stop la now") (auto simp: option_filter_def split: if_splits elim: blocks_requests.elims)
  have "st_collecting (derive_status la now g mode in_flight fuse)"
    using stop facts(1,2) by (auto simp: derive_status_def Let_def status_stopped_def with_usability_def
        status_idle_def status_ready_def split: option.splits)
  then show ?thesis using facts
    by (auto simp: derive_full_status_def Let_def option_filter_def split: option.splits)
qed

theorem token_only_while_collecting_witness:
  "st_collecting (derive_full_status example_auth 1800000000 7 SM_Legacy False fuse_default HK_Managed)"
proof -
  have "token_available example_auth 1800000000 = Inr ()"
    by (simp add: example_auth_def inert_def token_available_def effective_stop_def is_usable_def option_filter_def
        clock_is_valid_def CLOCK_FLOOR_EPOCH_SECONDS_def)
  from token_only_while_collecting [OF this] show ?thesis by blast
qed

fun apply_results :: "(ExchangeResult \<times> f64) list \<Rightarrow> LegacyAuth \<Rightarrow> LegacyAuth" where
  "apply_results [] la = la"
| "apply_results ((r, u) # rs) la = apply_results rs (snd (apply_result r u la))"

lemma apply_results_wf: "auth_wf la \<Longrightarrow> auth_wf (apply_results rs la)"
  by (induction rs la rule: apply_results.induct) (auto intro: apply_result_wf prod.collapse [symmetric])

text \<open>
  the status derived from a loaded pair, after any sequence of exchange results and at any
  time, is a consistent one: the row it is written to reads back as the same status.
\<close>
theorem derived_status_reads_back:
  assumes "from_persisted_state cd url_parse access refresh expires next config = Inr la" "fuse_is_consistent fuse"
  shows "from_row (to_row (derive_full_status (apply_results rs la) now g mode in_flight fuse holder))
    = Inr (derive_full_status (apply_results rs la) now g mode in_flight fuse holder)"
  using from_persisted_state_wf [OF assms(1)] assms(2)
  by (simp add: from_row_to_row derive_full_status_consistent apply_results_wf)

definition example_loaded :: "LegacyAuthError + LegacyAuth" where
  "example_loaded = from_persisted_state no_codec (\<lambda>_. None) ''opaque'' ''refresh'' 0 0
     \<lparr>aec_mode = Tesla, aec_region = Some China, aec_token_url = None, aec_allow_loopback_http = False\<rparr>"

lemma example_loads:
  "from_persisted_state no_codec (\<lambda>_. None) ''opaque'' ''refresh'' 0 0
     \<lparr>aec_mode = Tesla, aec_region = Some China, aec_token_url = None, aec_allow_loopback_http = False\<rparr>
   = Inr (projr example_loaded)"
proof -
  have "\<not> isl example_loaded" by code_simp
  then show ?thesis unfolding example_loaded_def by simp
qed

theorem derived_status_reads_back_witness:
  "from_row (to_row (derive_full_status
       (apply_results [(example_result (EK_NotSent RT_Network), F_Fin 0)] (projr example_loaded))
       1800000010 7 SM_Legacy False fuse_default HK_Managed))
   = Inr (derive_full_status
       (apply_results [(example_result (EK_NotSent RT_Network), F_Fin 0)] (projr example_loaded))
       1800000010 7 SM_Legacy False fuse_default HK_Managed)"
  by (rule derived_status_reads_back [OF example_loads fuse_default_consistent])

text \<open>
  the view of a stored pair that status queries use agrees with the authority loaded from it:
  the authority loads only a pair that passes the grammar check, with the same end of use. A pair
  whose schedule is not that of a refreshed one is due at once where it can be refreshed.
\<close>
theorem loaded_pair_matches_view:
  assumes "from_persisted_state cd url_parse access refresh expires next config = Inr la"
  shows "stored_pair_passes_grammar access refresh (case aec_mode config of Tesla \<Rightarrow> SM_Legacy | Provider \<Rightarrow> SM_Provider)
    \<and> la_usable_until la = stored_usable_until cd access expires next
    \<and> (\<not> (0 < next \<and> next < expires) \<longrightarrow> la_refresh_token la \<noteq> [] \<longrightarrow> is_due la now)"
  using assms
  by (auto simp: from_persisted_state_def Let_def select_endpoint_def stored_pair_passes_grammar_def
      stored_usable_until_def usable_until_of_def is_due_def classify_stored_schedule_def
      split: sum.splits AuthMode.splits if_splits)

theorem loaded_pair_matches_view_witness:
  "is_due (projr example_loaded) 1800000000 \<and> la_usable_until (projr example_loaded) = stored_usable_until no_codec ''opaque'' 0 0"
proof -
  have "la_refresh_token (projr example_loaded) = ''refresh''" by code_simp
  then show ?thesis
    using loaded_pair_matches_view [OF example_loads, of 1800000000] by simp
qed

end
