(* ===== verification/Auth_Fuse.thy ===== *)
theory Auth_Fuse
  imports Auth_Authority "HOL-Library.Mapping"
begin

text \<open>
  The rejection fuse of the credential unit (\<^verbatim>\<open>src/auth/legacy_auth/rejection.rs\<close>): what a 401 of
  the Owner API means for the account. The lemmas show what has to happen before the fuse signs an
  account out, that the stored values of the fuse survive a restart and are always consistent,
  that confirmation reads are spaced, and that one car's 401 never counts against the account.
\<close>

section \<open>Requests, contexts and actions\<close>

definition REJECTION_PAUSE_SECONDS :: int where [hub_consts]: "REJECTION_PAUSE_SECONDS = 300"
definition CONFIRMATION_SPACING_SECONDS :: int where [hub_consts]: "CONFIRMATION_SPACING_SECONDS = 60"
definition MAX_CONFIRMATION_ERRORS :: nat where [hub_consts]: "MAX_CONFIRMATION_ERRORS = 8"

type_synonym VehicleId = nat

datatype RequestScope = Scope_Account | Scope_Vehicle VehicleId | Scope_Action VehicleId

fun scope_vehicle :: "RequestScope \<Rightarrow> VehicleId option" where
  "scope_vehicle Scope_Account = None"
| "scope_vehicle (Scope_Vehicle v) = Some v"
| "scope_vehicle (Scope_Action v) = Some v"

record RejectionContext =
  ctx_scope :: RequestScope
  ctx_generation :: uuid
  ctx_current :: uuid
  ctx_token_usable :: bool
  ctx_remedy_pending :: bool
  ctx_refresh_possible :: bool
  ctx_holder :: HolderKind
  ctx_access_digest :: uuid
  ctx_sign_in :: "SignOutReason option"

datatype RejectionAction =
    RA_RetryWithCurrent
  | RA_NotCounted
  | RA_Coalesced
  | RA_VehicleRejected VehicleId
  | RA_Confirm
  | RA_ForceRefreshThenRetry
  | RA_PauseThenRefresh int
  | RA_PauseThenConfirm int
  | RA_Stop SignOutReason
  | RA_ObserverWait

record ConfirmationState =
  cf_last_started_at :: "int option"
  cf_in_flight :: bool

text \<open>
  The error type of the Owner API is a parameter: the fuse keeps such values and never looks at
  one. The counter armed by the collector is a callback; what the fuse holds of it is whether one
  is armed.
\<close>

record 'err LegacyAuthFuse =
  fu_rejected_generation :: "uuid option"
  fu_consecutive :: nat
  fu_last_rejection_at :: "int option"
  fu_pause_until :: "int option"
  fu_rejected_access :: "uuid option"
  fu_vehicle_rejected :: "(VehicleId, uuid) mapping"
  fu_stream_cleared_generation :: "uuid option"
  fu_confirmation :: ConfirmationState
  fu_blown :: bool
  fu_last_account_generation :: "uuid option"
  fu_confirmations_unreported :: nat
  fu_confirmation_errors :: "'err list"
  fu_send_counter :: bool
  fu_sends :: nat

definition fuse_new :: "'err LegacyAuthFuse" where
  "fuse_new =
     \<lparr>fu_rejected_generation = None, fu_consecutive = 0, fu_last_rejection_at = None, fu_pause_until = None,
      fu_rejected_access = None, fu_vehicle_rejected = Mapping.empty, fu_stream_cleared_generation = None,
      fu_confirmation = \<lparr>cf_last_started_at = None, cf_in_flight = False\<rparr>, fu_blown = False,
      fu_last_account_generation = None, fu_confirmations_unreported = 0, fu_confirmation_errors = [],
      fu_send_counter = False, fu_sends = 0\<rparr>"

section \<open>Stored values\<close>

definition from_snapshot :: "FuseSnapshot \<Rightarrow> 'err LegacyAuthFuse" where
  "from_snapshot s = fuse_new
     \<lparr>fu_rejected_generation := fs_generation s, fu_consecutive := min (fs_consecutive s) FUSE_LIMIT,
      fu_last_rejection_at := fs_last_rejection_at s, fu_pause_until := fs_pause_until s,
      fu_rejected_access := fs_rejected_access s\<rparr>"

definition snapshot :: "'err LegacyAuthFuse \<Rightarrow> FuseSnapshot" where
  "snapshot f =
     \<lparr>fs_consecutive = fu_consecutive f, fs_generation = fu_rejected_generation f,
      fs_last_rejection_at = fu_last_rejection_at f, fs_pause_until = fu_pause_until f,
      fs_rejected_access = fu_rejected_access f\<rparr>"

definition is_blown :: "'err LegacyAuthFuse \<Rightarrow> bool" where
  "is_blown f = fu_blown f"

definition note_stop :: "bool \<Rightarrow> 'err LegacyAuthFuse \<Rightarrow> 'err LegacyAuthFuse" where
  "note_stop stopped f = f\<lparr>fu_blown := stopped\<rparr>"

definition clear_pause :: "'err LegacyAuthFuse \<Rightarrow> 'err LegacyAuthFuse" where
  "clear_pause f = f\<lparr>fu_pause_until := None\<rparr>"

definition fuse_reset :: "'err LegacyAuthFuse \<Rightarrow> 'err LegacyAuthFuse" where
  "fuse_reset f = f\<lparr>fu_rejected_generation := None, fu_consecutive := 0, fu_last_rejection_at := None,
     fu_pause_until := None, fu_rejected_access := None, fu_vehicle_rejected := Mapping.empty,
     fu_stream_cleared_generation := None, fu_blown := False\<rparr>"

section \<open>Answers\<close>

definition record_success :: "uuid \<Rightarrow> RequestScope \<Rightarrow> 'err LegacyAuthFuse \<Rightarrow> 'err LegacyAuthFuse" where
  "record_success generation scope f0 =
     (let f = f0\<lparr>fu_rejected_generation := None, fu_consecutive := 0, fu_last_rejection_at := None,
                 fu_pause_until := None, fu_rejected_access := None\<rparr>
      in case scope_vehicle scope of
           Some vehicle \<Rightarrow> f\<lparr>fu_vehicle_rejected := Mapping.delete vehicle (fu_vehicle_rejected f)\<rparr>
         | None \<Rightarrow> f)"

definition window_open_since :: "'err LegacyAuthFuse \<Rightarrow> int \<Rightarrow> bool" where
  "window_open_since f now \<longleftrightarrow>
     (case fu_last_rejection_at f of None \<Rightarrow> False | Some t \<Rightarrow> rejection_window_open t now)"

definition count_rejection ::
  "int \<Rightarrow> RejectionContext \<Rightarrow> 'err LegacyAuthFuse \<Rightarrow> RejectionAction \<times> 'err LegacyAuthFuse" where
  "count_rejection now ctx f0 =
     (let f1 = (if (case fu_last_rejection_at f0 of None \<Rightarrow> False | Some t \<Rightarrow> \<not> rejection_window_open t now)
                then f0\<lparr>fu_consecutive := 0\<rparr> else f0);
          f2 = f1\<lparr>fu_consecutive := min (u8_saturating_add (fu_consecutive f1) 1) FUSE_LIMIT,
                  fu_rejected_generation := Some (ctx_generation ctx), fu_last_rejection_at := Some now\<rparr>;
          pause = saturating_add now REJECTION_PAUSE_SECONDS;
          (action, f) =
            (case ctx_holder ctx of
               HK_Observer \<Rightarrow> (RA_ObserverWait, f2)
             | HK_AccessTokenOnly \<Rightarrow>
                 (if fu_consecutive f2 = 1 then (RA_PauseThenConfirm pause, f2\<lparr>fu_pause_until := Some pause\<rparr>)
                  else (RA_Stop SO_ProviderTokenRejected, f2))
             | HK_Managed \<Rightarrow>
                 (case ctx_sign_in ctx of
                    Some reason \<Rightarrow> (RA_Stop reason, f2)
                  | None \<Rightarrow>
                      (if fu_consecutive f2 = 1 then (RA_ForceRefreshThenRetry, f2)
                       else if fu_consecutive f2 = 2
                       then (RA_PauseThenRefresh pause, f2\<lparr>fu_pause_until := Some pause\<rparr>)
                       else (RA_Stop SO_AccessTokenRejected, f2))))
      in (action,
          case action of
            RA_Stop _ \<Rightarrow> f\<lparr>fu_rejected_access := None, fu_blown := True\<rparr>
          | _ \<Rightarrow> f\<lparr>fu_rejected_access := Some (ctx_access_digest ctx)\<rparr>))"

definition vehicle_steps ::
  "int \<Rightarrow> RejectionContext \<Rightarrow> 'err LegacyAuthFuse \<Rightarrow> RejectionAction \<times> 'err LegacyAuthFuse" where
  "vehicle_steps now ctx f =
     (case scope_vehicle (ctx_scope ctx) of
        Some vehicle \<Rightarrow>
          (if Mapping.lookup (fu_vehicle_rejected f) vehicle = Some (ctx_generation ctx)
           then (RA_VehicleRejected vehicle, f)
           else (RA_Confirm, f))
      | None \<Rightarrow> count_rejection now ctx f)"

definition record_rejection ::
  "int \<Rightarrow> RejectionContext \<Rightarrow> 'err LegacyAuthFuse \<Rightarrow> RejectionAction \<times> 'err LegacyAuthFuse" where
  "record_rejection now ctx f =
     (if ctx_generation ctx \<noteq> ctx_current ctx then (RA_RetryWithCurrent, f)
      else if \<not> ctx_token_usable ctx \<or> ctx_remedy_pending ctx then (RA_NotCounted, f)
      else if fu_rejected_generation f = Some (ctx_generation ctx) \<and> window_open_since f now
      then (let pause_over = (ctx_holder ctx = HK_AccessTokenOnly
                    \<and> (case fu_pause_until f of None \<Rightarrow> False | Some until \<Rightarrow> now \<ge> until))
            in if \<not> pause_over then (RA_Coalesced, f)
               else if ctx_scope ctx = Scope_Account
               then (RA_Stop SO_ProviderTokenRejected, f\<lparr>fu_blown := True\<rparr>)
               else vehicle_steps now ctx f)
      else vehicle_steps now ctx f)"

section \<open>Confirmation reads and marks\<close>

definition u32_saturating_add :: "nat \<Rightarrow> nat \<Rightarrow> nat" where
  "u32_saturating_add a b = min (2 ^ 32 - 1) (a + b)"

definition begin_confirmation :: "int \<Rightarrow> 'err LegacyAuthFuse \<Rightarrow> (int + unit) \<times> 'err LegacyAuthFuse" where
  "begin_confirmation now f =
     (let started_now = (Inr (), f\<lparr>fu_confirmation := \<lparr>cf_last_started_at = Some now, cf_in_flight = True\<rparr>,
            fu_confirmations_unreported := u32_saturating_add (fu_confirmations_unreported f) 1\<rparr>)
      in case cf_last_started_at (fu_confirmation f) of
           Some started \<Rightarrow>
             (let next = saturating_add started CONFIRMATION_SPACING_SECONDS
              in if cf_in_flight (fu_confirmation f) \<or> now < next then (Inl next, f) else started_now)
         | None \<Rightarrow> started_now)"

definition confirmation_retry_at :: "'err LegacyAuthFuse \<Rightarrow> int option" where
  "confirmation_retry_at f =
     map_option (\<lambda>started. saturating_add started CONFIRMATION_SPACING_SECONDS) (cf_last_started_at (fu_confirmation f))"

definition finish_confirmation :: "'err LegacyAuthFuse \<Rightarrow> 'err LegacyAuthFuse" where
  "finish_confirmation f = f\<lparr>fu_confirmation := (fu_confirmation f)\<lparr>cf_in_flight := False\<rparr>\<rparr>"

definition mark_vehicle_rejected :: "VehicleId \<Rightarrow> uuid \<Rightarrow> 'err LegacyAuthFuse \<Rightarrow> 'err LegacyAuthFuse" where
  "mark_vehicle_rejected vehicle generation f =
     f\<lparr>fu_vehicle_rejected := Mapping.update vehicle generation (fu_vehicle_rejected f)\<rparr>"

definition note_stream_cleared :: "uuid \<Rightarrow> 'err LegacyAuthFuse \<Rightarrow> 'err LegacyAuthFuse" where
  "note_stream_cleared generation f = f\<lparr>fu_stream_cleared_generation := Some generation\<rparr>"

definition stream_cleared :: "uuid \<Rightarrow> 'err LegacyAuthFuse \<Rightarrow> bool" where
  "stream_cleared generation f \<longleftrightarrow> fu_stream_cleared_generation f = Some generation"

definition last_account_generation :: "'err LegacyAuthFuse \<Rightarrow> uuid option" where
  "last_account_generation f = fu_last_account_generation f"

definition note_account_generation :: "uuid \<Rightarrow> 'err LegacyAuthFuse \<Rightarrow> 'err LegacyAuthFuse" where
  "note_account_generation generation f = f\<lparr>fu_last_account_generation := Some generation\<rparr>"

definition take_confirmation_count :: "'err LegacyAuthFuse \<Rightarrow> nat \<times> 'err LegacyAuthFuse" where
  "take_confirmation_count f = (fu_confirmations_unreported f, f\<lparr>fu_confirmations_unreported := 0\<rparr>)"

definition arm_send_counter :: "'err LegacyAuthFuse \<Rightarrow> 'err LegacyAuthFuse" where
  "arm_send_counter f = f\<lparr>fu_send_counter := True, fu_sends := 0\<rparr>"

definition disarm_send_counter :: "'err LegacyAuthFuse \<Rightarrow> nat \<times> 'err LegacyAuthFuse" where
  "disarm_send_counter f = (fu_sends f, f\<lparr>fu_send_counter := False, fu_sends := 0\<rparr>)"

definition note_send :: "'err LegacyAuthFuse \<Rightarrow> 'err LegacyAuthFuse" where
  "note_send f = f\<lparr>fu_sends := u32_saturating_add (fu_sends f) 1\<rparr>"

definition note_confirmation_error :: "'err \<Rightarrow> 'err LegacyAuthFuse \<Rightarrow> 'err LegacyAuthFuse" where
  "note_confirmation_error error f =
     (if length (fu_confirmation_errors f) < MAX_CONFIRMATION_ERRORS
      then f\<lparr>fu_confirmation_errors := fu_confirmation_errors f @ [error]\<rparr> else f)"

definition take_confirmation_errors :: "'err LegacyAuthFuse \<Rightarrow> 'err list \<times> 'err LegacyAuthFuse" where
  "take_confirmation_errors f = (fu_confirmation_errors f, f\<lparr>fu_confirmation_errors := []\<rparr>)"

section \<open>Counting\<close>

named_theorems fuse_ops \<open>operations of the fuse that do not count\<close>

declare note_stop_def [fuse_ops] clear_pause_def [fuse_ops] finish_confirmation_def [fuse_ops]
  mark_vehicle_rejected_def [fuse_ops] note_stream_cleared_def [fuse_ops] note_account_generation_def [fuse_ops]
  arm_send_counter_def [fuse_ops] note_send_def [fuse_ops] note_confirmation_error_def [fuse_ops]

definition counted :: "int \<Rightarrow> 'err LegacyAuthFuse \<Rightarrow> nat" where
  "counted now f = min (if window_open_since f now \<or> fu_last_rejection_at f = None then fu_consecutive f + 1 else 1) FUSE_LIMIT"

lemma count_rejection_counts:
  assumes "count_rejection now ctx f = (a, f')" "fu_consecutive f \<le> FUSE_LIMIT"
  shows "fu_consecutive f' = counted now f" "fu_rejected_generation f' = Some (ctx_generation ctx)"
    "fu_last_rejection_at f' = Some now"
  using assms by (auto simp: count_rejection_def Let_def counted_def window_open_since_def u8_saturating_add_def
      FUSE_LIMIT_def split: option.splits HolderKind.splits if_splits prod.splits)

lemma count_rejection_access:
  assumes "count_rejection now ctx f = (a, f')"
  shows "fu_rejected_access f' = (if \<exists>r. a = RA_Stop r then None else Some (ctx_access_digest ctx))"
  using assms by (auto simp: count_rejection_def Let_def split: option.splits HolderKind.splits if_splits prod.splits)

lemma count_rejection_managed:
  assumes "count_rejection now ctx f = (a, f')" "ctx_holder ctx = HK_Managed" "ctx_sign_in ctx = None"
    "fu_consecutive f \<le> FUSE_LIMIT"
  shows "a = (if counted now f = 1 then RA_ForceRefreshThenRetry
              else if counted now f = 2 then RA_PauseThenRefresh (saturating_add now REJECTION_PAUSE_SECONDS)
              else RA_Stop SO_AccessTokenRejected)"
  using assms by (auto simp: count_rejection_def Let_def counted_def window_open_since_def u8_saturating_add_def
      FUSE_LIMIT_def split: option.splits if_splits prod.splits)

text \<open>A 401 is either counted or changes nothing but the flag of a stop.\<close>

definition counts :: "int \<Rightarrow> RejectionContext \<Rightarrow> 'err LegacyAuthFuse \<Rightarrow> bool" where
  "counts now ctx f \<longleftrightarrow> ctx_generation ctx = ctx_current ctx \<and> ctx_token_usable ctx \<and> \<not> ctx_remedy_pending ctx
     \<and> \<not> (fu_rejected_generation f = Some (ctx_generation ctx) \<and> window_open_since f now)
     \<and> ctx_scope ctx = Scope_Account"

lemma scope_vehicle_None: "scope_vehicle s = None \<longleftrightarrow> s = Scope_Account"
  by (cases s) simp_all

lemma record_rejection_cases:
  "record_rejection now ctx f = (a, f') \<Longrightarrow>
     (counts now ctx f \<and> count_rejection now ctx f = (a, f'))
     \<or> (\<not> counts now ctx f \<and> (f' = f \<and> (\<forall>r. a \<noteq> RA_Stop r)
          \<or> f' = f\<lparr>fu_blown := True\<rparr> \<and> a = RA_Stop SO_ProviderTokenRejected \<and> ctx_holder ctx = HK_AccessTokenOnly))"
  by (auto simp: record_rejection_def vehicle_steps_def counts_def Let_def scope_vehicle_None
      split: if_splits option.splits)

lemma snapshot_blown [simp]: "snapshot (f\<lparr>fu_blown := b\<rparr>) = snapshot f"
  by (simp add: snapshot_def)

lemma count_rejection_consistent:
  assumes "count_rejection now ctx f = (a, f')" "fuse_is_consistent (snapshot f)"
  shows "fuse_is_consistent (snapshot f')"
proof -
  have "fu_consecutive f \<le> FUSE_LIMIT" using assms(2) by (simp add: fuse_is_consistent_def snapshot_def)
  from count_rejection_counts [OF assms(1) this] show ?thesis
    by (simp add: fuse_is_consistent_def snapshot_def counted_def FUSE_LIMIT_def)
qed

section \<open>What a run of the fuse has seen\<close>

text \<open>
  The evidence of a run: the generation and the time of every rejection counted since the last
  success or reset, newest first. A rejection is counted by an account-wide 401, or by the 401 of a
  confirmation read that one car's 401 asked for, or that a stream rejection asked for; \<open>streams\<close>
  says whether the run has the last kind. A restart keeps the snapshot.
\<close>

inductive fuse_run :: "HolderKind \<Rightarrow> bool \<Rightarrow> 'err LegacyAuthFuse \<Rightarrow> (uuid \<times> int) list \<Rightarrow> bool" for holder streams where
  start: "fuse_run holder streams fuse_new []"
| rejected: "fuse_run holder streams f ev \<Longrightarrow> ctx_holder ctx = holder \<Longrightarrow> record_rejection now ctx f = (a, f')
    \<Longrightarrow> fuse_run holder streams f' (if counts now ctx f then (ctx_generation ctx, now) # ev else ev)"
| confirmed: "fuse_run holder streams f ev \<Longrightarrow> ctx_holder ctx = holder \<Longrightarrow> ctx_holder asked = holder
    \<Longrightarrow> ctx_generation asked = ctx_generation ctx \<Longrightarrow> asked_at \<le> now
    \<Longrightarrow> fst (record_rejection asked_at asked f) = RA_Confirm \<Longrightarrow> count_rejection now ctx f = (a, f')
    \<Longrightarrow> fuse_run holder streams f' ((ctx_generation ctx, now) # ev)"
| stream: "fuse_run holder streams f ev \<Longrightarrow> streams \<Longrightarrow> ctx_holder ctx = holder \<Longrightarrow> count_rejection now ctx f = (a, f')
    \<Longrightarrow> fuse_run holder streams f' ((ctx_generation ctx, now) # ev)"
| success: "fuse_run holder streams f ev \<Longrightarrow> fuse_run holder streams (record_success g scope f) []"
| reset: "fuse_run holder streams f ev \<Longrightarrow> fuse_run holder streams (fuse_reset f) []"
| restart: "fuse_run holder streams f ev \<Longrightarrow> fuse_run holder streams (from_snapshot (snapshot f)) ev"
| other: "fuse_run holder streams f ev \<Longrightarrow> snapshot f' = snapshot f \<or> f' = clear_pause f
    \<Longrightarrow> fuse_run holder streams f' ev"

text \<open>Each of the first \<open>k\<close> pieces of evidence stands in the relation \<open>R\<close> to the one after it.\<close>

definition chained :: "(uuid \<times> int \<Rightarrow> uuid \<times> int \<Rightarrow> bool) \<Rightarrow> nat \<Rightarrow> (uuid \<times> int) list \<Rightarrow> bool" where
  "chained R k ev \<longleftrightarrow> k \<le> length ev \<and> (\<forall>i < k - 1. R (ev ! Suc i) (ev ! i))"

definition within_window :: "uuid \<times> int \<Rightarrow> uuid \<times> int \<Rightarrow> bool" where
  "within_window older newer \<longleftrightarrow> rejection_window_open (snd older) (snd newer)"

definition new_generation :: "uuid \<times> int \<Rightarrow> uuid \<times> int \<Rightarrow> bool" where
  "new_generation older newer \<longleftrightarrow> within_window older newer \<and> fst older \<noteq> fst newer"

definition run_inv :: "(uuid \<times> int \<Rightarrow> uuid \<times> int \<Rightarrow> bool) \<Rightarrow> FuseSnapshot \<Rightarrow> (uuid \<times> int) list \<Rightarrow> bool" where
  "run_inv R s ev \<longleftrightarrow> fuse_is_consistent s
     \<and> (fs_last_rejection_at s = None \<longleftrightarrow> fs_consecutive s = 0)
     \<and> (fs_consecutive s > 0 \<longrightarrow> ev \<noteq> [] \<and> fs_generation s = Some (fst (hd ev)) \<and> fs_last_rejection_at s = Some (snd (hd ev)))
     \<and> chained R (fs_consecutive s) ev"

lemma chained_mono: "chained R k ev \<Longrightarrow> j \<le> k \<Longrightarrow> chained R j ev"
  by (auto simp: chained_def)

lemma chained_Cons: "chained R k ev \<Longrightarrow> 0 < k \<Longrightarrow> R (hd ev) e \<Longrightarrow> chained R (Suc k) (e # ev)"
  by (auto simp: chained_def nth_Cons hd_conv_nth less_Suc_eq_0_disj split: nat.splits) (cases ev; auto)

lemma count_run_inv:
  assumes "run_inv R (snapshot f) ev" "count_rejection now ctx f = (a, f')"
    and "window_open_since f now \<Longrightarrow> fu_consecutive f > 0 \<Longrightarrow> R (hd ev) (ctx_generation ctx, now)"
  shows "run_inv R (snapshot f') ((ctx_generation ctx, now) # ev)"
proof -
  let ?k = "fu_consecutive f"
  have inv: "?k \<le> FUSE_LIMIT" "fuse_is_consistent (snapshot f)" "fu_last_rejection_at f = None \<longleftrightarrow> ?k = 0"
      "?k > 0 \<longrightarrow> ev \<noteq> []" "chained R ?k ev"
    using assms(1) by (auto simp: run_inv_def fuse_is_consistent_def snapshot_def)
  note c = count_rejection_counts [OF assms(2) inv(1)]
  have "chained R (counted now f) ((ctx_generation ctx, now) # ev)"
  proof (cases "window_open_since f now \<and> ?k > 0")
    case True
    then have k: "counted now f = Suc (min ?k 2)" by (simp add: counted_def FUSE_LIMIT_def)
    have "chained R (min ?k 2) ev" using chained_mono [OF inv(5)] by simp
    then show ?thesis using assms(3) True unfolding k by (simp add: chained_Cons)
  next
    case False
    then have "counted now f = 1" using inv(3) by (auto simp: counted_def FUSE_LIMIT_def)
    then show ?thesis by (simp add: chained_def)
  qed
  moreover have "counted now f > 0" by (simp add: counted_def FUSE_LIMIT_def)
  ultimately show ?thesis
    using c count_rejection_consistent [OF assms(2) inv(2)] by (simp add: run_inv_def snapshot_def)
qed

lemma run_inv_start: "run_inv R (snapshot fuse_new) []" "run_inv R (snapshot (fuse_reset f)) []"
    "run_inv R (snapshot (record_success g scope f)) []"
  by (auto simp: run_inv_def snapshot_def fuse_new_def fuse_reset_def record_success_def Let_def fuse_is_consistent_def
      chained_def split: option.splits)

lemma snapshot_roundtrip: "fuse_is_consistent s \<Longrightarrow> snapshot (from_snapshot s) = s"
  by (simp add: snapshot_def from_snapshot_def fuse_is_consistent_def)

lemma run_inv_clear_pause: "run_inv R (snapshot (clear_pause f)) ev = run_inv R (snapshot f) ev"
  by (simp add: run_inv_def snapshot_def clear_pause_def fuse_is_consistent_def)

lemma window_open_newest:
  "run_inv R (snapshot f) ev \<Longrightarrow> fu_consecutive f > 0 \<Longrightarrow>
     window_open_since f now = within_window (hd ev) (g, now) \<and> fu_rejected_generation f = Some (fst (hd ev))"
  by (auto simp: run_inv_def snapshot_def window_open_since_def within_window_def)

lemma count_within:
  assumes "run_inv within_window (snapshot f) ev" "count_rejection now ctx f = (a, f')"
  shows "run_inv within_window (snapshot f') ((ctx_generation ctx, now) # ev)"
  using window_open_newest [OF assms(1)] by (intro count_run_inv [OF assms]) blast

lemma count_new:
  assumes "run_inv new_generation (snapshot f) ev" "count_rejection now ctx f = (a, f')"
    and "\<not> (fu_rejected_generation f = Some (ctx_generation ctx) \<and> window_open_since f now)"
  shows "run_inv new_generation (snapshot f') ((ctx_generation ctx, now) # ev)"
proof (rule count_run_inv [OF assms(1,2)])
  assume "window_open_since f now" "fu_consecutive f > 0"
  then show "new_generation (hd ev) (ctx_generation ctx, now)"
    using window_open_newest [OF assms(1), of now "ctx_generation ctx"] assms(3) by (auto simp: new_generation_def)
qed

lemma window_open_mono: "window_open_since f now \<Longrightarrow> earlier \<le> now \<Longrightarrow> window_open_since f earlier"
  by (auto simp: window_open_since_def rejection_window_open_def saturating_sub_def sat_i64_def i64_min_def i64_max_def
      FUSE_WINDOW_SECONDS_def split: option.splits if_splits)

lemma confirm_not_counted:
  assumes "fst (record_rejection now ctx f) = RA_Confirm" "ctx_holder ctx \<noteq> HK_AccessTokenOnly"
  shows "\<not> (fu_rejected_generation f = Some (ctx_generation ctx) \<and> window_open_since f now)"
  using assms by (auto simp: record_rejection_def split: if_splits)

text \<open>
  The two invariants of a run: the evidence behind the count lies within the window, and where no
  stream rejection is confirmed and the pair can be refreshed or observed, each piece of evidence
  is about another generation than the one before it.
\<close>

lemma fuse_run_inv:
  assumes "fuse_run holder streams f ev"
  shows "run_inv within_window (snapshot f) ev
    \<and> (\<not> streams \<longrightarrow> holder \<noteq> HK_AccessTokenOnly \<longrightarrow> run_inv new_generation (snapshot f) ev)"
  using assms
proof (induction rule: fuse_run.induct)
  case (rejected f ev ctx now a f')
  from record_rejection_cases [OF rejected.hyps(3)] show ?case
  proof (elim disjE conjE)
    assume c: "counts now ctx f" "count_rejection now ctx f = (a, f')"
    then show ?thesis using rejected.IH count_within [OF _ c(2)] count_new [OF _ c(2)] by (simp add: counts_def)
  qed (use rejected.IH in simp_all)
next
  case (confirmed f ev ctx asked asked_at now a f')
  have "\<not> (fu_rejected_generation f = Some (ctx_generation ctx) \<and> window_open_since f now)"
    if "holder \<noteq> HK_AccessTokenOnly"
    using confirm_not_counted [OF confirmed.hyps(6)] that confirmed.hyps(3,4)
      window_open_mono [OF _ confirmed.hyps(5)] by metis
  then show ?case using confirmed.IH count_within [OF _ confirmed.hyps(7)] count_new [OF _ confirmed.hyps(7)] by blast
next
  case (stream f ev ctx now a f')
  then show ?case using count_within by blast
next
  case (restart f ev)
  then show ?case by (metis run_inv_def snapshot_roundtrip)
next
  case (other f ev f')
  then show ?case by (metis run_inv_clear_pause)
qed (simp_all add: run_inv_start)

section \<open>Signing an account out\<close>

lemma stop_counts_three:
  assumes "count_rejection now ctx f = (RA_Stop r, f')" "ctx_holder ctx = HK_Managed" "ctx_sign_in ctx = None"
    "fu_consecutive f \<le> FUSE_LIMIT"
  shows "r = SO_AccessTokenRejected \<and> fu_consecutive f' = 3"
  using count_rejection_managed [OF assms] count_rejection_counts(1) [OF assms(1,4)]
  by (auto simp: counted_def FUSE_LIMIT_def split: if_splits)

lemma chained_three: "chained R 3 (e # ev) \<Longrightarrow> \<exists>e2 e1 rest. ev = e2 # e1 # rest \<and> R e1 e2 \<and> R e2 e"
  by (cases ev; cases "tl ev") (auto simp: chained_def nth_Cons' less_Suc_eq numeral_eq_Suc)

lemma run_inv_three: "run_inv R (snapshot f) (e # ev) \<Longrightarrow> fu_consecutive f = 3 \<Longrightarrow>
    \<exists>e2 e1 rest. ev = e2 # e1 # rest \<and> R e1 e2 \<and> R e2 e"
  by (rule chained_three) (simp add: run_inv_def snapshot_def)

lemma run_limit: "fuse_run holder streams f ev \<Longrightarrow> fu_consecutive f \<le> FUSE_LIMIT"
  using fuse_run_inv [of holder streams f ev] by (auto simp: run_inv_def snapshot_def fuse_is_consistent_def)

text \<open>
  The evidence of a rejection counted at \<open>now\<close>: an account-wide 401, or the confirmation read that
  one car's 401 asked for at an earlier reading of the clock.
\<close>

definition evidence ::
  "int \<Rightarrow> RejectionContext \<Rightarrow> 'err LegacyAuthFuse \<Rightarrow> RejectionAction \<times> 'err LegacyAuthFuse \<Rightarrow> bool" where
  "evidence now ctx f result \<longleftrightarrow>
     record_rejection now ctx f = result
     \<or> count_rejection now ctx f = result
       \<and> (\<exists>asked asked_at. ctx_holder asked = ctx_holder ctx \<and> ctx_generation asked = ctx_generation ctx
            \<and> asked_at \<le> now \<and> fst (record_rejection asked_at asked f) = RA_Confirm)"

lemma evidence_new:
  assumes "evidence now ctx f (RA_Stop r, f')" "ctx_holder ctx = HK_Managed"
  shows "\<not> (fu_rejected_generation f = Some (ctx_generation ctx) \<and> window_open_since f now)"
  using assms(1) unfolding evidence_def
proof (elim disjE conjE exE)
  assume "record_rejection now ctx f = (RA_Stop r, f')"
  from record_rejection_cases [OF this] show ?thesis using assms(2) by (auto simp: counts_def)
next
  fix asked asked_at
  assume "ctx_holder asked = ctx_holder ctx" "ctx_generation asked = ctx_generation ctx" "asked_at \<le> now"
    "fst (record_rejection asked_at asked f) = RA_Confirm"
  then show ?thesis using confirm_not_counted [of asked_at asked f] window_open_mono [of f now asked_at] assms(2) by auto
qed

text \<open>
  C8: an account that can be refreshed is signed out for a rejected access token only on the third
  rejection counted since the last success, each within an hour of the one before. Where no
  rejection came from a stream, so that each was an account-wide 401 or the 401 of a confirmation
  read that one car's 401 asked for (the clock not set back during that read), each of the three
  is about another credential generation than the one before it. The first and the third may be
  about the same generation.
\<close>
theorem sign_out_needs_three_rejections:
  assumes run: "fuse_run HK_Managed streams f ev" and ctx: "ctx_holder ctx = HK_Managed" "ctx_sign_in ctx = None"
    and stop: "record_rejection now ctx f = (RA_Stop r, f') \<or> count_rejection now ctx f = (RA_Stop r, f')"
  shows "r = SO_AccessTokenRejected
    \<and> (\<exists>e2 e1 rest. ev = e2 # e1 # rest \<and> within_window e1 e2 \<and> within_window e2 (ctx_generation ctx, now)
         \<and> (\<not> streams \<longrightarrow> evidence now ctx f (RA_Stop r, f') \<longrightarrow>
              fst e1 \<noteq> fst e2 \<and> fst e2 \<noteq> ctx_generation ctx))"
proof -
  have counted: "count_rejection now ctx f = (RA_Stop r, f')"
    using stop record_rejection_cases [of now ctx f "RA_Stop r" f'] ctx(1) by auto
  note three = stop_counts_three [OF counted ctx run_limit [OF run]]
  have "run_inv within_window (snapshot f') ((ctx_generation ctx, now) # ev)"
    using count_within [OF _ counted] fuse_run_inv [OF run] by blast
  from run_inv_three [OF this] three obtain e2 e1 rest where
    ev: "ev = e2 # e1 # rest" "within_window e1 e2" "within_window e2 (ctx_generation ctx, now)" by blast
  have "fst e1 \<noteq> fst e2 \<and> fst e2 \<noteq> ctx_generation ctx"
    if "\<not> streams" "evidence now ctx f (RA_Stop r, f')"
  proof -
    have "run_inv new_generation (snapshot f') ((ctx_generation ctx, now) # ev)"
      using count_new [OF _ counted evidence_new [OF that(2) ctx(1)]] fuse_run_inv [OF run] that(1) by auto
    from run_inv_three [OF this] three show ?thesis unfolding ev(1) by (auto simp: new_generation_def)
  qed
  then show ?thesis using three ev by blast
qed

definition example_context :: "uuid \<Rightarrow> RejectionContext" where
  "example_context g = \<lparr>ctx_scope = Scope_Account, ctx_generation = g, ctx_current = g, ctx_token_usable = True,
     ctx_remedy_pending = False, ctx_refresh_possible = True, ctx_holder = HK_Managed, ctx_access_digest = g,
     ctx_sign_in = None\<rparr>"

definition rejected_at :: "int \<Rightarrow> uuid \<Rightarrow> unit LegacyAuthFuse \<Rightarrow> unit LegacyAuthFuse" where
  "rejected_at now g f = snd (record_rejection now (example_context g) f)"

lemma rejected_at_run:
  assumes "fuse_run HK_Managed False f ev" "counts now (example_context g) f"
  shows "fuse_run HK_Managed False (rejected_at now g f) ((g, now) # ev)"
  using fuse_run.rejected [OF assms(1), of "example_context g" now "fst (record_rejection now (example_context g) f)"]
    assms(2) by (simp add: rejected_at_def example_context_def)

theorem sign_out_needs_three_rejections_witness:
  "\<exists>f' e2 e1 rest. record_rejection 1800000400 (example_context 3) (rejected_at 1800000100 2 (rejected_at 1800000000 1 fuse_new))
       = (RA_Stop SO_AccessTokenRejected, f') \<and> [(2, 1800000100), (1, 1800000000)] = e2 # e1 # rest \<and> fst e2 \<noteq> (3::uuid)"
proof -
  let ?f1 = "rejected_at 1800000000 1 fuse_new" let ?f2 = "rejected_at 1800000100 2 ?f1"
  have c: "counts 1800000000 (example_context 1) (fuse_new :: unit LegacyAuthFuse)" by code_simp
  have c2: "counts 1800000100 (example_context 2) ?f1" by code_simp
  have run: "fuse_run HK_Managed False ?f2 [(2, 1800000100), (1, 1800000000)]"
    by (intro rejected_at_run fuse_run.start c c2)
  have "fst (record_rejection 1800000400 (example_context 3) ?f2) = RA_Stop SO_AccessTokenRejected" by code_simp
  then obtain f' where stop: "record_rejection 1800000400 (example_context 3) ?f2 = (RA_Stop SO_AccessTokenRejected, f')"
    by (metis prod.collapse)
  from sign_out_needs_three_rejections [OF run, of "example_context 3" 1800000400] stop show ?thesis
    by (auto simp: example_context_def evidence_def)
qed

section \<open>One piece of evidence\<close>

text \<open>
  the same token is one piece of evidence. A 401 to one car's request changes no stored value of
  the fuse, whatever the state, and asks for nothing but a re-send, a wait or the confirmation read.
  A 401 that carries a replaced pair, an unusable token or a pair under remedy changes nothing, and
  within the window neither does one that carries a generation counted before.
\<close>
theorem rejection_counted_once:
  assumes "record_rejection now ctx f = (a, f')"
    and "ctx_scope ctx \<noteq> Scope_Account \<or> ctx_generation ctx \<noteq> ctx_current ctx \<or> \<not> ctx_token_usable ctx
      \<or> ctx_remedy_pending ctx
      \<or> ctx_holder ctx \<noteq> HK_AccessTokenOnly \<and> fu_rejected_generation f = Some (ctx_generation ctx) \<and> window_open_since f now"
  shows "f' = f \<and> a \<in> {RA_RetryWithCurrent, RA_NotCounted, RA_Coalesced, RA_Confirm} \<union> range RA_VehicleRejected"
  using assms by (auto simp: record_rejection_def vehicle_steps_def Let_def scope_vehicle_None
      split: if_splits option.splits)

theorem rejection_counted_once_witness:
  "snd (record_rejection 1800000100 (example_context 1) (rejected_at 1800000000 1 fuse_new)) = rejected_at 1800000000 1 fuse_new"
proof -
  let ?f = "rejected_at 1800000000 1 fuse_new"
  have "ctx_holder (example_context 1) \<noteq> HK_AccessTokenOnly \<and> fu_rejected_generation ?f = Some (ctx_generation (example_context 1))
    \<and> window_open_since ?f 1800000100" by code_simp
  then show ?thesis
    using rejection_counted_once [of 1800000100 "example_context 1" ?f "fst (record_rejection 1800000100 (example_context 1) ?f)"
        "snd (record_rejection 1800000100 (example_context 1) ?f)"]
    by simp
qed

section \<open>Restarts\<close>

lemma count_rejection_snapshot:
  fixes f g :: "'err LegacyAuthFuse"
  assumes "snapshot f = snapshot g"
  shows "fst (count_rejection now ctx f) = fst (count_rejection now ctx g)
    \<and> snapshot (snd (count_rejection now ctx f)) = snapshot (snd (count_rejection now ctx g))"
proof -
  have "fu_consecutive f = fu_consecutive g" "fu_last_rejection_at f = fu_last_rejection_at g"
      "fu_pause_until f = fu_pause_until g"
    using assms by (simp_all add: snapshot_def)
  then show ?thesis
    by (simp add: count_rejection_def Let_def snapshot_def split: HolderKind.splits option.splits)
qed

lemma record_rejection_snapshot:
  fixes f g :: "'err LegacyAuthFuse"
  assumes "snapshot f = snapshot g" "ctx_scope ctx = Scope_Account"
  shows "fst (record_rejection now ctx f) = fst (record_rejection now ctx g)"
proof -
  have "fu_rejected_generation f = fu_rejected_generation g" "fu_pause_until f = fu_pause_until g"
      "window_open_since f now = window_open_since g now"
    using assms(1) by (simp_all add: snapshot_def window_open_since_def)
  then show ?thesis
    using count_rejection_snapshot [OF assms(1), of now ctx] assms(2)
    by (simp add: record_rejection_def vehicle_steps_def Let_def)
qed

text \<open>
  C34: a restart does not help an account to evade the fuse. Whatever the unit saw, the fuse rebuilt
  from the stored values has the same values, counts the next rejection in the same way, and takes
  the same action on an account-wide 401.
\<close>
theorem fuse_survives_restart:
  fixes f g :: "'err LegacyAuthFuse"
  assumes "fuse_run holder streams f ev" and g: "g = from_snapshot (snapshot f)"
  shows "fuse_is_consistent (snapshot f) \<and> snapshot g = snapshot f
    \<and> fst (count_rejection now ctx g) = fst (count_rejection now ctx f)
    \<and> snapshot (snd (count_rejection now ctx g)) = snapshot (snd (count_rejection now ctx f))
    \<and> (ctx_scope ctx = Scope_Account \<longrightarrow> fst (record_rejection now ctx g) = fst (record_rejection now ctx f))"
proof -
  have ok: "fuse_is_consistent (snapshot f)" using fuse_run_inv [OF assms(1)] by (simp add: run_inv_def)
  then have same: "snapshot g = snapshot f" unfolding g by (rule snapshot_roundtrip)
  then show ?thesis using ok count_rejection_snapshot [OF same] record_rejection_snapshot [OF same] by blast
qed

theorem fuse_survives_restart_witness:
  "snapshot (from_snapshot (snapshot (rejected_at 1800000000 1 fuse_new)) :: unit LegacyAuthFuse)
     = snapshot (rejected_at 1800000000 1 fuse_new)"
proof -
  have c: "counts 1800000000 (example_context 1) (fuse_new :: unit LegacyAuthFuse)" by code_simp
  from fuse_survives_restart [OF rejected_at_run [OF fuse_run.start c] refl] show ?thesis by blast
qed

section \<open>Confirmation reads are spaced\<close>

datatype confirmation_event = CE_Begin int | CE_Finish

text \<open>The times at which reads started, newest first, after a sequence of events.\<close>

fun confirmation_run :: "confirmation_event list \<Rightarrow> 'err LegacyAuthFuse \<Rightarrow> int list \<Rightarrow> 'err LegacyAuthFuse \<times> int list" where
  "confirmation_run [] f started = (f, started)"
| "confirmation_run (CE_Finish # es) f started = confirmation_run es (finish_confirmation f) started"
| "confirmation_run (CE_Begin now # es) f started =
     (case begin_confirmation now f of
        (Inr _, f') \<Rightarrow> confirmation_run es f' (now # started)
      | (Inl _, f') \<Rightarrow> confirmation_run es f' started)"

fun spaced :: "int list \<Rightarrow> bool" where
  "spaced (t # t' # ts) = (t' + CONFIRMATION_SPACING_SECONDS \<le> t \<and> spaced (t' # ts))"
| "spaced _ = True"

definition begins_plausible :: "confirmation_event list \<Rightarrow> bool" where
  "begins_plausible es \<longleftrightarrow> list_all (\<lambda>e. case e of CE_Begin t \<Rightarrow> plausible_time t | CE_Finish \<Rightarrow> True) es"

lemma confirmation_run_spaced:
  assumes "confirmation_run es f started = (f', started')" "begins_plausible es"
    and "spaced started" "list_all plausible_time started"
    and "cf_last_started_at (fu_confirmation f) = (case started of [] \<Rightarrow> None | t # _ \<Rightarrow> Some t)"
  shows "spaced started'"
  using assms
proof (induction es f started rule: confirmation_run.induct)
  case (3 now es f started)
  then show ?case
    by (auto simp: begin_confirmation_def Let_def begins_plausible_def plausible_add
        CONFIRMATION_SPACING_SECONDS_def split: if_splits list.splits)
qed (auto simp: finish_confirmation_def begins_plausible_def)

text \<open>
  C35: however often requests ask for one, at most one confirmation read starts a minute: any two
  successive starts are at least sixty seconds apart.
\<close>
theorem confirmations_spaced:
  assumes "begins_plausible es"
  shows "spaced (snd (confirmation_run es fuse_new []))"
  by (rule confirmation_run_spaced [OF prod.collapse [symmetric] assms]) (simp_all add: fuse_new_def)

theorem confirmations_spaced_witness:
  "spaced (snd (confirmation_run [CE_Begin 1800000000, CE_Finish, CE_Begin 1800000059, CE_Begin 1800000060] (fuse_new :: unit LegacyAuthFuse) []))
   \<and> snd (confirmation_run [CE_Begin 1800000000, CE_Finish, CE_Begin 1800000059, CE_Begin 1800000060] (fuse_new :: unit LegacyAuthFuse) [])
       = [1800000060, 1800000000]"
proof -
  have "begins_plausible [CE_Begin 1800000000, CE_Finish, CE_Begin 1800000059, CE_Begin 1800000060]" by code_simp
  moreover have "snd (confirmation_run [CE_Begin 1800000000, CE_Finish, CE_Begin 1800000059, CE_Begin 1800000060]
      (fuse_new :: unit LegacyAuthFuse) []) = [1800000060, 1800000000]" by code_simp
  ultimately show ?thesis using confirmations_spaced [where ?'a = unit] by blast
qed

end
