(* ===== verification/Key_Files.thy ===== *)
theory Key_Files
  imports Auth_Attempt
begin

text \<open>
  The key files of the credential store (\<^verbatim>\<open>src/auth/teslamate_credentials.rs\<close>). SQLite and the
  file system share no transaction, so a replacement of the key and of the token pair keeps the
  old key until the pair is committed. Every file operation, every read and the store
  transaction may be refused, may take effect and still report an error, or may be the point at
  which the process dies. The programs are in the state monad over the directory, the store and
  these faults; \<^verbatim>\<open>Key_Recovery\<close> holds what is proved of them.
\<close>

section \<open>The secrets directory\<close>

definition MAX_KEY_BYTES :: nat where [hub_consts]: "MAX_KEY_BYTES = 16 * 1024"

text \<open>
  A file is safe when it is a regular file of the process owner with mode 0600. The temporary
  file has a fresh name for each replacement, so one cell is enough for it.
\<close>

record key_file =
  kf_safe :: bool
  kf_bytes :: string

datatype secrets_dir = SD_Missing | SD_Unsafe | SD_Safe

datatype key_path = KP_Current | KP_Previous | KP_Temporary

datatype io_fault = FT_None | FT_Refused | FT_Late | FT_Crash

text \<open>What outlives the process, and the process in its environment: the faults of the files and of the store.\<close>

record key_core =
  kc_dir :: secrets_dir
  kc_file :: "key_path \<Rightarrow> key_file option"
  kc_store :: store

record key_world =
  kw_core :: key_core
  kw_file_faults :: "nat \<Rightarrow> io_fault"
  kw_store_faults :: "nat \<Rightarrow> io_fault"
  kw_tick :: nat
  kw_dead :: bool

datatype TeslaMateCredentialError =
    KE_EmptyKey
  | KE_KeyTooLarge
  | KE_CreateSecretsDirectory
  | KE_InspectSecretsDirectory
  | KE_UnsafeSecretsDirectory
  | KE_InspectKey
  | KE_UnsafeKeyFile
  | KE_CreateTemporaryKey
  | KE_ProtectTemporaryKey
  | KE_WriteTemporaryKey
  | KE_SyncTemporaryKey
  | KE_ReplaceKey
  | KE_RemoveKey
  | KE_RestoreKey
  | KE_PendingKeyReplacement
  | KE_PendingKeyReplacementWithoutTokens
  | KE_NoMatchingKeyGeneration
  | KE_SettlementRefused
  | KE_OpenSecretsDirectory
  | KE_SyncSecretsDirectory
  | KE_ReadKey

datatype TeslaMateCredentialImportError =
    KI_Credential TeslaMateCredentialError
  | KI_TokenStore StoreError
  | KI_TokenCipher TeslaMateTokenError
  | KI_Rollback StoreError TeslaMateCredentialError

datatype TeslaMateCredentialRemovalError = KR_TokenStore StoreError | KR_Credential TeslaMateCredentialError

section \<open>Operations that can fail\<close>

text \<open>One operation: it takes effect, is refused, takes effect and reports an error, or the process dies before it.\<close>

definition io ::
  "(key_world \<Rightarrow> nat \<Rightarrow> io_fault) \<Rightarrow> 'e \<Rightarrow> (key_core \<Rightarrow> ('e + 'a) \<times> key_core) \<Rightarrow> (key_world, 'e + 'a) state" where
  "io faults err act = State (\<lambda>w.
     if kw_dead w then (Inl err, w)
     else (let w1 = w\<lparr>kw_tick := Suc (kw_tick w)\<rparr>; (r, c) = act (kw_core w)
           in case faults w (kw_tick w) of
                FT_None \<Rightarrow> (r, w1\<lparr>kw_core := c\<rparr>)
              | FT_Refused \<Rightarrow> (Inl err, w1)
              | FT_Late \<Rightarrow> (Inl err, w1\<lparr>kw_core := c\<rparr>)
              | FT_Crash \<Rightarrow> (Inl err, w1\<lparr>kw_dead := True\<rparr>)))"

abbreviation file_io :: "'e \<Rightarrow> (key_core \<Rightarrow> ('e + 'a) \<times> key_core) \<Rightarrow> (key_world, 'e + 'a) state" where
  "file_io \<equiv> io kw_file_faults"

abbreviation store_io :: "(key_core \<Rightarrow> (StoreError + 'a) \<times> key_core) \<Rightarrow> (key_world, StoreError + 'a) state" where
  "store_io \<equiv> io kw_store_faults SE_Fault"

text \<open>Rust's \<open>?\<close>: an error ends the function.\<close>

definition and_then :: "('w, 'e + 'a) state \<Rightarrow> ('a \<Rightarrow> ('w, 'e + 'b) state) \<Rightarrow> ('w, 'e + 'b) state" where
  "and_then m f = do { r \<leftarrow> m; (case r of Inl e \<Rightarrow> State_Monad.return (Inl e) | Inr x \<Rightarrow> f x) }"

abbreviation pass :: "'a \<Rightarrow> ('w, 'e + 'a) state" where
  "pass x \<equiv> State_Monad.return (Inr x)"

abbreviation fail :: "'e \<Rightarrow> ('w, 'e + 'a) state" where
  "fail e \<equiv> State_Monad.return (Inl e)"

definition map_error :: "('e \<Rightarrow> 'f) \<Rightarrow> ('w, 'e + 'a) state \<Rightarrow> ('w, 'f + 'a) state" where
  "map_error g m = do { r \<leftarrow> m; State_Monad.return (case r of Inl e \<Rightarrow> Inl (g e) | Inr x \<Rightarrow> Inr x) }"

definition path_exists :: "key_path \<Rightarrow> (key_world, TeslaMateCredentialError + bool) state" where
  "path_exists p = file_io KE_InspectKey (\<lambda>w. (Inr (kc_file w p \<noteq> None), w))"

definition validate_key_file :: "key_path \<Rightarrow> (key_world, TeslaMateCredentialError + unit) state" where
  "validate_key_file p = file_io KE_InspectKey (\<lambda>w.
     (case kc_file w p of
        None \<Rightarrow> Inl KE_InspectKey
      | Some f \<Rightarrow> if kf_safe f then Inr () else Inl KE_UnsafeKeyFile, w))"

definition remove_file :: "TeslaMateCredentialError \<Rightarrow> key_path \<Rightarrow> (key_world, TeslaMateCredentialError + unit) state" where
  "remove_file err p = file_io err (\<lambda>w.
     case kc_file w p of
       None \<Rightarrow> (Inl err, w)
     | Some _ \<Rightarrow> (Inr (), w\<lparr>kc_file := (kc_file w)(p := None)\<rparr>))"

definition rename_file ::
  "TeslaMateCredentialError \<Rightarrow> key_path \<Rightarrow> key_path \<Rightarrow> (key_world, TeslaMateCredentialError + unit) state" where
  "rename_file err p q = file_io err (\<lambda>w.
     case kc_file w p of
       None \<Rightarrow> (Inl err, w)
     | Some f \<Rightarrow> (Inr (), w\<lparr>kc_file := (kc_file w)(p := None, q := Some f)\<rparr>))"

definition sync_directory :: "(key_world, TeslaMateCredentialError + unit) state" where
  "sync_directory = and_then (file_io KE_OpenSecretsDirectory (\<lambda>w. (Inr (), w)))
     (\<lambda>_. file_io KE_SyncSecretsDirectory (\<lambda>w. (Inr (), w)))"

definition remove_checked_key_file :: "key_path \<Rightarrow> (key_world, TeslaMateCredentialError + unit) state" where
  "remove_checked_key_file p = and_then (validate_key_file p) (\<lambda>_. remove_file KE_RemoveKey p)"

definition validate_secrets_directory :: "(key_world, TeslaMateCredentialError + unit) state" where
  "validate_secrets_directory = file_io KE_InspectSecretsDirectory (\<lambda>w.
     (case kc_dir w of
        SD_Missing \<Rightarrow> Inl KE_InspectSecretsDirectory
      | SD_Unsafe \<Rightarrow> Inl KE_UnsafeSecretsDirectory
      | SD_Safe \<Rightarrow> Inr (), w))"

definition ensure_secrets_directory :: "(key_world, TeslaMateCredentialError + unit) state" where
  "ensure_secrets_directory =
     and_then (file_io KE_InspectSecretsDirectory (\<lambda>w. (Inr (kc_dir w \<noteq> SD_Missing), w))) (\<lambda>present.
       if present then validate_secrets_directory
       else and_then (file_io KE_CreateSecretsDirectory (\<lambda>w. (Inr (), w\<lparr>kc_dir := SD_Safe\<rparr>)))
              (\<lambda>_. validate_secrets_directory))"

definition validate_key :: "string \<Rightarrow> TeslaMateCredentialError + unit" where
  "validate_key key =
     (if key = [] then Inl KE_EmptyKey else if length key > MAX_KEY_BYTES then Inl KE_KeyTooLarge else Inr ())"

definition read_checked_key_file :: "key_path \<Rightarrow> (key_world, TeslaMateCredentialError + string) state" where
  "read_checked_key_file p = file_io KE_ReadKey (\<lambda>w.
     (case kc_file w p of
        None \<Rightarrow> Inl KE_ReadKey
      | Some f \<Rightarrow> if \<not> kf_safe f then Inl KE_UnsafeKeyFile
                  else if length (kf_bytes f) > MAX_KEY_BYTES then Inl KE_KeyTooLarge
                  else Inr (kf_bytes f), w))"

definition load_key_file :: "key_path \<Rightarrow> (key_world, TeslaMateCredentialError + string) state" where
  "load_key_file p = and_then (read_checked_key_file p) (\<lambda>key.
     and_then (State_Monad.return (validate_key key)) (\<lambda>_. pass key))"

definition load_key :: "(key_world, TeslaMateCredentialError + string) state" where
  "load_key = and_then validate_secrets_directory (\<lambda>_. load_key_file KP_Current)"

definition write_private_key_file :: "string \<Rightarrow> (key_world, TeslaMateCredentialError + unit) state" where
  "write_private_key_file key =
     and_then (file_io KE_CreateTemporaryKey (\<lambda>w. (Inr (), w\<lparr>kc_file := (kc_file w)(KP_Temporary := Some \<lparr>kf_safe = True, kf_bytes = []\<rparr>)\<rparr>)))
       (\<lambda>_. and_then (file_io KE_ProtectTemporaryKey (\<lambda>w. (Inr (), w)))
       (\<lambda>_. and_then (file_io KE_WriteTemporaryKey (\<lambda>w. (Inr (), w\<lparr>kc_file := (kc_file w)(KP_Temporary := Some \<lparr>kf_safe = True, kf_bytes = key\<rparr>)\<rparr>)))
       (\<lambda>_. file_io KE_SyncTemporaryKey (\<lambda>w. (Inr (), w)))))"

section \<open>Selecting the key\<close>

definition key_matches_tokens :: "cipher \<Rightarrow> string \<Rightarrow> TokenRow \<Rightarrow> bool" where
  "key_matches_tokens cf key tokens =
     (case decrypt_legacy_owner_tokens cf key (tk_access tokens) (tk_refresh tokens) of
        Inl _ \<Rightarrow> False
      | Inr plaintext \<Rightarrow>
         (case tk_generation tokens of
            None \<Rightarrow> True
          | Some expected \<Rightarrow> legacy_refresh_credential_generation cf plaintext = expected))"

definition restore_previous_key :: "(nat \<Rightarrow> bool) \<Rightarrow> (key_world, TeslaMateCredentialError + unit) state" where
  "restore_previous_key may_settle =
     and_then (validate_key_file KP_Previous) (\<lambda>_.
     and_then (path_exists KP_Current) (\<lambda>present.
     do { w \<leftarrow> State_Monad.get;
          if present \<and> \<not> may_settle (kw_tick w) then fail KE_SettlementRefused
          else and_then (if present then remove_checked_key_file KP_Current else pass ()) (\<lambda>_.
          do { w' \<leftarrow> State_Monad.get;
               if \<not> may_settle (kw_tick w') then fail KE_SettlementRefused
               else and_then (rename_file KE_RestoreKey KP_Previous KP_Current) (\<lambda>_. sync_directory) }) }))"

definition use_previous_key ::
  "cipher \<Rightarrow> TokenRow \<Rightarrow> (nat \<Rightarrow> bool) \<Rightarrow> (key_world, TeslaMateCredentialError + string) state" where
  "use_previous_key cf tokens may_settle =
     and_then (load_key_file KP_Previous) (\<lambda>prior.
     if \<not> key_matches_tokens cf prior tokens then fail KE_NoMatchingKeyGeneration
     else and_then (restore_previous_key may_settle) (\<lambda>_. load_key))"

definition load_key_for_tokens_with ::
  "cipher \<Rightarrow> TokenRow \<Rightarrow> (nat \<Rightarrow> bool) \<Rightarrow> (key_world, TeslaMateCredentialError + string) state" where
  "load_key_for_tokens_with cf tokens may_settle =
     and_then (path_exists KP_Previous) (\<lambda>previous_exists.
     do { loaded \<leftarrow> load_key;
          w \<leftarrow> State_Monad.get;
          (case loaded of
             Inr current \<Rightarrow>
               (if key_matches_tokens cf current tokens
                then (if previous_exists
                      then (if \<not> may_settle (kw_tick w) then fail KE_SettlementRefused
                            else and_then (remove_checked_key_file KP_Previous) (\<lambda>_.
                                 and_then sync_directory (\<lambda>_. pass current)))
                      else pass current)
                else if previous_exists
                then use_previous_key cf tokens may_settle
                else fail KE_NoMatchingKeyGeneration)
           | Inl e \<Rightarrow>
               (if previous_exists
                then use_previous_key cf tokens may_settle
                else fail e)) })"

definition load_key_for_tokens :: "cipher \<Rightarrow> TokenRow \<Rightarrow> (key_world, TeslaMateCredentialError + string) state" where
  "load_key_for_tokens cf tokens = load_key_for_tokens_with cf tokens (\<lambda>_. True)"

definition select_stored_legacy_key_read_only ::
  "cipher \<Rightarrow> TokenRow \<Rightarrow> (key_world, TeslaMateCredentialError + string) state" where
  "select_stored_legacy_key_read_only cf tokens =
     and_then (path_exists KP_Current) (\<lambda>current_exists.
     do { current \<leftarrow> load_key;
          (if (case current of Inr key \<Rightarrow> key_matches_tokens cf key tokens | Inl _ \<Rightarrow> False)
           then State_Monad.return current
           else and_then (path_exists KP_Previous) (\<lambda>previous_exists.
             if previous_exists
             then and_then (load_key_file KP_Previous) (\<lambda>previous.
                    if key_matches_tokens cf previous tokens
                    then (if current_exists \<and> isl current then State_Monad.return current else pass previous)
                    else fail KE_NoMatchingKeyGeneration)
             else (case current of Inr _ \<Rightarrow> fail KE_NoMatchingKeyGeneration | Inl e \<Rightarrow> fail e))) })"

definition validate_stored_legacy_credentials_read_only ::
  "cipher \<Rightarrow> TokenRow \<Rightarrow> (key_world, TeslaMateCredentialError + unit) state" where
  "validate_stored_legacy_credentials_read_only cf tokens =
     and_then (select_stored_legacy_key_read_only cf tokens) (\<lambda>_. pass ())"

section \<open>Replacing key and tokens\<close>

definition commit_replacement :: "bool \<Rightarrow> (key_world, TeslaMateCredentialError + unit) state" where
  "commit_replacement had_previous =
     (if had_previous then and_then (remove_checked_key_file KP_Previous) (\<lambda>_. sync_directory) else pass ())"

definition rollback_replacement :: "bool \<Rightarrow> (key_world, TeslaMateCredentialError + unit) state" where
  "rollback_replacement had_previous =
     and_then (path_exists KP_Current) (\<lambda>present.
     and_then (if present then remove_checked_key_file KP_Current else pass ()) (\<lambda>_.
     and_then (if had_previous then rename_file KE_RestoreKey KP_Previous KP_Current else pass ()) (\<lambda>_.
     sync_directory)))"

text \<open>The two renames of \<open>begin_key_replacement\<close>, with the clean-up of each failure; a clean-up's own error is dropped.\<close>

definition set_aside_current :: "(key_world, TeslaMateCredentialError + unit) state" where
  "set_aside_current =
     do { r \<leftarrow> rename_file KE_ReplaceKey KP_Current KP_Previous;
          (case r of
             Inr _ \<Rightarrow> sync_directory
           | Inl e \<Rightarrow> do { _ \<leftarrow> remove_file KE_RemoveKey KP_Temporary; fail e }) }"

definition install_temporary :: "bool \<Rightarrow> (key_world, TeslaMateCredentialError + unit) state" where
  "install_temporary had_previous =
     do { r \<leftarrow> rename_file KE_ReplaceKey KP_Temporary KP_Current;
          (case r of
             Inr _ \<Rightarrow> sync_directory
           | Inl e \<Rightarrow>
              do { _ \<leftarrow> (if had_previous
                        then do { _ \<leftarrow> rename_file KE_ReplaceKey KP_Previous KP_Current;
                                  _ \<leftarrow> sync_directory; State_Monad.return () }
                        else State_Monad.return ());
                   _ \<leftarrow> remove_file KE_RemoveKey KP_Temporary;
                   fail e }) }"

definition begin_key_replacement :: "string \<Rightarrow> (key_world, TeslaMateCredentialError + bool) state" where
  "begin_key_replacement key =
     and_then (State_Monad.return (validate_key key)) (\<lambda>_.
     and_then ensure_secrets_directory (\<lambda>_.
     and_then (path_exists KP_Previous) (\<lambda>pending.
     if pending then fail KE_PendingKeyReplacement
     else and_then (path_exists KP_Current) (\<lambda>had_previous.
     and_then (if had_previous then validate_key_file KP_Current else pass ()) (\<lambda>_.
     and_then (write_private_key_file key) (\<lambda>_.
     and_then (if had_previous then set_aside_current else pass ()) (\<lambda>_.
     and_then (install_temporary had_previous) (\<lambda>_. pass had_previous))))))))"

definition load_stored_tokens :: "(key_world, StoreError + TokenRow option) state" where
  "load_stored_tokens = store_io (\<lambda>w. (load_teslamate_legacy_tokens (kc_store w), w))"

definition replace_stored_tokens :: "int \<Rightarrow> TokenRow \<Rightarrow> (key_world, StoreError + unit) state" where
  "replace_stored_tokens now_ms tokens = store_io (\<lambda>w.
     case replace_teslamate_legacy_tokens now_ms tokens (kc_store w) of
       Inl e \<Rightarrow> (Inl e, w)
     | Inr s \<Rightarrow> (Inr (), w\<lparr>kc_store := s\<rparr>))"

definition recover_pending_key_replacement :: "cipher \<Rightarrow> (key_world, TeslaMateCredentialImportError + unit) state" where
  "recover_pending_key_replacement cf =
     and_then (map_error KI_Credential (path_exists KP_Previous)) (\<lambda>pending.
     if \<not> pending then pass ()
     else and_then (map_error KI_TokenStore load_stored_tokens) (\<lambda>stored.
          case stored of
            None \<Rightarrow> fail (KI_Credential KE_PendingKeyReplacementWithoutTokens)
          | Some tokens \<Rightarrow> and_then (map_error KI_Credential (load_key_for_tokens cf tokens)) (\<lambda>_. pass ())))"

definition replace_key_and_tokens ::
  "cipher \<Rightarrow> int \<Rightarrow> string \<Rightarrow> TokenRow \<Rightarrow> (key_world, TeslaMateCredentialImportError + unit) state" where
  "replace_key_and_tokens cf now_ms key tokens0 =
     and_then (recover_pending_key_replacement cf) (\<lambda>_.
     case decrypt_legacy_owner_tokens cf key (tk_access tokens0) (tk_refresh tokens0) of
       Inl e \<Rightarrow> fail (KI_TokenCipher e)
     | Inr plaintext \<Rightarrow>
        (case with_credential_generation tokens0 (legacy_refresh_credential_generation cf plaintext) of
           Inl e \<Rightarrow> fail (KI_TokenStore e)
         | Inr tokens \<Rightarrow>
            and_then (map_error KI_Credential (begin_key_replacement key)) (\<lambda>had_previous.
            do { stored \<leftarrow> replace_stored_tokens now_ms tokens;
                 (case stored of
                    Inr _ \<Rightarrow> map_error KI_Credential (commit_replacement had_previous)
                  | Inl store_error \<Rightarrow>
                     do { r \<leftarrow> rollback_replacement had_previous;
                          State_Monad.return (case r of
                              Inr _ \<Rightarrow> Inl (KI_TokenStore store_error)
                            | Inl e \<Rightarrow> Inl (KI_Rollback store_error e)) }) })))"

definition remove_key_and_tokens :: "int \<Rightarrow> (key_world, TeslaMateCredentialRemovalError + unit) state" where
  "remove_key_and_tokens now_ms =
     and_then (map_error KR_TokenStore (store_io (\<lambda>w.
        (Inr (), w\<lparr>kc_store := clear_teslamate_legacy_tokens now_ms (kc_store w)\<rparr>)))) (\<lambda>_.
     map_error KR_Credential (
       and_then (path_exists KP_Current) (\<lambda>current_exists.
       and_then (path_exists KP_Previous) (\<lambda>previous_exists.
       and_then (if current_exists then remove_checked_key_file KP_Current else pass ()) (\<lambda>_.
       and_then (if previous_exists then remove_checked_key_file KP_Previous else pass ()) (\<lambda>_.
       if current_exists \<or> previous_exists then sync_directory else pass ()))))))"

end
