(* ===== verification/Key_Recovery.thy ===== *)
theory Key_Recovery
  imports Key_Files
begin

text \<open>
  What an interrupted key replacement leaves behind. A small program logic follows the programs of
  \<^verbatim>\<open>Key_Files\<close> through every fault and every crash. The lemmas show that a key that opens the
  committed pair is always found again at the next start, that the reader that writes nothing
  finds the same one, and that a commit reported as failed is the one fault that loses the key.
\<close>

section \<open>Reasoning about interrupted programs\<close>

text \<open>
  A store is honest when a transaction that reports an error did not commit. A triple says what a
  program leaves behind in an environment with an honest store, whatever fails and wherever the
  process dies.
\<close>

definition honest :: "key_world \<Rightarrow> bool" where
  "honest w \<longleftrightarrow> (\<forall>t. kw_store_faults w t \<noteq> FT_Late)"

definition triple :: "(key_core \<Rightarrow> bool) \<Rightarrow> (key_world, 'r) state \<Rightarrow> ('r \<Rightarrow> key_core \<Rightarrow> bool) \<Rightarrow> bool" where
  "triple P m Q \<longleftrightarrow> (\<forall>w r w'. honest w \<longrightarrow> P (kw_core w) \<longrightarrow> run_state m w = (r, w') \<longrightarrow> honest w' \<and> Q r (kw_core w'))"



lemma triple_return: "(\<And>c. P c \<Longrightarrow> Q x c) \<Longrightarrow> triple P (State_Monad.return x) Q"
  by (simp add: triple_def)

lemma triple_bind:
  assumes "triple P m R" "\<And>x. triple (R x) (f x) Q"
  shows "triple P (State_Monad.bind m f) Q"
  unfolding triple_def
proof (intro allI impI)
  fix w r w'
  assume w: "honest w" "P (kw_core w)" and run: "run_state (State_Monad.bind m f) w = (r, w')"
  obtain x w1 where m: "run_state m w = (x, w1)" by force
  with run have f: "run_state (f x) w1 = (r, w')" by (simp add: State_Monad.bind_def)
  from assms(1) w m have "honest w1 \<and> R x (kw_core w1)" unfolding triple_def by blast
  with assms(2) f show "honest w' \<and> Q r (kw_core w')" unfolding triple_def by blast
qed

lemma triple_get: "(\<And>w. triple P (f w) Q) \<Longrightarrow> triple P (State_Monad.bind State_Monad.get f) Q"
  by (simp add: triple_def State_Monad.bind_def State_Monad.get_def)

lemma triple_if: "(b \<Longrightarrow> triple P m Q) \<Longrightarrow> (\<not> b \<Longrightarrow> triple P n Q) \<Longrightarrow> triple P (if b then m else n) Q"
  by simp

lemma triple_pre: "triple P m Q \<Longrightarrow> (\<And>c. P' c \<Longrightarrow> P c) \<Longrightarrow> triple P' m Q"
  unfolding triple_def by blast

lemma triple_post: "triple P m Q \<Longrightarrow> (\<And>r c. Q r c \<Longrightarrow> Q' r c) \<Longrightarrow> triple P m Q'"
  unfolding triple_def by blast

text \<open>After an error the state satisfies \<open>E\<close>, after a success with value \<open>x\<close> it satisfies \<open>R x\<close>.\<close>

definition outcome :: "(key_core \<Rightarrow> bool) \<Rightarrow> ('a \<Rightarrow> key_core \<Rightarrow> bool) \<Rightarrow> 'e + 'a \<Rightarrow> key_core \<Rightarrow> bool" where
  "outcome E R r c = (case r of Inl _ \<Rightarrow> E c | Inr x \<Rightarrow> R x c)"

lemma outcome_simps [simp]: "outcome E R (Inl e) = E" "outcome E R (Inr x) = R x"
  by (simp_all add: outcome_def fun_eq_iff)

lemma triple_and_then:
  "triple P m (outcome E R) \<Longrightarrow> (\<And>x. triple (R x) (f x) (outcome E Q)) \<Longrightarrow> triple P (and_then m f) (outcome E Q)"
  unfolding and_then_def by (rule triple_bind, assumption) (auto intro: triple_return split: sum.splits)

lemma triple_look:
  assumes "triple P m (outcome P R)" "\<And>c. P c \<Longrightarrow> E c" "\<And>x. triple (R x) (f x) (outcome E Q)"
  shows "triple P (and_then m f) (outcome E Q)"
  by (rule triple_and_then [OF triple_post [OF assms(1)] assms(3)]) (use assms(2) in \<open>auto simp: outcome_def split: sum.splits\<close>)

lemma triple_check:
  "(\<And>y. v = Inr y \<Longrightarrow> triple P (f y) (outcome E Q)) \<Longrightarrow> (\<And>c. P c \<Longrightarrow> E c) \<Longrightarrow>
   triple P (and_then (State_Monad.return v) f) (outcome E Q)"
  unfolding and_then_def by (cases v) (auto intro: triple_return)

lemma triple_map_error: "triple P m (outcome E Q) \<Longrightarrow> triple P (map_error g m) (outcome E Q)"
  unfolding map_error_def by (rule triple_bind, assumption) (auto intro: triple_return split: sum.splits)

lemma io_cases:
  assumes "run_state (io faults err act) w = (r, w')"
  obtains "r = Inl err" "kw_core w' = kw_core w" | "r = fst (act (kw_core w))" "kw_core w' = snd (act (kw_core w))"
  | "faults w (kw_tick w) = FT_Late" "r = Inl err" "kw_core w' = snd (act (kw_core w))"
proof (cases "kw_dead w")
  case True
  with assms that(1) show ?thesis by (simp add: io_def)
next
  case False
  with assms that show ?thesis
    by (cases "faults w (kw_tick w)") (simp_all add: io_def Let_def case_prod_beta, fastforce+)
qed

lemma io_honest: "run_state (io faults err act) w = (r, w') \<Longrightarrow> honest w' = honest w"
  by (auto simp: io_def Let_def honest_def case_prod_beta split: if_splits io_fault.splits)

lemma triple_try:
  assumes "triple P m (outcome E R)" "\<And>e. triple E (f e) Q" "\<And>x. triple (R x) (g x) Q"
  shows "triple P (do { r \<leftarrow> m; (case r of Inl e \<Rightarrow> f e | Inr x \<Rightarrow> g x) }) Q"
proof (rule triple_bind [OF assms(1)])
  show "triple (outcome E R r) (case r of Inl e \<Rightarrow> f e | Inr x \<Rightarrow> g x) Q" for r
    using assms(2,3) by (cases r) simp_all
qed

lemma triple_file_io:
  assumes "\<And>c r c'. P c \<Longrightarrow> act c = (r, c') \<Longrightarrow> E c \<and> E c' \<and> outcome E Q r c'"
  shows "triple P (file_io err act) (outcome E Q)"
  unfolding triple_def
proof (intro allI impI)
  fix w r w'
  assume w: "honest w" "P (kw_core w)" and run: "run_state (file_io err act) w = (r, w')"
  from run show "honest w' \<and> outcome E Q r (kw_core w')"
    by (rule io_cases) (use io_honest [OF run] w assms [OF w(2) prod.collapse [symmetric]] in auto)
qed

lemma triple_store_io:
  assumes "\<And>c r c'. P c \<Longrightarrow> act c = (r, c') \<Longrightarrow> E c \<and> outcome E Q r c'"
  shows "triple P (store_io act) (outcome E Q)"
  unfolding triple_def
proof (intro allI impI)
  fix w r w'
  assume w: "honest w" "P (kw_core w)" and run: "run_state (store_io act) w = (r, w')"
  from run show "honest w' \<and> outcome E Q r (kw_core w')"
    by (rule io_cases) (use io_honest [OF run] w assms [OF w(2) prod.collapse [symmetric]] in \<open>auto simp: honest_def\<close>)
qed

section \<open>The key that opens the committed pair\<close>

definition opens :: "cipher \<Rightarrow> key_core \<Rightarrow> key_path \<Rightarrow> TokenRow \<Rightarrow> bool" where
  "opens cf c p row = (case kc_file c p of None \<Rightarrow> False | Some f \<Rightarrow> key_matches_tokens cf (kf_bytes f) row)"

definition good_file :: "key_file \<Rightarrow> bool" where
  "good_file f \<longleftrightarrow> kf_safe f \<and> validate_key (kf_bytes f) = Inr ()"

definition files_good :: "key_core \<Rightarrow> bool" where
  "files_good c \<longleftrightarrow> (\<forall>p f. p \<noteq> KP_Temporary \<longrightarrow> kc_file c p = Some f \<longrightarrow> good_file f)"

text \<open>
  The invariant: the files are private and readable, and where a pair is committed, the secrets
  directory is there and the current or the previous key opens the pair.
\<close>

definition openable :: "cipher \<Rightarrow> key_core \<Rightarrow> bool" where
  "openable cf c \<longleftrightarrow> files_good c
     \<and> (\<forall>row. s_pair (kc_store c) = Some row \<longrightarrow>
          kc_dir c = SD_Safe \<and> row_valid (Some row) \<and> (opens cf c KP_Current row \<or> opens cf c KP_Previous row))"

text \<open>A program that only reads keeps every assertion and tells the truth about it.\<close>

lemma triple_read:
  "(\<And>c. snd (act c) = c) \<Longrightarrow> triple P (file_io err act) (outcome P (\<lambda>x c. P c \<and> fst (act c) = Inr x))"
  by (rule triple_file_io) (auto simp: outcome_def prod_eq_iff split: sum.splits)

lemma path_exists_triple: "triple P (path_exists p) (outcome P (\<lambda>x c. P c \<and> x = (kc_file c p \<noteq> None)))"
  unfolding path_exists_def by (rule triple_post [OF triple_read]) (auto simp: outcome_def split: sum.splits)

lemma validate_key_file_triple: "triple P (validate_key_file p) (outcome P (\<lambda>_. P))"
  unfolding validate_key_file_def by (rule triple_post [OF triple_read]) (auto simp: outcome_def split: sum.splits)

lemma validate_secrets_directory_triple:
  "triple P validate_secrets_directory (outcome P (\<lambda>_ c. P c \<and> kc_dir c = SD_Safe))"
  unfolding validate_secrets_directory_def
  by (rule triple_post [OF triple_read]) (auto simp: outcome_def split: sum.splits secrets_dir.splits)

lemma read_key_triple:
  "triple P (read_checked_key_file p) (outcome P (\<lambda>key c. P c \<and> (\<exists>f. kc_file c p = Some f \<and> kf_bytes f = key)))"
  unfolding read_checked_key_file_def
  by (rule triple_post [OF triple_read]) (auto simp: outcome_def split: sum.splits option.splits if_splits)

lemma load_key_file_triple:
  "triple P (load_key_file p) (outcome P (\<lambda>key c. P c \<and> (\<exists>f. kc_file c p = Some f \<and> kf_bytes f = key)))"
  unfolding load_key_file_def
  by (rule triple_and_then [OF read_key_triple], rule triple_check) (auto intro: triple_return)

lemma load_key_triple:
  "triple P load_key (outcome P (\<lambda>key c. P c \<and> (\<exists>f. kc_file c KP_Current = Some f \<and> kf_bytes f = key)))"
  unfolding load_key_def
  by (rule triple_and_then [OF validate_secrets_directory_triple])
     (rule triple_post [OF triple_pre [OF load_key_file_triple [of P]]], auto simp: outcome_def split: sum.splits)

lemma sync_directory_triple:
  assumes "\<And>c. P c \<Longrightarrow> E c"
  shows "triple P sync_directory (outcome E (\<lambda>_. P))"
  unfolding sync_directory_def
  by (rule triple_and_then [where R = "\<lambda>_. P"]; rule triple_file_io) (use assms in auto)

text \<open>Removal and renaming, with what must hold before and after them.\<close>

definition without :: "key_path \<Rightarrow> key_core \<Rightarrow> key_core" where
  "without p c = c\<lparr>kc_file := (kc_file c)(p := None)\<rparr>"

definition moved :: "key_path \<Rightarrow> key_path \<Rightarrow> key_core \<Rightarrow> key_core" where
  "moved p q c = c\<lparr>kc_file := (kc_file c)(p := None, q := kc_file c p)\<rparr>"

lemma remove_file_triple:
  assumes "\<And>c. P c \<Longrightarrow> kc_file c p \<noteq> None \<Longrightarrow> E (without p c) \<and> Q (without p c)" "\<And>c. P c \<Longrightarrow> E c"
  shows "triple P (remove_file err p) (outcome E (\<lambda>_. Q))"
  unfolding remove_file_def using assms
  by (intro triple_file_io) (auto simp: without_def split: option.splits)

lemma rename_file_triple:
  assumes "\<And>c. P c \<Longrightarrow> kc_file c p \<noteq> None \<Longrightarrow> E (moved p q c) \<and> Q (moved p q c)" "\<And>c. P c \<Longrightarrow> E c"
  shows "triple P (rename_file err p q) (outcome E (\<lambda>_. Q))"
  unfolding rename_file_def
proof (rule triple_file_io)
  fix c r c'
  assume "P c" "(case kc_file c p of None \<Rightarrow> (Inl err, c)
    | Some f \<Rightarrow> (Inr (), c\<lparr>kc_file := (kc_file c)(p := None, q := Some f)\<rparr>)) = (r, c')"
  then show "E c \<and> E c' \<and> outcome E (\<lambda>_. Q) r c'"
    using assms [of c] by (cases "kc_file c p") (auto simp: moved_def)
qed

lemma remove_checked_triple:
  assumes "\<And>c. P c \<Longrightarrow> kc_file c p \<noteq> None \<Longrightarrow> E (without p c) \<and> Q (without p c)" "\<And>c. P c \<Longrightarrow> E c"
  shows "triple P (remove_checked_key_file p) (outcome E (\<lambda>_. Q))"
  unfolding remove_checked_key_file_def
  by (rule triple_look [OF validate_key_file_triple]) (use assms in \<open>auto intro: remove_file_triple\<close>)

section \<open>Settling an interrupted replacement\<close>

lemma opens_other [simp]:
  "p \<noteq> q \<Longrightarrow> opens cf (without q c) p row = opens cf c p row"
  "r \<noteq> p \<Longrightarrow> r \<noteq> q \<Longrightarrow> opens cf (moved p q c) r row = opens cf c r row"
  "p \<noteq> q \<Longrightarrow> opens cf (moved p q c) q row = opens cf c p row"
  by (simp_all add: opens_def without_def moved_def)

lemma files_good_without: "files_good c \<Longrightarrow> files_good (without p c)"
  by (auto simp: files_good_def without_def)

lemma files_good_moved: "files_good c \<Longrightarrow> p \<noteq> KP_Temporary \<Longrightarrow> files_good (moved p q c)"
  by (auto simp: files_good_def moved_def)

lemma core_fields [simp]:
  "kc_store (without p c) = kc_store c" "kc_store (moved p q c) = kc_store c"
  "kc_dir (without p c) = kc_dir c" "kc_dir (moved p q c) = kc_dir c"
  by (simp_all add: without_def moved_def)

text \<open>The committed pair is opened by the key at a given path.\<close>

definition kept_at :: "cipher \<Rightarrow> key_path \<Rightarrow> key_core \<Rightarrow> bool" where
  "kept_at cf p c \<longleftrightarrow> openable cf c \<and> (\<forall>row. s_pair (kc_store c) = Some row \<longrightarrow> opens cf c p row)"

lemma kept_openable: "kept_at cf p c \<Longrightarrow> openable cf c"
  by (simp add: kept_at_def)

lemma kept_without: "kept_at cf p c \<Longrightarrow> p \<noteq> q \<Longrightarrow> p \<in> {KP_Current, KP_Previous} \<Longrightarrow> kept_at cf p (without q c)"
  by (auto simp: kept_at_def openable_def files_good_without)

lemma kept_moved:
  "kept_at cf KP_Previous c \<Longrightarrow> kept_at cf KP_Current (moved KP_Previous KP_Current c)"
  "kept_at cf KP_Current c \<Longrightarrow> kept_at cf KP_Previous (moved KP_Current KP_Previous c)"
  by (auto simp: kept_at_def openable_def files_good_moved)

lemma restore_previous_triple:
  "triple (kept_at cf KP_Previous) (restore_previous_key settle) (outcome (openable cf) (\<lambda>_. kept_at cf KP_Current))"
proof -
  let ?P = "kept_at cf KP_Previous" and ?E = "openable cf" and ?Q = "\<lambda>_::unit. kept_at cf KP_Current"
  have rename: "triple ?P (and_then (rename_file KE_RestoreKey KP_Previous KP_Current) (\<lambda>_. sync_directory)) (outcome ?E ?Q)"
    by (rule triple_and_then [OF rename_file_triple sync_directory_triple]) (auto intro: kept_moved kept_openable)
  have remove: "triple ?P (if present then remove_checked_key_file KP_Current else pass ()) (outcome ?E (\<lambda>_. ?P))" for present
    by (auto intro!: remove_checked_triple triple_return intro: kept_without kept_openable)
  show ?thesis
    unfolding restore_previous_key_def
    by (rule triple_look [OF validate_key_file_triple kept_openable], assumption,
        rule triple_look [OF path_exists_triple kept_openable], assumption,
        rule triple_pre [where P = ?P])
       (((intro triple_get triple_if triple_and_then [OF remove] triple_return rename)?; simp add: kept_openable)+)
qed

text \<open>The invariant for one given pair: loading a key for it keeps the pair openable.\<close>

definition pair_is :: "TokenRow \<Rightarrow> key_core \<Rightarrow> bool" where
  "pair_is row c \<longleftrightarrow> s_pair (kc_store c) = Some row"

lemma opens_keptI:
  "openable cf c \<Longrightarrow> pair_is row c \<Longrightarrow> kc_file c p = Some f \<Longrightarrow> key_matches_tokens cf (kf_bytes f) row \<Longrightarrow> kept_at cf p c"
  by (simp add: kept_at_def pair_is_def opens_def)

lemma use_previous_triple:
  "triple (\<lambda>c. openable cf c \<and> pair_is row c) (use_previous_key cf row settle) (outcome (openable cf) (\<lambda>_. openable cf))"
  unfolding use_previous_key_def
proof (rule triple_look [OF load_key_file_triple])
  fix key
  let ?P = "\<lambda>c. (openable cf c \<and> pair_is row c) \<and> (\<exists>f. kc_file c KP_Previous = Some f \<and> kf_bytes f = key)"
  have "triple ?P (and_then (restore_previous_key settle) (\<lambda>_. load_key)) (outcome (openable cf) (\<lambda>_. openable cf))"
    if "key_matches_tokens cf key row"
    by (rule triple_and_then [OF triple_pre [OF restore_previous_triple] triple_post [OF load_key_triple]])
       (use that in \<open>auto intro: opens_keptI kept_openable simp: outcome_def split: sum.splits\<close>)
  then show "triple ?P (if \<not> key_matches_tokens cf key row then fail KE_NoMatchingKeyGeneration
      else and_then (restore_previous_key settle) (\<lambda>_. load_key)) (outcome (openable cf) (\<lambda>_. openable cf))"
    by (auto intro: triple_return)
qed simp

lemma load_key_for_tokens_triple:
  "triple (\<lambda>c. openable cf c \<and> pair_is row c) (load_key_for_tokens_with cf row settle) (outcome (openable cf) (\<lambda>_. openable cf))"
  unfolding load_key_for_tokens_with_def
proof (rule triple_look [OF path_exists_triple])
  fix pe
  let ?P = "\<lambda>c. openable cf c \<and> pair_is row c" and ?Q = "outcome (openable cf) (\<lambda>_::string. openable cf)"
  let ?L = "\<lambda>r c. ?P c \<and> (\<forall>key. r = Inr key \<longrightarrow> (\<exists>f. kc_file c KP_Current = Some f \<and> kf_bytes f = key))"
  have loaded: "triple (\<lambda>c. ?P c \<and> pe = (kc_file c KP_Previous \<noteq> None)) load_key ?L"
    by (rule triple_post [OF triple_pre [OF load_key_triple [of ?P]]]) (auto simp: outcome_def split: sum.splits)
  have prev: "triple (?L r) (use_previous_key cf row settle) ?Q" for r
    by (rule triple_pre [OF use_previous_triple]) simp
  have keep: "triple (?L (Inr key)) (and_then (remove_checked_key_file KP_Previous) (\<lambda>_. and_then sync_directory (\<lambda>_. pass key))) ?Q"
    if "key_matches_tokens cf key row" for key
    by (rule triple_pre [where P = "kept_at cf KP_Current"],
        rule triple_and_then [OF remove_checked_triple triple_and_then [OF sync_directory_triple triple_return]])
       (use that in \<open>auto intro: kept_without kept_openable opens_keptI\<close>)
  show "triple (\<lambda>c. ?P c \<and> pe = (kc_file c KP_Previous \<noteq> None))
     (do { loaded \<leftarrow> load_key; w \<leftarrow> State_Monad.get;
          (case loaded of
             Inr current \<Rightarrow>
               (if key_matches_tokens cf current row
                then (if pe
                      then (if \<not> settle (kw_tick w) then fail KE_SettlementRefused
                            else and_then (remove_checked_key_file KP_Previous) (\<lambda>_.
                                 and_then sync_directory (\<lambda>_. pass current)))
                      else pass current)
                else if pe then use_previous_key cf row settle
                else fail KE_NoMatchingKeyGeneration)
           | Inl e \<Rightarrow> (if pe then use_previous_key cf row settle else fail e)) }) ?Q"
    by (rule triple_bind [OF loaded], rule triple_get, split sum.split)
       (intro conjI allI impI; hypsubst; intro triple_if prev keep triple_return; simp)
qed simp

section \<open>Replacing the key\<close>

text \<open>The stages of a replacement: the old key set aside, the new one written, the new one installed.\<close>

definition new_key_at :: "string \<Rightarrow> key_path \<Rightarrow> key_core \<Rightarrow> bool" where
  "new_key_at key p c \<longleftrightarrow> kc_file c p = Some \<lparr>kf_safe = True, kf_bytes = key\<rparr>"

definition before_set_aside :: "cipher \<Rightarrow> bool \<Rightarrow> key_core \<Rightarrow> bool" where
  "before_set_aside cf had c \<longleftrightarrow> openable cf c \<and> kc_file c KP_Previous = None \<and> had = (kc_file c KP_Current \<noteq> None)
     \<and> kc_dir c = SD_Safe"

definition set_aside :: "cipher \<Rightarrow> bool \<Rightarrow> key_core \<Rightarrow> bool" where
  "set_aside cf had c \<longleftrightarrow> kept_at cf KP_Previous c \<and> kc_file c KP_Current = None \<and> had = (kc_file c KP_Previous \<noteq> None)
     \<and> kc_dir c = SD_Safe"

definition installed :: "cipher \<Rightarrow> string \<Rightarrow> bool \<Rightarrow> key_core \<Rightarrow> bool" where
  "installed cf key had c \<longleftrightarrow> kept_at cf KP_Previous c \<and> new_key_at key KP_Current c \<and> had = (kc_file c KP_Previous \<noteq> None)
     \<and> kc_dir c = SD_Safe"

lemma stage_openable:
  "before_set_aside cf had c \<Longrightarrow> openable cf c" "set_aside cf had c \<Longrightarrow> openable cf c" "installed cf key had c \<Longrightarrow> openable cf c"
  by (simp_all add: before_set_aside_def set_aside_def installed_def kept_at_def)

lemma stage_kept: "set_aside cf had c \<Longrightarrow> kept_at cf KP_Previous c" "installed cf key had c \<Longrightarrow> kept_at cf KP_Previous c"
  by (simp_all add: set_aside_def installed_def)

lemma no_key_no_pair: "before_set_aside cf False c \<Longrightarrow> set_aside cf False c"
  by (auto simp: before_set_aside_def set_aside_def kept_at_def openable_def opens_def)

lemma set_aside_moved: "before_set_aside cf True c \<Longrightarrow> set_aside cf True (moved KP_Current KP_Previous c)"
  by (auto simp: before_set_aside_def set_aside_def kept_at_def openable_def opens_def files_good_def moved_def)

lemma installed_moved:
  "set_aside cf had c \<Longrightarrow> new_key_at key KP_Temporary c \<Longrightarrow> validate_key key = Inr () \<Longrightarrow>
   installed cf key had (moved KP_Temporary KP_Current c)"
  by (auto simp: set_aside_def installed_def kept_at_def openable_def opens_def files_good_def good_file_def moved_def new_key_at_def)

lemma openable_temporary [simp]:
  "openable cf (c\<lparr>kc_file := (kc_file c)(KP_Temporary := x)\<rparr>) = openable cf c"
  "openable cf (without KP_Temporary c) = openable cf c"
  by (simp_all add: openable_def files_good_def opens_def without_def)

lemma before_temporary [simp]:
  "before_set_aside cf had (c\<lparr>kc_file := (kc_file c)(KP_Temporary := x)\<rparr>) = before_set_aside cf had c"
  by (simp add: before_set_aside_def)

lemma write_key_triple:
  "triple (before_set_aside cf had) (write_private_key_file key)
     (outcome (openable cf) (\<lambda>_ c. before_set_aside cf had c \<and> new_key_at key KP_Temporary c))"
  unfolding write_private_key_file_def
  by (rule triple_and_then [where R = "\<lambda>_. before_set_aside cf had"], rule triple_file_io, force simp: stage_openable,
      rule triple_and_then [where R = "\<lambda>_. before_set_aside cf had"], rule triple_file_io, force simp: stage_openable,
      rule triple_and_then [where R = "\<lambda>_ c. before_set_aside cf had c \<and> new_key_at key KP_Temporary c"],
      rule triple_file_io, force simp: stage_openable new_key_at_def, rule triple_file_io)
     (auto simp: stage_openable)

lemma remove_temporary_triple:
  "triple (openable cf) (do { _ \<leftarrow> remove_file err KP_Temporary; fail e }) (outcome (openable cf) Q)"
  by (rule triple_bind [OF remove_file_triple [where E = "openable cf" and Q = "openable cf"]])
     (auto intro: triple_return simp: outcome_def split: sum.splits)

lemma new_key_moved [simp]: "new_key_at key KP_Temporary (moved KP_Current KP_Previous c) = new_key_at key KP_Temporary c"
  by (simp add: new_key_at_def moved_def)

lemma set_aside_triple:
  "triple (\<lambda>c. before_set_aside cf True c \<and> new_key_at key KP_Temporary c) set_aside_current
     (outcome (openable cf) (\<lambda>_ c. set_aside cf True c \<and> new_key_at key KP_Temporary c))"
  unfolding set_aside_current_def
  by (rule triple_try [OF rename_file_triple remove_temporary_triple sync_directory_triple])
     (auto simp: stage_openable set_aside_moved intro: stage_openable(2) [OF set_aside_moved])

lemma put_back_triple:
  "triple (kept_at cf KP_Previous)
     (do { _ \<leftarrow> (if had then do { _ \<leftarrow> rename_file KE_ReplaceKey KP_Previous KP_Current; _ \<leftarrow> sync_directory; State_Monad.return () }
                else State_Monad.return ());
          _ \<leftarrow> remove_file KE_RemoveKey KP_Temporary; fail e })
     (outcome (openable cf) Q)"
proof -
  have rename: "triple (kept_at cf KP_Previous) (rename_file KE_ReplaceKey KP_Previous KP_Current) (\<lambda>_. openable cf)"
    by (rule triple_post [OF rename_file_triple [where E = "openable cf" and Q = "openable cf"]])
       (auto intro: kept_openable kept_moved simp: outcome_def split: sum.splits)
  have sync: "triple (openable cf) sync_directory (\<lambda>_. openable cf)"
    by (rule triple_post [OF sync_directory_triple [where E = "openable cf"]]) (auto simp: outcome_def split: sum.splits)
  have "triple (kept_at cf KP_Previous)
     (if had then do { _ \<leftarrow> rename_file KE_ReplaceKey KP_Previous KP_Current; _ \<leftarrow> sync_directory; State_Monad.return () }
      else State_Monad.return ()) (\<lambda>_. openable cf)"
    by (intro triple_if triple_bind [OF rename] triple_bind [OF sync] triple_return) (auto intro: kept_openable)
  then show ?thesis by (rule triple_bind) (rule remove_temporary_triple)
qed

lemma install_triple:
  assumes "validate_key key = Inr ()"
  shows "triple (\<lambda>c. set_aside cf had c \<and> new_key_at key KP_Temporary c) (install_temporary had)
     (outcome (openable cf) (\<lambda>_. installed cf key had))"
  unfolding install_temporary_def
  by (rule triple_try [OF rename_file_triple put_back_triple sync_directory_triple])
     (use assms in \<open>auto intro: installed_moved stage_kept(2) [OF installed_moved] stage_kept stage_openable\<close>)

lemma ensure_directory_triple:
  "triple (openable cf) ensure_secrets_directory (outcome (openable cf) (\<lambda>_ c. openable cf c \<and> kc_dir c = SD_Safe))"
proof -
  have make: "openable cf (c\<lparr>kc_dir := SD_Safe\<rparr>)" if "openable cf c" for c
    using that by (simp add: openable_def files_good_def opens_def)
  have create: "triple (openable cf) (file_io KE_CreateSecretsDirectory (\<lambda>w. (Inr (), w\<lparr>kc_dir := SD_Safe\<rparr>)))
      (outcome (openable cf) (\<lambda>_. openable cf))"
    by (rule triple_file_io) (auto simp: make)
  show ?thesis
    unfolding ensure_secrets_directory_def
    by (rule triple_look [where P = "openable cf" and R = "\<lambda>_. openable cf"], rule triple_file_io)
       (auto intro!: triple_and_then [OF create] validate_secrets_directory_triple)
qed

lemma begin_triple:
  "triple (openable cf) (begin_key_replacement key) (outcome (openable cf) (\<lambda>had. installed cf key had))"
  unfolding begin_key_replacement_def
proof (rule triple_check, rule triple_and_then [OF ensure_directory_triple], rule triple_look [OF path_exists_triple])
  fix y u pending
  assume "validate_key key = Inr y"
  then have valid: "validate_key key = Inr ()" by simp
  let ?P = "\<lambda>c. (openable cf c \<and> kc_dir c = SD_Safe) \<and> pending = (kc_file c KP_Previous \<noteq> None)"
  have check: "triple (before_set_aside cf had) (if had then validate_key_file KP_Current else pass ())
      (outcome (openable cf) (\<lambda>_. before_set_aside cf had))" for had
    by (rule triple_post [where Q = "outcome (before_set_aside cf had) (\<lambda>_. before_set_aside cf had)"])
       (auto intro: validate_key_file_triple triple_return simp: stage_openable outcome_def split: sum.splits)
  have aside: "triple (\<lambda>c. before_set_aside cf had c \<and> new_key_at key KP_Temporary c)
      (if had then set_aside_current else pass ())
      (outcome (openable cf) (\<lambda>_ c. set_aside cf had c \<and> new_key_at key KP_Temporary c))" for had
    by (cases had) (auto intro!: set_aside_triple triple_return simp: no_key_no_pair)
  show "triple ?P (if pending then fail KE_PendingKeyReplacement
     else and_then (path_exists KP_Current) (\<lambda>had_previous.
     and_then (if had_previous then validate_key_file KP_Current else pass ()) (\<lambda>_.
     and_then (write_private_key_file key) (\<lambda>_.
     and_then (if had_previous then set_aside_current else pass ()) (\<lambda>_.
     and_then (install_temporary had_previous) (\<lambda>_. pass had_previous))))))
     (outcome (openable cf) (\<lambda>had. installed cf key had))"
    by (rule triple_if, rule triple_return, simp, rule triple_look [OF path_exists_triple], simp,
        rule triple_pre [OF triple_and_then [OF check triple_and_then [OF write_key_triple triple_and_then [OF aside
            triple_and_then [OF install_triple [OF valid] triple_return]]]]])
       (auto simp: before_set_aside_def)
qed auto

text \<open>The replacement went through: the pair is the new one and the new key is the current one.\<close>

definition replaced :: "cipher \<Rightarrow> string \<Rightarrow> TokenRow \<Rightarrow> key_core \<Rightarrow> bool" where
  "replaced cf key tokens c \<longleftrightarrow> kept_at cf KP_Current c \<and> new_key_at key KP_Current c \<and> pair_is tokens c"

lemma replaced_openable: "replaced cf key tokens c \<Longrightarrow> openable cf c"
  by (simp add: replaced_def kept_at_def)

lemma replaced_without: "replaced cf key tokens c \<Longrightarrow> replaced cf key tokens (without KP_Previous c)"
  by (auto simp: replaced_def new_key_at_def pair_is_def intro: kept_without) (simp add: without_def)

lemma commit_triple:
  "triple (replaced cf key tokens) (commit_replacement had) (outcome (openable cf) (\<lambda>_. replaced cf key tokens))"
  unfolding commit_replacement_def
  by (rule triple_if, rule triple_and_then [OF remove_checked_triple sync_directory_triple])
     (auto intro!: triple_return intro: replaced_openable replaced_without replaced_openable [OF replaced_without])

lemma rollback_triple: "triple (kept_at cf KP_Previous) (rollback_replacement had) (outcome (openable cf) (\<lambda>_. openable cf))"
proof -
  let ?P = "kept_at cf KP_Previous" and ?E = "openable cf"
  have remove: "triple ?P (if present then remove_checked_key_file KP_Current else pass ()) (outcome ?E (\<lambda>_. ?P))" for present
    by (auto intro!: remove_checked_triple triple_return intro: kept_without kept_openable)
  have rename: "triple ?P (if had then rename_file KE_RestoreKey KP_Previous KP_Current else pass ()) (outcome ?E (\<lambda>_. ?E))"
    by (auto intro!: rename_file_triple triple_return intro: kept_openable kept_openable [OF kept_moved(1)])
  show ?thesis
    unfolding rollback_replacement_def
    by (rule triple_look [OF path_exists_triple kept_openable], assumption,
        rule triple_pre [OF triple_and_then [OF remove triple_and_then [OF rename sync_directory_triple]]]) auto
qed

lemma replace_stores:
  "replace_teslamate_legacy_tokens now tokens s = Inr s' \<Longrightarrow> s_pair s' = Some tokens"
  by (auto simp: replace_teslamate_legacy_tokens_def Let_def split: if_splits)

lemma replace_stored_triple:
  assumes "row_valid (Some tokens)" "key_matches_tokens cf key tokens"
  shows "triple (installed cf key had) (replace_stored_tokens now tokens)
    (outcome (kept_at cf KP_Previous) (\<lambda>_. replaced cf key tokens))"
  unfolding replace_stored_tokens_def
proof (rule triple_store_io)
  fix c r c'
  assume c: "installed cf key had c" and act: "(case replace_teslamate_legacy_tokens now tokens (kc_store c) of
    Inl e \<Rightarrow> (Inl e, c) | Inr s \<Rightarrow> (Inr (), c\<lparr>kc_store := s\<rparr>)) = (r, c')"
  have "replaced cf key tokens (c\<lparr>kc_store := s\<rparr>)"
    if "replace_teslamate_legacy_tokens now tokens (kc_store c) = Inr s" for s
    using replace_stores [OF that] c assms
    by (simp add: replaced_def pair_is_def installed_def kept_at_def openable_def files_good_def opens_def new_key_at_def)
  then show "kept_at cf KP_Previous c \<and> outcome (kept_at cf KP_Previous) (\<lambda>_. replaced cf key tokens) r c'"
    using act stage_kept(2) [OF c] by (auto split: sum.splits)
qed

lemma load_stored_triple:
  "triple (openable cf) load_stored_tokens
     (outcome (openable cf) (\<lambda>t c. openable cf c \<and> (\<forall>row. t = Some row \<longrightarrow> pair_is row c)))"
  unfolding load_stored_tokens_def
  by (rule triple_store_io)
     (auto simp: outcome_def openable_def pair_is_def load_teslamate_legacy_tokens_def row_valid_def revalidate_row_def
       split: sum.splits option.splits)

lemma recover_triple: "triple (openable cf) (recover_pending_key_replacement cf) (outcome (openable cf) (\<lambda>_. openable cf))"
proof -
  have settle: "triple (\<lambda>c. openable cf c \<and> (\<forall>row. t = Some row \<longrightarrow> pair_is row c))
      (case t of None \<Rightarrow> fail (KI_Credential KE_PendingKeyReplacementWithoutTokens)
        | Some tokens \<Rightarrow> and_then (map_error KI_Credential (load_key_for_tokens cf tokens)) (\<lambda>_. pass ()))
      (outcome (openable cf) (\<lambda>_. openable cf))" for t
    by (cases t) (auto intro!: triple_return triple_and_then [OF triple_map_error [OF load_key_for_tokens_triple]]
        simp: load_key_for_tokens_def)
  show ?thesis
    unfolding recover_pending_key_replacement_def
    by (rule triple_look [OF triple_map_error [OF path_exists_triple]], assumption)
       (intro triple_if triple_return triple_pre [OF triple_and_then [OF triple_map_error [OF load_stored_triple] settle]]; simp)
qed

lemma with_generation_matches:
  assumes "decrypt_legacy_owner_tokens cf key (tk_access t0) (tk_refresh t0) = Inr plaintext"
    and "with_credential_generation t0 (legacy_refresh_credential_generation cf plaintext) = Inr tokens"
  shows "row_valid (Some tokens) \<and> key_matches_tokens cf key tokens
    \<and> tokens = t0\<lparr>tk_generation := Some (legacy_refresh_credential_generation cf plaintext)\<rparr>"
  using assms by (auto simp: with_credential_generation_def token_row_new_def Let_def row_valid_def revalidate_row_def
      key_matches_tokens_def split: if_splits)

lemma replace_triple:
  "triple (openable cf) (replace_key_and_tokens cf now key t0)
     (outcome (openable cf) (\<lambda>_ c. \<exists>g. replaced cf key (t0\<lparr>tk_generation := Some g\<rparr>) c))"
proof -
  let ?E = "openable cf" and ?Q = "\<lambda>_::unit. \<lambda>c. \<exists>g. replaced cf key (t0\<lparr>tk_generation := Some g\<rparr>) c"
  have store: "triple (installed cf key had)
      (do { stored \<leftarrow> replace_stored_tokens now tokens;
            (case stored of
               Inr _ \<Rightarrow> map_error KI_Credential (commit_replacement had)
             | Inl store_error \<Rightarrow>
                do { r \<leftarrow> rollback_replacement had;
                     State_Monad.return (case r of
                         Inr _ \<Rightarrow> Inl (KI_TokenStore store_error)
                       | Inl e \<Rightarrow> Inl (KI_Rollback store_error e)) }) })
      (outcome ?E ?Q)"
    if "row_valid (Some tokens) \<and> key_matches_tokens cf key tokens \<and> tokens = t0\<lparr>tk_generation := Some g\<rparr>" for tokens had g
    by (rule triple_try [OF replace_stored_triple triple_bind [OF rollback_triple] triple_post [OF triple_map_error [OF commit_triple]]])
       (use that in \<open>auto intro!: triple_return simp: outcome_def split: sum.splits\<close>)
  have body: "triple ?E (case with_credential_generation t0 (legacy_refresh_credential_generation cf plaintext) of
           Inl e \<Rightarrow> fail (KI_TokenStore e)
         | Inr tokens \<Rightarrow>
            and_then (map_error KI_Credential (begin_key_replacement key)) (\<lambda>had_previous.
            do { stored \<leftarrow> replace_stored_tokens now tokens;
                 (case stored of
                    Inr _ \<Rightarrow> map_error KI_Credential (commit_replacement had_previous)
                  | Inl store_error \<Rightarrow>
                     do { r \<leftarrow> rollback_replacement had_previous;
                          State_Monad.return (case r of
                              Inr _ \<Rightarrow> Inl (KI_TokenStore store_error)
                            | Inl e \<Rightarrow> Inl (KI_Rollback store_error e)) }) })) (outcome ?E ?Q)"
    if "decrypt_legacy_owner_tokens cf key (tk_access t0) (tk_refresh t0) = Inr plaintext" for plaintext
    using with_generation_matches [OF that]
    by (cases "with_credential_generation t0 (legacy_refresh_credential_generation cf plaintext)")
       (auto intro!: triple_return triple_and_then [OF triple_map_error [OF begin_triple]] store)
  show ?thesis
    unfolding replace_key_and_tokens_def
    by (rule triple_and_then [OF recover_triple], cases "decrypt_legacy_owner_tokens cf key (tk_access t0) (tk_refresh t0)")
       (auto intro: triple_return simp: body)
qed

section \<open>After the interruption\<close>

text \<open>The next start: the process lives and nothing fails.\<close>

definition restart :: "key_world \<Rightarrow> key_world" where
  "restart w = w\<lparr>kw_dead := False, kw_file_faults := \<lambda>_. FT_None, kw_store_faults := \<lambda>_. FT_None\<rparr>"

text \<open>The files are calm: the process lives and no file operation fails.\<close>

definition calm :: "key_world \<Rightarrow> bool" where
  "calm w \<longleftrightarrow> \<not> kw_dead w \<and> kw_file_faults w = (\<lambda>_. FT_None)"

lemma calm_restart [simp]: "calm (restart w)" "kw_core (restart w) = kw_core w"
  by (simp_all add: calm_def restart_def)

lemma calm_update [simp]: "calm (w\<lparr>kw_tick := n\<rparr>) = calm w" "calm (w\<lparr>kw_core := c\<rparr>) = calm w"
  by (simp_all add: calm_def)

lemma run_and_then:
  "run_state (and_then m f) w = (case run_state m w of (Inl e, w') \<Rightarrow> (Inl e, w') | (Inr x, w') \<Rightarrow> run_state (f x) w')"
  by (auto simp: and_then_def split: prod.splits sum.splits)

lemma run_io_calm:
  "calm w \<Longrightarrow> run_state (file_io err act) w = (fst (act (kw_core w)), w\<lparr>kw_tick := Suc (kw_tick w), kw_core := snd (act (kw_core w))\<rparr>)"
  by (simp add: io_def calm_def Let_def case_prod_beta)

named_theorems calm_runs \<open>what the operations do when nothing fails\<close>

lemma path_exists_calm [calm_runs]:
  "calm w \<Longrightarrow> run_state (path_exists p) w = (Inr (kc_file (kw_core w) p \<noteq> None), w\<lparr>kw_tick := Suc (kw_tick w)\<rparr>)"
  by (simp add: path_exists_def run_io_calm)

lemma load_key_file_calm [calm_runs]:
  "calm w \<Longrightarrow> kc_file (kw_core w) p = Some f \<Longrightarrow> good_file f \<Longrightarrow>
   run_state (load_key_file p) w = (Inr (kf_bytes f), w\<lparr>kw_tick := Suc (kw_tick w)\<rparr>)"
  by (auto simp: load_key_file_def read_checked_key_file_def run_and_then run_io_calm good_file_def validate_key_def
      split: if_splits)

lemma load_key_file_missing [calm_runs]:
  "calm w \<Longrightarrow> kc_file (kw_core w) p = None \<Longrightarrow>
   run_state (load_key_file p) w = (Inl KE_ReadKey, w\<lparr>kw_tick := Suc (kw_tick w)\<rparr>)"
  by (simp add: load_key_file_def read_checked_key_file_def run_and_then run_io_calm)

lemma load_key_calm [calm_runs]:
  "calm w \<Longrightarrow> kc_dir (kw_core w) = SD_Safe \<Longrightarrow>
   run_state load_key w = run_state (load_key_file KP_Current) (w\<lparr>kw_tick := Suc (kw_tick w)\<rparr>)"
  by (simp add: load_key_def validate_secrets_directory_def run_and_then run_io_calm)

lemma validate_key_file_calm [calm_runs]:
  "calm w \<Longrightarrow> kc_file (kw_core w) p = Some f \<Longrightarrow> good_file f \<Longrightarrow>
   run_state (validate_key_file p) w = (Inr (), w\<lparr>kw_tick := Suc (kw_tick w)\<rparr>)"
  by (simp add: validate_key_file_def run_io_calm good_file_def)

lemma remove_checked_calm [calm_runs]:
  "calm w \<Longrightarrow> kc_file (kw_core w) p = Some f \<Longrightarrow> good_file f \<Longrightarrow>
   run_state (remove_checked_key_file p) w = (Inr (), w\<lparr>kw_tick := Suc (Suc (kw_tick w)), kw_core := without p (kw_core w)\<rparr>)"
  by (simp add: remove_checked_key_file_def remove_file_def run_and_then validate_key_file_calm run_io_calm without_def)

lemma rename_file_calm [calm_runs]:
  "calm w \<Longrightarrow> kc_file (kw_core w) p = Some f \<Longrightarrow>
   run_state (rename_file err p q) w = (Inr (), w\<lparr>kw_tick := Suc (kw_tick w), kw_core := moved p q (kw_core w)\<rparr>)"
  by (simp add: rename_file_def run_io_calm moved_def)

lemma sync_directory_calm [calm_runs]:
  "calm w \<Longrightarrow> run_state sync_directory w = (Inr (), w\<lparr>kw_tick := Suc (Suc (kw_tick w))\<rparr>)"
  by (simp add: sync_directory_def run_and_then run_io_calm)

lemma file_of [simp]:
  "kc_file (without p c) q = (if p = q then None else kc_file c q)"
  "p \<noteq> q \<Longrightarrow> kc_file (moved p q c) r = (if r = p then None else if r = q then kc_file c p else kc_file c r)"
  by (simp_all add: without_def moved_def)

text \<open>The key is found and the replacement is settled; the reader that writes nothing finds the same key.\<close>

lemma load_key_settles:
  assumes "calm w" "openable cf (kw_core w)" "s_pair (kc_store (kw_core w)) = Some row"
  shows "\<exists>key w1 w2. run_state (load_key_for_tokens cf row) w = (Inr key, w2) \<and> key_matches_tokens cf key row
    \<and> kc_store (kw_core w2) = kc_store (kw_core w) \<and> kc_file (kw_core w2) KP_Previous = None
    \<and> map_option kf_bytes (kc_file (kw_core w2) KP_Current) = Some key
    \<and> run_state (select_stored_legacy_key_read_only cf row) w = (Inr key, w1) \<and> kw_core w1 = kw_core w"
proof -
  let ?c = "kw_core w"
  have good: "good_file f" if "kc_file ?c p = Some f" "p \<noteq> KP_Temporary" for p f
    using assms(2) that by (auto simp: openable_def files_good_def)
  have dir: "kc_dir ?c = SD_Safe" and opens: "opens cf ?c KP_Current row \<or> opens cf ?c KP_Previous row"
    using assms(2,3) by (auto simp: openable_def)
  note runs = select_stored_legacy_key_read_only_def load_key_for_tokens_def load_key_for_tokens_with_def
    use_previous_key_def restore_previous_key_def run_and_then calm_runs
  show ?thesis
  proof (cases "opens cf ?c KP_Current row")
    case True
    then obtain f where f: "kc_file ?c KP_Current = Some f" "key_matches_tokens cf (kf_bytes f) row"
      by (auto simp: opens_def split: option.splits)
    then show ?thesis using assms(1) dir good by (cases "kc_file ?c KP_Previous") (auto simp: runs)
  next
    case False
    then obtain g where g: "kc_file ?c KP_Previous = Some g" "key_matches_tokens cf (kf_bytes g) row"
      using opens by (auto simp: opens_def split: option.splits)
    show ?thesis
    proof (cases "kc_file ?c KP_Current")
      case None
      with g assms(1) dir good show ?thesis by (simp add: runs)
    next
      case (Some f)
      moreover from this False have "\<not> key_matches_tokens cf (kf_bytes f) row" by (simp add: opens_def)
      ultimately show ?thesis using g assms(1) dir good by (simp add: runs)
    qed
  qed
qed

text \<open>A replacement over calm files, step by step.\<close>

lemma recover_calm:
  "calm w \<Longrightarrow> kc_file (kw_core w) KP_Previous = None \<Longrightarrow>
   run_state (recover_pending_key_replacement cf) w = (Inr (), w\<lparr>kw_tick := Suc (kw_tick w)\<rparr>)"
  by (simp add: recover_pending_key_replacement_def map_error_def run_and_then calm_runs)

lemma begin_calm:
  assumes "calm w" "kc_dir (kw_core w) = SD_Safe" "validate_key key = Inr ()"
    and "kc_file (kw_core w) KP_Previous = None" "kc_file (kw_core w) KP_Current = Some old" "good_file old"
  shows "\<exists>w1. run_state (begin_key_replacement key) w = (Inr True, w1) \<and> calm w1 \<and> kw_store_faults w1 = kw_store_faults w
      \<and> kc_file (kw_core w1) KP_Previous = Some old \<and> kc_file (kw_core w1) KP_Current = Some \<lparr>kf_safe = True, kf_bytes = key\<rparr>
      \<and> kc_dir (kw_core w1) = SD_Safe \<and> kc_store (kw_core w1) = kc_store (kw_core w)"
  using assms
  by (simp add: begin_key_replacement_def ensure_secrets_directory_def validate_secrets_directory_def
      write_private_key_file_def set_aside_current_def install_temporary_def run_and_then run_io_calm calm_runs)

lemma rollback_calm:
  assumes "calm w" "kc_file (kw_core w) KP_Previous = Some old" "kc_file (kw_core w) KP_Current = Some f" "good_file f"
  shows "\<exists>w1. run_state (rollback_replacement True) w = (Inr (), w1) \<and> kc_file (kw_core w1) KP_Previous = None
      \<and> kc_file (kw_core w1) KP_Current = Some old \<and> kc_store (kw_core w1) = kc_store (kw_core w)
      \<and> kc_dir (kw_core w1) = kc_dir (kw_core w)"
  using assms by (simp add: rollback_replacement_def run_and_then calm_runs)

lemma replace_late:
  "calm w \<Longrightarrow> kw_store_faults w = (\<lambda>_. FT_Late) \<Longrightarrow> replace_teslamate_legacy_tokens now tokens (kc_store (kw_core w)) = Inr s \<Longrightarrow>
   run_state (replace_stored_tokens now tokens) w
     = (Inl SE_Fault, w\<lparr>kw_tick := Suc (kw_tick w), kw_core := (kw_core w)\<lparr>kc_store := s\<rparr>\<rparr>)"
  by (simp add: replace_stored_tokens_def io_def calm_def Let_def)

lemma load_key_no_match:
  assumes "calm w" "kc_dir (kw_core w) = SD_Safe" "kc_file (kw_core w) KP_Previous = None"
    and "kc_file (kw_core w) KP_Current = Some old" "good_file old" "\<not> key_matches_tokens cf (kf_bytes old) row"
  shows "fst (run_state (load_key_for_tokens cf row) w) = Inl KE_NoMatchingKeyGeneration"
  using assms by (simp add: load_key_for_tokens_def load_key_for_tokens_with_def run_and_then calm_runs)

section \<open>The properties\<close>

text \<open>
  C7: the key and the token pair are replaced as one recoverable operation. Whatever file operation
  or read fails, whether or not it took effect, and wherever the process dies, the next start finds
  a key that opens the committed pair and settles the replacement. A replacement that reports
  success has committed the new pair and made the new key the current one.
\<close>
theorem interrupted_replacement_opens:
  assumes "openable cf (kw_core w)" "honest w" "run_state (replace_key_and_tokens cf now key t0) w = (r, w1)"
  shows "(\<forall>row. s_pair (kc_store (kw_core w1)) = Some row \<longrightarrow>
      (\<exists>k w2. run_state (load_key_for_tokens cf row) (restart w1) = (Inr k, w2) \<and> key_matches_tokens cf k row
         \<and> kc_store (kw_core w2) = kc_store (kw_core w1) \<and> kc_file (kw_core w2) KP_Previous = None
         \<and> map_option kf_bytes (kc_file (kw_core w2) KP_Current) = Some k))
    \<and> (r = Inr () \<longrightarrow> (\<exists>g. s_pair (kc_store (kw_core w1)) = Some (t0\<lparr>tk_generation := Some g\<rparr>))
         \<and> map_option kf_bytes (kc_file (kw_core w1) KP_Current) = Some key)"
proof -
  have "outcome (openable cf) (\<lambda>_ c. \<exists>g. replaced cf key (t0\<lparr>tk_generation := Some g\<rparr>) c) r (kw_core w1)"
    using replace_triple [of cf now key t0] assms unfolding triple_def by blast
  then have "openable cf (kw_core w1)"
    "r = Inr () \<Longrightarrow> \<exists>g. replaced cf key (t0\<lparr>tk_generation := Some g\<rparr>) (kw_core w1)"
    by (auto simp: outcome_def replaced_openable split: sum.splits)
  then show ?thesis
    using load_key_settles [of "restart w1" cf] by (auto simp: replaced_def pair_is_def new_key_at_def)
qed

text \<open>An envelope is opened only by the key it was sealed with.\<close>

definition keyed_cipher :: cipher where
  "keyed_cipher = \<lparr>cf_sha256 = (\<lambda>m. take 32 (m @ replicate 32 (CHR ''x''))),
     cf_encrypt = (\<lambda>k n ad m. Some (m @ take 16 k)),
     cf_decrypt = (\<lambda>k n ad ct. if drop (length ct - 16) ct = take 16 k then Some (take (length ct - 16) ct) else None)\<rparr>"

definition sealed_row :: "string \<Rightarrow> TokenRow" where
  "sealed_row key =
     (case encrypt_legacy_owner_tokens keyed_cipher key (Some ''abcdefghijkl'') (Some ''mnopqrstuvwx'')
             \<lparr>ot_access_token = ''A'', ot_refresh_token = ''R''\<rparr> of
        Inr (ea, er) \<Rightarrow> \<lparr>tk_access = ea, tk_refresh = er, tk_expires_at = 0, tk_next_refresh_at = 0, tk_generation = None\<rparr>
      | Inl _ \<Rightarrow> \<lparr>tk_access = [], tk_refresh = [], tk_expires_at = 0, tk_next_refresh_at = 0, tk_generation = None\<rparr>)"

definition example_world :: "(nat \<Rightarrow> io_fault) \<Rightarrow> (nat \<Rightarrow> io_fault) \<Rightarrow> key_world" where
  "example_world file_faults store_faults =
     \<lparr>kw_core = \<lparr>kc_dir = SD_Safe,
        kc_file = (\<lambda>p. case p of KP_Current \<Rightarrow> Some \<lparr>kf_safe = True, kf_bytes = ''old''\<rparr> | _ \<Rightarrow> None),
        kc_store = empty_store\<lparr>s_pair := Some (sealed_row ''old'')\<rparr>\<rparr>,
      kw_file_faults = file_faults, kw_store_faults = store_faults, kw_tick = 0, kw_dead = False\<rparr>"

lemma example_openable: "openable keyed_cipher (kw_core (example_world ff sf))"
proof -
  have "row_valid (Some (sealed_row ''old''))" "key_matches_tokens keyed_cipher ''old'' (sealed_row ''old'')"
    by code_simp+
  then show ?thesis
    by (auto simp: openable_def files_good_def example_world_def opens_def good_file_def validate_key_def MAX_KEY_BYTES_def
        split: key_path.splits)
qed

theorem interrupted_replacement_opens_witness:
  "\<exists>r w1. run_state (replace_key_and_tokens keyed_cipher 1 ''new'' (sealed_row ''new''))
      (example_world (\<lambda>t. if t = 12 then FT_Crash else FT_None) (\<lambda>_. FT_None)) = (r, w1)
    \<and> (\<exists>row k w2. s_pair (kc_store (kw_core w1)) = Some row
         \<and> run_state (load_key_for_tokens keyed_cipher row) (restart w1) = (Inr k, w2))"
proof -
  let ?w = "example_world (\<lambda>t. if t = 12 then FT_Crash else FT_None) (\<lambda>_. FT_None)"
  obtain r w1 where run: "run_state (replace_key_and_tokens keyed_cipher 1 ''new'' (sealed_row ''new'')) ?w = (r, w1)" by force
  have "s_pair (kc_store (kw_core (snd (run_state (replace_key_and_tokens keyed_cipher 1 ''new'' (sealed_row ''new'')) ?w)))) \<noteq> None"
    by code_simp
  moreover have "honest ?w" by (simp add: honest_def example_world_def)
  ultimately show ?thesis
    using interrupted_replacement_opens [OF example_openable _ run] run by fastforce
qed



text \<open>
  C33: a commit that took effect and was reported as an error is the one fault that loses the key.
  The replacement then rolls the key back, the new pair stays committed, and no key on disk opens
  it: the next start fails for good.
\<close>
theorem lost_commit_report_loses_key:
  assumes calm: "calm w" and late: "kw_store_faults w = (\<lambda>_. FT_Late)"
    and dir: "kc_dir (kw_core w) = SD_Safe"
    and files: "kc_file (kw_core w) KP_Previous = None" "kc_file (kw_core w) KP_Current = Some old" "good_file old"
    and key: "validate_key key = Inr ()"
    and pair: "decrypt_legacy_owner_tokens cf key (tk_access t0) (tk_refresh t0) = Inr plaintext"
      "with_credential_generation t0 (legacy_refresh_credential_generation cf plaintext) = Inr tokens"
      "replace_teslamate_legacy_tokens now tokens (kc_store (kw_core w)) = Inr s"
    and other: "\<not> key_matches_tokens cf (kf_bytes old) tokens"
  shows "\<exists>w1. run_state (replace_key_and_tokens cf now key t0) w = (Inl (KI_TokenStore SE_Fault), w1)
    \<and> s_pair (kc_store (kw_core w1)) = Some tokens \<and> kc_file (kw_core w1) KP_Previous = None
    \<and> fst (run_state (load_key_for_tokens cf tokens) (restart w1)) = Inl KE_NoMatchingKeyGeneration"
proof -
  let ?w0 = "w\<lparr>kw_tick := Suc (kw_tick w)\<rparr>"
  have start: "run_state (recover_pending_key_replacement cf) w = (Inr (), ?w0)" using calm files(1) by (rule recover_calm)
  obtain w1 where w1: "run_state (begin_key_replacement key) ?w0 = (Inr True, w1)" "calm w1" "kw_store_faults w1 = (\<lambda>_. FT_Late)"
      "kc_file (kw_core w1) KP_Previous = Some old" "kc_file (kw_core w1) KP_Current = Some \<lparr>kf_safe = True, kf_bytes = key\<rparr>"
      "kc_dir (kw_core w1) = SD_Safe" "kc_store (kw_core w1) = kc_store (kw_core w)"
    using begin_calm [of ?w0 key old] calm late dir files key by auto
  let ?w2 = "w1\<lparr>kw_tick := Suc (kw_tick w1), kw_core := (kw_core w1)\<lparr>kc_store := s\<rparr>\<rparr>"
  have stored: "run_state (replace_stored_tokens now tokens) w1 = (Inl SE_Fault, ?w2)"
    using w1 pair(3) by (simp add: replace_late)
  obtain w3 where w3: "run_state (rollback_replacement True) ?w2 = (Inr (), w3)" "kc_file (kw_core w3) KP_Previous = None"
      "kc_file (kw_core w3) KP_Current = Some old" "kc_store (kw_core w3) = s" "kc_dir (kw_core w3) = SD_Safe"
    using rollback_calm [of ?w2 old "\<lparr>kf_safe = True, kf_bytes = key\<rparr>"] w1 key by (auto simp: good_file_def)
  have "run_state (replace_key_and_tokens cf now key t0) w = (Inl (KI_TokenStore SE_Fault), w3)"
    using start w1(1) stored w3(1) pair
    by (simp add: replace_key_and_tokens_def run_and_then map_error_def)
  moreover have "fst (run_state (load_key_for_tokens cf tokens) (restart w3)) = Inl KE_NoMatchingKeyGeneration"
    using w3 files(3) other by (intro load_key_no_match [where old = old]) simp_all
  ultimately show ?thesis using w3 replace_stores [OF pair(3)] by blast
qed

theorem lost_commit_report_loses_key_witness:
  "\<exists>w1 tokens. run_state (replace_key_and_tokens keyed_cipher 1 ''new'' (sealed_row ''new''))
      (example_world (\<lambda>_. FT_None) (\<lambda>_. FT_Late)) = (Inl (KI_TokenStore SE_Fault), w1)
    \<and> fst (run_state (load_key_for_tokens keyed_cipher tokens) (restart w1)) = Inl KE_NoMatchingKeyGeneration"
proof -
  let ?w = "example_world (\<lambda>_. FT_None) (\<lambda>_. FT_Late)" let ?t = "sealed_row ''new''"
  let ?p = "\<lparr>ot_access_token = ''A'', ot_refresh_token = ''R''\<rparr>"
  let ?tokens = "?t\<lparr>tk_generation := Some (legacy_refresh_credential_generation keyed_cipher ?p)\<rparr>"
  have dec: "decrypt_legacy_owner_tokens keyed_cipher ''new'' (tk_access ?t) (tk_refresh ?t) = Inr ?p" by code_simp
  have gen: "with_credential_generation ?t (legacy_refresh_credential_generation keyed_cipher ?p) = Inr ?tokens" by code_simp
  have store: "replace_teslamate_legacy_tokens 1 ?tokens (kc_store (kw_core ?w)) = Inr (empty_store\<lparr>s_pair := Some ?tokens\<rparr>)"
    by code_simp
  have other: "\<not> key_matches_tokens keyed_cipher ''old'' ?tokens" by code_simp
  have "calm ?w" "kw_store_faults ?w = (\<lambda>_. FT_Late)" "kc_dir (kw_core ?w) = SD_Safe"
      "kc_file (kw_core ?w) KP_Previous = None" "kc_file (kw_core ?w) KP_Current = Some \<lparr>kf_safe = True, kf_bytes = ''old''\<rparr>"
    by (simp_all add: calm_def example_world_def)
  moreover have "good_file \<lparr>kf_safe = True, kf_bytes = ''old''\<rparr>" "validate_key ''new'' = Inr ()"
    by (simp_all add: good_file_def validate_key_def MAX_KEY_BYTES_def)
  ultimately show ?thesis
    using lost_commit_report_loses_key [of ?w "\<lparr>kf_safe = True, kf_bytes = ''old''\<rparr>" "''new''", OF _ _ _ _ _ _ _ dec gen store] other
    by auto
qed

end
