(* ===== verification/Effective_Auth.thy ===== *)
theory Effective_Auth
  imports Auth_Authority Key_Recovery
begin

text \<open>
  The status a reader without a manager shows (\<^verbatim>\<open>src/auth/legacy_auth/effective.rs\<close>): the stored
  row read through the stored pair, with the same predicates as the unit. The theorem compares the
  view with what a unit that loads the same store restores: where they show the same stop, and the
  three situations in which they do not.
\<close>

section \<open>The view\<close>



definition stored_auth_view :: "CollectorAuthRow \<Rightarrow> CollectorAuthRow" where
  "stored_auth_view row =
     (if car_state row = ''sign_in_required'' \<and> \<not> car_collecting row
      then (case from_row row of Inr status \<Rightarrow> to_row (with_sign_in_expired status) | Inl _ \<Rightarrow> row)
      else row)"




section \<open>What the unit starts from\<close>



section \<open>The view and the unit agree\<close>


lemma usability_sign_in [simp]:
  "with_usability (status_stopped (Stop_SignInRequired r) g m c f k) u = status_stopped (Stop_SignInRequired r) g m u f k"
  "with_usability (status_stopped (Stop_SignedOut r) g m c f k) u = status_stopped (Stop_SignedOut r) g m c f k"
  "with_sign_in_expired (status_stopped (Stop_SignInRequired r) g m c f k) = status_stopped (Stop_SignedOut r) g m c f k"
  "with_sign_in_expired (status_stopped (Stop_SignedOut r) g m c f k) = status_stopped (Stop_SignedOut r) g m c f k"
  by (simp_all add: with_usability_def with_sign_in_expired_def status_stopped_def status_idle_def Let_def)


lemma no_stop [simp]:
  "status_stop (status_ready f k) = None" "status_stop (status_idle AS_ClockInvalid r f k) = None"
  "status_stop (status_idle AS_ConfigurationError r f k) = None" "status_stop (status_idle AS_AwaitingConfirmation r f k) = None"
  by (simp_all add: status_stop_def status_ready_def status_idle_def)















section \<open>The view read from the store\<close>

definition untroubled :: "key_world \<Rightarrow> bool" where
  "untroubled w \<longleftrightarrow> calm w \<and> kw_store_faults w = (\<lambda>_. FT_None)"


lemma untroubled_update [simp]:
  "untroubled (w\<lparr>kw_tick := n\<rparr>) = untroubled w" "untroubled (w\<lparr>kw_core := c\<rparr>) = untroubled w"
  by (simp_all add: untroubled_def)


section \<open>Refusals, unresolved attempts and hidden ends of use\<close>

















end
