(* ===== verification/Request_Ledger.thy ===== *)
theory Request_Ledger
  imports Hub_Prelude "HOL-Library.List_Lexorder" "HOL-Library.Char_ord" "HOL-Library.Product_Lexorder"
begin

text \<open>
  The request counter of Fleet polling (\<open>collection/collector/scheduler_counters.rs\<close>): the
  categories and their prices, the calendar month, the ledger that counts, gates and
  estimates, the guard that ties a count to a request's life, and the counter rows of
  \<open>storage/db/collector_state.rs\<close>.

  \<^item> \<open>u64\<close> counters are \<open>nat\<close> with the saturation written out; prices and caps are whole
    cost units, so nothing is rounded.
  \<^item> The four-element arrays indexed by the category are functions of the category.
  \<^item> An \<open>Instant\<close> is its number of nanoseconds. A clock reading is an argument of the
    operation that takes it: the monotonic instant, and the wall time or \<open>None\<close> for a clock
    the system could not read.
  \<^item> Dates come from the \<open>time\<close> crate, which is the parameter \<open>calendar\<close>.
\<close>

section \<open>Unsigned saturating arithmetic\<close>

definition u64_max :: nat where "u64_max = 2 ^ 64 - 1"

definition u64_saturating_add :: "nat \<Rightarrow> nat \<Rightarrow> nat" where
  "u64_saturating_add a b = min (a + b) u64_max"

definition u64_saturating_mul :: "nat \<Rightarrow> nat \<Rightarrow> nat" where
  "u64_saturating_mul a b = min (a * b) u64_max"

text \<open>\<open>u64::div_ceil\<close>, for a positive divisor; the subtraction of \<open>nat\<close> is \<open>saturating_sub\<close>.\<close>

definition div_ceil :: "nat \<Rightarrow> nat \<Rightarrow> nat" where
  "div_ceil a b = (if a mod b = 0 then a div b else a div b + 1)"

text \<open>\<open>i64::try_from(u64).unwrap_or(i64::MAX)\<close> and \<open>u64::try_from(i64).unwrap_or(0)\<close>.\<close>

definition signed :: "nat \<Rightarrow> int" where "signed n = min (int n) i64_max"
definition unsigned_or_zero :: "int \<Rightarrow> nat" where "unsigned_or_zero i = nat i"

section \<open>Constants\<close>

definition COST_UNITS_PER_DOLLAR :: nat where "COST_UNITS_PER_DOLLAR = 150000"
definition COST_UNITS_PER_CENT :: nat where "COST_UNITS_PER_CENT = COST_UNITS_PER_DOLLAR div 100"
definition K_RESERVE_BLOCK :: nat where "K_RESERVE_BLOCK = 20"
definition K_CAP_WARN_PERCENT :: nat where "K_CAP_WARN_PERCENT = 80"
definition K_COUNTER_FLUSH :: nat where "K_COUNTER_FLUSH = 60 * 60 * 1000000000"
definition K_PROJECTION_MIN_ELAPSED_MS :: int where
  "K_PROJECTION_MIN_ELAPSED_MS = 24 * 60 * 60 * 1000"
definition TESLA_MONTHLY_DISCOUNT_CENTS :: nat where "TESLA_MONTHLY_DISCOUNT_CENTS = 1000"
definition CONSENT_IDLE_WINDOW :: nat where "CONSENT_IDLE_WINDOW = 15 * 60"
definition CONSENT_DRIVING_SECONDS :: nat where "CONSENT_DRIVING_SECONDS = 60 * 60"
definition CONSENT_CHARGING_SECONDS :: nat where "CONSENT_CHARGING_SECONDS = 2 * 60 * 60"
definition CONSENT_PARKINGS :: nat where "CONSENT_PARKINGS = 4"
definition K_CLOCK_DIVERGENCE_MS :: int where "K_CLOCK_DIVERGENCE_MS = 60 * 1000"

lemmas ledger_consts [hub_consts] =
  COST_UNITS_PER_DOLLAR_def COST_UNITS_PER_CENT_def K_RESERVE_BLOCK_def K_CAP_WARN_PERCENT_def
  K_COUNTER_FLUSH_def K_PROJECTION_MIN_ELAPSED_MS_def TESLA_MONTHLY_DISCOUNT_CENTS_def
  CONSENT_IDLE_WINDOW_def CONSENT_DRIVING_SECONDS_def CONSENT_CHARGING_SECONDS_def
  CONSENT_PARKINGS_def K_CLOCK_DIVERGENCE_MS_def

section \<open>Categories and prices\<close>

datatype RequestCategory = RC_Data | RC_State | RC_Wake | RC_Command

definition RequestCategory_ALL :: "RequestCategory list" where
  "RequestCategory_ALL = [RC_Data, RC_State, RC_Wake, RC_Command]"

fun category_code :: "RequestCategory \<Rightarrow> string" where
  "category_code RC_Data = ''data''"
| "category_code RC_State = ''state''"
| "category_code RC_Wake = ''wake''"
| "category_code RC_Command = ''command''"

definition category_from_code :: "string \<Rightarrow> RequestCategory option" where
  "category_from_code s = find (\<lambda>c. category_code c = s) RequestCategory_ALL"

datatype CollectorMode = CM_Legacy | CM_Provider | CM_FleetPolling

fun mode_code :: "CollectorMode \<Rightarrow> string" where
  "mode_code CM_Legacy = ''legacy''"
| "mode_code CM_Provider = ''provider''"
| "mode_code CM_FleetPolling = ''fleet_polling''"

text \<open>Prices in requests per dollar; no price for the state checks means they are free.\<close>

record FleetPricing =
  data_rate :: nat
  state_rate :: "nat option"
  wake_rate :: nat
  command_rate :: nat
  signal_rate :: nat

definition FLEET_PRICING :: FleetPricing where
  "FLEET_PRICING = \<lparr>data_rate = 500, state_rate = Some 500, wake_rate = 50,
     command_rate = 1000, signal_rate = 150000\<rparr>"

text \<open>The polling intervals in nanoseconds, the cap in cents and the prices.\<close>

record FleetIntervals =
  driving :: nat
  charging :: nat
  updating :: nat
  online :: nat
  state_check :: nat
  inventory :: nat

record FleetPolicy =
  intervals :: FleetIntervals
  monthly_cap_cents :: nat
  policy_pricing :: FleetPricing

definition price_units :: "FleetPricing \<Rightarrow> RequestCategory \<Rightarrow> nat option" where
  "price_units p c =
     (case (case c of RC_Data \<Rightarrow> Some (data_rate p) | RC_State \<Rightarrow> state_rate p
              | RC_Wake \<Rightarrow> Some (wake_rate p) | RC_Command \<Rightarrow> Some (command_rate p)) of
        None \<Rightarrow> None
      | Some per_dollar \<Rightarrow> Some (div_ceil COST_UNITS_PER_DOLLAR (max per_dollar 1)))"

datatype FleetApiError =
    FA_InvalidEndpoint | FA_RequestTimeout | FA_RequestNotSent | FA_Transport
  | FA_HttpStatus nat
  | FA_ProviderHttpStatus nat string "string option"
  | FA_RateLimited nat
  | FA_ResponseTooLarge | FA_ResponseRead | FA_InvalidResponse
  | FA_InvalidCommand | FA_CommandRejected
  | FA_InvalidTelemetryConfig | FA_TelemetryConfigTooLarge
  | FA_CommandProxyUnavailable | FA_InvalidChargeLimit

fun fleet_error_billable :: "FleetApiError \<Rightarrow> bool" where
  "fleet_error_billable FA_RequestNotSent = False"
| "fleet_error_billable FA_InvalidEndpoint = False"
| "fleet_error_billable FA_InvalidCommand = False"
| "fleet_error_billable FA_InvalidTelemetryConfig = False"
| "fleet_error_billable FA_TelemetryConfigTooLarge = False"
| "fleet_error_billable FA_CommandProxyUnavailable = False"
| "fleet_error_billable FA_InvalidChargeLimit = False"
| "fleet_error_billable FA_RequestTimeout = True"
| "fleet_error_billable FA_Transport = True"
| "fleet_error_billable (FA_HttpStatus status) = (status < 500)"
| "fleet_error_billable (FA_ProviderHttpStatus status _ _) = (status < 500)"
| "fleet_error_billable (FA_RateLimited _) = True"
| "fleet_error_billable FA_ResponseTooLarge = True"
| "fleet_error_billable FA_ResponseRead = True"
| "fleet_error_billable FA_InvalidResponse = True"
| "fleet_error_billable FA_CommandRejected = True"

fun fleet_result_billable :: "FleetApiError + 'a \<Rightarrow> bool" where
  "fleet_result_billable (Inl e) = fleet_error_billable e"
| "fleet_result_billable (Inr _) = True"

definition fleet_result_attempted :: "FleetApiError + 'a \<Rightarrow> bool" where
  "fleet_result_attempted r =
     (case r of
        Inr _ \<Rightarrow> True
      | Inl e \<Rightarrow> e \<notin> {FA_InvalidEndpoint, FA_InvalidCommand, FA_InvalidTelemetryConfig,
                      FA_TelemetryConfigTooLarge, FA_CommandProxyUnavailable,
                      FA_InvalidChargeLimit})"

section \<open>The calendar month\<close>

text \<open>
  The \<open>time\<close> crate: the year and month (1 to 12) of a Unix time in seconds, and the Unix time
  of midnight on the first day of a month, each \<open>None\<close> outside the crate's range.
\<close>

record calendar =
  year_month_at :: "int \<Rightarrow> (int \<times> nat) option"
  first_of_month :: "int \<Rightarrow> nat \<Rightarrow> int option"

record MonthSpan =
  span_key :: string
  start_ms :: int
  end_ms :: int

text \<open>\<open>{:0w}\<close> of a number's digits, \<open>{:04}\<close> of an \<open>i32\<close> year, and the integer readers of \<open>FromStr\<close>.\<close>

definition zero_padded :: "nat \<Rightarrow> string \<Rightarrow> string" where
  "zero_padded w s = replicate (w - length s) CHR ''0'' @ s"

definition show_year :: "int \<Rightarrow> string" where
  "show_year y = (if y < 0 then CHR ''-'' # zero_padded 3 (show_nat (nat (- y)))
                  else zero_padded 4 (show_nat (nat y)))"

definition read_digits :: "nat \<Rightarrow> string \<Rightarrow> nat option" where
  "read_digits most s =
     (if s \<noteq> [] \<and> list_all is_ascii_digit s \<and> dec_val s \<le> most then Some (dec_val s) else None)"

definition parse_u8 :: "string \<Rightarrow> nat option" where
  "parse_u8 s = (case s of c # r \<Rightarrow> if c = CHR ''+'' then read_digits 255 r else read_digits 255 s
                 | [] \<Rightarrow> None)"

definition parse_i32 :: "string \<Rightarrow> int option" where
  "parse_i32 s =
     (case s of
        [] \<Rightarrow> None
      | c # r \<Rightarrow>
          if c = CHR ''-'' then map_option (\<lambda>n. - int n) (read_digits (2 ^ 31) r)
          else if c = CHR ''+'' then map_option int (read_digits (2 ^ 31 - 1) r)
          else map_option int (read_digits (2 ^ 31 - 1) s))"

definition month_millis :: "int \<Rightarrow> int option" where
  "month_millis secs = (if in_i64 (secs * 1000) then Some (secs * 1000) else None)"

definition from_year_month :: "calendar \<Rightarrow> int \<Rightarrow> nat \<Rightarrow> MonthSpan option" where
  "from_year_month cal year month =
     Option.bind (first_of_month cal year month) (\<lambda>first.
     let (next_year, next_month) = (if month = 12 then (year + 1, 1) else (year, month + 1)) in
     Option.bind (if next_year < 2 ^ 31 then Some next_year else None) (\<lambda>next_year.
     Option.bind (first_of_month cal next_year next_month) (\<lambda>next.
     Option.bind (month_millis first) (\<lambda>start.
     Option.bind (month_millis next) (\<lambda>stop.
       Some \<lparr>span_key = show_year year @ CHR ''-'' # zero_padded 2 (show_nat month),
             start_ms = start, end_ms = stop\<rparr>)))))"

definition containing :: "calendar \<Rightarrow> int \<Rightarrow> MonthSpan option" where
  "containing cal epoch_ms =
     Option.bind (year_month_at cal (epoch_ms div 1000)) (\<lambda>(year, month).
       from_year_month cal year month)"

definition of_key :: "calendar \<Rightarrow> string \<Rightarrow> MonthSpan option" where
  "of_key cal key =
     Option.bind (split_once CHR ''-'' key) (\<lambda>(year, month).
     Option.bind (parse_i32 year) (\<lambda>year.
     Option.bind (parse_u8 month) (\<lambda>month.
       if 1 \<le> month \<and> month \<le> 12 then from_year_month cal year month else None)))"

definition length_ms :: "MonthSpan \<Rightarrow> int" where
  "length_ms span = saturating_sub (end_ms span) (start_ms span)"

datatype MonthEvent = ME_Unchanged | ME_Rolled string string

section \<open>The ledger\<close>

datatype Withheld = WH_Cap | WH_Reservation | WH_Account
datatype Admission = Admitted | Withheld Withheld

record CategoryCount =
  sent :: nat
  billable :: nat
  in_flight :: nat
  reserved_pending :: nat
  reserved_persisted :: nat

definition CategoryCount_default :: CategoryCount where
  "CategoryCount_default = \<lparr>sent = 0, billable = 0, in_flight = 0, reserved_pending = 0,
     reserved_persisted = 0\<rparr>"

record CounterView =
  view_sent :: nat
  view_billable :: nat
  view_reserved :: nat

definition CounterView_default :: CounterView where
  "CounterView_default = \<lparr>view_sent = 0, view_billable = 0, view_reserved = 0\<rparr>"

text \<open>The anchor is a pair of a monotonic instant and a wall time.\<close>

record LedgerState =
  mode :: CollectorMode
  pricing :: FleetPricing
  cap_units :: nat
  month_span :: MonthSpan
  anchor :: "nat \<times> int"
  frozen :: bool
  deferred_logged :: bool
  counts :: "RequestCategory \<Rightarrow> CategoryCount"
  persisted :: "RequestCategory \<Rightarrow> CounterView"
  started_since_start :: "RequestCategory \<Rightarrow> nat"
  warned :: bool
  last_flush :: nat

definition billed :: "LedgerState \<Rightarrow> RequestCategory \<Rightarrow> bool" where
  "billed l c \<longleftrightarrow> mode l = CM_FleetPolling \<and> price_units (pricing l) c \<noteq> None"

definition price :: "LedgerState \<Rightarrow> RequestCategory \<Rightarrow> nat" where
  "price l c = (case price_units (pricing l) c of Some p \<Rightarrow> p | None \<Rightarrow> 0)"

definition gross_units :: "LedgerState \<Rightarrow> bool \<Rightarrow> nat" where
  "gross_units l include_in_flight =
     foldl (\<lambda>total c.
         let requests = u64_saturating_add (billable (counts l c))
               (if include_in_flight then in_flight (counts l c) else 0)
         in u64_saturating_add total (u64_saturating_mul requests (price l c)))
       0 (filter (billed l) RequestCategory_ALL)"

definition exposure_requests :: "CategoryCount \<Rightarrow> nat \<Rightarrow> nat" where
  "exposure_requests count reserved =
     (let not_billed = sent count - in_flight count - billable count in
      max (u64_saturating_add (billable count) (in_flight count)) (reserved - not_billed))"

definition exposure_units :: "LedgerState \<Rightarrow> RequestCategory option \<Rightarrow> nat" where
  "exposure_units l except =
     foldl (\<lambda>total c. u64_saturating_add total
         (u64_saturating_mul (exposure_requests (counts l c) (reserved_pending (counts l c)))
            (price l c)))
       0 (filter (\<lambda>c. billed l c \<and> Some c \<noteq> except) RequestCategory_ALL)"

definition max_reserved :: "LedgerState \<Rightarrow> RequestCategory \<Rightarrow> nat" where
  "max_reserved l c =
     (let count = counts l c;
          not_billed = sent count - in_flight count - billable count;
          affordable = (cap_units l - exposure_units l (Some c)) div max (price l c) 1
      in u64_saturating_add affordable not_billed)"

definition pending_reservation :: "LedgerState \<Rightarrow> bool" where
  "pending_reservation l \<longleftrightarrow>
     list_ex (\<lambda>c. reserved_persisted (counts l c) < reserved_pending (counts l c)) RequestCategory_ALL"

definition check_cap_warning :: "LedgerState \<Rightarrow> LedgerState" where
  "check_cap_warning l =
     (if mode l \<noteq> CM_FleetPolling \<or> warned l \<or> cap_units l = 0 then l
      else if u64_saturating_mul (cap_units l) K_CAP_WARN_PERCENT
                \<le> u64_saturating_mul (gross_units l True) 100 then l\<lparr>warned := True\<rparr>
      else l)"

definition set_count :: "RequestCategory \<Rightarrow> CategoryCount \<Rightarrow> LedgerState \<Rightarrow> LedgerState" where
  "set_count c count l = l\<lparr>counts := (counts l)(c := count)\<rparr>"

definition start :: "LedgerState \<Rightarrow> RequestCategory \<Rightarrow> Admission \<times> LedgerState" where
  "start l c =
     (let count = counts l c;
          admit = check_cap_warning
            (set_count c (count\<lparr>sent := u64_saturating_add (sent count) 1,
                               in_flight := u64_saturating_add (in_flight count) 1\<rparr>)
              (l\<lparr>started_since_start := (started_since_start l)
                   (c := u64_saturating_add (started_since_start l c) 1)\<rparr>))
      in if billed l c then
           (if cap_units l < u64_saturating_add (gross_units l True) (price l c)
            then (Withheld WH_Cap, l)
            else if reserved_persisted count \<le> sent count
            then (let wanted = u64_saturating_add (max (reserved_pending count) (sent count)) 1
                  in if reserved_persisted count < reserved_pending count
                        \<or> wanted \<le> max_reserved l c
                     then (Withheld WH_Reservation, l) else (Withheld WH_Cap, l))
            else (Admitted, admit))
         else (Admitted, admit))"

definition unstart :: "LedgerState \<Rightarrow> RequestCategory \<Rightarrow> LedgerState" where
  "unstart l c =
     (let count = counts l c in
      set_count c (count\<lparr>sent := sent count - 1, in_flight := in_flight count - 1\<rparr>)
        (l\<lparr>started_since_start := (started_since_start l)(c := started_since_start l c - 1)\<rparr>))"

definition complete :: "LedgerState \<Rightarrow> RequestCategory \<Rightarrow> bool \<Rightarrow> LedgerState" where
  "complete l c bills =
     (let count = (counts l c)\<lparr>in_flight := in_flight (counts l c) - 1\<rparr>;
          count = (if billed l c \<and> bills \<and> billable count < sent count
                   then count\<lparr>billable := billable count + 1,
                              reserved_pending := max (reserved_pending count) (billable count + 1)\<rparr>
                   else count)
      in check_cap_warning (set_count c count l))"

definition record_completed :: "LedgerState \<Rightarrow> RequestCategory \<Rightarrow> bool \<Rightarrow> LedgerState" where
  "record_completed l c bills =
     (let count = (counts l c)\<lparr>sent := u64_saturating_add (sent (counts l c)) 1\<rparr>;
          count = (if billed l c
                   then (let count = (if bills then count\<lparr>billable := u64_saturating_add (billable count) 1\<rparr>
                                      else count)
                         in count\<lparr>reserved_pending := max (reserved_pending count) (billable count)\<rparr>)
                   else count)
      in check_cap_warning (set_count c count l))"

definition plan_one :: "LedgerState \<Rightarrow> RequestCategory \<times> nat \<Rightarrow> LedgerState" where
  "plan_one l = (\<lambda>(c, planned).
     let count = counts l c in
     if planned = 0 \<or> \<not> billed l c then l
     else if planned \<le> reserved_pending count - sent count then l
     else
       let desired = max planned (min K_RESERVE_BLOCK (started_since_start l c));
           lift = sent count - reserved_pending count;
           base = u64_saturating_add (reserved_pending count) lift;
           ceiling = max_reserved l c
       in if ceiling < base then l
          else set_count c (count\<lparr>reserved_pending :=
                 u64_saturating_add base (min desired (ceiling - base))\<rparr>) l)"

definition plan :: "LedgerState \<Rightarrow> (RequestCategory \<times> nat) list \<Rightarrow> bool \<times> LedgerState" where
  "plan l p =
     (if mode l \<noteq> CM_FleetPolling then (False, l)
      else let l = foldl plan_one l p in (pending_reservation l, l))"

subsection \<open>The month of a ledger\<close>

text \<open>\<open>i64::try_from(mono.saturating_duration_since(since).as_millis()).unwrap_or(i64::MAX)\<close>\<close>

definition elapsed_millis :: "nat \<Rightarrow> nat \<Rightarrow> int" where
  "elapsed_millis mono_now since = min (int ((mono_now - since) div 1000000)) i64_max"

definition projected_wall :: "LedgerState \<Rightarrow> nat \<Rightarrow> int \<Rightarrow> int \<times> LedgerState" where
  "projected_wall l mono_now wall =
     (if mode l \<noteq> CM_FleetPolling then (wall, l)
      else
        let elapsed_ms = elapsed_millis mono_now (fst (anchor l));
            l = (if \<not> frozen l \<and> K_CLOCK_DIVERGENCE_MS
                      < saturating_sub (saturating_sub wall (snd (anchor l))) elapsed_ms
                 then l\<lparr>frozen := True\<rparr> else l)
        in if frozen l then (saturating_add (snd (anchor l)) elapsed_ms, l)
           else (wall, l\<lparr>anchor := (mono_now, wall)\<rparr>))"

definition new_month_count :: "CategoryCount \<Rightarrow> CategoryCount" where
  "new_month_count count =
     CategoryCount_default\<lparr>sent := in_flight count, in_flight := in_flight count\<rparr>"

definition refresh :: "calendar \<Rightarrow> LedgerState \<Rightarrow> nat \<Rightarrow> int option \<Rightarrow> MonthEvent \<times> LedgerState" where
  "refresh cal l mono_now wall =
     (case wall of
        None \<Rightarrow> (ME_Unchanged, l)
      | Some wall \<Rightarrow>
          (let (judged, l) = projected_wall l mono_now wall in
           case containing cal judged of
             None \<Rightarrow> (ME_Unchanged, l)
           | Some candidate \<Rightarrow>
               if span_key (month_span l) < span_key candidate
               then (ME_Rolled (span_key (month_span l)) (span_key candidate),
                     l\<lparr>month_span := candidate, anchor := (mono_now, wall), frozen := False,
                       deferred_logged := False, warned := False,
                       counts := (\<lambda>c. new_month_count (counts l c)),
                       persisted := (\<lambda>c. CounterView_default)\<rparr>)
               else if mode l = CM_FleetPolling \<and> \<not> deferred_logged l
                    \<and> (case containing cal wall of None \<Rightarrow> False
                       | Some actual \<Rightarrow> span_key (month_span l) < span_key actual)
               then (ME_Unchanged, l\<lparr>deferred_logged := True\<rparr>)
               else (ME_Unchanged, l)))"

subsection \<open>The rows of the store\<close>

record CollectorCounterRow =
  row_month :: string
  row_mode :: string
  row_category :: string
  row_sent :: int
  row_billable :: int
  row_reserved :: int

definition view_of :: "CategoryCount \<Rightarrow> CounterView" where
  "view_of count = \<lparr>view_sent = sent count - in_flight count, view_billable = billable count,
     view_reserved = reserved_pending count\<rparr>"

definition dirty :: "LedgerState \<Rightarrow> bool" where
  "dirty l \<longleftrightarrow> list_ex (\<lambda>c. view_of (counts l c) \<noteq> persisted l c) RequestCategory_ALL"

definition counter_row :: "LedgerState \<Rightarrow> RequestCategory \<Rightarrow> CollectorCounterRow" where
  "counter_row l c =
     (let view = view_of (counts l c) in
      \<lparr>row_month = span_key (month_span l), row_mode = mode_code (mode l),
       row_category = category_code c, row_sent = signed (view_sent view),
       row_billable = signed (view_billable view), row_reserved = signed (view_reserved view)\<rparr>)"

definition rows :: "LedgerState \<Rightarrow> CollectorCounterRow list" where
  "rows l = map (counter_row l)
     (filter (\<lambda>c. view_of (counts l c) \<noteq> persisted l c) RequestCategory_ALL)"

definition row_view :: "CollectorCounterRow \<Rightarrow> CounterView" where
  "row_view row = \<lparr>view_sent = unsigned_or_zero (row_sent row),
     view_billable = unsigned_or_zero (row_billable row),
     view_reserved = unsigned_or_zero (row_reserved row)\<rparr>"

text \<open>The category a row of this ledger's month and mode counts for.\<close>

definition row_for :: "LedgerState \<Rightarrow> CollectorCounterRow \<Rightarrow> RequestCategory option" where
  "row_for l row =
     (if row_month row \<noteq> span_key (month_span l) \<or> row_mode row \<noteq> mode_code (mode l) then None
      else category_from_code (row_category row))"

definition mark_row :: "LedgerState \<Rightarrow> CollectorCounterRow \<Rightarrow> LedgerState" where
  "mark_row l row =
     (case row_for l row of
        None \<Rightarrow> l
      | Some c \<Rightarrow>
          set_count c ((counts l c)\<lparr>reserved_persisted :=
              max (reserved_persisted (counts l c)) (unsigned_or_zero (row_reserved row))\<rparr>)
            (l\<lparr>persisted := (persisted l)(c := row_view row)\<rparr>))"

definition mark_persisted :: "LedgerState \<Rightarrow> CollectorCounterRow list \<Rightarrow> nat \<Rightarrow> LedgerState" where
  "mark_persisted l rs mono_now = (foldl mark_row l rs)\<lparr>last_flush := mono_now\<rparr>"

definition row_count :: "bool \<Rightarrow> CollectorCounterRow \<Rightarrow> CategoryCount" where
  "row_count bills row =
     (let view = row_view row;
          count = CategoryCount_default\<lparr>sent := view_sent view, billable := view_billable view,
            reserved_pending := view_reserved view, reserved_persisted := view_reserved view\<rparr>
      in if bills \<and> view_sent view < view_reserved view
         then (let converted = view_reserved view - view_sent view in
               count\<lparr>sent := u64_saturating_add (view_sent view) converted,
                     billable := u64_saturating_add (view_billable view) converted\<rparr>)
         else count)"

definition load_row :: "LedgerState \<Rightarrow> CollectorCounterRow \<Rightarrow> LedgerState" where
  "load_row l row =
     (case row_for l row of
        None \<Rightarrow> l
      | Some c \<Rightarrow> set_count c (row_count (billed l c) row)
                   (l\<lparr>persisted := (persisted l)(c := row_view row)\<rparr>))"

definition latest_month :: "CollectorCounterRow list \<Rightarrow> string option" where
  "latest_month rs = (case map row_month rs of [] \<Rightarrow> None | m # ms \<Rightarrow> Some (foldl max m ms))"

definition load_span :: "calendar \<Rightarrow> MonthSpan \<Rightarrow> int option \<Rightarrow> CollectorCounterRow list \<Rightarrow> MonthSpan" where
  "load_span cal span wall rs =
     (let span = (case Option.bind wall (containing cal) of None \<Rightarrow> span | Some calendar \<Rightarrow> calendar)
      in case latest_month rs of
           None \<Rightarrow> span
         | Some latest \<Rightarrow>
             if span_key span < latest
             then (case of_key cal latest of None \<Rightarrow> span | Some later \<Rightarrow> later)
             else span)"

definition at_warning :: "LedgerState \<Rightarrow> bool" where
  "at_warning l \<longleftrightarrow> 0 < cap_units l \<and>
     u64_saturating_mul (cap_units l) K_CAP_WARN_PERCENT
       \<le> u64_saturating_mul (gross_units l True) 100"

definition load :: "calendar \<Rightarrow> LedgerState \<Rightarrow> nat \<Rightarrow> int option \<Rightarrow> CollectorCounterRow list \<Rightarrow> LedgerState" where
  "load cal l mono_now wall rs =
     (let l = l\<lparr>anchor := (case wall of None \<Rightarrow> anchor l | Some wall \<Rightarrow> (mono_now, wall)),
                month_span := load_span cal (month_span l) wall rs,
                frozen := False, deferred_logged := False, warned := False,
                counts := (\<lambda>c. CategoryCount_default), persisted := (\<lambda>c. CounterView_default)\<rparr>;
          l = (foldl load_row l rs)\<lparr>last_flush := mono_now\<rparr>
      in l\<lparr>warned := at_warning l\<rparr>)"

subsection \<open>The estimate\<close>

datatype EstimateNote = PROJECTION_AFTER_FIRST_DAY

record CostEstimate =
  gross_cents :: nat
  net_cents :: nat
  cap_cents :: nat
  cap_warning :: bool
  projected_cents :: "nat option"
  stop_ms :: "int option"
  estimate_note :: "EstimateNote option"

definition estimate :: "LedgerState \<Rightarrow> int option \<Rightarrow> CostEstimate option" where
  "estimate l wall =
     (if mode l \<noteq> CM_FleetPolling then None
      else
        let gross_units = gross_units l False;
            gross_cents = div_ceil gross_units COST_UNITS_PER_CENT;
            elapsed_ms = (case wall of None \<Rightarrow> 0
              | Some wall \<Rightarrow> saturating_sub wall (start_ms (month_span l)));
            estimate = \<lparr>gross_cents = gross_cents,
              net_cents = gross_cents - TESLA_MONTHLY_DISCOUNT_CENTS,
              cap_cents = min (cap_units l div COST_UNITS_PER_CENT) (2 ^ 32 - 1),
              cap_warning = at_warning l, projected_cents = None, stop_ms = None,
              estimate_note = Some PROJECTION_AFTER_FIRST_DAY\<rparr>
        in if elapsed_ms < K_PROJECTION_MIN_ELAPSED_MS then Some estimate
           else
             let elapsed = nat elapsed_ms;
                 span = nat (length_ms (month_span l));
                 projected = div_ceil (gross_units * span) (elapsed * COST_UNITS_PER_CENT);
                 offset = elapsed * cap_units l div gross_units
             in Some (estimate\<lparr>estimate_note := None,
                  projected_cents := Some (min projected u64_max),
                  stop_ms := (if 0 < gross_units \<and> offset < span \<and> int offset \<le> i64_max
                              then Some (saturating_add (start_ms (month_span l)) (int offset))
                              else None)\<rparr>))"

subsection \<open>The shared handle\<close>

definition new_ledger :: "calendar \<Rightarrow> CollectorMode \<Rightarrow> FleetPolicy \<Rightarrow> int option \<Rightarrow> nat \<Rightarrow> LedgerState" where
  "new_ledger cal m fleet wall now =
     (let wall = (case wall of None \<Rightarrow> 0 | Some wall \<Rightarrow> wall) in
      \<lparr>mode = m, pricing = policy_pricing fleet,
       cap_units = u64_saturating_mul (monthly_cap_cents fleet) COST_UNITS_PER_CENT,
       month_span =
         (case containing cal wall of Some span \<Rightarrow> span
          | None \<Rightarrow> (case containing cal 0 of Some span \<Rightarrow> span
             | None \<Rightarrow> \<lparr>span_key = ''1970-01'', start_ms = 0, end_ms = 0\<rparr>)),
       anchor = (now, wall), frozen = False, deferred_logged = False,
       counts = (\<lambda>c. CategoryCount_default), persisted = (\<lambda>c. CounterView_default),
       started_since_start = (\<lambda>c. 0), warned = False, last_flush = now\<rparr>)"

definition record_fleet_result :: "LedgerState \<Rightarrow> RequestCategory \<Rightarrow> FleetApiError + 'a \<Rightarrow> LedgerState" where
  "record_fleet_result l c result =
     (if fleet_result_attempted result then record_completed l c (fleet_result_billable result) else l)"

definition freeze_month_anchor :: "LedgerState \<Rightarrow> LedgerState" where
  "freeze_month_anchor l = l\<lparr>frozen := True\<rparr>"

definition flush_due :: "LedgerState \<Rightarrow> nat \<Rightarrow> bool" where
  "flush_due l mono_now \<longleftrightarrow> dirty l \<and> K_COUNTER_FLUSH \<le> mono_now - last_flush l"

record LedgerView =
  view_month :: string
  view_requests :: "(RequestCategory \<times> nat) list"
  view_estimate :: "CostEstimate option"

definition ledger_view :: "LedgerState \<Rightarrow> int option \<Rightarrow> LedgerView" where
  "ledger_view l wall = \<lparr>view_month = span_key (month_span l),
     view_requests = map (\<lambda>c. (c, sent (counts l c))) RequestCategory_ALL,
     view_estimate = estimate l wall\<rparr>"

definition cap_allows_one_more :: "LedgerState \<Rightarrow> bool" where
  "cap_allows_one_more l \<longleftrightarrow>
     (let cheapest = (case map (price l) (filter (billed l) [RC_Data, RC_State]) of
            [] \<Rightarrow> 0 | p # ps \<Rightarrow> foldl min p ps)
      in u64_saturating_add (gross_units l True) cheapest \<le> cap_units l)"

text \<open>
  The guard of one counted request. A guard without a ledger counts nothing; dropping an
  armed guard takes the start back.
\<close>

record CountedStart =
  category :: RequestCategory
  armed :: bool

definition counted_admitted :: "RequestCategory \<Rightarrow> CountedStart" where
  "counted_admitted c = \<lparr>category = c, armed = True\<rparr>"

definition counted_resend :: "LedgerState \<Rightarrow> RequestCategory \<Rightarrow> CountedStart option \<times> LedgerState" where
  "counted_resend l c =
     (let (admission, l) = start l c in
      (if admission = Admitted then Some (counted_admitted c) else None, l))"

definition counted_complete ::
  "LedgerState \<Rightarrow> CountedStart \<Rightarrow> FleetApiError + 'a \<Rightarrow> CountedStart \<times> LedgerState" where
  "counted_complete l g result =
     (g\<lparr>armed := False\<rparr>,
      if armed g then
        (if fleet_result_attempted result then complete l (category g) (fleet_result_billable result)
         else unstart l (category g))
      else l)"

definition counted_drop :: "LedgerState \<Rightarrow> CountedStart \<Rightarrow> LedgerState" where
  "counted_drop l g = (if armed g then unstart l (category g) else l)"

section \<open>The counter table\<close>

type_synonym counter_table = "CollectorCounterRow list"

definition row_key :: "CollectorCounterRow \<Rightarrow> string \<times> string \<times> string" where
  "row_key row = (row_month row, row_mode row, row_category row)"

text \<open>
  The constraints the table puts on a row: those on the columns of \<open>CollectorCounterRow\<close>, and the
  one on the time of the write. That time is checked with every row and then not kept here: no
  query of the program reads it back.
\<close>

definition columns_check :: "CollectorCounterRow \<Rightarrow> bool" where
  "columns_check row \<longleftrightarrow>
     length (row_month row) = 7
     \<and> row_mode row \<in> {''legacy'', ''provider'', ''fleet_polling''}
     \<and> row_category row \<in> {''data'', ''state'', ''wake'', ''command''}
     \<and> 0 \<le> row_sent row
     \<and> 0 \<le> row_billable row \<and> row_billable row \<le> row_sent row
     \<and> row_billable row \<le> row_reserved row"

definition row_check :: "int \<Rightarrow> CollectorCounterRow \<Rightarrow> bool" where
  "row_check updated_at_ms row \<longleftrightarrow> columns_check row \<and> 0 \<le> updated_at_ms"

definition upsert_row :: "counter_table \<Rightarrow> CollectorCounterRow \<Rightarrow> counter_table" where
  "upsert_row table row = insort_key row_key row (filter (\<lambda>r. row_key r \<noteq> row_key row) table)"

text \<open>The counters of one transaction: all rows are written or none.\<close>

definition write_counters :: "int \<Rightarrow> counter_table \<Rightarrow> CollectorCounterRow list \<Rightarrow> counter_table option" where
  "write_counters now_ms table rs =
     (if list_all (row_check now_ms) rs then Some (foldl upsert_row table rs) else None)"

text \<open>What \<open>attach_counters\<close> keeps of the rows a tick already holds, and adds.\<close>

definition attach_rows :: "CollectorCounterRow list \<Rightarrow> CollectorCounterRow list \<Rightarrow> CollectorCounterRow list" where
  "attach_rows held rs =
     foldl (\<lambda>held row. filter (\<lambda>r. row_key r \<noteq> row_key row) held @ [row]) held rs"

definition attach_counters ::
  "LedgerState \<Rightarrow> nat \<Rightarrow> CollectorCounterRow list \<Rightarrow> bool \<Rightarrow> bool \<Rightarrow> CollectorCounterRow list" where
  "attach_counters l mono_now held other_writes force =
     (if \<not> dirty l then held
      else if mode l = CM_FleetPolling \<or> other_writes \<or> force \<or> flush_due l mono_now
      then attach_rows held (rows l) else held)"

section \<open>The consent example\<close>

record ConsentExample =
  reads_per_day :: nat
  lists_per_day :: nat
  daily_units :: nat
  monthly_gross_cents :: nat
  stop_day :: "nat option"

definition consent_per :: "nat \<Rightarrow> nat \<Rightarrow> nat" where
  "consent_per window_seconds interval = div_ceil window_seconds (max (interval div 1000000000) 1)"

definition consent_example :: "FleetPolicy \<Rightarrow> nat \<Rightarrow> nat \<Rightarrow> ConsentExample" where
  "consent_example fleet days cap_in_cents =
     (let i = intervals fleet;
          reads = consent_per CONSENT_DRIVING_SECONDS (driving i)
            + consent_per CONSENT_CHARGING_SECONDS (charging i)
            + CONSENT_PARKINGS * consent_per CONSENT_IDLE_WINDOW (online i)
            + CONSENT_PARKINGS;
          lists = consent_per (24 * 60 * 60) (min (state_check i) (inventory i));
          price_of = (\<lambda>c. case price_units (policy_pricing fleet) c of Some p \<Rightarrow> p | None \<Rightarrow> 0);
          daily = reads * price_of RC_Data + lists * price_of RC_State;
          cap = cap_in_cents * COST_UNITS_PER_CENT
      in \<lparr>reads_per_day = reads, lists_per_day = lists, daily_units = daily,
          monthly_gross_cents = div_ceil (daily * days) COST_UNITS_PER_CENT,
          stop_day = (if 0 < daily then Some (div_ceil cap daily) else None)\<rparr>)"

end
