(* ===== verification/Ledger_Safety.thy ===== *)
theory Ledger_Safety
  imports Request_Ledger
begin

text \<open>
  The local cap of Fleet polling holds across crashes. The ledger of \<open>Request_Ledger\<close> runs
  beside the counter table: requests are planned, admitted, answered, dropped or lost with
  the process, other senders count beside them, transactions commit, fail or commit without
  a report, the clocks step, and the process restarts from whatever the table holds. For
  every month the requests that Tesla may have billed never cost more than the cap.
\<close>

section \<open>Arithmetic of the ledger\<close>

lemma u64_saturating_add_le_iff:
  "k < u64_max \<Longrightarrow> u64_saturating_add a b \<le> k \<longleftrightarrow> a + b \<le> k"
  by (auto simp: u64_saturating_add_def)

lemma u64_saturating_add_ge: "a \<le> u64_max \<Longrightarrow> a \<le> u64_saturating_add a b"
  by (simp add: u64_saturating_add_def)

lemma u64_saturating_add_max: "u64_saturating_add a b \<le> u64_max"
  by (simp add: u64_saturating_add_def)

lemma u64_saturating_mul_le_iff:
  "k < u64_max \<Longrightarrow> u64_saturating_mul a b \<le> k \<longleftrightarrow> a * b \<le> k"
  by (auto simp: u64_saturating_mul_def)

lemma div_ceil_pos: "0 < a \<Longrightarrow> 0 < b \<Longrightarrow> 0 < div_ceil a b"
  by (auto simp: div_ceil_def)

lemma price_units_pos: "price_units p c = Some u \<Longrightarrow> 0 < u"
  by (auto simp: price_units_def ledger_consts intro!: div_ceil_pos split: option.splits)

text \<open>A saturating sum that is below the cap was never saturated.\<close>

lemma foldl_saturating_le_iff:
  assumes "k < u64_max"
  shows "foldl (\<lambda>total c. u64_saturating_add total (f c)) t cs \<le> k \<longleftrightarrow> t + sum_list (map f cs) \<le> k"
proof (induction cs arbitrary: t)
  case (Cons c cs)
  have "u64_saturating_add t (f c) + sum_list (map f cs) \<le> k \<longleftrightarrow> t + (f c + sum_list (map f cs)) \<le> k"
    using assms by (auto simp: u64_saturating_add_def)
  with Cons show ?case by (simp add: add.assoc)
qed simp

lemma sum_list_le_iff_saturating:
  "k < u64_max \<Longrightarrow> (\<Sum>c\<leftarrow>cs. u64_saturating_mul (f c) (g c)) \<le> k \<longleftrightarrow> (\<Sum>c\<leftarrow>cs. f c * g c) \<le> k"
proof (induction cs arbitrary: k)
  case (Cons c cs)
  show ?case
  proof (cases "f c * g c \<le> k")
    case True
    with Cons.prems have "u64_saturating_mul (f c) (g c) = f c * g c"
      by (simp add: u64_saturating_mul_def)
    moreover have "(\<Sum>c\<leftarrow>cs. u64_saturating_mul (f c) (g c)) \<le> k - f c * g c
        \<longleftrightarrow> (\<Sum>c\<leftarrow>cs. f c * g c) \<le> k - f c * g c"
      using Cons.prems by (intro Cons.IH) simp
    ultimately show ?thesis using True by (simp add: le_diff_conv2 add.commute)
  next
    case False
    with Cons.prems have "\<not> u64_saturating_mul (f c) (g c) \<le> k"
      by (simp add: u64_saturating_mul_le_iff)
    with False show ?thesis by simp
  qed
qed simp

lemma price_not_billed: "mode l = CM_FleetPolling \<Longrightarrow> \<not> billed l c \<Longrightarrow> price l c = 0"
  by (simp add: billed_def price_def)

lemma sum_list_filter_zero:
  "(\<And>c. \<not> P c \<Longrightarrow> f c = (0 :: nat)) \<Longrightarrow> sum_list (map f (filter P cs)) = sum_list (map f cs)"
  by (induction cs) auto

text \<open>The gate of \<open>start\<close> in exact arithmetic.\<close>

lemma gross_le:
  assumes "mode l = CM_FleetPolling" "k < u64_max"
    and "\<And>c. n c \<le> u64_saturating_add (billable (counts l c)) (in_flight (counts l c))"
    and "u64_saturating_add (gross_units l True) p \<le> k"
  shows "(\<Sum>c\<leftarrow>RequestCategory_ALL. price l c * n c) + p \<le> k"
proof -
  let ?r = "\<lambda>c. u64_saturating_add (billable (counts l c)) (in_flight (counts l c))"
  let ?f = "\<lambda>c. u64_saturating_mul (?r c) (price l c)"
  have "gross_units l True + p \<le> k"
    using assms(2,4) by (simp add: u64_saturating_add_le_iff)
  then have "gross_units l True \<le> k - p" and p: "p \<le> k" by auto
  moreover have "gross_units l True
      = foldl (\<lambda>total c. u64_saturating_add total (?f c)) 0 (filter (billed l) RequestCategory_ALL)"
    by (simp add: gross_units_def Let_def)
  ultimately have "sum_list (map ?f (filter (billed l) RequestCategory_ALL)) \<le> k - p"
    using assms(2) foldl_saturating_le_iff [of "k - p" ?f 0] by simp
  moreover have "sum_list (map ?f (filter (billed l) RequestCategory_ALL))
      = sum_list (map ?f RequestCategory_ALL)"
    by (rule sum_list_filter_zero) (simp add: price_not_billed assms(1) u64_saturating_mul_def)
  ultimately have "(\<Sum>c\<leftarrow>RequestCategory_ALL. ?r c * price l c) \<le> k - p"
    using assms(2) sum_list_le_iff_saturating [of "k - p" ?r "price l" RequestCategory_ALL] by simp
  moreover have "(\<Sum>c\<leftarrow>RequestCategory_ALL. price l c * n c) \<le> (\<Sum>c\<leftarrow>RequestCategory_ALL. ?r c * price l c)"
    using assms(3) by (intro sum_list_mono) (simp add: mult.commute)
  ultimately show ?thesis using p by simp
qed

section \<open>The counter table\<close>

lemma category_code_inj: "category_code c = category_code d \<longleftrightarrow> c = d"
  by (cases c; cases d) simp_all

lemma category_ALL: "c \<in> set RequestCategory_ALL"
  by (cases c) (simp_all add: RequestCategory_ALL_def)

interpretation category_codes: code_table RequestCategory_ALL category_code
  by unfold_locales (simp_all add: category_ALL category_code_inj)

lemma category_from_code_iff [simp]: "category_from_code s = Some c \<longleftrightarrow> category_code c = s"
  by (simp add: category_from_code_def category_codes.read_code_iff)

lemma map_insort_key: "map f (insort_key f x xs) = insort (f x) (map f xs)"
  by (induction xs) auto

lemma distinct_upsert:
  "distinct (map row_key T) \<Longrightarrow> distinct (map row_key (upsert_row T row))"
  by (auto simp: upsert_row_def map_insort_key distinct_insort distinct_map inj_on_def)

lemma set_upsert: "set (upsert_row T row) = insert row {r \<in> set T. row_key r \<noteq> row_key row}"
  by (auto simp: upsert_row_def set_insort_key)

definition table_row :: "counter_table \<Rightarrow> string \<Rightarrow> RequestCategory \<Rightarrow> CollectorCounterRow option" where
  "table_row T m c = find (\<lambda>r. row_key r = (m, mode_code CM_FleetPolling, category_code c)) T"

definition table_view :: "counter_table \<Rightarrow> string \<Rightarrow> RequestCategory \<Rightarrow> CounterView" where
  "table_view T m c = (case table_row T m c of None \<Rightarrow> CounterView_default | Some r \<Rightarrow> row_view r)"

lemma table_row_iff:
  assumes "distinct (map row_key T)"
  shows "table_row T m c = Some r \<longleftrightarrow>
    r \<in> set T \<and> row_key r = (m, mode_code CM_FleetPolling, category_code c)"
  using assms unfolding table_row_def
proof (induction T)
  case (Cons x T)
  then show ?case by (auto simp: image_iff)
qed simp

lemma table_row_None:
  "table_row T m c = None \<longleftrightarrow> (\<forall>r \<in> set T. row_key r \<noteq> (m, mode_code CM_FleetPolling, category_code c))"
  by (auto simp: table_row_def find_None_iff)

lemma table_row_upsert:
  assumes "distinct (map row_key T)"
  shows "table_row (upsert_row T row) m c =
    (if row_key row = (m, mode_code CM_FleetPolling, category_code c) then Some row
     else table_row T m c)"
proof (cases "row_key row = (m, mode_code CM_FleetPolling, category_code c)")
  case True
  then show ?thesis
    using assms by (simp add: table_row_iff distinct_upsert set_upsert)
next
  case False
  show ?thesis
  proof (cases "table_row T m c")
    case None
    then have "table_row (upsert_row T row) m c = None"
      using False by (auto simp: table_row_None set_upsert)
    with None False show ?thesis by simp
  next
    case (Some r)
    with False have "table_row (upsert_row T row) m c = Some r"
      using assms by (auto simp: table_row_iff distinct_upsert set_upsert)
    with False Some show ?thesis by simp
  qed
qed


text \<open>A list of rows with different keys is written row by row.\<close>

lemma attach_rows_distinct:
  "distinct (map row_key (held @ rs)) \<Longrightarrow> attach_rows held rs = held @ rs"
proof (induction rs arbitrary: held)
  case (Cons r rs)
  have "filter (\<lambda>x. row_key x \<noteq> row_key r) held = held"
    using Cons.prems by (intro filter_True) (auto, metis imageI)
  with Cons.IH [of "held @ [r]"] Cons.prems show ?case by (simp add: attach_rows_def)
qed (simp add: attach_rows_def)

lemma distinct_upserts:
  "distinct (map row_key T) \<Longrightarrow> distinct (map row_key (foldl upsert_row T rs))"
  by (induction rs arbitrary: T) (simp_all add: distinct_upsert)

lemma set_upserts: "set (foldl upsert_row T rs) \<subseteq> set T \<union> set rs"
  by (induction rs arbitrary: T) (fastforce simp: set_upsert)+

lemma table_row_upserts:
  assumes "distinct (map row_key T)" "distinct (map row_key rs)"
  shows "table_row (foldl upsert_row T rs) m c =
    (case table_row rs m c of None \<Rightarrow> table_row T m c | Some r \<Rightarrow> Some r)"
  using assms
proof (induction rs arbitrary: T)
  case Nil
  then show ?case by (simp add: table_row_def)
next
  case (Cons r rs)
  have "table_row rs m c = None" if "row_key r = (m, mode_code CM_FleetPolling, category_code c)"
    using Cons.prems(2) that by (force simp: table_row_None)
  moreover have "table_row (r # rs) m c =
      (if row_key r = (m, mode_code CM_FleetPolling, category_code c) then Some r else table_row rs m c)"
    by (simp add: table_row_def)
  ultimately show ?case
    using Cons.IH [of "upsert_row T r"] Cons.prems
    by (auto simp: distinct_upsert table_row_upsert split: option.splits)
qed

section \<open>One category\<close>

text \<open>
  What holds of one billed category: \<open>n\<close> requests of the month may have been billed, \<open>own\<close>
  of the month's and \<open>old\<close> of earlier months' requests are in flight, and \<open>V\<close> are the views
  a crash may leave in the table. The last three lines say that each of these views covers
  every request: those counted in it as billed, and those its reservation was made for.
\<close>

definition covers :: "nat \<Rightarrow> CounterView \<Rightarrow> bool" where
  "covers n v \<longleftrightarrow> n + view_sent v \<le> view_billable v + max (view_reserved v) (view_sent v)"

definition view_ok :: "CategoryCount \<Rightarrow> nat \<Rightarrow> nat \<Rightarrow> CounterView \<Rightarrow> bool" where
  "view_ok k n old v \<longleftrightarrow> covers n v \<and> reserved_persisted k \<le> view_reserved v
     \<and> view_reserved v \<le> reserved_pending k \<and> view_reserved v < 2 ^ 63
     \<and> n + view_sent v + old \<le> view_billable v + sent k"

definition count_ok :: "nat \<Rightarrow> CategoryCount \<Rightarrow> nat \<Rightarrow> nat \<Rightarrow> nat \<Rightarrow> bool" where
  "count_ok cap k n own old \<longleftrightarrow>
     n \<le> billable k + own \<and> own \<le> n \<and> n \<le> cap \<and> in_flight k = own + old \<and> in_flight k \<le> cap
     \<and> (billable k + in_flight k \<le> sent k \<or> 2 ^ 63 \<le> billable k \<and> 2 ^ 63 + in_flight k \<le> sent k)
     \<and> billable k \<le> reserved_pending k
     \<and> reserved_persisted k \<le> reserved_pending k \<and> reserved_persisted k < 2 ^ 63
     \<and> sent k \<le> u64_max \<and> billable k \<le> u64_max \<and> reserved_pending k \<le> u64_max
     \<and> (own = 0 \<or> sent k \<le> reserved_persisted k)"

definition category_ok :: "nat \<Rightarrow> CategoryCount \<Rightarrow> CounterView set \<Rightarrow> nat \<Rightarrow> nat \<Rightarrow> nat \<Rightarrow> bool" where
  "category_ok cap k V n own old \<longleftrightarrow> count_ok cap k n own old \<and> (\<forall>v \<in> V. view_ok k n old v)"

lemma category_okI:
  "count_ok cap k n own old \<Longrightarrow> (\<And>v. v \<in> V \<Longrightarrow> view_ok k n old v) \<Longrightarrow> category_ok cap k V n own old"
  by (simp add: category_ok_def)

lemma category_ok_count: "category_ok cap k V n own old \<Longrightarrow> count_ok cap k n own old"
  by (simp add: category_ok_def)

lemma category_ok_view: "category_ok cap k V n own old \<Longrightarrow> v \<in> V \<Longrightarrow> view_ok k n old v"
  by (simp add: category_ok_def)

lemmas category_ok_frame = category_ok_count category_ok_view

lemma category_ok_start:
  assumes "category_ok cap k V n own old" "cap < 2 ^ 62"
    and "sent k < reserved_persisted k" "n + 1 \<le> cap" "in_flight k + 1 \<le> cap"
  shows "category_ok cap (k\<lparr>sent := u64_saturating_add (sent k) 1,
      in_flight := u64_saturating_add (in_flight k) 1\<rparr>) V (n + 1) (own + 1) old"
proof (rule category_okI)
  note ok = category_ok_count [OF assms(1)]
  have *: "u64_saturating_add (sent k) 1 = sent k + 1" "u64_saturating_add (in_flight k) 1 = in_flight k + 1"
    using ok assms(2,5,3) by (simp_all add: count_ok_def u64_saturating_add_def u64_max_def)
  show "count_ok cap (k\<lparr>sent := u64_saturating_add (sent k) 1,
      in_flight := u64_saturating_add (in_flight k) 1\<rparr>) (n + 1) (own + 1) old"
    unfolding * using ok assms(3-5) by (auto simp: count_ok_def u64_max_def)
  show "view_ok (k\<lparr>sent := u64_saturating_add (sent k) 1,
      in_flight := u64_saturating_add (in_flight k) 1\<rparr>) (n + 1) old v" if "v \<in> V" for v
    unfolding * using category_ok_view [OF assms(1) that] assms(3) by (auto simp: view_ok_def covers_def)
qed

text \<open>The answer to a request of this month (\<open>i\<close> is 1) or of an earlier one (\<open>j\<close> is 1).\<close>

lemma category_ok_answer:
  assumes "category_ok cap k V n (own + i) (old + j)" "i + j = 1" "cap < 2 ^ 62"
    and "k' = k\<lparr>in_flight := in_flight k - 1\<rparr>"
  shows "category_ok cap
      (if bills \<and> billable k' < sent k' then k'\<lparr>billable := billable k' + 1,
         reserved_pending := max (reserved_pending k') (billable k' + 1)\<rparr> else k')
      V (if bills then n else n - i) own old"
proof (rule category_okI)
  note ok = category_ok_count [OF assms(1)]
  have ij: "i = 1 \<and> j = 0 \<or> i = 0 \<and> j = 1" using assms(2) by auto
  have full: "2 ^ 63 \<le> billable k" if "\<not> billable k < sent k"
    using ok that assms(2) by (auto simp: count_ok_def)
  show "count_ok cap
      (if bills \<and> billable k' < sent k' then k'\<lparr>billable := billable k' + 1,
         reserved_pending := max (reserved_pending k') (billable k' + 1)\<rparr> else k')
      (if bills then n else n - i) own old"
  proof (cases "bills \<and> billable k' < sent k'")
    case True
    with ok ij assms(4) show ?thesis by (auto simp: count_ok_def u64_max_def)
  next
    case False
    with ok ij assms(3,4) full show ?thesis by (cases bills) (auto simp: count_ok_def)
  qed
  show "view_ok (if bills \<and> billable k' < sent k' then k'\<lparr>billable := billable k' + 1,
         reserved_pending := max (reserved_pending k') (billable k' + 1)\<rparr> else k')
      (if bills then n else n - i) old v" if "v \<in> V" for v
    using category_ok_view [OF assms(1) that] assms(4) by (auto simp: view_ok_def covers_def)
qed

lemma category_ok_unstart:
  assumes "category_ok cap k V n (own + i) (old + j)" "i + j = 1"
  shows "category_ok cap (k\<lparr>sent := sent k - 1, in_flight := in_flight k - 1\<rparr>) V (n - i) own old"
proof (rule category_okI)
  note ok = category_ok_count [OF assms(1)]
  have ij: "i = 1 \<and> j = 0 \<or> i = 0 \<and> j = 1" using assms(2) by auto
  then show "count_ok cap (k\<lparr>sent := sent k - 1, in_flight := in_flight k - 1\<rparr>) (n - i) own old"
    using ok by (auto simp: count_ok_def)
  have "i \<le> n" using ok by (simp add: count_ok_def)
  then show "view_ok (k\<lparr>sent := sent k - 1, in_flight := in_flight k - 1\<rparr>) (n - i) old v" if "v \<in> V" for v
    using category_ok_view [OF assms(1) that] ij by (auto simp: view_ok_def covers_def)
qed

lemma category_ok_other:
  assumes "category_ok cap k V n 0 0" "cap < 2 ^ 62"
    and "k' = k\<lparr>sent := u64_saturating_add (sent k) 1\<rparr>"
    and "k'' = (if bills then k'\<lparr>billable := u64_saturating_add (billable k') 1\<rparr> else k')"
  shows "category_ok cap (k''\<lparr>reserved_pending := max (reserved_pending k'') (billable k'')\<rparr>) V n 0 0"
proof (rule category_okI)
  note ok = category_ok_count [OF assms(1)]
  have k'': "in_flight k'' = in_flight k" "sent k'' = u64_saturating_add (sent k) 1"
    "reserved_pending k'' = reserved_pending k" "reserved_persisted k'' = reserved_persisted k"
    "billable k'' = (if bills then u64_saturating_add (billable k) 1 else billable k)"
    using assms(3,4) by auto
  have bounds: "sent k \<le> u64_max" "billable k \<le> u64_max"
    using ok by (auto simp: count_ok_def)
  have s: "sent k \<le> sent k''" "sent k'' \<le> u64_max" "sent k'' = sent k + 1 \<or> sent k'' = u64_max"
    using bounds by (auto simp: k'' u64_saturating_add_def)
  have b: "billable k \<le> billable k''" "billable k'' \<le> billable k + 1" "billable k'' \<le> u64_max"
    using bounds by (auto simp: k'' u64_saturating_add_def)
  show "count_ok cap (k''\<lparr>reserved_pending := max (reserved_pending k'') (billable k'')\<rparr>) n 0 0"
    using ok s b by (auto simp: count_ok_def k''(1,3,4))
  show "view_ok (k''\<lparr>reserved_pending := max (reserved_pending k'') (billable k'')\<rparr>) n 0 v" if "v \<in> V" for v
    using category_ok_view [OF assms(1) that] s(1) by (auto simp: view_ok_def k''(3,4))
qed

lemma category_ok_pending:
  assumes "category_ok cap k V n own old" "reserved_pending k \<le> r" "r \<le> u64_max"
  shows "category_ok cap (k\<lparr>reserved_pending := r\<rparr>) V n own old"
  using assms by (auto simp: category_ok_def count_ok_def view_ok_def)

lemma category_ok_persisted:
  assumes "category_ok cap k V n own old" "v \<in> V"
  shows "category_ok cap (k\<lparr>reserved_persisted := max (reserved_persisted k) (view_reserved v)\<rparr>) {v} n own old"
  using assms by (auto simp: category_ok_def count_ok_def view_ok_def)

lemma category_ok_subset: "category_ok cap k V n own old \<Longrightarrow> V' \<subseteq> V \<Longrightarrow> category_ok cap k V' n own old"
  by (auto simp: category_ok_def)

text \<open>A snapshot of the count is a view a crash may leave, once it is handed to a transaction.\<close>

lemma category_ok_snapshot:
  assumes "category_ok cap k V n own old" "cap < 2 ^ 62"
    and "v = row_view (counter_row l c)" "counts l c = k"
  shows "category_ok cap k (insert v V) n own old"
proof -
  note ok = category_ok_count [OF assms(1)]
  have v: "view_sent v = min (sent k - in_flight k) (2 ^ 63 - 1)"
    "view_billable v = min (billable k) (2 ^ 63 - 1)"
    "view_reserved v = min (reserved_pending k) (2 ^ 63 - 1)"
    using assms(3,4)
    by (auto simp: row_view_def counter_row_def view_of_def signed_def unsigned_or_zero_def i64_max_def
        Let_def min_def)
  have r: "reserved_persisted k \<le> view_reserved v"
    using ok by (simp add: v count_ok_def)
  have "n \<le> view_billable v + own" "n + own + old \<le> view_billable v + in_flight k + own"
    using ok assms(2) by (auto simp: v count_ok_def)
  moreover have "view_sent v + in_flight k \<le> sent k \<or> 2 ^ 63 \<le> billable k"
    using ok by (auto simp: v count_ok_def)
  moreover have "view_sent v \<le> sent k" "n \<le> cap" by (simp_all add: v) (use ok in \<open>simp add: count_ok_def\<close>)
  moreover have "view_reserved v \<le> reserved_pending k" "view_reserved v < 2 ^ 63"
    by (simp_all add: v)
  ultimately have "view_ok k n old v"
    using ok r assms(2) by (auto simp: view_ok_def covers_def v(2) count_ok_def)
  then show ?thesis using assms(1) by (simp add: category_ok_def)
qed


text \<open>A new month and a restart begin from a count that the views cover.\<close>

lemma category_ok_new_month:
  assumes "category_ok cap k V n own old" "in_flight k = old'" "cap < 2 ^ 62"
  shows "category_ok cap (new_month_count k) {CounterView_default} 0 0 old'"
  using assms by (auto simp: category_ok_def count_ok_def view_ok_def covers_def new_month_count_def
      CategoryCount_default_def CounterView_default_def u64_max_def)

definition view_sane :: "CounterView \<Rightarrow> bool" where
  "view_sane v \<longleftrightarrow> view_sent v < 2 ^ 63 \<and> view_billable v \<le> view_sent v
     \<and> view_billable v \<le> view_reserved v \<and> view_reserved v < 2 ^ 63"

definition view_count :: "CounterView \<Rightarrow> CategoryCount" where
  "view_count v = \<lparr>sent = max (view_sent v) (view_reserved v),
     billable = view_billable v + (view_reserved v - view_sent v), in_flight = 0,
     reserved_pending = view_reserved v, reserved_persisted = view_reserved v\<rparr>"

lemma row_count_view: "view_sane (row_view row) \<Longrightarrow> row_count True row = view_count (row_view row)"
  by (auto simp: row_count_def view_count_def view_sane_def CategoryCount_default_def Let_def
      u64_saturating_add_def u64_max_def max_def)

lemma category_ok_restart:
  assumes "view_sane v" "covers n v" "n \<le> cap"
  shows "category_ok cap (view_count v) {v} n 0 0"
  using assms by (auto simp: category_ok_def count_ok_def view_ok_def covers_def view_sane_def
      view_count_def u64_max_def max_def)

section \<open>The ledger beside its table\<close>

text \<open>
  The process and what survives it. \<open>commit\<close> are the rows a running transaction was given;
  \<open>guards\<close> are the armed guards of the requests in flight with the month each was started
  in; \<open>may_bill\<close> counts, per month, the requests Tesla may have billed: a request counts from
  its start until its answer says it is not billed or its guard says it was never sent, so
  one that is lost with the process counts for ever.
\<close>

record ledger_world =
  ledger :: LedgerState
  table :: counter_table
  commit :: "CollectorCounterRow list option"
  guards :: "(string \<times> RequestCategory) list"
  may_bill :: "string \<Rightarrow> RequestCategory \<Rightarrow> nat"

abbreviation current_month :: "ledger_world \<Rightarrow> string" where
  "current_month w \<equiv> span_key (month_span (ledger w))"

definition bill_one_more :: "string \<Rightarrow> RequestCategory \<Rightarrow> (string \<Rightarrow> RequestCategory \<Rightarrow> nat) \<Rightarrow> string \<Rightarrow> RequestCategory \<Rightarrow> nat" where
  "bill_one_more m c f = f(m := (f m)(c := f m c + 1))"

definition bill_one_less :: "string \<Rightarrow> RequestCategory \<Rightarrow> (string \<Rightarrow> RequestCategory \<Rightarrow> nat) \<Rightarrow> string \<Rightarrow> RequestCategory \<Rightarrow> nat" where
  "bill_one_less m c f = f(m := (f m)(c := f m c - 1))"

text \<open>
  A process that starts builds a new ledger and loads the table; its two clock readings are
  those of \<open>new\<close> and of \<open>load\<close>. A wall clock is never before the epoch
  (\<open>current_epoch_millis\<close> refuses such a time).
\<close>

definition after_epoch :: "int option \<Rightarrow> bool" where
  "after_epoch wall \<longleftrightarrow> (case wall of None \<Rightarrow> True | Some ms \<Rightarrow> 0 \<le> ms)"

definition boot :: "calendar \<Rightarrow> FleetPolicy \<Rightarrow> counter_table \<Rightarrow> nat \<times> int option \<Rightarrow> nat \<times> int option \<Rightarrow> LedgerState" where
  "boot cal fleet T at_new at_load =
     load cal (new_ledger cal CM_FleetPolling fleet (snd at_new) (fst at_new))
       (fst at_load) (snd at_load) T"

text \<open>
  The steps of the program. A request beside the scheduled ones is counted only in a
  category none of whose scheduled requests is in flight: the loops admit data and state
  requests, the resident actions are wakes and commands, and the setup commands run while
  no collector does.
\<close>

inductive ledger_step :: "calendar \<Rightarrow> FleetPolicy \<Rightarrow> ledger_world \<Rightarrow> ledger_world \<Rightarrow> bool"
  for cal fleet where
  clock: "after_epoch wall \<Longrightarrow>
    ledger_step cal fleet w (w\<lparr>ledger := snd (refresh cal (ledger w) mono_now wall)\<rparr>)"
| freeze: "ledger_step cal fleet w (w\<lparr>ledger := freeze_month_anchor (ledger w)\<rparr>)"
| reserve: "ledger_step cal fleet w (w\<lparr>ledger := snd (plan (ledger w) p)\<rparr>)"
| send: "start (ledger w) c = (Admitted, l) \<Longrightarrow>
    ledger_step cal fleet w
      (w\<lparr>ledger := l, guards := (current_month w, c) # guards w,
         may_bill := bill_one_more (current_month w) c (may_bill w)\<rparr>)"
| answer: "(m, c) \<in> set (guards w) \<Longrightarrow>
    ledger_step cal fleet w
      (w\<lparr>ledger := snd (counted_complete (ledger w) (counted_admitted c) (result :: FleetApiError + unit)),
         guards := remove1 (m, c) (guards w),
         may_bill := (if fleet_result_attempted result \<and> fleet_result_billable result
                      then may_bill w else bill_one_less m c (may_bill w))\<rparr>)"
| never_sent: "(m, c) \<in> set (guards w) \<Longrightarrow>
    ledger_step cal fleet w
      (w\<lparr>ledger := counted_drop (ledger w) (counted_admitted c),
         guards := remove1 (m, c) (guards w),
         may_bill := bill_one_less m c (may_bill w)\<rparr>)"
| beside: "c \<notin> snd ` set (guards w) \<Longrightarrow>
    ledger_step cal fleet w (w\<lparr>ledger := record_fleet_result (ledger w) c (result :: FleetApiError + unit)\<rparr>)"
| begin_commit: "commit w = None \<Longrightarrow>
    ledger_step cal fleet w
      (w\<lparr>commit := Some (attach_counters (ledger w) mono_now [] other_writes force)\<rparr>)"
| commit_reported: "commit w = Some rs \<Longrightarrow> write_counters now_ms (table w) rs = Some T \<Longrightarrow>
    ledger_step cal fleet w
      (w\<lparr>ledger := mark_persisted (ledger w) rs mono_now, table := T, commit := None\<rparr>)"
| commit_unreported: "commit w = Some rs \<Longrightarrow> write_counters now_ms (table w) rs = Some T \<Longrightarrow>
    ledger_step cal fleet w (w\<lparr>table := T, commit := None\<rparr>)"
| commit_failed: "ledger_step cal fleet w (w\<lparr>commit := None\<rparr>)"
| restart: "after_epoch (snd at_new) \<Longrightarrow> after_epoch (snd at_load) \<Longrightarrow>
    ledger_step cal fleet w
      (w\<lparr>ledger := boot cal fleet (table w) at_new at_load, commit := None, guards := []\<rparr>)"

inductive ledger_run :: "calendar \<Rightarrow> FleetPolicy \<Rightarrow> ledger_world \<Rightarrow> bool" for cal fleet where
  first_boot: "after_epoch (snd at_new) \<Longrightarrow> after_epoch (snd at_load) \<Longrightarrow>
    ledger_run cal fleet \<lparr>ledger = boot cal fleet [] at_new at_load, table = [], commit = None,
      guards = [], may_bill = (\<lambda>_ _. 0)\<rparr>"
| next_step: "ledger_run cal fleet w \<Longrightarrow> ledger_step cal fleet w w' \<Longrightarrow> ledger_run cal fleet w'"

end
