(* ===== verification/Ledger_Cap.thy ===== *)
theory Ledger_Cap
  imports Ledger_Safety
begin

text \<open>
  The invariant of the ledger beside its table: month keys that read back, a configuration
  that stays, rows the table accepts, counts that every table a crash may leave covers, and
  a cost within the cap for every month. The steps of the process alone keep it; the steps
  of the table and of the clock follow in \<open>Ledger_Run\<close>.
\<close>

section \<open>Month keys\<close>

text \<open>
  What the ledger relies on of the \<open>time\<close> crate: a time after the epoch has a year of at most
  four digits and a month between 1 and 12, and the epoch itself is in range.
\<close>

definition calendar_ok :: "calendar \<Rightarrow> bool" where
  "calendar_ok cal \<longleftrightarrow>
     (\<forall>secs y m. 0 \<le> secs \<longrightarrow> year_month_at cal secs = Some (y, m) \<longrightarrow>
        0 \<le> y \<and> y \<le> 9999 \<and> 1 \<le> m \<and> m \<le> 12)
     \<and> containing cal 0 \<noteq> None"

lemma zero_padded_digits: "list_all is_ascii_digit (zero_padded w (show_nat n))"
  using show_nat_digits [of n]
  by (auto simp: zero_padded_def list_all_iff is_ascii_digit_def byte_def)

lemma dec_val_zeros: "dec_val (replicate k CHR ''0'' @ s) = dec_val s"
proof (induction k)
  case (Suc k)
  have "foldl (\<lambda>n c. n * 10 + digit_val c) 0 (CHR ''0'' # r) = foldl (\<lambda>n c. n * 10 + digit_val c) 0 r" for r
    by (simp add: digit_val_def byte_def)
  with Suc show ?case by (simp add: dec_val_def)
qed simp

lemma read_zero_padded: "n \<le> most \<Longrightarrow> read_digits most (zero_padded w (show_nat n)) = Some n"
  using zero_padded_digits [of w n]
  by (simp add: read_digits_def zero_padded_def dec_val_zeros)

lemma zero_padded_Cons:
  obtains c r where "zero_padded w (show_nat n) = c # r" "is_ascii_digit c"
proof -
  have "zero_padded w (show_nat n) \<noteq> []" by (simp add: zero_padded_def)
  then obtain c r where "zero_padded w (show_nat n) = c # r" by (meson neq_Nil_conv)
  with zero_padded_digits [of w n] that show ?thesis by simp
qed

lemma signs_not_digits [simp]: "\<not> is_ascii_digit CHR ''+''" "\<not> is_ascii_digit CHR ''-''"
  by (simp_all add: is_ascii_digit_def byte_def)

lemma parse_u8_padded: "n \<le> 255 \<Longrightarrow> parse_u8 (zero_padded w (show_nat n)) = Some n"
proof -
  assume "n \<le> 255"
  obtain c r where *: "zero_padded w (show_nat n) = c # r" "is_ascii_digit c"
    by (rule zero_padded_Cons)
  from *(2) have "c \<noteq> CHR ''+''" by auto
  with * read_zero_padded [OF \<open>n \<le> 255\<close>, of w] show ?thesis by (simp add: parse_u8_def)
qed

lemma parse_i32_year: "0 \<le> y \<Longrightarrow> y \<le> 9999 \<Longrightarrow> parse_i32 (show_year y) = Some y"
proof -
  assume y: "0 \<le> y" "y \<le> 9999"
  obtain c r where *: "zero_padded 4 (show_nat (nat y)) = c # r" "is_ascii_digit c"
    by (rule zero_padded_Cons)
  from *(2) have "c \<noteq> CHR ''+''" "c \<noteq> CHR ''-''" by auto
  with y * read_zero_padded [of "nat y" "2 ^ 31 - 1" 4] show ?thesis
    by (simp add: parse_i32_def show_year_def)
qed

lemma length_show_nat: "n < 10 ^ k \<Longrightarrow> 0 < k \<Longrightarrow> length (show_nat n) \<le> k"
proof (induction n arbitrary: k rule: show_nat.induct)
  case (1 n)
  show ?case
  proof (cases "n < 10")
    case True
    with 1 show ?thesis by (simp add: show_nat.simps [of n])
  next
    case False
    obtain j where k: "k = Suc j" using 1 by (cases k) auto
    with 1 False have "n div 10 < 10 ^ j" "0 < j" by (cases j; auto)+
    with 1 False k show ?thesis by (simp add: show_nat.simps [of n])
  qed
qed

text \<open>A month that a clock reading names is read back from its key.\<close>

lemma of_key_from_year_month:
  assumes "0 \<le> y" "y \<le> 9999" "1 \<le> m" "m \<le> 12" "from_year_month cal y m = Some span"
  shows "of_key cal (span_key span) = Some span" "length (span_key span) = 7"
proof -
  have key: "span_key span = show_year y @ CHR ''-'' # zero_padded 2 (show_nat m)"
    using assms(5) by (auto simp: from_year_month_def Let_def split: prod.splits Option.bind_splits if_splits)
  have "CHR ''-'' \<notin> set (show_year y)"
    using assms(1) zero_padded_digits [of 4 "nat y"] by (auto simp: show_year_def list_all_iff)
  with assms show "of_key cal (span_key span) = Some span"
    by (simp add: of_key_def key parse_i32_year parse_u8_padded)
  have "length (show_nat (nat y)) \<le> 4" "length (show_nat m) \<le> 2"
    using assms(2,4) by (auto intro: length_show_nat)
  with assms(1) show "length (span_key span) = 7"
    by (simp add: key show_year_def zero_padded_def)
qed

definition valid_key :: "calendar \<Rightarrow> string \<Rightarrow> bool" where
  "valid_key cal key \<longleftrightarrow> length key = 7 \<and> (\<exists>span. of_key cal key = Some span \<and> span_key span = key)"

lemma containing_valid:
  assumes "calendar_ok cal" "0 \<le> ms" "containing cal ms = Some span"
  shows "valid_key cal (span_key span)"
proof -
  obtain y m where "year_month_at cal (ms div 1000) = Some (y, m)" "from_year_month cal y m = Some span"
    using assms(3) by (auto simp: containing_def split: Option.bind_splits)
  moreover have "0 \<le> ms div 1000" using assms(2) by simp
  ultimately show ?thesis
    using assms(1) of_key_from_year_month unfolding calendar_ok_def valid_key_def by metis
qed

section \<open>What the operations keep\<close>

lemma set_count_simps [simp]:
  "mode (set_count c k l) = mode l" "pricing (set_count c k l) = pricing l"
  "cap_units (set_count c k l) = cap_units l" "month_span (set_count c k l) = month_span l"
  "anchor (set_count c k l) = anchor l" "counts (set_count c k l) = (counts l)(c := k)"
  "persisted (set_count c k l) = persisted l"
  by (simp_all add: set_count_def)

lemma check_cap_warning_simps [simp]:
  "mode (check_cap_warning l) = mode l" "pricing (check_cap_warning l) = pricing l"
  "cap_units (check_cap_warning l) = cap_units l" "month_span (check_cap_warning l) = month_span l"
  "anchor (check_cap_warning l) = anchor l" "counts (check_cap_warning l) = counts l"
  "persisted (check_cap_warning l) = persisted l"
  by (simp_all add: check_cap_warning_def)

definition same_ledger :: "LedgerState \<Rightarrow> LedgerState \<Rightarrow> bool" where
  "same_ledger l l' \<longleftrightarrow> mode l' = mode l \<and> pricing l' = pricing l \<and> cap_units l' = cap_units l
     \<and> month_span l' = month_span l \<and> (0 \<le> snd (anchor l) \<longrightarrow> 0 \<le> snd (anchor l'))"

lemma same_ledger_refl: "same_ledger l l"
  by (simp add: same_ledger_def)

lemma same_ledger_trans: "same_ledger l l' \<Longrightarrow> same_ledger l' l'' \<Longrightarrow> same_ledger l l''"
  by (simp add: same_ledger_def)

lemma same_ledger_start: "same_ledger l (snd (start l c))"
  by (simp add: same_ledger_def start_def Let_def)

lemma same_ledger_unstart: "same_ledger l (unstart l c)"
  by (simp add: same_ledger_def unstart_def Let_def)

lemma same_ledger_complete: "same_ledger l (complete l c bills)"
  by (simp add: same_ledger_def complete_def Let_def)

lemma same_ledger_record_completed: "same_ledger l (record_completed l c bills)"
  by (simp add: same_ledger_def record_completed_def Let_def)

lemma same_ledger_plan_one: "same_ledger l (plan_one l p)"
  by (simp add: same_ledger_def plan_one_def Let_def split: prod.split)

lemma same_ledger_foldl: "(\<And>l x. same_ledger l (f l x)) \<Longrightarrow> same_ledger l (foldl f l xs)"
  by (induction xs arbitrary: l) (auto intro: same_ledger_refl same_ledger_trans)

lemma same_ledger_plan: "same_ledger l (snd (plan l p))"
  using same_ledger_foldl [of plan_one l p] same_ledger_plan_one
  by (simp add: plan_def Let_def same_ledger_refl)

lemma same_ledger_mark_row: "same_ledger l (mark_row l row)"
  by (simp add: same_ledger_def mark_row_def split: option.split)

lemma same_ledger_mark_persisted: "same_ledger l (mark_persisted l rs t)"
  using same_ledger_foldl [of mark_row l rs] same_ledger_mark_row
  by (simp add: mark_persisted_def same_ledger_def)

lemma counts_start:
  assumes "start l c = (Admitted, l')"
  shows "counts l' = (counts l)(c := (counts l c)\<lparr>sent := u64_saturating_add (sent (counts l c)) 1,
      in_flight := u64_saturating_add (in_flight (counts l c)) 1\<rparr>)"
    and "billed l c \<Longrightarrow> u64_saturating_add (gross_units l True) (price l c) \<le> cap_units l"
    and "billed l c \<Longrightarrow> sent (counts l c) < reserved_persisted (counts l c)"
  using assms by (auto simp: start_def Let_def split: if_splits)

lemma counts_unstart:
  "counts (unstart l c) = (counts l)(c := (counts l c)\<lparr>sent := sent (counts l c) - 1,
     in_flight := in_flight (counts l c) - 1\<rparr>)"
  by (simp add: unstart_def Let_def)

text \<open>The plan only raises pending reservations.\<close>

lemma plan_one_cases:
  assumes "reserved_pending (counts l d) \<le> u64_max"
  shows "plan_one l (d, n) = l \<or>
    (\<exists>r. plan_one l (d, n) = set_count d ((counts l d)\<lparr>reserved_pending := r\<rparr>) l
       \<and> reserved_pending (counts l d) \<le> r \<and> r \<le> u64_max)"
proof -
  let ?k = "counts l d"
  let ?base = "u64_saturating_add (reserved_pending ?k) (sent ?k - reserved_pending ?k)"
  define r where "r = u64_saturating_add ?base
    (min (max n (min K_RESERVE_BLOCK (started_since_start l d))) (max_reserved l d - ?base))"
  have "reserved_pending ?k \<le> ?base" using assms by (rule u64_saturating_add_ge)
  also have "?base \<le> r"
    unfolding r_def by (rule u64_saturating_add_ge) (rule u64_saturating_add_max)
  finally have "reserved_pending ?k \<le> r" .
  moreover have "r \<le> u64_max" unfolding r_def by (rule u64_saturating_add_max)
  moreover have "plan_one l (d, n) = l \<or> plan_one l (d, n) = set_count d (?k\<lparr>reserved_pending := r\<rparr>) l"
    by (simp add: plan_one_def Let_def r_def)
  ultimately show ?thesis by blast
qed

lemma plan_one_counts:
  assumes "reserved_pending (counts l c) \<le> u64_max"
  shows "counts (plan_one l p) c = counts l c \<or>
    (\<exists>r. counts (plan_one l p) c = (counts l c)\<lparr>reserved_pending := r\<rparr>
      \<and> reserved_pending (counts l c) \<le> r \<and> r \<le> u64_max)"
proof -
  obtain d n where p: "p = (d, n)" by (cases p)
  show ?thesis
  proof (cases "d = c")
    case True
    with plan_one_cases [of l c n] assms p show ?thesis by auto
  next
    case False
    then show ?thesis by (simp add: p plan_one_def Let_def)
  qed
qed

section \<open>The invariant\<close>

definition month_cost :: "FleetPricing \<Rightarrow> (RequestCategory \<Rightarrow> nat) \<Rightarrow> nat" where
  "month_cost p n =
     (\<Sum>c\<leftarrow>RequestCategory_ALL. (case price_units p c of Some u \<Rightarrow> u | None \<Rightarrow> 0) * n c)"

definition tables :: "ledger_world \<Rightarrow> counter_table set" where
  "tables w = insert (table w)
     {T. \<exists>rs now_ms. commit w = Some rs \<and> write_counters now_ms (table w) rs = Some T}"

definition views :: "ledger_world \<Rightarrow> string \<Rightarrow> RequestCategory \<Rightarrow> CounterView set" where
  "views w m c = (\<lambda>T. table_view T m c) ` tables w"

definition own_guards :: "(string \<times> RequestCategory) list \<Rightarrow> string \<Rightarrow> RequestCategory \<Rightarrow> nat" where
  "own_guards gs m c = length (filter (\<lambda>g. g = (m, c)) gs)"

definition old_guards :: "(string \<times> RequestCategory) list \<Rightarrow> string \<Rightarrow> RequestCategory \<Rightarrow> nat" where
  "old_guards gs m c = length (filter (\<lambda>g. snd g = c \<and> fst g \<noteq> m) gs)"

definition config_ok :: "calendar \<Rightarrow> FleetPolicy \<Rightarrow> LedgerState \<Rightarrow> bool" where
  "config_ok cal fleet l \<longleftrightarrow>
     mode l = CM_FleetPolling \<and> pricing l = policy_pricing fleet
     \<and> cap_units l = monthly_cap_cents fleet * COST_UNITS_PER_CENT
     \<and> 0 \<le> snd (anchor l) \<and> valid_key cal (span_key (month_span l))"

definition row_ok :: "calendar \<Rightarrow> string \<Rightarrow> CollectorCounterRow \<Rightarrow> bool" where
  "row_ok cal m row \<longleftrightarrow> row_month row \<le> m \<and> valid_key cal (row_month row)
     \<and> row_sent row \<le> i64_max \<and> row_reserved row \<le> i64_max"

definition rows_ok :: "calendar \<Rightarrow> string \<Rightarrow> ledger_world \<Rightarrow> bool" where
  "rows_ok cal m w \<longleftrightarrow>
     distinct (map row_key (table w)) \<and> (\<forall>row \<in> set (table w). row_ok cal m row \<and> columns_check row)
     \<and> (\<forall>rs. commit w = Some rs \<longrightarrow> distinct (map row_key rs) \<and> (\<forall>row \<in> set rs. row_ok cal m row))"

definition counts_ok :: "FleetPolicy \<Rightarrow> ledger_world \<Rightarrow> bool" where
  "counts_ok fleet w \<longleftrightarrow>
     (\<forall>c. price_units (policy_pricing fleet) c \<noteq> None \<longrightarrow>
        category_ok (cap_units (ledger w)) (counts (ledger w) c) (views w (current_month w) c)
          (may_bill w (current_month w) c) (own_guards (guards w) (current_month w) c)
          (old_guards (guards w) (current_month w) c))"

definition months_ok :: "FleetPolicy \<Rightarrow> ledger_world \<Rightarrow> bool" where
  "months_ok fleet w \<longleftrightarrow>
     (\<forall>m. month_cost (policy_pricing fleet) (may_bill w m) \<le> cap_units (ledger w)
        \<and> (\<forall>c. price_units (policy_pricing fleet) c \<noteq> None \<longrightarrow>
             (\<forall>v \<in> views w m c. covers (may_bill w m c) v)))"

definition world_ok :: "calendar \<Rightarrow> FleetPolicy \<Rightarrow> ledger_world \<Rightarrow> bool" where
  "world_ok cal fleet w \<longleftrightarrow> config_ok cal fleet (ledger w) \<and> rows_ok cal (current_month w) w
     \<and> (\<forall>g \<in> set (guards w). fst g \<le> current_month w) \<and> counts_ok fleet w \<and> months_ok fleet w"

lemma covers_mono: "covers n v \<Longrightarrow> n' \<le> n \<Longrightarrow> covers n' v"
  by (simp add: covers_def)

lemma month_cost_mono: "(\<And>c. n' c \<le> n c) \<Longrightarrow> month_cost p n' \<le> month_cost p n"
  unfolding month_cost_def by (intro sum_list_mono mult_le_mono) simp_all

lemma member_le_sum_list_nat: "x \<in> set xs \<Longrightarrow> f x \<le> (\<Sum>y\<leftarrow>xs. f y :: nat)"
  by (induction xs) auto

lemma month_cost_ge:
  assumes "price_units p c \<noteq> None"
  shows "n c \<le> month_cost p n"
proof -
  obtain u where u: "price_units p c = Some u" "0 < u"
    using assms price_units_pos by blast
  have "n c \<le> (case price_units p c of Some u \<Rightarrow> u | None \<Rightarrow> 0) * n c" using u by simp
  also have "\<dots> \<le> month_cost p n"
    unfolding month_cost_def by (rule member_le_sum_list_nat) (rule category_ALL)
  finally show ?thesis .
qed


lemma views_update [simp]:
  "views (w\<lparr>ledger := l\<rparr>) = views w" "views (w\<lparr>guards := gs\<rparr>) = views w"
  "views (w\<lparr>may_bill := mb\<rparr>) = views w"
  by (simp_all add: views_def tables_def fun_eq_iff)

lemma rows_ok_update [simp]:
  "rows_ok cal m (w\<lparr>ledger := l\<rparr>) = rows_ok cal m w" "rows_ok cal m (w\<lparr>guards := gs\<rparr>) = rows_ok cal m w"
  "rows_ok cal m (w\<lparr>may_bill := mb\<rparr>) = rows_ok cal m w"
  by (simp_all add: rows_ok_def)

text \<open>A step of the process alone: its month and the possible tables stay.\<close>

lemma world_ok_process:
  assumes "world_ok cal fleet w" "same_ledger (ledger w) l"
    and "\<And>c. price_units (policy_pricing fleet) c \<noteq> None \<Longrightarrow>
      category_ok (cap_units (ledger w)) (counts l c) (views w (current_month w) c)
        (mb (current_month w) c) (own_guards gs (current_month w) c) (old_guards gs (current_month w) c)"
    and "\<And>m c. m \<noteq> current_month w \<Longrightarrow> mb m c \<le> may_bill w m c"
    and "month_cost (policy_pricing fleet) (mb (current_month w)) \<le> cap_units (ledger w)"
    and "set gs \<subseteq> set (guards w) \<union> {current_month w} \<times> UNIV"
  shows "world_ok cal fleet (w\<lparr>ledger := l, guards := gs, may_bill := mb\<rparr>)"
proof -
  have same: "month_span l = month_span (ledger w)" "cap_units l = cap_units (ledger w)"
    "config_ok cal fleet (ledger w) \<Longrightarrow> config_ok cal fleet l"
    using assms(2) by (simp_all add: same_ledger_def config_ok_def)
  have "month_cost (policy_pricing fleet) (mb m) \<le> cap_units (ledger w)" for m
  proof (cases "m = current_month w")
    case False
    then have "month_cost (policy_pricing fleet) (mb m) \<le> month_cost (policy_pricing fleet) (may_bill w m)"
      by (intro month_cost_mono assms(4))
    also have "\<dots> \<le> cap_units (ledger w)"
      using assms(1) by (simp add: world_ok_def months_ok_def)
    finally show ?thesis .
  qed (use assms(5) in simp)
  moreover have "covers (mb m c) v" if "price_units (policy_pricing fleet) c \<noteq> None" "v \<in> views w m c" for m c v
  proof (cases "m = current_month w")
    case True
    with that show ?thesis
      using category_ok_view [OF assms(3) [OF that(1)]] by (simp add: view_ok_def)
  next
    case False
    have "covers (may_bill w m c) v"
      using assms(1) that unfolding world_ok_def months_ok_def by blast
    then show ?thesis by (rule covers_mono) (rule assms(4) [OF False])
  qed
  ultimately have "months_ok fleet (w\<lparr>ledger := l, guards := gs, may_bill := mb\<rparr>)"
    by (simp add: months_ok_def same)
  moreover have "counts_ok fleet (w\<lparr>ledger := l, guards := gs, may_bill := mb\<rparr>)"
    using assms(3) by (simp add: counts_ok_def same)
  moreover have "\<forall>g \<in> set gs. fst g \<le> current_month w"
    using assms(1,6) by (fastforce simp: world_ok_def)
  ultimately show ?thesis
    using assms(1) by (simp add: world_ok_def same)
qed

lemma world_ok_category:
  assumes "world_ok cal fleet w" "price_units (policy_pricing fleet) c \<noteq> None"
  shows "category_ok (cap_units (ledger w)) (counts (ledger w) c) (views w (current_month w) c)
      (may_bill w (current_month w) c) (own_guards (guards w) (current_month w) c)
      (old_guards (guards w) (current_month w) c)"
  using assms by (simp add: world_ok_def counts_ok_def)

lemma world_ok_cost:
  "world_ok cal fleet w \<Longrightarrow> month_cost (policy_pricing fleet) (may_bill w m) \<le> cap_units (ledger w)"
  by (simp add: world_ok_def months_ok_def)

lemma world_ok_billed:
  "world_ok cal fleet w \<Longrightarrow> billed (ledger w) c \<longleftrightarrow> price_units (policy_pricing fleet) c \<noteq> None"
  by (simp add: world_ok_def config_ok_def billed_def)

lemma world_ok_cap:
  "world_ok cal fleet w \<Longrightarrow> monthly_cap_cents fleet < 2 ^ 32 \<Longrightarrow> cap_units (ledger w) < 2 ^ 62"
  by (simp add: world_ok_def config_ok_def ledger_consts)

text \<open>A step that leaves the guards and the bill alone.\<close>

lemma world_ok_ledger:
  assumes "world_ok cal fleet w" "same_ledger (ledger w) l"
    and "\<And>c. price_units (policy_pricing fleet) c \<noteq> None \<Longrightarrow>
      category_ok (cap_units (ledger w)) (counts l c) (views w (current_month w) c)
        (may_bill w (current_month w) c) (own_guards (guards w) (current_month w) c)
        (old_guards (guards w) (current_month w) c)"
  shows "world_ok cal fleet (w\<lparr>ledger := l\<rparr>)"
  using world_ok_process [OF assms(1,2), of "may_bill w" "guards w"] assms(3) world_ok_cost [OF assms(1)]
  by simp

lemma own_guards_Cons [simp]:
  "own_guards ((m', c') # gs) m c = own_guards gs m c + (if m' = m \<and> c' = c then 1 else 0)"
  by (simp add: own_guards_def)

lemma old_guards_Cons [simp]:
  "old_guards ((m', c') # gs) m c = old_guards gs m c + (if c' = c \<and> m' \<noteq> m then 1 else 0)"
  by (simp add: old_guards_def)

lemma filter_remove1_length:
  "x \<in> set xs \<Longrightarrow> length (filter P xs) = length (filter P (remove1 x xs)) + (if P x then 1 else 0)"
  by (induction xs) auto

lemma own_guards_remove:
  "(m', c') \<in> set gs \<Longrightarrow>
    own_guards gs m c = own_guards (remove1 (m', c') gs) m c + (if m' = m \<and> c' = c then 1 else 0)"
  unfolding own_guards_def by (subst filter_remove1_length) auto

lemma old_guards_remove:
  "(m', c') \<in> set gs \<Longrightarrow>
    old_guards gs m c = old_guards (remove1 (m', c') gs) m c + (if c' = c \<and> m' \<noteq> m then 1 else 0)"
  unfolding old_guards_def by (subst filter_remove1_length) auto

lemma guards_other_category:
  "c \<notin> snd ` set gs \<Longrightarrow> own_guards gs m c = 0 \<and> old_guards gs m c = 0"
  by (auto simp: own_guards_def old_guards_def filter_empty_conv image_iff)

section \<open>The steps\<close>

lemma world_ok_reserve:
  assumes "world_ok cal fleet w"
  shows "world_ok cal fleet (w\<lparr>ledger := snd (plan (ledger w) p)\<rparr>)"
proof -
  have *: "category_ok cap (counts (foldl plan_one l p) c) V n own old"
    if "category_ok cap (counts l c) V n own old" for cap l c V n own old
    using that
  proof (induction p arbitrary: l)
    case (Cons x p)
    have "reserved_pending (counts l c) \<le> u64_max"
      using category_ok_count [OF Cons.prems] by (simp add: count_ok_def)
    from plan_one_counts [OF this, of x]
    have "category_ok cap (counts (plan_one l x) c) V n own old"
      using Cons.prems category_ok_pending by metis
    with Cons.IH show ?case by simp
  qed simp
  have "counts (snd (plan (ledger w) p)) = counts (foldl plan_one (ledger w) p)"
    using assms by (simp add: plan_def Let_def world_ok_def config_ok_def)
  with * world_ok_category [OF assms] show ?thesis
    by (intro world_ok_ledger [OF assms] same_ledger_plan) simp
qed

lemma gross_in_flight:
  assumes "mode l = CM_FleetPolling" "k < u64_max" "in_flight (counts l c) \<le> u64_max"
    and "u64_saturating_add (gross_units l True) (price l c) \<le> k"
  shows "price l c * (in_flight (counts l c) + 1) \<le> k"
proof -
  have "(\<Sum>d\<leftarrow>RequestCategory_ALL. price l d * (if d = c then in_flight (counts l c) else 0)) + price l c \<le> k"
    using assms by (intro gross_le) (auto simp: u64_saturating_add_def)
  then show ?thesis by (cases c) (simp_all add: RequestCategory_ALL_def)
qed

lemma world_ok_send:
  assumes "world_ok cal fleet w" "monthly_cap_cents fleet < 2 ^ 32"
    and "start (ledger w) c = (Admitted, l)"
  shows "world_ok cal fleet (w\<lparr>ledger := l, guards := (current_month w, c) # guards w,
      may_bill := bill_one_more (current_month w) c (may_bill w)\<rparr>)"
proof (rule world_ok_process [OF assms(1)])
  let ?m = "current_month w" and ?p = "policy_pricing fleet" and ?l = "ledger w"
  let ?mb = "bill_one_more ?m c (may_bill w)"
  note cap = world_ok_cap [OF assms(1,2)]
  have p: "price ?l d = (case price_units ?p d of Some u \<Rightarrow> u | None \<Rightarrow> 0)" "mode ?l = CM_FleetPolling" for d
    using assms(1) by (auto simp: world_ok_def config_ok_def price_def split: option.split)
  show "same_ledger ?l l" using same_ledger_start [of ?l c] assms(3) by simp
  show "?mb m d \<le> may_bill w m d" if "m \<noteq> ?m" for m d
    using that by (simp add: bill_one_more_def)
  have in_flight: "may_bill w ?m d \<le> u64_saturating_add (billable (counts ?l d)) (in_flight (counts ?l d))"
    if "price_units ?p d \<noteq> None" for d
    using category_ok_count [OF world_ok_category [OF assms(1) that]] cap
    by (auto simp: count_ok_def u64_saturating_add_def u64_max_def)
  have cost: "month_cost ?p (?mb ?m) = month_cost ?p (may_bill w ?m) + price ?l c"
    unfolding month_cost_def by (cases c) (simp_all add: RequestCategory_ALL_def bill_one_more_def p)
  show fits: "month_cost ?p (?mb ?m) \<le> cap_units ?l"
  proof (cases "price_units ?p c = None")
    case True
    with cost world_ok_cost [OF assms(1)] p show ?thesis by simp
  next
    case False
    with assms(1,3) have "u64_saturating_add (gross_units ?l True) (price ?l c) \<le> cap_units ?l"
      by (intro counts_start(2)) (simp_all add: world_ok_billed)
    moreover have "(if price_units ?p d = None then 0 else may_bill w ?m d)
        \<le> u64_saturating_add (billable (counts ?l d)) (in_flight (counts ?l d))" for d
      using in_flight by simp
    moreover have "month_cost ?p (may_bill w ?m)
        = (\<Sum>d\<leftarrow>RequestCategory_ALL. price ?l d * (if price_units ?p d = None then 0 else may_bill w ?m d))"
      unfolding month_cost_def by (rule arg_cong [where f = sum_list], rule map_cong) (auto simp: p)
    ultimately show ?thesis
      using gross_le [OF p(2), of "cap_units ?l" "\<lambda>d. if price_units ?p d = None then 0 else may_bill w ?m d"]
        cost cap by (simp add: u64_max_def)
  qed
  show "set ((?m, c) # guards w) \<subseteq> set (guards w) \<union> {?m} \<times> UNIV" by auto
  show "category_ok (cap_units ?l) (counts l d) (views w ?m d) (?mb ?m d)
      (own_guards ((?m, c) # guards w) ?m d) (old_guards ((?m, c) # guards w) ?m d)"
    if d: "price_units ?p d \<noteq> None" for d
  proof (cases "d = c")
    case True
    have "may_bill w ?m c + 1 \<le> cap_units ?l"
      using month_cost_ge [OF d, of "?mb ?m"] fits True by (simp add: bill_one_more_def)
    moreover have "in_flight (counts ?l c) + 1 \<le> cap_units ?l"
    proof -
      have "in_flight (counts ?l c) \<le> cap_units ?l"
        using category_ok_count [OF world_ok_category [OF assms(1) d]] True by (simp add: count_ok_def)
      moreover have "u64_saturating_add (gross_units ?l True) (price ?l c) \<le> cap_units ?l"
        using d True assms(1,3) by (intro counts_start(2)) (simp_all add: world_ok_billed)
      ultimately have "price ?l c * (in_flight (counts ?l c) + 1) \<le> cap_units ?l"
        using cap by (intro gross_in_flight p(2)) (simp_all add: u64_max_def)
      moreover have "0 < price ?l c" using d True p price_units_pos by (auto split: option.splits)
      ultimately show ?thesis by (metis One_nat_def Suc_leI mult_le_mono1 nat_mult_1 order_trans)
    qed
    moreover have "sent (counts ?l c) < reserved_persisted (counts ?l c)"
      using d True assms(1,3) by (intro counts_start(3)) (simp_all add: world_ok_billed)
    ultimately show ?thesis
      using category_ok_start [OF world_ok_category [OF assms(1) d] cap] True
      by (simp add: counts_start(1) [OF assms(3)] bill_one_more_def)
  next
    case False
    with world_ok_category [OF assms(1) d] show ?thesis
      by (simp add: counts_start(1) [OF assms(3)] bill_one_more_def)
  qed
qed


text \<open>A request leaves the flight: \<open>unbilled\<close> says whether Tesla is known not to bill it.\<close>

lemma world_ok_leave:
  assumes "world_ok cal fleet w" "(m, c) \<in> set (guards w)" "same_ledger (ledger w) l"
    and "\<And>d. d \<noteq> c \<Longrightarrow> counts l d = counts (ledger w) d"
    and "\<And>n own old i j V. category_ok (cap_units (ledger w)) (counts (ledger w) c) V n (own + i) (old + j) \<Longrightarrow>
      i + j = 1 \<Longrightarrow> price_units (policy_pricing fleet) c \<noteq> None \<Longrightarrow>
      category_ok (cap_units (ledger w)) (counts l c) V (if unbilled then n - i else n) own old"
  shows "world_ok cal fleet (w\<lparr>ledger := l, guards := remove1 (m, c) (guards w),
      may_bill := (if unbilled then bill_one_less m c (may_bill w) else may_bill w)\<rparr>)"
proof (rule world_ok_process [OF assms(1,3)])
  let ?cur = "current_month w" and ?gs = "remove1 (m, c) (guards w)"
  let ?mb = "if unbilled then bill_one_less m c (may_bill w) else may_bill w"
  have le: "?mb m' d \<le> may_bill w m' d" for m' d
    by (simp add: bill_one_less_def)
  then show "?mb m' d \<le> may_bill w m' d" if "m' \<noteq> ?cur" for m' d by blast
  have "month_cost (policy_pricing fleet) (?mb ?cur) \<le> month_cost (policy_pricing fleet) (may_bill w ?cur)"
    by (rule month_cost_mono) (rule le)
  also have "\<dots> \<le> cap_units (ledger w)" by (rule world_ok_cost [OF assms(1)])
  finally show "month_cost (policy_pricing fleet) (?mb ?cur) \<le> cap_units (ledger w)" .
  show "set ?gs \<subseteq> set (guards w) \<union> {?cur} \<times> UNIV"
    using set_remove1_subset [of "(m, c)" "guards w"] by auto
  show "category_ok (cap_units (ledger w)) (counts l d) (views w ?cur d) (?mb ?cur d)
      (own_guards ?gs ?cur d) (old_guards ?gs ?cur d)"
    if d: "price_units (policy_pricing fleet) d \<noteq> None" for d
  proof (cases "d = c")
    case True
    let ?i = "if m = ?cur then 1 else 0 :: nat" and ?j = "if m \<noteq> ?cur then 1 else 0 :: nat"
    have "category_ok (cap_units (ledger w)) (counts (ledger w) c) (views w ?cur c) (may_bill w ?cur c)
        (own_guards ?gs ?cur c + ?i) (old_guards ?gs ?cur c + ?j)"
      using world_ok_category [OF assms(1) d] True
      by (simp add: own_guards_remove [OF assms(2)] old_guards_remove [OF assms(2)])
    then have "category_ok (cap_units (ledger w)) (counts l c) (views w ?cur c)
        (if unbilled then may_bill w ?cur c - ?i else may_bill w ?cur c)
        (own_guards ?gs ?cur c) (old_guards ?gs ?cur c)"
      by (rule assms(5)) (use d True in auto)
    moreover have "?mb ?cur c = (if unbilled then may_bill w ?cur c - ?i else may_bill w ?cur c)"
      by (simp add: bill_one_less_def)
    ultimately show ?thesis using True by simp
  next
    case False
    with world_ok_category [OF assms(1) d] show ?thesis
      by (auto simp: assms(4) own_guards_remove [OF assms(2)] old_guards_remove [OF assms(2)] bill_one_less_def)
  qed
qed

lemma counts_complete:
  "counts (complete l c bills) = (counts l)(c :=
     (let k = (counts l c)\<lparr>in_flight := in_flight (counts l c) - 1\<rparr> in
      if billed l c \<and> bills \<and> billable k < sent k
      then k\<lparr>billable := billable k + 1, reserved_pending := max (reserved_pending k) (billable k + 1)\<rparr>
      else k))"
  by (simp add: complete_def Let_def)

lemma world_ok_complete:
  assumes "world_ok cal fleet w" "monthly_cap_cents fleet < 2 ^ 32" "(m, c) \<in> set (guards w)"
  shows "world_ok cal fleet (w\<lparr>ledger := complete (ledger w) c bills, guards := remove1 (m, c) (guards w),
      may_bill := (if \<not> bills then bill_one_less m c (may_bill w) else may_bill w)\<rparr>)"
proof (rule world_ok_leave [OF assms(1,3) same_ledger_complete])
  show "counts (complete (ledger w) c bills) d = counts (ledger w) d" if "d \<noteq> c" for d
    using that by (simp add: counts_complete)
  show "category_ok (cap_units (ledger w)) (counts (complete (ledger w) c bills) c) V
      (if \<not> bills then n - i else n) own old"
    if "category_ok (cap_units (ledger w)) (counts (ledger w) c) V n (own + i) (old + j)" "i + j = 1"
      "price_units (policy_pricing fleet) c \<noteq> None" for n own old i j V
    using category_ok_answer [OF that(1,2) world_ok_cap [OF assms(1,2)] refl, of bills] that(3) assms(1)
    by (cases bills) (simp_all add: counts_complete world_ok_billed Let_def split: if_splits)
qed

lemma world_ok_unstart:
  assumes "world_ok cal fleet w" "(m, c) \<in> set (guards w)"
  shows "world_ok cal fleet (w\<lparr>ledger := unstart (ledger w) c, guards := remove1 (m, c) (guards w),
      may_bill := bill_one_less m c (may_bill w)\<rparr>)"
  using world_ok_leave [OF assms same_ledger_unstart, of c True] category_ok_unstart
  by (simp add: counts_unstart)

lemma counts_record_completed:
  "counts (record_completed l c bills) = (counts l)(c :=
     (let k = (counts l c)\<lparr>sent := u64_saturating_add (sent (counts l c)) 1\<rparr> in
      if billed l c
      then (let k = (if bills then k\<lparr>billable := u64_saturating_add (billable k) 1\<rparr> else k)
            in k\<lparr>reserved_pending := max (reserved_pending k) (billable k)\<rparr>)
      else k))"
  by (simp add: record_completed_def Let_def)

lemma world_ok_beside:
  assumes "world_ok cal fleet w" "monthly_cap_cents fleet < 2 ^ 32" "c \<notin> snd ` set (guards w)"
  shows "world_ok cal fleet (w\<lparr>ledger := record_completed (ledger w) c bills\<rparr>)"
proof (rule world_ok_ledger [OF assms(1) same_ledger_record_completed])
  fix d assume d: "price_units (policy_pricing fleet) d \<noteq> None"
  note ok = world_ok_category [OF assms(1) d]
  show "category_ok (cap_units (ledger w)) (counts (record_completed (ledger w) c bills) d)
      (views w (current_month w) d) (may_bill w (current_month w) d)
      (own_guards (guards w) (current_month w) d) (old_guards (guards w) (current_month w) d)"
  proof (cases "d = c")
    case True
    have none: "own_guards (guards w) (current_month w) c = 0" "old_guards (guards w) (current_month w) c = 0"
      using guards_other_category [OF assms(3)] by auto
    have "billed (ledger w) c" using d True assms(1) by (simp add: world_ok_billed)
    moreover have "category_ok (cap_units (ledger w)) (counts (ledger w) c)
        (views w (current_month w) c) (may_bill w (current_month w) c) 0 0"
      using ok True none by simp
    note category_ok_other [OF this world_ok_cap [OF assms(1,2)] refl refl, of bills]
    ultimately show ?thesis
      unfolding True none by (cases bills) (simp_all add: counts_record_completed Let_def)
  next
    case False
    with ok show ?thesis by (simp add: counts_record_completed)
  qed
qed

end
