(* ===== verification/Ledger_Run.thy ===== *)
theory Ledger_Run
  imports Ledger_Cap Http_Date
begin

text \<open>
  Commits, restarts and the clock keep the invariant of \<open>Ledger_Cap\<close>, and the cap follows
  for every run of the ledger beside its table.
\<close>

section \<open>Commits\<close>

lemma row_key_counter_row [simp]:
  "row_key (counter_row l c) = (span_key (month_span l), mode_code (mode l), category_code c)"
  by (simp add: row_key_def counter_row_def Let_def)

lemma distinct_rows: "distinct (map row_key (rows l))"
  by (auto simp: rows_def comp_def distinct_map RequestCategory_ALL_def inj_on_def category_code_inj
      intro!: distinct_filter)

lemma rows_clean: "\<not> dirty l \<Longrightarrow> rows l = []"
  by (auto simp: dirty_def rows_def list_ex_iff filter_empty_conv)

lemma attach_counters_rows:
  "mode l = CM_FleetPolling \<Longrightarrow> attach_counters l t [] other_writes force = rows l"
  using attach_rows_distinct [of "[]" "rows l"] distinct_rows [of l]
  by (simp add: attach_counters_def rows_clean)

lemma rows_row_ok:
  assumes "valid_key cal (span_key (month_span l))" "row \<in> set (rows l)"
  shows "row_ok cal (span_key (month_span l)) row"
  using assms by (auto simp: rows_def row_ok_def counter_row_def Let_def signed_def)

lemma write_counters_Some:
  assumes "write_counters now_ms T rs = Some T'" "distinct (map row_key T)"
  shows "distinct (map row_key T')" "set T' \<subseteq> set T \<union> set rs" "\<forall>row \<in> set rs. columns_check row"
    "distinct (map row_key rs) \<Longrightarrow>
      table_view T' m c = (case table_row rs m c of None \<Rightarrow> table_view T m c | Some r \<Rightarrow> row_view r)"
  using assms set_upserts [of T rs] distinct_upserts [of T rs] table_row_upserts [of T rs m c]
  by (auto simp: write_counters_def row_check_def list_all_iff table_view_def split: if_splits option.splits)

lemma table_row_rows:
  assumes "mode l = CM_FleetPolling"
  shows "table_row (rows l) m c \<in> {None, Some (counter_row l c)}"
    and "m \<noteq> span_key (month_span l) \<Longrightarrow> table_row (rows l) m c = None"
proof -
  have *: "r = counter_row l c \<and> m = span_key (month_span l)" if "table_row (rows l) m c = Some r" for r
  proof -
    have "r \<in> set (rows l)" "row_key r = (m, mode_code CM_FleetPolling, category_code c)"
      using that by (simp_all add: table_row_iff [OF distinct_rows])
    with assms show ?thesis by (auto simp: rows_def category_code_inj)
  qed
  then show "table_row (rows l) m c \<in> {None, Some (counter_row l c)}"
    by (cases "table_row (rows l) m c") auto
  show "table_row (rows l) m c = None" if "m \<noteq> span_key (month_span l)"
    using * that by (cases "table_row (rows l) m c") auto
qed

lemma views_begin_commit:
  assumes "commit w = None" "mode (ledger w) = CM_FleetPolling" "distinct (map row_key (table w))"
  shows "views (w\<lparr>commit := Some (rows (ledger w))\<rparr>) m c \<subseteq> views w m c \<union>
    (if m = current_month w then {row_view (counter_row (ledger w) c)} else {})"
proof -
  have "table_view T m c \<in> views w m c \<union>
      (if m = current_month w then {row_view (counter_row (ledger w) c)} else {})"
    if "write_counters now_ms (table w) (rows (ledger w)) = Some T" for T now_ms
    using write_counters_Some(4) [OF that assms(3) distinct_rows, of m c]
      table_row_rows [OF assms(2), of m c] assms(1)
    by (auto simp: views_def tables_def)
  then show ?thesis using assms(1) by (fastforce simp: views_def tables_def)
qed

lemma world_ok_begin_commit:
  assumes "world_ok cal fleet w" "monthly_cap_cents fleet < 2 ^ 32" "commit w = None"
  shows "world_ok cal fleet (w\<lparr>commit := Some (attach_counters (ledger w) t [] other_writes force)\<rparr>)"
proof -
  let ?l = "ledger w" and ?w = "w\<lparr>commit := Some (rows (ledger w))\<rparr>"
  have mode: "mode ?l = CM_FleetPolling" and key: "valid_key cal (current_month w)"
    and dist: "distinct (map row_key (table w))"
    using assms(1) by (simp_all add: world_ok_def config_ok_def rows_ok_def)
  note sub = views_begin_commit [OF assms(3) mode dist]
  have cat: "category_ok (cap_units ?l) (counts ?l c) (views ?w (current_month w) c)
      (may_bill w (current_month w) c) (own_guards (guards w) (current_month w) c)
      (old_guards (guards w) (current_month w) c)"
    if "price_units (policy_pricing fleet) c \<noteq> None" for c
    using category_ok_snapshot [OF world_ok_category [OF assms(1) that] world_ok_cap [OF assms(1,2)] refl refl]
      sub [of "current_month w" c]
    by (auto elim!: category_ok_subset)
  have "covers (may_bill w m c) v"
    if "price_units (policy_pricing fleet) c \<noteq> None" "v \<in> views ?w m c" for m c v
  proof (cases "m = current_month w")
    case True
    with that category_ok_view [OF cat [OF that(1)]] show ?thesis by (simp add: view_ok_def)
  next
    case False
    with sub [of m c] that assms(1) show ?thesis
      unfolding world_ok_def months_ok_def by auto
  qed
  with cat have "counts_ok fleet ?w" "months_ok fleet ?w"
    using assms(1) by (simp_all add: counts_ok_def months_ok_def world_ok_def)
  moreover have "rows_ok cal (current_month w) ?w"
    using assms(1) rows_row_ok [OF key] distinct_rows by (simp add: world_ok_def rows_ok_def)
  ultimately show ?thesis
    using assms(1) by (simp add: world_ok_def attach_counters_rows [OF mode])
qed


lemma row_for_iff:
  "mode l = CM_FleetPolling \<Longrightarrow>
    row_for l row = Some c \<longleftrightarrow> row_key row = (span_key (month_span l), mode_code CM_FleetPolling, category_code c)"
  by (auto simp: row_for_def row_key_def)

lemma mark_row_simps [simp]:
  "mode (mark_row l row) = mode l" "month_span (mark_row l row) = month_span l"
  using same_ledger_mark_row [of l row] by (simp_all add: same_ledger_def)

lemma mark_row_counts:
  assumes "mode l = CM_FleetPolling"
  shows "counts (mark_row l row) c =
    (if row_key row = (span_key (month_span l), mode_code CM_FleetPolling, category_code c)
     then (counts l c)\<lparr>reserved_persisted := max (reserved_persisted (counts l c)) (view_reserved (row_view row))\<rparr>
     else counts l c)"
proof (cases "row_for l row")
  case None
  then have "row_key row \<noteq> (span_key (month_span l), mode_code CM_FleetPolling, category_code c)"
    using row_for_iff [OF assms, of row c] by simp
  with None show ?thesis by (simp add: mark_row_def)
next
  case (Some d)
  then have "row_key row = (span_key (month_span l), mode_code CM_FleetPolling, category_code d)"
    using row_for_iff [OF assms, of row d] by simp
  with Some show ?thesis by (simp add: mark_row_def row_view_def category_code_inj)
qed

lemma mark_rows_counts:
  assumes "mode l = CM_FleetPolling" "distinct (map row_key rs)"
  shows "counts (foldl mark_row l rs) c =
    (case table_row rs (span_key (month_span l)) c of None \<Rightarrow> counts l c
     | Some r \<Rightarrow> (counts l c)\<lparr>reserved_persisted :=
         max (reserved_persisted (counts l c)) (view_reserved (row_view r))\<rparr>)"
  using assms
proof (induction rs arbitrary: l)
  case Nil
  then show ?case by (simp add: table_row_def)
next
  case (Cons r rs)
  let ?key = "(span_key (month_span l), mode_code CM_FleetPolling, category_code c)"
  have "table_row rs (span_key (month_span l)) c = None" if "row_key r = ?key"
    using Cons.prems(2) that by (force simp: table_row_None)
  moreover have "table_row (r # rs) (span_key (month_span l)) c =
      (if row_key r = ?key then Some r else table_row rs (span_key (month_span l)) c)"
    by (simp add: table_row_def)
  ultimately show ?case
    using Cons.IH [of "mark_row l r"] Cons.prems by (auto simp: mark_row_counts split: option.split)
qed

text \<open>Fewer tables a crash may leave.\<close>

lemma world_ok_fewer_views:
  assumes "world_ok cal fleet w" "ledger w' = ledger w" "guards w' = guards w" "may_bill w' = may_bill w"
    and "rows_ok cal (current_month w) w'" "\<And>m c. views w' m c \<subseteq> views w m c"
  shows "world_ok cal fleet w'"
proof -
  have "counts_ok fleet w'"
    unfolding counts_ok_def assms(2-4)
    using world_ok_category [OF assms(1)] assms(6) category_ok_subset by metis
  moreover have "months_ok fleet w'"
    using assms(1,6) unfolding months_ok_def assms(2,4) by (simp add: world_ok_def months_ok_def) blast
  ultimately show ?thesis using assms(1,5) by (simp add: world_ok_def assms(2,3))
qed

text \<open>The durable half of a commit, and the report that lets sends rely on it.\<close>

lemma world_ok_written:
  assumes "world_ok cal fleet w" "commit w = Some rs" "write_counters now_ms (table w) rs = Some T"
  shows "world_ok cal fleet (w\<lparr>table := T, commit := None\<rparr>)"
    and "views (w\<lparr>table := T, commit := None\<rparr>) m c = {table_view T m c}"
proof -
  let ?w = "w\<lparr>table := T, commit := None\<rparr>"
  show one: "views ?w m c = {table_view T m c}" for m c
    by (simp add: views_def tables_def)
  have sub: "views ?w m c \<subseteq> views w m c" for m c
    using assms(2,3) by (auto simp: one) (auto simp: views_def tables_def)
  have ok: "distinct (map row_key (table w))" "\<forall>row \<in> set (table w). row_ok cal (current_month w) row \<and> columns_check row"
    "\<forall>row \<in> set rs. row_ok cal (current_month w) row"
    using assms(1,2) by (auto simp: world_ok_def rows_ok_def)
  note written = write_counters_Some [OF assms(3) ok(1)]
  have "rows_ok cal (current_month w) ?w"
    using ok written(1-3) by (auto simp: rows_ok_def)
  then show "world_ok cal fleet ?w"
    by (intro world_ok_fewer_views [OF assms(1)] sub) simp_all
qed

lemma world_ok_reported:
  assumes "world_ok cal fleet w" "commit w = Some rs" "write_counters now_ms (table w) rs = Some T"
  shows "world_ok cal fleet (w\<lparr>ledger := mark_persisted (ledger w) rs t, table := T, commit := None\<rparr>)"
proof -
  let ?w = "w\<lparr>table := T, commit := None\<rparr>"
  note w = world_ok_written [OF assms]
  have facts: "mode (ledger w) = CM_FleetPolling" "distinct (map row_key (table w))" "distinct (map row_key rs)"
    using assms(1,2) by (auto simp: world_ok_def config_ok_def rows_ok_def)
  have "world_ok cal fleet (?w\<lparr>ledger := mark_persisted (ledger ?w) rs t\<rparr>)"
  proof (rule world_ok_ledger [OF w(1) same_ledger_mark_persisted])
    fix c assume "price_units (policy_pricing fleet) c \<noteq> None"
    note ok = world_ok_category [OF w(1) this]
    have "counts (mark_persisted (ledger ?w) rs t) c =
        (case table_row rs (current_month w) c of None \<Rightarrow> counts (ledger w) c
         | Some r \<Rightarrow> (counts (ledger w) c)\<lparr>reserved_persisted :=
             max (reserved_persisted (counts (ledger w) c)) (view_reserved (row_view r))\<rparr>)"
      using mark_rows_counts [OF facts(1,3)] by (simp add: mark_persisted_def)
    moreover have "table_view T (current_month w) c =
        (case table_row rs (current_month w) c of None \<Rightarrow> table_view (table w) (current_month w) c
         | Some r \<Rightarrow> row_view r)"
      by (rule write_counters_Some(4) [OF assms(3) facts(2,3)])
    moreover have "category_ok (cap_units (ledger w))
        ((counts (ledger w) c)\<lparr>reserved_persisted := max (reserved_persisted (counts (ledger w) c))
           (view_reserved (table_view T (current_month w) c))\<rparr>)
        {table_view T (current_month w) c} (may_bill w (current_month w) c)
        (own_guards (guards w) (current_month w) c) (old_guards (guards w) (current_month w) c)"
      using category_ok_persisted [OF ok, of "table_view T (current_month w) c"] by (simp add: w(2))
    ultimately show "category_ok (cap_units (ledger ?w)) (counts (mark_persisted (ledger ?w) rs t) c)
        (views ?w (current_month ?w) c) (may_bill ?w (current_month ?w) c)
        (own_guards (guards ?w) (current_month ?w) c) (old_guards (guards ?w) (current_month ?w) c)"
      using ok by (auto simp: w(2) split: option.splits)
  qed
  then show ?thesis by (cases w) simp
qed

lemma world_ok_failed:
  assumes "world_ok cal fleet w"
  shows "world_ok cal fleet (w\<lparr>commit := None\<rparr>)"
  using assms
  by (intro world_ok_fewer_views [OF assms]) (auto simp: world_ok_def rows_ok_def views_def tables_def)

section \<open>Restarts\<close>

lemma load_row_simps [simp]:
  "mode (load_row l row) = mode l" "month_span (load_row l row) = month_span l"
  "pricing (load_row l row) = pricing l" "cap_units (load_row l row) = cap_units l"
  "anchor (load_row l row) = anchor l"
  by (simp_all add: load_row_def split: option.split)

lemma load_rows_simps [simp]:
  "mode (foldl load_row l rs) = mode l" "month_span (foldl load_row l rs) = month_span l"
  "pricing (foldl load_row l rs) = pricing l" "cap_units (foldl load_row l rs) = cap_units l"
  "anchor (foldl load_row l rs) = anchor l"
  by (induction rs arbitrary: l) simp_all

lemma load_row_counts:
  assumes "mode l = CM_FleetPolling"
  shows "counts (load_row l row) c =
    (if row_key row = (span_key (month_span l), mode_code CM_FleetPolling, category_code c)
     then row_count (billed l c) row else counts l c)"
proof (cases "row_for l row")
  case None
  then have "row_key row \<noteq> (span_key (month_span l), mode_code CM_FleetPolling, category_code c)"
    using row_for_iff [OF assms, of row c] by simp
  with None show ?thesis by (simp add: load_row_def)
next
  case (Some d)
  then have "row_key row = (span_key (month_span l), mode_code CM_FleetPolling, category_code d)"
    using row_for_iff [OF assms, of row d] by simp
  with Some show ?thesis by (simp add: load_row_def category_code_inj)
qed

lemma load_rows_counts:
  assumes "mode l = CM_FleetPolling" "distinct (map row_key rs)"
  shows "counts (foldl load_row l rs) c =
    (case table_row rs (span_key (month_span l)) c of None \<Rightarrow> counts l c
     | Some r \<Rightarrow> row_count (billed l c) r)"
  using assms
proof (induction rs arbitrary: l)
  case Nil
  then show ?case by (simp add: table_row_def)
next
  case (Cons r rs)
  let ?key = "(span_key (month_span l), mode_code CM_FleetPolling, category_code c)"
  have "table_row rs (span_key (month_span l)) c = None" if "row_key r = ?key"
    using Cons.prems(2) that by (force simp: table_row_None)
  moreover have "table_row (r # rs) (span_key (month_span l)) c =
      (if row_key r = ?key then Some r else table_row rs (span_key (month_span l)) c)"
    by (simp add: table_row_def)
  moreover have "billed (load_row l r) c = billed l c" by (simp add: billed_def)
  ultimately show ?case
    using Cons.IH [of "load_row l r"] Cons.prems by (auto simp: load_row_counts split: option.split)
qed

text \<open>The month after a restart: a month of the calendar, and none of the table is later.\<close>

lemma foldl_max_ge: "m \<le> foldl max m ms \<and> (\<forall>x \<in> set ms. x \<le> foldl max m ms)" for m :: "'a :: linorder"
proof (induction ms arbitrary: m)
  case (Cons x ms)
  from Cons [of "max m x"] show ?case by (auto intro: order_trans [of _ "max m x"])
qed simp

lemma foldl_max_in: "foldl max m ms \<in> insert m (set ms)" for m :: "'a :: linorder"
proof (induction ms arbitrary: m)
  case (Cons x ms)
  from Cons [of "max m x"] show ?case by (auto simp: max_def split: if_splits)
qed simp

lemma latest_month_Some:
  assumes "latest_month rs = Some latest"
  shows "latest \<in> row_month ` set rs" "row \<in> set rs \<Longrightarrow> row_month row \<le> latest"
proof -
  obtain r rest where rs: "rs = r # rest" and latest: "latest = foldl max (row_month r) (map row_month rest)"
    using assms by (cases rs) (auto simp: latest_month_def)
  show "latest \<in> row_month ` set rs"
    using foldl_max_in [of "row_month r" "map row_month rest"] by (auto simp: rs latest)
  show "row_month row \<le> latest" if "row \<in> set rs"
    using that foldl_max_ge [of "row_month r" "map row_month rest"] by (auto simp: rs latest)
qed

lemma load_span_ok:
  assumes "calendar_ok cal" "after_epoch wall" "valid_key cal (span_key span)"
    and "\<And>row. row \<in> set rs \<Longrightarrow> valid_key cal (row_month row)"
  shows "valid_key cal (span_key (load_span cal span wall rs))"
    and "row \<in> set rs \<Longrightarrow> row_month row \<le> span_key (load_span cal span wall rs)"
proof -
  define now_span where
    "now_span = (case Option.bind wall (containing cal) of None \<Rightarrow> span | Some calendar \<Rightarrow> calendar)"
  have now_ok: "valid_key cal (span_key now_span)"
    using assms(1-3) containing_valid [of cal]
    by (auto simp: now_span_def after_epoch_def split: option.splits Option.bind_splits)
  have span: "load_span cal span wall rs =
      (case latest_month rs of None \<Rightarrow> now_span
       | Some latest \<Rightarrow> if span_key now_span < latest
           then (case of_key cal latest of None \<Rightarrow> now_span | Some later \<Rightarrow> later) else now_span)"
    by (simp only: load_span_def now_span_def Let_def)
  have later: "of_key cal latest = Some later \<Longrightarrow> span_key later = latest \<and> valid_key cal latest"
    "of_key cal latest \<noteq> None" if "latest_month rs = Some latest" for latest later
  proof -
    have "valid_key cal latest"
      using latest_month_Some(1) [OF that] assms(4) by auto
    then show "of_key cal latest = Some later \<Longrightarrow> span_key later = latest \<and> valid_key cal latest"
      "of_key cal latest \<noteq> None" by (auto simp: valid_key_def)
  qed
  show "valid_key cal (span_key (load_span cal span wall rs))"
    using now_ok later by (fastforce simp: span split: option.splits)
  show "row_month row \<le> span_key (load_span cal span wall rs)" if "row \<in> set rs"
  proof (cases "latest_month rs")
    case None
    with that show ?thesis by (cases rs) (simp_all add: latest_month_def)
  next
    case (Some latest)
    have "row_month row \<le> latest" by (rule latest_month_Some(2) [OF Some that])
    with later [OF Some] Some show ?thesis by (fastforce simp: span split: option.splits)
  qed
qed


lemma view_count_default: "view_count CounterView_default = CategoryCount_default"
  by (simp add: view_count_def CounterView_default_def CategoryCount_default_def)

lemma table_view_sane:
  assumes "\<And>row. row \<in> set T \<Longrightarrow> row_ok cal m row \<and> columns_check row" "distinct (map row_key T)"
  shows "view_sane (table_view T m' c)"
proof (cases "table_row T m' c")
  case None
  then show ?thesis by (simp add: table_view_def view_sane_def CounterView_default_def)
next
  case (Some r)
  then have "r \<in> set T" using assms(2) by (simp add: table_row_iff)
  with assms(1) have "row_ok cal m r" "columns_check r" by blast+
  with Some show ?thesis
    by (auto simp: table_view_def view_sane_def row_view_def unsigned_or_zero_def row_ok_def columns_check_def i64_max_def)
qed

lemma boot_simps:
  assumes "monthly_cap_cents fleet < 2 ^ 32"
  shows "mode (boot cal fleet T at_new at_load) = CM_FleetPolling"
    "pricing (boot cal fleet T at_new at_load) = policy_pricing fleet"
    "cap_units (boot cal fleet T at_new at_load) = monthly_cap_cents fleet * COST_UNITS_PER_CENT"
    "month_span (boot cal fleet T at_new at_load) = load_span cal
       (month_span (new_ledger cal CM_FleetPolling fleet (snd at_new) (fst at_new))) (snd at_load) T"
    "anchor (boot cal fleet T at_new at_load) = (case snd at_load of
       None \<Rightarrow> (fst at_new, case snd at_new of None \<Rightarrow> 0 | Some ms \<Rightarrow> ms) | Some ms \<Rightarrow> (fst at_load, ms))"
  using assms
  by (simp_all add: boot_def load_def new_ledger_def Let_def u64_saturating_mul_def u64_max_def
      ledger_consts split: option.split)

lemma new_ledger_valid:
  assumes "calendar_ok cal" "after_epoch wall"
  shows "valid_key cal (span_key (month_span (new_ledger cal m fleet wall t)))"
proof -
  obtain span where "containing cal 0 = Some span"
    using assms(1) by (auto simp: calendar_ok_def)
  then show ?thesis
    using assms containing_valid [OF assms(1)]
    by (auto simp: new_ledger_def Let_def after_epoch_def split: option.splits)
qed

lemma boot_counts:
  assumes "monthly_cap_cents fleet < 2 ^ 32" "distinct (map row_key T)"
    and "\<And>row. row \<in> set T \<Longrightarrow> row_ok cal m row \<and> columns_check row"
    and "price_units (policy_pricing fleet) c \<noteq> None"
  shows "counts (boot cal fleet T at_new at_load) c =
    view_count (table_view T (span_key (month_span (boot cal fleet T at_new at_load))) c)"
proof -
  let ?b = "boot cal fleet T at_new at_load"
  define l where "l = (new_ledger cal CM_FleetPolling fleet (snd at_new) (fst at_new))
    \<lparr>anchor := anchor ?b, month_span := month_span ?b, frozen := False, deferred_logged := False,
     warned := False, counts := (\<lambda>c. CategoryCount_default), persisted := (\<lambda>c. CounterView_default)\<rparr>"
  have l: "mode l = CM_FleetPolling" "billed l c" "month_span l = month_span ?b"
    "counts l c = CategoryCount_default"
    using assms(4) by (simp_all add: l_def new_ledger_def Let_def billed_def)
  have "counts ?b = counts (foldl load_row l T)"
    by (simp add: boot_def load_def Let_def l_def)
  then have "counts ?b c = (case table_row T (span_key (month_span ?b)) c of None \<Rightarrow> CategoryCount_default
      | Some r \<Rightarrow> row_count True r)"
    using load_rows_counts [OF l(1) assms(2), of c] l by (simp split: option.split)
  moreover have "view_sane (table_view T (span_key (month_span ?b)) c)"
    by (rule table_view_sane [OF assms(3,2)])
  ultimately show ?thesis
    by (auto simp: table_view_def view_count_default row_count_view split: option.splits)
qed

lemma world_ok_boot:
  assumes cal: "calendar_ok cal" and cap: "monthly_cap_cents fleet < 2 ^ 32"
    and times: "after_epoch (snd at_new)" "after_epoch (snd at_load)"
    and table: "distinct (map row_key T)" "\<And>row. row \<in> set T \<Longrightarrow> row_ok cal m row \<and> columns_check row"
    and cost: "\<And>m. month_cost (policy_pricing fleet) (mb m) \<le> monthly_cap_cents fleet * COST_UNITS_PER_CENT"
    and cover: "\<And>m c. price_units (policy_pricing fleet) c \<noteq> None \<Longrightarrow> covers (mb m c) (table_view T m c)"
  shows "world_ok cal fleet \<lparr>ledger = boot cal fleet T at_new at_load, table = T, commit = None,
      guards = [], may_bill = mb\<rparr>"
proof -
  let ?b = "boot cal fleet T at_new at_load"
  let ?w = "\<lparr>ledger = ?b, table = T, commit = None, guards = [], may_bill = mb\<rparr>"
  note simps = boot_simps [OF cap]
  have views: "views ?w m c = {table_view T m c}" for m c
    by (simp add: views_def tables_def)
  have months: "valid_key cal (row_month row)" if "row \<in> set T" for row
    using table(2) [OF that] by (simp add: row_ok_def)
  note span = load_span_ok [OF cal times(2) new_ledger_valid [OF cal times(1)] months]
  have "config_ok cal fleet ?b"
    using span(1) times by (auto simp: config_ok_def simps after_epoch_def split: option.splits)
  moreover have "rows_ok cal (current_month ?w) ?w"
    using span(2) table months by (auto simp: rows_ok_def simps row_ok_def)
  moreover have "counts_ok fleet ?w"
  proof -
    have "category_ok (cap_units ?b) (counts ?b c) {table_view T (current_month ?w) c} (mb (current_month ?w) c) 0 0"
      if "price_units (policy_pricing fleet) c \<noteq> None" for c
    proof -
      have "mb (current_month ?w) c \<le> cap_units ?b"
        unfolding simps by (rule order_trans [OF month_cost_ge [OF that] cost])
      then show ?thesis
        using table_view_sane [OF table(2,1)] cover [OF that]
        by (simp add: boot_counts [OF cap table that] category_ok_restart)
    qed
    then show ?thesis by (simp add: counts_ok_def views own_guards_def old_guards_def)
  qed
  moreover have "months_ok fleet ?w"
    using cost cover by (simp add: months_ok_def views simps)
  ultimately show ?thesis by (simp add: world_ok_def)
qed


lemma world_ok_restart:
  assumes "calendar_ok cal" "monthly_cap_cents fleet < 2 ^ 32" "world_ok cal fleet w"
    and "after_epoch (snd at_new)" "after_epoch (snd at_load)"
  shows "world_ok cal fleet (w\<lparr>ledger := boot cal fleet (table w) at_new at_load, commit := None, guards := []\<rparr>)"
proof -
  have "world_ok cal fleet \<lparr>ledger = boot cal fleet (table w) at_new at_load, table = table w, commit = None,
      guards = [], may_bill = may_bill w\<rparr>"
  proof (rule world_ok_boot [OF assms(1,2,4,5)])
    show "distinct (map row_key (table w))" using assms(3) by (simp add: world_ok_def rows_ok_def)
    show "row_ok cal (current_month w) row \<and> columns_check row" if "row \<in> set (table w)" for row
      using assms(3) that by (simp add: world_ok_def rows_ok_def)
    show "month_cost (policy_pricing fleet) (may_bill w m) \<le> monthly_cap_cents fleet * COST_UNITS_PER_CENT" for m
      using world_ok_cost [OF assms(3), of m] assms(3) by (simp add: world_ok_def config_ok_def)
    show "covers (may_bill w m c) (table_view (table w) m c)"
      if "price_units (policy_pricing fleet) c \<noteq> None" for m c
    proof -
      have "table_view (table w) m c \<in> views w m c" by (simp add: views_def tables_def)
      with assms(3) that show ?thesis unfolding world_ok_def months_ok_def by blast
    qed
  qed
  then show ?thesis by (cases w) simp
qed

section \<open>The clock\<close>

text \<open>A later month has no rows yet, so nothing of it can have been billed.\<close>

lemma views_later_month:
  assumes "rows_ok cal (current_month w) w" "current_month w < m"
  shows "views w m c = {CounterView_default}"
proof -
  have *: "row_key row \<noteq> (m, k)" if "row_ok cal (current_month w) row" for row k
    using that assms(2) by (auto simp: row_ok_def row_key_def)
  have "table_row T m c = None" if "T \<in> tables w" for T
  proof -
    have "\<forall>row \<in> set T. row_ok cal (current_month w) row"
    proof (cases "T = table w")
      case True
      with assms(1) show ?thesis by (simp add: rows_ok_def)
    next
      case False
      with that obtain rs now_ms where rs: "commit w = Some rs" "write_counters now_ms (table w) rs = Some T"
        by (auto simp: tables_def)
      have "set T \<subseteq> set (table w) \<union> set rs"
        using write_counters_Some(2) [OF rs(2)] assms(1) by (simp add: rows_ok_def)
      with assms(1) rs(1) show ?thesis by (auto simp: rows_ok_def)
    qed
    with * show ?thesis by (auto simp: table_row_None)
  qed
  moreover have "tables w \<noteq> {}" by (simp add: tables_def)
  ultimately show ?thesis by (auto simp: views_def table_view_def)
qed

lemma row_ok_mono: "row_ok cal m row \<Longrightarrow> m \<le> m' \<Longrightarrow> row_ok cal m' row"
  by (auto simp: row_ok_def)

lemma world_ok_new_month:
  assumes "world_ok cal fleet w" "monthly_cap_cents fleet < 2 ^ 32" "config_ok cal fleet l"
    and "current_month w < span_key (month_span l)" "cap_units l = cap_units (ledger w)"
    and "counts l = (\<lambda>c. new_month_count (counts (ledger w) c))"
  shows "world_ok cal fleet (w\<lparr>ledger := l\<rparr>)"
proof -
  let ?m = "span_key (month_span l)"
  have rows: "rows_ok cal (current_month w) w" using assms(1) by (simp add: world_ok_def)
  note views = views_later_month [OF rows assms(4)]
  have guards: "\<forall>g \<in> set (guards w). fst g < ?m"
    using assms(1,4) by (auto simp: world_ok_def)
  have none: "own_guards (guards w) ?m c = 0" for c
    using guards by (auto simp: own_guards_def filter_empty_conv)
  have all: "old_guards (guards w) ?m c
      = own_guards (guards w) (current_month w) c + old_guards (guards w) (current_month w) c" for c
  proof -
    have "old_guards gs ?m c = own_guards gs (current_month w) c + old_guards gs (current_month w) c"
      if "\<forall>g \<in> set gs. fst g < ?m" for gs
      using that by (induction gs) (auto simp: own_guards_def old_guards_def)
    with guards show ?thesis by blast
  qed
  have "category_ok (cap_units l) (counts l c) (views w ?m c) (may_bill w ?m c)
      (own_guards (guards w) ?m c) (old_guards (guards w) ?m c)"
    if c: "price_units (policy_pricing fleet) c \<noteq> None" for c
  proof -
    note ok = world_ok_category [OF assms(1) c]
    have "covers (may_bill w ?m c) CounterView_default"
      using assms(1) c views unfolding world_ok_def months_ok_def by auto
    then have "may_bill w ?m c = 0" by (simp add: covers_def CounterView_default_def)
    moreover have "in_flight (counts (ledger w) c) = old_guards (guards w) ?m c"
      using category_ok_count [OF ok] by (simp add: count_ok_def all)
    ultimately show ?thesis
      using category_ok_new_month [OF ok _ world_ok_cap [OF assms(1,2)]]
      by (simp add: assms(5,6) views none)
  qed
  then have "counts_ok fleet (w\<lparr>ledger := l\<rparr>)" by (simp add: counts_ok_def)
  moreover have "months_ok fleet (w\<lparr>ledger := l\<rparr>)"
    using assms(1,5) by (simp add: world_ok_def months_ok_def)
  moreover have "rows_ok cal ?m w"
    using rows row_ok_mono [OF _ less_imp_le [OF assms(4)], of cal] unfolding rows_ok_def by blast
  ultimately show ?thesis
    using assms(3) guards by (auto simp: world_ok_def)
qed

lemma saturating_add_nonneg: "0 \<le> a \<Longrightarrow> 0 \<le> b \<Longrightarrow> 0 \<le> saturating_add a b"
  by (simp add: i64_defs)

lemma elapsed_millis_nonneg: "0 \<le> elapsed_millis t since"
  by (simp add: elapsed_millis_def i64_max_def)

lemma projected_wall_keeps:
  assumes "projected_wall l t ms = (judged, l')" "0 \<le> ms" "0 \<le> snd (anchor l)"
  shows "same_ledger l l'" "counts l' = counts l" "0 \<le> judged"
  using assms saturating_add_nonneg [OF assms(3) elapsed_millis_nonneg, of t "fst (anchor l)"]
  by (auto simp: projected_wall_def same_ledger_def Let_def split: if_splits)

lemma world_ok_clock:
  assumes "calendar_ok cal" "monthly_cap_cents fleet < 2 ^ 32" "world_ok cal fleet w" "after_epoch wall"
  shows "world_ok cal fleet (w\<lparr>ledger := snd (refresh cal (ledger w) t wall)\<rparr>)"
proof (cases wall)
  case None
  with assms(3) show ?thesis by (simp add: refresh_def)
next
  case (Some ms)
  obtain judged l where j: "projected_wall (ledger w) t ms = (judged, l)" by fastforce
  have "0 \<le> snd (anchor (ledger w))" "0 \<le> ms"
    using assms(3,4) Some by (auto simp: world_ok_def config_ok_def after_epoch_def)
  note l = projected_wall_keeps [OF j this(2,1)]
  have keep: "world_ok cal fleet (w\<lparr>ledger := l'\<rparr>)"
    if "same_ledger l l'" "counts l' = counts l" for l'
    using that l world_ok_category [OF assms(3)]
    by (intro world_ok_ledger [OF assms(3)]) (auto intro: same_ledger_trans)
  have span: "month_span l = month_span (ledger w)" "cap_units l = cap_units (ledger w)"
    using l(1) by (simp_all add: same_ledger_def)
  show ?thesis
  proof (cases "containing cal judged")
    case None
    with Some j keep [of l] show ?thesis by (simp add: refresh_def same_ledger_refl)
  next
    case (Some candidate)
    note new = containing_valid [OF assms(1) l(3) Some]
    show ?thesis
    proof (cases "current_month w < span_key candidate")
      case True
      let ?l = "l\<lparr>month_span := candidate, anchor := (t, ms), frozen := False, deferred_logged := False,
        warned := False, counts := (\<lambda>c. new_month_count (counts l c)), persisted := (\<lambda>c. CounterView_default)\<rparr>"
      have "config_ok cal fleet ?l"
        using assms(3) l(1) new \<open>0 \<le> ms\<close> by (simp add: world_ok_def config_ok_def same_ledger_def)
      then have "world_ok cal fleet (w\<lparr>ledger := ?l\<rparr>)"
        using True l(2) span by (intro world_ok_new_month [OF assms(3,2)]) simp_all
      with \<open>wall = Some ms\<close> j Some True span show ?thesis by (simp add: refresh_def)
    next
      case False
      have "same_ledger l (l\<lparr>deferred_logged := True\<rparr>)" by (simp add: same_ledger_def)
      then have "world_ok cal fleet (w\<lparr>ledger := l\<lparr>deferred_logged := True\<rparr>\<rparr>)"
        "world_ok cal fleet (w\<lparr>ledger := l\<rparr>)"
        using keep [of "l\<lparr>deferred_logged := True\<rparr>"] keep [of l] by (simp_all add: same_ledger_refl)
      with \<open>wall = Some ms\<close> j Some False span show ?thesis by (simp add: refresh_def)
    qed
  qed
qed

section \<open>The cap\<close>

lemma ledger_step_ok:
  assumes "calendar_ok cal" "monthly_cap_cents fleet < 2 ^ 32"
    and "ledger_step cal fleet w w'" "world_ok cal fleet w"
  shows "world_ok cal fleet w'"
  using assms(3)
proof cases
  case (answer m c result)
  then show ?thesis
    using world_ok_complete [OF assms(4,2), of m c "fleet_result_billable result"]
      world_ok_unstart [OF assms(4), of m c]
    by (auto simp: counted_complete_def counted_admitted_def split: if_splits)
next
  case (freeze)
  then show ?thesis
    using world_ok_category [OF assms(4)]
    by (auto intro!: world_ok_ledger [OF assms(4)] simp: freeze_month_anchor_def same_ledger_def)
next
  case (never_sent m c)
  then show ?thesis
    using world_ok_unstart [OF assms(4), of m c] by (simp add: counted_drop_def counted_admitted_def)
next
  case (beside c result)
  then show ?thesis
    using world_ok_beside [OF assms(4,2), of c "fleet_result_billable result"] assms(4)
    by (cases "fleet_result_attempted result") (auto simp: record_fleet_result_def)
qed (use assms world_ok_clock world_ok_reserve world_ok_send world_ok_begin_commit world_ok_reported
      world_ok_written(1) world_ok_failed world_ok_restart in \<open>auto\<close>)

lemma ledger_run_ok:
  assumes "ledger_run cal fleet w" "calendar_ok cal" "monthly_cap_cents fleet < 2 ^ 32"
  shows "world_ok cal fleet w"
  using assms(1)
proof induction
  case (first_boot at_new at_load)
  then show ?case
    using assms(2,3) by (intro world_ok_boot) (simp_all add: month_cost_def covers_def)
next
  case (next_step w w')
  with ledger_step_ok [OF assms(2,3)] show ?case by blast
qed


text \<open>
  C6: Whatever the interleaving of planned, admitted, answered, dropped and lost requests,
  of other senders, of commits that succeed, fail or commit without a report, of clock
  steps and of crashes and restarts, the scheduled requests of one month that Tesla may
  have billed never cost more than the owner's local cap. A request counts from its start
  until an answer says it is not billed, and one lost with the process counts for ever.
\<close>

theorem scheduled_cost_within_cap:
  assumes "calendar_ok cal" "monthly_cap_cents fleet < 2 ^ 32" "ledger_run cal fleet w"
  shows "month_cost (policy_pricing fleet) (may_bill w m) \<le> monthly_cap_cents fleet * COST_UNITS_PER_CENT"
  using world_ok_cost [OF ledger_run_ok [OF assms(3,1,2)], of m] ledger_run_ok [OF assms(3,1,2)]
  by (simp add: world_ok_def config_ok_def)

text \<open>The calendar of the examples, restricted to the years of four digits.\<close>

definition civil_month :: "int \<Rightarrow> int \<times> nat" where
  "civil_month days =
     (let z = days + 719468; era = z div 146097; doe = z mod 146097;
          yoe = (doe - doe div 1460 + doe div 36524 - doe div 146096) div 365;
          doy = doe - (365 * yoe + yoe div 4 - yoe div 100);
          mp = (5 * doy + 2) div 153;
          m = (if mp < 10 then mp + 3 else mp - 9)
      in (yoe + era * 400 + (if m \<le> 2 then 1 else 0), nat m))"

definition sample_calendar :: calendar where
  "sample_calendar = \<lparr>
     year_month_at = (\<lambda>secs. let (y, m) = civil_month (secs div 86400) in
       if 0 \<le> y \<and> y \<le> 9999 \<and> 1 \<le> m \<and> m \<le> 12 then Some (y, m) else None),
     first_of_month = (\<lambda>y m. if 0 \<le> y \<and> y \<le> 9999 \<and> 1 \<le> m \<and> m \<le> 12
       then Some (days_from_civil y (int m) 1 * 86400) else None)\<rparr>"

definition sample_fleet :: FleetPolicy where
  "sample_fleet = \<lparr>intervals = \<lparr>driving = 60 * 1000000000, charging = 120 * 1000000000,
       updating = 60 * 1000000000, online = 60 * 1000000000, state_check = 600 * 1000000000,
       inventory = 3600 * 1000000000\<rparr>,
     monthly_cap_cents = 1, policy_pricing = FLEET_PRICING\<rparr>"

lemma sample_calendar_ok: "calendar_ok sample_calendar"
proof -
  have "containing sample_calendar 0 \<noteq> None" by code_simp
  then show ?thesis
    by (auto simp: calendar_ok_def sample_calendar_def Let_def split: if_splits prod.splits)
qed

text \<open>
  A month with a cap of one cent, that is five data requests: two are planned and reserved, one
  is sent and lost in a crash, and the restart counts both as billed.
\<close>

definition sample_clock :: "nat \<times> int option" where
  "sample_clock = (0, Some 1794816000000)"

definition sample_span :: MonthSpan where
  "sample_span = \<lparr>span_key = ''2026-11'', start_ms = 1793491200000, end_ms = 1796083200000\<rparr>"

definition sample_ledger :: "CategoryCount \<Rightarrow> CounterView \<Rightarrow> nat \<Rightarrow> LedgerState" where
  "sample_ledger k v n = \<lparr>mode = CM_FleetPolling, pricing = FLEET_PRICING, cap_units = 1500,
     month_span = sample_span, anchor = (0, 1794816000000), frozen = False, deferred_logged = False,
     counts = (\<lambda>_. CategoryCount_default)(RC_Data := k),
     persisted = (\<lambda>_. CounterView_default)(RC_Data := v),
     started_since_start = (\<lambda>_. 0)(RC_Data := n), warned = False, last_flush = 0\<rparr>"

definition sample_count :: "nat \<Rightarrow> nat \<Rightarrow> nat \<Rightarrow> nat \<Rightarrow> nat \<Rightarrow> CategoryCount" where
  "sample_count s b i p r = \<lparr>sent = s, billable = b, in_flight = i, reserved_pending = p,
     reserved_persisted = r\<rparr>"

definition sample_row :: CollectorCounterRow where
  "sample_row = \<lparr>row_month = ''2026-11'', row_mode = ''fleet_polling'', row_category = ''data'',
     row_sent = 0, row_billable = 0, row_reserved = 2\<rparr>"

lemma civil_month_sample: "civil_month 20773 = (2026, 11)"
proof (rule prod_eqI)
  show "fst (civil_month 20773) = fst (2026, 11)" unfolding civil_month_def Let_def by simp
  show "snd (civil_month 20773) = snd (2026, 11)" unfolding civil_month_def Let_def by simp
qed

lemma days_sample: "days_from_civil 2026 11 1 = 20758" "days_from_civil 2026 12 1 = 20788"
  by (simp_all add: days_from_civil_def)

lemma key_sample: "show_year 2026 @ CHR ''-'' # zero_padded 2 (show_nat 11) = ''2026-11''"
  by code_simp

lemma sample_span_at: "containing sample_calendar 1794816000000 = Some sample_span"
  by (simp add: containing_def sample_calendar_def civil_month_sample days_sample key_sample
      from_year_month_def month_millis_def i64_defs sample_span_def)

lemma sample_prices [simp]:
  "price_units FLEET_PRICING RC_Data = Some 300" "price_units FLEET_PRICING RC_State = Some 300"
  "price_units FLEET_PRICING RC_Wake = Some 3000" "price_units FLEET_PRICING RC_Command = Some 150"
  by (simp_all add: price_units_def FLEET_PRICING_def ledger_consts div_ceil_def)

lemma sample_new:
  "(new_ledger sample_calendar CM_FleetPolling sample_fleet (Some 1794816000000) 0)
     \<lparr>anchor := (0, 1794816000000), month_span := sample_span, frozen := False, deferred_logged := False,
       warned := False, counts := (\<lambda>c. CategoryCount_default), persisted := (\<lambda>c. CounterView_default)\<rparr>
   = sample_ledger CategoryCount_default CounterView_default 0"
  by (simp add: new_ledger_def Let_def sample_ledger_def sample_span_at sample_fleet_def
      u64_saturating_mul_def u64_max_def ledger_consts fun_eq_iff)

lemma sample_gross:
  "billable k + in_flight k \<le> 1000 \<Longrightarrow> gross_units (sample_ledger k v n) True = (billable k + in_flight k) * 300"
  by (simp add: gross_units_def Let_def RequestCategory_ALL_def billed_def price_def sample_ledger_def
      u64_saturating_add_def u64_saturating_mul_def u64_max_def CategoryCount_default_def)

lemma sample_no_warning:
  assumes "billable k + in_flight k \<le> 3"
  shows "check_cap_warning (sample_ledger k v n) = sample_ledger k v n"
    "\<not> at_warning (sample_ledger k v n)"
  using assms sample_gross [of k v n]
  by (simp_all add: check_cap_warning_def at_warning_def u64_saturating_mul_def u64_max_def ledger_consts)
    (simp_all add: sample_ledger_def)

lemma sample_set_count:
  "set_count RC_Data k' (sample_ledger k v n) = sample_ledger k' v n"
  by (simp add: set_count_def sample_ledger_def)

lemma sample_fields [simp]:
  "counts (sample_ledger k v n) RC_Data = k" "mode (sample_ledger k v n) = CM_FleetPolling"
  "cap_units (sample_ledger k v n) = 1500" "month_span (sample_ledger k v n) = sample_span"
  "billed (sample_ledger k v n) RC_Data" "price (sample_ledger k v n) RC_Data = 300"
  "started_since_start (sample_ledger k v n) RC_Data = n"
  by (simp_all add: sample_ledger_def billed_def price_def)


lemma sample_max_reserved:
  "sent k \<le> 1000 \<Longrightarrow>
    max_reserved (sample_ledger k v n) RC_Data = 5 + (sent k - in_flight k - billable k)"
proof -
  have "exposure_requests CategoryCount_default 0 = 0"
    by (simp add: exposure_requests_def CategoryCount_default_def u64_saturating_add_def)
  moreover have "counts (sample_ledger k v n) c = CategoryCount_default" if "c \<noteq> RC_Data" for c
    using that by (simp add: sample_ledger_def)
  moreover have "reserved_pending CategoryCount_default = 0" by (simp add: CategoryCount_default_def)
  moreover have "u64_saturating_mul 0 p = 0" "u64_saturating_add 0 0 = 0" for p
    by (simp_all add: u64_saturating_mul_def u64_saturating_add_def)
  ultimately have "exposure_units (sample_ledger k v n) (Some RC_Data) = 0"
    by (simp add: exposure_units_def RequestCategory_ALL_def)
  then show "sent k \<le> 1000 \<Longrightarrow> ?thesis"
    by (simp add: max_reserved_def u64_saturating_add_def u64_max_def)
qed

lemma sample_load:
  assumes "foldl load_row (sample_ledger CategoryCount_default CounterView_default 0) rs = sample_ledger k v 0"
    and "billable k + in_flight k \<le> 3" "load_span sample_calendar sample_span (Some 1794816000000) rs = sample_span"
  shows "boot sample_calendar sample_fleet rs sample_clock sample_clock = sample_ledger k v 0"
proof -
  have span: "month_span (new_ledger sample_calendar CM_FleetPolling sample_fleet (Some 1794816000000) 0) = sample_span"
    by (simp add: new_ledger_def Let_def sample_span_at)
  have flush: "(sample_ledger k v 0)\<lparr>last_flush := 0\<rparr> = sample_ledger k v 0"
    "(sample_ledger k v 0)\<lparr>warned := False\<rparr> = sample_ledger k v 0"
    by (simp_all add: sample_ledger_def)
  show ?thesis
    unfolding boot_def load_def Let_def sample_clock_def fst_conv snd_conv span assms(3) option.case
      sample_new assms(1) flush
    using sample_no_warning(2) [OF assms(2)] flush by simp
qed

lemma sample_boot:
  "boot sample_calendar sample_fleet [] sample_clock sample_clock
     = sample_ledger CategoryCount_default CounterView_default 0"
  by (rule sample_load) (simp_all add: load_span_def latest_month_def sample_span_at CategoryCount_default_def)

lemma sample_reboot:
  "boot sample_calendar sample_fleet [sample_row] sample_clock sample_clock
     = sample_ledger (sample_count 2 2 0 2 2) (row_view sample_row) 0"
proof (rule sample_load)
  have "row_for (sample_ledger CategoryCount_default CounterView_default 0) sample_row = Some RC_Data"
    by (simp add: row_for_def sample_row_def sample_span_def)
  moreover have "row_count True sample_row = sample_count 2 2 0 2 2"
    by (simp add: row_count_def row_view_def sample_row_def unsigned_or_zero_def sample_count_def
        CategoryCount_default_def u64_saturating_add_def u64_max_def)
  ultimately show "foldl load_row (sample_ledger CategoryCount_default CounterView_default 0) [sample_row]
      = sample_ledger (sample_count 2 2 0 2 2) (row_view sample_row) 0"
    by (simp add: load_row_def) (simp add: set_count_def sample_ledger_def)
qed (simp_all add: load_span_def latest_month_def sample_span_at sample_row_def sample_span_def sample_count_def)

lemma sample_plan:
  "plan (sample_ledger CategoryCount_default CounterView_default 0) [(RC_Data, 2)]
     = (True, sample_ledger (sample_count 0 0 0 2 0) CounterView_default 0)"
proof -
  have "max_reserved (sample_ledger CategoryCount_default CounterView_default 0) RC_Data = 5"
    by (simp add: sample_max_reserved CategoryCount_default_def)
  then have "plan_one (sample_ledger CategoryCount_default CounterView_default 0) (RC_Data, 2)
      = sample_ledger (sample_count 0 0 0 2 0) CounterView_default 0"
    by (simp add: plan_one_def Let_def sample_set_count)
      (simp add: CategoryCount_default_def sample_count_def ledger_consts u64_saturating_add_def u64_max_def,
        simp add: numeral_2_eq_2)
  moreover have "pending_reservation (sample_ledger (sample_count 0 0 0 2 0) CounterView_default 0)"
    by (simp add: pending_reservation_def RequestCategory_ALL_def sample_count_def)
  ultimately show ?thesis by (simp add: plan_def Let_def)
qed

lemma sample_rows:
  "attach_counters (sample_ledger (sample_count 0 0 0 2 0) CounterView_default 0) 0 [] False False
     = [sample_row]"
  by (subst attach_counters_rows)
    (simp_all add: rows_def RequestCategory_ALL_def view_of_def counter_row_def sample_ledger_def
      sample_count_def CategoryCount_default_def CounterView_default_def sample_row_def sample_span_def
      signed_def i64_max_def)

lemma sample_write: "write_counters 0 [] [sample_row] = Some [sample_row]"
  by (simp add: write_counters_def row_check_def columns_check_def upsert_row_def sample_row_def)

lemma sample_mark:
  "mark_persisted (sample_ledger (sample_count 0 0 0 2 0) CounterView_default 0) [sample_row] 0
     = sample_ledger (sample_count 0 0 0 2 2) (row_view sample_row) 0"
proof -
  have "row_for (sample_ledger (sample_count 0 0 0 2 0) CounterView_default 0) sample_row = Some RC_Data"
    by (simp add: row_for_def sample_row_def sample_span_def)
  then show ?thesis
    by (simp add: mark_persisted_def mark_row_def)
      (simp add: set_count_def sample_ledger_def sample_count_def sample_row_def unsigned_or_zero_def)
qed

lemma sample_start:
  "start (sample_ledger (sample_count 0 0 0 2 2) v 0) RC_Data
     = (Admitted, sample_ledger (sample_count 1 0 1 2 2) v 1)"
proof -
  let ?l = "sample_ledger (sample_count 0 0 0 2 2) v 0"
  have "gross_units ?l True = 0" using sample_gross [of "sample_count 0 0 0 2 2" v 0]
    by (simp add: sample_count_def)
  moreover have "?l\<lparr>started_since_start := (started_since_start ?l)(RC_Data := 1)\<rparr>
      = sample_ledger (sample_count 0 0 0 2 2) v 1"
    by (simp add: sample_ledger_def)
  ultimately show ?thesis
    using sample_no_warning(1) [of "sample_count 1 0 1 2 2" v 1]
    by (simp add: start_def Let_def sample_set_count u64_saturating_add_def u64_max_def)
      (simp add: sample_count_def sample_set_count)
qed


abbreviation sample_world :: "LedgerState \<Rightarrow> counter_table \<Rightarrow> CollectorCounterRow list option \<Rightarrow>
    (string \<times> RequestCategory) list \<Rightarrow> (string \<Rightarrow> RequestCategory \<Rightarrow> nat) \<Rightarrow> ledger_world" where
  "sample_world l T r g b \<equiv> \<lparr>ledger = l, table = T, commit = r, guards = g, may_bill = b\<rparr>"

definition sample_restarted :: ledger_world where
  "sample_restarted = sample_world (sample_ledger (sample_count 2 2 0 2 2) (row_view sample_row) 0)
     [sample_row] None [] (bill_one_more ''2026-11'' RC_Data (\<lambda>_ _. 0))"

definition sample_committing :: ledger_world where
  "sample_committing = sample_world (sample_ledger (sample_count 0 0 0 2 0) CounterView_default 0) []
     (Some [sample_row]) [] (\<lambda>_ _. 0)"

lemma sample_run_committing: "ledger_run sample_calendar sample_fleet sample_committing"
proof -
  let ?run = "ledger_run sample_calendar sample_fleet"
  have epoch: "after_epoch (snd sample_clock)" by (simp add: sample_clock_def after_epoch_def)
  have "?run (sample_world (sample_ledger CategoryCount_default CounterView_default 0) [] None [] (\<lambda>_ _. 0))"
    using first_boot [of sample_clock sample_clock sample_calendar sample_fleet] epoch
    by (simp add: sample_boot)
  from next_step [OF this reserve [of _ _ _ "[(RC_Data, 2)]"]]
  have "?run (sample_world (sample_ledger (sample_count 0 0 0 2 0) CounterView_default 0) [] None [] (\<lambda>_ _. 0))"
    by (simp add: sample_plan)
  from next_step [OF this begin_commit [of _ _ _ 0 False False]] show ?thesis
    by (simp add: sample_rows sample_committing_def)
qed

lemma sample_run: "ledger_run sample_calendar sample_fleet sample_restarted"
proof -
  let ?run = "ledger_run sample_calendar sample_fleet"
  let ?v = "row_view sample_row" and ?none = "\<lambda>_ _. 0 :: nat"
  have epoch: "after_epoch (snd sample_clock)" by (simp add: sample_clock_def after_epoch_def)
  from next_step [OF sample_run_committing commit_reported [of _ "[sample_row]" 0 "[sample_row]" _ _ 0]]
  have "?run (sample_world (sample_ledger (sample_count 0 0 0 2 2) ?v 0) [sample_row] None [] ?none)"
    by (simp add: sample_committing_def sample_mark sample_write)
  from next_step [OF this send [of _ RC_Data]]
  have "?run (sample_world (sample_ledger (sample_count 1 0 1 2 2) ?v 1) [sample_row] None
      [(''2026-11'', RC_Data)] (bill_one_more ''2026-11'' RC_Data ?none))"
    by (simp add: sample_start sample_span_def)
  from next_step [OF this restart [OF epoch epoch]] show ?thesis
    by (simp add: sample_reboot sample_restarted_def)
qed

theorem scheduled_cost_within_cap_witness:
  "ledger_run sample_calendar sample_fleet sample_restarted
   \<and> may_bill sample_restarted ''2026-11'' RC_Data = 1
   \<and> billable (counts (ledger sample_restarted) RC_Data) = 2
   \<and> month_cost FLEET_PRICING (may_bill sample_restarted ''2026-11'') = 300
   \<and> month_cost FLEET_PRICING (may_bill sample_restarted ''2026-11'') \<le> 1500"
proof -
  have "month_cost (policy_pricing sample_fleet) (may_bill sample_restarted ''2026-11'')
      \<le> monthly_cap_cents sample_fleet * COST_UNITS_PER_CENT"
    by (rule scheduled_cost_within_cap [OF sample_calendar_ok _ sample_run]) (simp add: sample_fleet_def)
  moreover have "month_cost FLEET_PRICING (may_bill sample_restarted ''2026-11'') = 300"
    by (simp add: month_cost_def RequestCategory_ALL_def sample_restarted_def bill_one_more_def)
  ultimately show ?thesis
    using sample_run
    by (simp add: sample_fleet_def ledger_consts sample_restarted_def bill_one_more_def sample_count_def)
qed

end
