(* ===== verification/Ledger_Progress.thy ===== *)
theory Ledger_Progress
  imports Ledger_Run
begin

text \<open>
  What the ledger promises besides the cap: the table never refuses a counter row, and a
  request whose reservation was planned and committed is admitted or withheld by the cap, so
  the loop never waits for a reservation for ever.
\<close>

section \<open>The rows and the ledger's copy of them\<close>

text \<open>
  The ledger's copy of the stored reservation is one sends may rely on, and a category that
  is not billed has no billable request, in memory or in a row.
\<close>

definition copy_ok :: "FleetPolicy \<Rightarrow> LedgerState \<Rightarrow> bool" where
  "copy_ok fleet l \<longleftrightarrow>
     (\<forall>c. view_reserved (persisted l c) \<le> reserved_persisted (counts l c)
        \<and> (price_units (policy_pricing fleet) c = None \<longrightarrow> billable (counts l c) = 0))"

definition unbilled_row :: "FleetPolicy \<Rightarrow> CollectorCounterRow \<Rightarrow> bool" where
  "unbilled_row fleet row \<longleftrightarrow>
     (\<forall>c. row_category row = category_code c \<longrightarrow> price_units (policy_pricing fleet) c = None \<longrightarrow>
        row_billable row = 0)"

definition store_ok :: "FleetPolicy \<Rightarrow> ledger_world \<Rightarrow> bool" where
  "store_ok fleet w \<longleftrightarrow> copy_ok fleet (ledger w) \<and> (\<forall>row \<in> set (table w). unbilled_row fleet row)
     \<and> (\<forall>rs. commit w = Some rs \<longrightarrow> (\<forall>row \<in> set rs. unbilled_row fleet row \<and> columns_check row))"

definition keeps_copy :: "LedgerState \<Rightarrow> LedgerState \<Rightarrow> bool" where
  "keeps_copy l l' \<longleftrightarrow> (\<forall>c. persisted l' c = persisted l c
     \<and> reserved_persisted (counts l' c) = reserved_persisted (counts l c)
     \<and> (billed l c \<or> billable (counts l' c) = billable (counts l c)))"

lemma keeps_copy_refl: "keeps_copy l l"
  by (simp add: keeps_copy_def)

lemma keeps_copy_start: "start l c = (a, l') \<Longrightarrow> keeps_copy l l'"
  by (auto simp: start_def Let_def keeps_copy_def split: if_splits)

lemma keeps_copy_unstart: "keeps_copy l (unstart l c)"
  by (simp add: unstart_def Let_def keeps_copy_def)

lemma keeps_copy_complete: "keeps_copy l (complete l c bills)"
  by (simp add: complete_def Let_def keeps_copy_def)

lemma keeps_copy_record_completed: "keeps_copy l (record_completed l c bills)"
  by (simp add: record_completed_def Let_def keeps_copy_def)

lemma keeps_copy_plan_one: "keeps_copy l (plan_one l p) \<and> billed (plan_one l p) = billed l"
  by (cases p) (simp add: plan_one_def Let_def keeps_copy_def billed_def fun_eq_iff)

lemma keeps_copy_plan: "keeps_copy l (snd (plan l p))"
proof -
  have "keeps_copy l (foldl plan_one l p) \<and> billed (foldl plan_one l p) = billed l"
  proof (induction p arbitrary: l)
    case (Cons x p)
    from Cons.IH [of "plan_one l x"] keeps_copy_plan_one [of l x] show ?case
      by (simp add: keeps_copy_def) metis
  qed (simp add: keeps_copy_refl)
  then show ?thesis by (simp add: plan_def Let_def keeps_copy_refl)
qed

lemma copy_ok_keeps:
  assumes "copy_ok fleet l" "keeps_copy l l'"
    and "\<And>c. billed l c \<longleftrightarrow> price_units (policy_pricing fleet) c \<noteq> None"
  shows "copy_ok fleet l'"
  unfolding copy_ok_def
proof (intro allI conjI impI)
  fix c
  show "view_reserved (persisted l' c) \<le> reserved_persisted (counts l' c)"
    using assms(1,2) by (simp add: copy_ok_def keeps_copy_def)
  assume "price_units (policy_pricing fleet) c = None"
  with assms show "billable (counts l' c) = 0" unfolding copy_ok_def keeps_copy_def by metis
qed

lemma keeps_copy_refresh:
  "keeps_copy l (snd (refresh cal l t wall)) \<or> copy_ok fleet (snd (refresh cal l t wall))"
proof (cases wall)
  case None
  then show ?thesis by (simp add: refresh_def keeps_copy_refl)
next
  case (Some ms)
  obtain judged l1 where j: "projected_wall l t ms = (judged, l1)" by fastforce
  have "keeps_copy l l1"
    using j by (auto simp: projected_wall_def Let_def keeps_copy_def split: if_splits)
  then show ?thesis
    using Some j
    by (auto simp: refresh_def keeps_copy_def copy_ok_def new_month_count_def CategoryCount_default_def
        CounterView_default_def split: option.split)
qed

lemma copy_ok_mark_row:
  assumes "copy_ok fleet l"
  shows "copy_ok fleet (mark_row l row)"
  using assms by (auto simp: copy_ok_def mark_row_def row_view_def split: option.split)

lemma copy_ok_mark_persisted: "copy_ok fleet l \<Longrightarrow> copy_ok fleet (mark_persisted l rs t)"
proof -
  have "copy_ok fleet l \<Longrightarrow> copy_ok fleet (foldl mark_row l rs)" for l
    by (induction rs arbitrary: l) (auto intro: copy_ok_mark_row)
  then show "copy_ok fleet l \<Longrightarrow> copy_ok fleet (mark_persisted l rs t)"
    by (simp add: mark_persisted_def copy_ok_def)
qed

lemma copy_ok_load_row:
  assumes "copy_ok fleet l" "unbilled_row fleet row"
    and "\<And>c. billed l c \<longleftrightarrow> price_units (policy_pricing fleet) c \<noteq> None"
  shows "copy_ok fleet (load_row l row)"
proof (cases "row_for l row")
  case None
  with assms show ?thesis by (simp add: load_row_def)
next
  case (Some c)
  then have "row_category row = category_code c"
    by (auto simp: row_for_def split: if_splits)
  with assms(2) have "price_units (policy_pricing fleet) c = None \<Longrightarrow> row_billable row = 0"
    by (simp add: unbilled_row_def)
  with Some assms(1,3) show ?thesis
    by (auto simp: copy_ok_def load_row_def row_count_def row_view_def unsigned_or_zero_def Let_def)
qed

lemma copy_ok_boot:
  assumes "\<And>row. row \<in> set T \<Longrightarrow> unbilled_row fleet row"
  shows "copy_ok fleet (boot cal fleet T at_new at_load)"
proof -
  have *: "copy_ok fleet (foldl load_row l rs)"
    if "copy_ok fleet l" "\<And>row. row \<in> set rs \<Longrightarrow> unbilled_row fleet row"
      "\<And>c. billed l c \<longleftrightarrow> price_units (policy_pricing fleet) c \<noteq> None" for l rs
    using that
  proof (induction rs arbitrary: l)
    case (Cons r rs)
    have "copy_ok fleet (load_row l r)" using Cons.prems by (intro copy_ok_load_row) auto
    moreover have "billed (load_row l r) c \<longleftrightarrow> price_units (policy_pricing fleet) c \<noteq> None" for c
      using Cons.prems(3) by (simp add: billed_def)
    ultimately show ?case using Cons.IH Cons.prems(2) by simp
  qed simp
  show ?thesis
    unfolding boot_def load_def Let_def
    by (simp add: copy_ok_def [of _ "_\<lparr>warned := _\<rparr>"] copy_ok_def [of _ "_\<lparr>last_flush := _\<rparr>"])
      (use * [unfolded copy_ok_def] assms in \<open>simp add: new_ledger_def Let_def billed_def CategoryCount_default_def CounterView_default_def\<close>)
qed


text \<open>The rows of a ledger that keeps the invariant pass the constraints of the table.\<close>

lemma signed_mono: "a \<le> b \<Longrightarrow> signed a \<le> signed b"
  by (simp add: signed_def)

lemma counter_row_check:
  assumes "world_ok cal fleet w" "copy_ok fleet (ledger w)"
  shows "columns_check (counter_row (ledger w) c)" "unbilled_row fleet (counter_row (ledger w) c)"
proof -
  let ?k = "counts (ledger w) c"
  have key: "length (current_month w) = 7" "mode (ledger w) = CM_FleetPolling"
    using assms(1) by (simp_all add: world_ok_def config_ok_def valid_key_def)
  have "signed (billable ?k) \<le> signed (sent ?k - in_flight ?k) \<and> signed (billable ?k) \<le> signed (reserved_pending ?k)"
  proof (cases "price_units (policy_pricing fleet) c = None")
    case True
    with assms(2) have "billable ?k = 0" by (simp add: copy_ok_def)
    then show ?thesis by (simp add: signed_def i64_max_def)
  next
    case False
    note k = category_ok_count [OF world_ok_category [OF assms(1) False], unfolded count_ok_def]
    have "billable ?k \<le> reserved_pending ?k" using k by blast
    moreover have "signed (billable ?k) \<le> signed (sent ?k - in_flight ?k)"
    proof (cases "billable ?k + in_flight ?k \<le> sent ?k")
      case True
      then show ?thesis by (intro signed_mono) simp
    next
      case False
      with k have "2 ^ 63 \<le> billable ?k" "2 ^ 63 \<le> sent ?k - in_flight ?k" by auto
      then have "int (2 ^ 63) \<le> int (billable ?k)" "int (2 ^ 63) \<le> int (sent ?k - in_flight ?k)"
        by (simp_all only: of_nat_le_iff)
      then show ?thesis by (simp add: signed_def i64_max_def)
    qed
    ultimately show ?thesis by (simp add: signed_mono)
  qed
  moreover have "0 \<le> signed n" for n by (simp add: signed_def i64_max_def)
  moreover have "category_code c \<in> {''data'', ''state'', ''wake'', ''command''}" by (cases c) simp_all
  ultimately show "columns_check (counter_row (ledger w) c)"
    using key by (simp add: columns_check_def counter_row_def view_of_def Let_def)
  show "unbilled_row fleet (counter_row (ledger w) c)"
    using assms(2)
    by (auto simp: unbilled_row_def counter_row_def view_of_def Let_def category_code_inj copy_ok_def
        signed_def i64_max_def)
qed

lemma store_ok_step:
  assumes "world_ok cal fleet w" "ledger_step cal fleet w w'" "store_ok fleet w"
  shows "store_ok fleet w'"
proof -
  have copy: "copy_ok fleet (ledger w)" using assms(3) by (simp add: store_ok_def)
  have keeps: "copy_ok fleet l" if "keeps_copy (ledger w) l" for l
    using copy_ok_keeps [OF copy that] world_ok_billed [OF assms(1)] by blast
  have ledger_only: "store_ok fleet v"
    if "copy_ok fleet (ledger v)" "table v = table w" "commit v = commit w \<or> commit v = None" for v
    using that assms(3) by (auto simp: store_ok_def)
  have written: "store_ok fleet v"
    if "commit w = Some rs" "write_counters now_ms (table w) rs = Some T" "copy_ok fleet (ledger v)"
      "table v = T" "commit v = None" for rs T v now_ms
    using that assms(3) set_upserts [of "table w" rs]
    by (auto simp: store_ok_def write_counters_def split: if_splits)
  show ?thesis
    using assms(2)
  proof cases
    case (clock wall mono_now)
    have "copy_ok fleet (snd (refresh cal (ledger w) mono_now wall))"
      using keeps keeps_copy_refresh by blast
    with clock show ?thesis by (intro ledger_only) simp_all
  next
    case freeze
    then show ?thesis
      using copy by (intro ledger_only) (simp_all add: freeze_month_anchor_def copy_ok_def)
  next
    case (reserve p)
    then show ?thesis using keeps keeps_copy_plan by (intro ledger_only) auto
  next
    case (send c l)
    then show ?thesis using keeps keeps_copy_start by (intro ledger_only) auto
  next
    case (answer m c result)
    then show ?thesis
      using keeps keeps_copy_complete keeps_copy_unstart copy
      by (intro ledger_only) (auto simp: counted_complete_def counted_admitted_def)
  next
    case (never_sent m c)
    then show ?thesis
      using keeps keeps_copy_unstart by (intro ledger_only) (auto simp: counted_drop_def counted_admitted_def)
  next
    case (beside c result)
    then show ?thesis
      using keeps keeps_copy_record_completed copy
      by (intro ledger_only) (auto simp: record_fleet_result_def)
  next
    case (begin_commit mono_now other_writes force)
    have "mode (ledger w) = CM_FleetPolling" using assms(1) by (simp add: world_ok_def config_ok_def)
    moreover have "unbilled_row fleet row \<and> columns_check row" if "row \<in> set (rows (ledger w))" for row
      using that counter_row_check [OF assms(1) copy] by (auto simp: rows_def)
    ultimately show ?thesis
      using begin_commit assms(3) by (simp add: store_ok_def attach_counters_rows)
  next
    case (commit_reported rs now_ms T mono_now)
    then show ?thesis using copy copy_ok_mark_persisted by (intro written [of rs now_ms T]) auto
  next
    case (commit_unreported rs now_ms T)
    then show ?thesis using copy by (intro written [of rs now_ms T]) auto
  next
    case commit_failed
    then show ?thesis using copy by (intro ledger_only) auto
  next
    case (restart at_new at_load)
    then show ?thesis
      using assms(3) by (intro ledger_only) (auto simp: store_ok_def intro: copy_ok_boot)
  qed
qed

lemma ledger_run_store_ok:
  assumes "ledger_run cal fleet w" "calendar_ok cal" "monthly_cap_cents fleet < 2 ^ 32"
  shows "store_ok fleet w"
  using assms(1)
proof induction
  case (first_boot at_new at_load)
  have "copy_ok fleet (boot cal fleet [] at_new at_load)" by (rule copy_ok_boot) simp
  then show ?case by (simp add: store_ok_def)
next
  case (next_step w w')
  with store_ok_step [OF ledger_run_ok [OF next_step(1) assms(2,3)]] show ?case by blast
qed

text \<open>
  C16: Every transaction of counter rows that a run builds is one the table accepts: the month
  key has seven characters, the mode and the category are known, the stored counts are not
  negative, no more requests are billable than were sent, the reservation covers the
  billable ones, and the time of the write is not negative, for a clock reading that is not before
  the epoch (the collector's clock gives no other; without a reading the time is the last one or 0).
\<close>

theorem counter_rows_accepted:
  assumes "calendar_ok cal" "monthly_cap_cents fleet < 2 ^ 32" "ledger_run cal fleet w" "commit w = Some rs" "0 \<le> now_ms"
  shows "list_all (row_check now_ms) rs \<and> write_counters now_ms (table w) rs \<noteq> None"
  using ledger_run_store_ok [OF assms(3,1,2)] assms(4,5)
  by (auto simp: store_ok_def write_counters_def row_check_def list_all_iff)

theorem counter_rows_accepted_witness:
  "ledger_run sample_calendar sample_fleet sample_committing
   \<and> commit sample_committing = Some [sample_row]
   \<and> list_all (row_check 1800000000000) [sample_row] \<and> write_counters 1800000000000 (table sample_committing) [sample_row] \<noteq> None"
  using counter_rows_accepted [OF sample_calendar_ok _ sample_run_committing, of "[sample_row]" 1800000000000]
    sample_run_committing
  by (simp add: sample_fleet_def sample_committing_def)


section \<open>A planned request is decided\<close>

text \<open>What a decision depends on: all of a ledger but the reservations of the category.\<close>

definition same_but_reservation :: "RequestCategory \<Rightarrow> LedgerState \<Rightarrow> LedgerState \<Rightarrow> bool" where
  "same_but_reservation c l l' \<longleftrightarrow> same_ledger l l' \<and>
     (\<forall>d. sent (counts l' d) = sent (counts l d) \<and> billable (counts l' d) = billable (counts l d)
        \<and> in_flight (counts l' d) = in_flight (counts l d)
        \<and> (d \<noteq> c \<longrightarrow> reserved_pending (counts l' d) = reserved_pending (counts l d)))"

lemma same_but_reservation_trans:
  "same_but_reservation c l l' \<Longrightarrow> same_but_reservation c l' l'' \<Longrightarrow> same_but_reservation c l l''"
  unfolding same_but_reservation_def by (auto intro: same_ledger_trans)

lemma same_but_reservation_decides:
  assumes "same_but_reservation c l l'"
  shows "billed l' = billed l" "price l' = price l" "gross_units l' b = gross_units l b"
    "max_reserved l' c = max_reserved l c" "cap_units l' = cap_units l"
proof -
  have cfg: "mode l' = mode l" "pricing l' = pricing l" "cap_units l' = cap_units l"
    using assms by (simp_all add: same_but_reservation_def same_ledger_def)
  then show billed: "billed l' = billed l" and price: "price l' = price l" and "cap_units l' = cap_units l"
    by (simp_all add: billed_def price_def fun_eq_iff)
  have k: "sent (counts l' d) = sent (counts l d)" "billable (counts l' d) = billable (counts l d)"
    "in_flight (counts l' d) = in_flight (counts l d)"
    "d \<noteq> c \<Longrightarrow> reserved_pending (counts l' d) = reserved_pending (counts l d)" for d
    using assms by (simp_all add: same_but_reservation_def)
  show "gross_units l' b = gross_units l b"
    by (simp add: gross_units_def billed price k cong: if_cong)
  have "exposure_units l' (Some c) = exposure_units l (Some c)"
    unfolding exposure_units_def billed price
    by (rule foldl_cong) (auto simp: exposure_requests_def k)
  then show "max_reserved l' c = max_reserved l c"
    by (simp add: max_reserved_def Let_def cfg price k)
qed

lemma same_but_reservation_plan_one: "same_but_reservation c l (plan_one l (c, n))"
  by (simp add: same_but_reservation_def same_ledger_plan_one) (simp add: plan_one_def Let_def)

lemma same_but_reservation_mark: "same_but_reservation c l (mark_persisted l rs t)"
proof -
  have "same_but_reservation c l (mark_row l row)" for l row
    by (simp add: same_but_reservation_def same_ledger_mark_row)
      (simp add: mark_row_def split: option.split)
  then have "same_but_reservation c l (foldl mark_row l rs)"
  proof (induction rs arbitrary: l)
    case (Cons r rs)
    then show ?case using same_but_reservation_trans by fastforce
  qed (simp add: same_but_reservation_def same_ledger_refl)
  then show ?thesis by (simp add: mark_persisted_def same_but_reservation_def same_ledger_def)
qed

text \<open>After its rows are committed, a ledger may rely on its pending reservation.\<close>

lemma committed_reservation:
  assumes "mode l = CM_FleetPolling" "copy_ok fleet l" "reserved_pending (counts l c) < 2 ^ 63"
    and "reserved_persisted (counts l c) \<le> reserved_pending (counts l c)"
  shows "reserved_persisted (counts (mark_persisted l (rows l) t) c) = reserved_pending (counts l c)"
    and "reserved_pending (counts (mark_persisted l (rows l) t) c) = reserved_pending (counts l c)"
proof -
  note mark = mark_rows_counts [OF assms(1) distinct_rows [of l], of c]
  have "table_row (rows l) (span_key (month_span l)) c =
      (if view_of (counts l c) = persisted l c then None else Some (counter_row l c))"
  proof (cases "view_of (counts l c) = persisted l c")
    case True
    then have "counter_row l d \<in> set (rows l) \<Longrightarrow> d \<noteq> c" for d
      by (auto simp: rows_def counter_row_def Let_def category_code_inj)
    with True show ?thesis
      using table_row_rows(1) [OF assms(1), of "span_key (month_span l)" c]
      by (auto simp: table_row_iff [OF distinct_rows])
  next
    case False
    then have "counter_row l c \<in> set (rows l)" by (simp add: rows_def category_ALL)
    with False assms(1) show ?thesis by (simp add: table_row_iff [OF distinct_rows])
  qed
  moreover have "view_reserved (row_view (counter_row l c)) = reserved_pending (counts l c)"
    using assms(3) by (simp add: row_view_def counter_row_def view_of_def Let_def signed_def
        unsigned_or_zero_def i64_max_def)
  moreover have "reserved_pending (counts l c) \<le> reserved_persisted (counts l c)"
    if "view_of (counts l c) = persisted l c"
  proof -
    have "view_reserved (persisted l c) = reserved_pending (counts l c)"
      using that [symmetric] by (simp add: view_of_def)
    with assms(2) show ?thesis by (metis copy_ok_def)
  qed
  ultimately show "reserved_persisted (counts (mark_persisted l (rows l) t) c) = reserved_pending (counts l c)"
    "reserved_pending (counts (mark_persisted l (rows l) t) c) = reserved_pending (counts l c)"
    using mark assms(4) by (auto simp: mark_persisted_def)
qed


lemma planned_start:
  assumes "billed l c" "same_but_reservation c l l'" "0 < n"
    and "reserved_persisted (counts l' c) = reserved_pending (counts (plan_one l (c, n)) c)"
    and "reserved_pending (counts l' c) = reserved_pending (counts (plan_one l (c, n)) c)"
    and "sent (counts l c) < 2 ^ 62" "reserved_pending (counts l c) < 2 ^ 62"
    and "reserved_pending (counts (plan_one l (c, n)) c) < 2 ^ 63"
  shows "fst (start l' c) =
    (if u64_saturating_add (gross_units l True) (price l c) \<le> cap_units l
        \<and> sent (counts l c) < max (reserved_pending (counts l c)) (max_reserved l c)
     then Admitted else Withheld WH_Cap)"
proof -
  let ?k = "counts l c" and ?r = "reserved_pending (counts (plan_one l (c, n)) c)"
  note same = same_but_reservation_decides [OF assms(2)]
  have sent: "sent (counts l' c) = sent ?k" using assms(2) by (simp add: same_but_reservation_def)
  let ?base = "max (reserved_pending ?k) (sent ?k)"
  have base: "u64_saturating_add (reserved_pending ?k) (sent ?k - reserved_pending ?k) = ?base"
    "u64_saturating_add ?base 1 = ?base + 1"
    using assms(6,7) by (auto simp: u64_saturating_add_def u64_max_def)
  have r: "?r = (if n \<le> reserved_pending ?k - sent ?k \<or> max_reserved l c < ?base then reserved_pending ?k
      else u64_saturating_add ?base
        (min (max n (min K_RESERVE_BLOCK (started_since_start l c))) (max_reserved l c - ?base)))"
    using assms(1,3) by (simp add: plan_one_def Let_def base)
  have "sent ?k < ?r \<longleftrightarrow> sent ?k < max (reserved_pending ?k) (max_reserved l c)"
    using assms(3,6,7) by (auto simp: r u64_saturating_add_def u64_max_def)
  moreover have "\<not> u64_saturating_add (max ?r (sent ?k)) 1 \<le> max_reserved l c" if "?r \<le> sent ?k"
  proof -
    have "max ?r (sent ?k) = ?base" "\<not> ?base + 1 \<le> max_reserved l c"
      using that assms(3,6,7) by (auto simp: r u64_saturating_add_def u64_max_def split: if_splits)
    then show ?thesis using base(2) by (simp only:) simp
  qed
  ultimately show ?thesis
    using assms(1)
    by (cases "sent ?k < ?r"; cases "u64_saturating_add (gross_units l True) (price l c) \<le> cap_units l")
      (auto simp add: start_def Let_def same sent assms(4,5))
qed

text \<open>
  C10: When the reservation for a billed request was planned and its rows were committed, the
  request is decided: it is admitted exactly when the month's cost with its price is within
  the cap and the exposure leaves room for it, and otherwise the cap withholds it. It never
  has to wait for a reservation again. (The counts of the category are below \<open>2 ^ 62\<close>.)
\<close>

theorem planned_request_decided:
  assumes "calendar_ok cal" "monthly_cap_cents fleet < 2 ^ 32" "ledger_run cal fleet w"
    and "price_units (policy_pricing fleet) c \<noteq> None" "0 < n"
    and "sent (counts (ledger w) c) < 2 ^ 62" "reserved_pending (counts (ledger w) c) < 2 ^ 62"
    and "planned = snd (plan (ledger w) [(c, n)])"
  shows "fst (start (mark_persisted planned (rows planned) t) c) =
    (if u64_saturating_add (gross_units (ledger w) True) (price (ledger w) c) \<le> cap_units (ledger w)
        \<and> sent (counts (ledger w) c)
           < max (reserved_pending (counts (ledger w) c)) (max_reserved (ledger w) c)
     then Admitted else Withheld WH_Cap)"
proof -
  let ?l = "ledger w"
  note ok = ledger_run_ok [OF assms(3,1,2)]
  have mode: "mode ?l = CM_FleetPolling" using ok by (simp add: world_ok_def config_ok_def)
  then have planned: "planned = plan_one ?l (c, n)" using assms(8) by (simp add: plan_def Let_def)
  have billed: "billed ?l c" using ok assms(4) by (simp add: world_ok_billed)
  have copy: "copy_ok fleet planned"
    using copy_ok_keeps [of fleet ?l] ledger_run_store_ok [OF assms(3,1,2)] world_ok_billed [OF ok]
      keeps_copy_plan_one by (simp add: planned store_ok_def)
  have "category_ok (cap_units ?l) (counts planned c) (views w (current_month w) c)
      (may_bill w (current_month w) c) (own_guards (guards w) (current_month w) c)
      (old_guards (guards w) (current_month w) c)"
    using world_ok_category [OF world_ok_reserve [OF ok, of "[(c, n)]"] assms(4)]
      same_ledger_plan_one [of ?l "(c, n)"]
    by (simp add: plan_def Let_def mode planned same_ledger_def)
  then have k: "reserved_persisted (counts planned c) \<le> reserved_pending (counts planned c)"
    by (simp add: category_ok_def count_ok_def)
  have bound: "reserved_pending (counts planned c) < 2 ^ 63"
  proof -
    have "max_reserved ?l c \<le> cap_units ?l + sent (counts ?l c)"
    proof -
      have "(cap_units ?l - exposure_units ?l (Some c)) div max (price ?l c) 1 \<le> cap_units ?l"
        by (rule le_trans [OF div_le_dividend]) simp
      then show ?thesis
        unfolding max_reserved_def Let_def u64_saturating_add_def by (intro min.coboundedI1 add_mono) simp_all
    qed
    with world_ok_cap [OF ok assms(2)] assms(6,7) show ?thesis
      by (auto simp: planned plan_one_def Let_def u64_saturating_add_def u64_max_def)
  qed
  have mode': "mode planned = CM_FleetPolling"
    using same_ledger_plan_one [of ?l "(c, n)"] mode by (simp add: planned same_ledger_def)
  note committed = committed_reservation [OF mode' copy bound k, of t]
  show ?thesis
    by (rule planned_start [OF billed _ assms(5)])
      (use committed assms(6,7) bound same_but_reservation_trans [OF same_but_reservation_plan_one
         same_but_reservation_mark] in \<open>auto simp: planned\<close>)
qed


theorem planned_request_decided_witness:
  "fst (start (mark_persisted (snd (plan (ledger sample_restarted) [(RC_Data, 1)]))
      (rows (snd (plan (ledger sample_restarted) [(RC_Data, 1)]))) 0) RC_Data) = Admitted"
proof -
  let ?l = "ledger sample_restarted"
  have l: "?l = sample_ledger (sample_count 2 2 0 2 2) (row_view sample_row) 0"
    by (simp add: sample_restarted_def)
  have "fst (start (mark_persisted (snd (plan ?l [(RC_Data, 1)])) (rows (snd (plan ?l [(RC_Data, 1)]))) 0) RC_Data) =
    (if u64_saturating_add (gross_units ?l True) (price ?l RC_Data) \<le> cap_units ?l
        \<and> sent (counts ?l RC_Data) < max (reserved_pending (counts ?l RC_Data)) (max_reserved ?l RC_Data)
     then Admitted else Withheld WH_Cap)"
    by (rule planned_request_decided [OF sample_calendar_ok _ sample_run _ _ _ _ refl])
      (simp_all add: l sample_fleet_def sample_count_def)
  moreover have "gross_units ?l True = 600"
    using sample_gross [of "sample_count 2 2 0 2 2"] by (simp add: l sample_count_def)
  moreover have "max_reserved ?l RC_Data = 5"
    by (simp add: l sample_max_reserved sample_count_def)
  ultimately show ?thesis
    by (simp add: l sample_count_def u64_saturating_add_def u64_max_def)
qed

end
