(* ===== verification/Sched_Time.thy ===== *)
theory Sched_Time
  imports Request_Ledger Auth_Vocabulary Float64 "HOL-Library.Option_ord"
begin

text \<open>
  Shared by the theories of the collection scheduler (\<open>collection/collector/scheduler.rs\<close> and the
  files beside it): ordered maps, the two clocks, the named durations, the random jitter and the
  back-off.

  \<^item> An \<open>Instant\<close> is its number of nanoseconds above the smallest one the platform represents
    (a signed 64-bit number of seconds), a \<open>Duration\<close> a number of nanoseconds; a wall time is
    \<open>i64\<close> milliseconds.
  \<^item> A \<open>BTreeMap\<close> is the list of its entries in the order of the keys.
\<close>

unbundle bit_operations_syntax

section \<open>Ordered maps\<close>

type_synonym ('k, 'v) btree = "('k \<times> 'v) list"

definition bt_get :: "('k, 'v) btree \<Rightarrow> 'k \<Rightarrow> 'v option" where
  "bt_get m k = map_of m k"

text \<open>A change of the value a key has, through \<open>get_mut\<close>.\<close>

definition bt_modify :: "'k \<Rightarrow> ('v \<Rightarrow> 'v) \<Rightarrow> ('k, 'v) btree \<Rightarrow> ('k, 'v) btree" where
  "bt_modify k f m = map (\<lambda>(i, v). (i, if i = k then f v else v)) m"

fun bt_insert :: "'k :: linorder \<Rightarrow> 'v \<Rightarrow> ('k, 'v) btree \<Rightarrow> ('k, 'v) btree" where
  "bt_insert k v [] = [(k, v)]"
| "bt_insert k v ((i, w) # m) =
     (if k < i then (k, v) # (i, w) # m else if k = i then (k, v) # m
      else (i, w) # bt_insert k v m)"

definition bt_retain :: "('k \<Rightarrow> 'v \<Rightarrow> bool) \<Rightarrow> ('k, 'v) btree \<Rightarrow> ('k, 'v) btree" where
  "bt_retain keep m = filter (\<lambda>(k, v). keep k v) m"

definition bt_remove :: "'k \<Rightarrow> ('k, 'v) btree \<Rightarrow> ('k, 'v) btree" where
  "bt_remove k m = filter (\<lambda>(i, v). i \<noteq> k) m"

definition bt_ok :: "('k :: linorder, 'v) btree \<Rightarrow> bool" where
  "bt_ok m \<longleftrightarrow> sorted_wrt (<) (map fst m)"

text \<open>
  The contract of an ordered map as the scheduler uses it: what a lookup returns after each
  change, and that every change keeps the representation ordered.
\<close>

locale ordered_map =
  fixes lookup :: "'m \<Rightarrow> 'k \<Rightarrow> 'v option"
    and modify :: "'k \<Rightarrow> ('v \<Rightarrow> 'v) \<Rightarrow> 'm \<Rightarrow> 'm"
    and put :: "'k \<Rightarrow> 'v \<Rightarrow> 'm \<Rightarrow> 'm"
    and retain :: "('k \<Rightarrow> 'v \<Rightarrow> bool) \<Rightarrow> 'm \<Rightarrow> 'm"
    and ok :: "'m \<Rightarrow> bool"
  assumes lookup_modify: "lookup (modify k f m) i = (if i = k then map_option f (lookup m i) else lookup m i)"
    and lookup_put: "ok m \<Longrightarrow> lookup (put k v m) i = (if i = k then Some v else lookup m i)"
    and lookup_retain: "ok m \<Longrightarrow> lookup (retain keep m) i =
        (case lookup m i of None \<Rightarrow> None | Some v \<Rightarrow> if keep i v then Some v else None)"
    and modify_ok: "ok m \<Longrightarrow> ok (modify k f m)"
    and put_ok: "ok m \<Longrightarrow> ok (put k v m)"
    and retain_ok: "ok m \<Longrightarrow> ok (retain keep m)"
begin

definition holds_for :: "('k \<Rightarrow> 'v \<Rightarrow> bool) \<Rightarrow> 'm \<Rightarrow> bool" where
  "holds_for P m \<longleftrightarrow> (\<forall>k v. lookup m k = Some v \<longrightarrow> P k v)"

lemma holds_for_modify:
  "holds_for P m \<Longrightarrow> (\<And>v. lookup m k = Some v \<Longrightarrow> P k (f v)) \<Longrightarrow> holds_for P (modify k f m)"
  by (auto simp: holds_for_def lookup_modify split: if_splits)

lemma holds_for_put: "ok m \<Longrightarrow> holds_for P m \<Longrightarrow> P k v \<Longrightarrow> holds_for P (put k v m)"
  by (auto simp: holds_for_def lookup_put split: if_splits)

lemma holds_for_retain: "ok m \<Longrightarrow> holds_for P m \<Longrightarrow> holds_for P (retain keep m)"
  by (auto simp: holds_for_def lookup_retain split: if_splits option.splits)

lemma modify_absent: "lookup m k = None \<Longrightarrow> lookup (modify k f m) i = lookup m i"
  by (simp add: lookup_modify)

end

lemma bt_get_modify [simp]:
  "bt_get (bt_modify k f m) i = (if i = k then map_option f (bt_get m i) else bt_get m i)"
  unfolding bt_get_def bt_modify_def by (induction m) auto

lemma bt_get_Cons: "bt_get ((k, v) # m) i = (if i = k then Some v else bt_get m i)"
  by (auto simp: bt_get_def)

lemma bt_get_small: "bt_ok ((k, v) # m) \<Longrightarrow> i < k \<Longrightarrow> bt_get m i = None"
  by (force simp: bt_get_def bt_ok_def map_of_eq_None_iff)

lemma bt_get_insert: "bt_ok m \<Longrightarrow> bt_get (bt_insert k v m) i = (if i = k then Some v else bt_get m i)"
  by (induction k v m rule: bt_insert.induct)
    (auto simp: bt_get_Cons bt_get_small bt_ok_def)

lemma fst_bt_insert: "fst ` set (bt_insert k v m) = insert k (fst ` set m)"
  by (induction k v m rule: bt_insert.induct) auto

lemma bt_ok_insert: "bt_ok m \<Longrightarrow> bt_ok (bt_insert k v m)"
proof (induction k v m rule: bt_insert.induct)
  case (2 k v i w m)
  then show ?case using fst_bt_insert [of k v m] by (force simp: bt_ok_def)
qed (simp add: bt_ok_def)

lemma fst_bt_modify [simp]: "map fst (bt_modify k f m) = map fst m"
  by (simp add: bt_modify_def case_prod_unfold comp_def)

lemma bt_ok_modify [simp]: "bt_ok (bt_modify k f m) = bt_ok m"
  by (simp add: bt_ok_def)

lemma bt_ok_retain: "bt_ok m \<Longrightarrow> bt_ok (bt_retain keep m)"
  by (induction m) (auto simp: bt_ok_def bt_retain_def)

lemma bt_get_retain:
  "bt_ok m \<Longrightarrow> bt_get (bt_retain keep m) i =
     (case bt_get m i of None \<Rightarrow> None | Some v \<Rightarrow> if keep i v then Some v else None)"
proof (induction m)
  case Nil
  then show ?case by (simp add: bt_get_def bt_retain_def)
next
  case (Cons e m)
  obtain k v where e: "e = (k, v)" by force
  have "bt_ok m" using Cons.prems by (simp add: bt_ok_def)
  moreover have "i = k \<Longrightarrow> bt_get m i = None"
    using Cons.prems e by (force simp: bt_ok_def bt_get_def map_of_eq_None_iff)
  ultimately show ?case
    using Cons.IH e by (auto simp: bt_retain_def bt_get_Cons split: option.splits)
qed

interpretation btree: ordered_map bt_get bt_modify bt_insert bt_retain bt_ok
  by unfold_locales (auto simp: bt_get_insert bt_get_retain bt_ok_insert bt_ok_retain)

lemma bt_get_iff: "bt_ok m \<Longrightarrow> bt_get m k = Some v \<longleftrightarrow> (k, v) \<in> set m"
  by (auto simp: bt_ok_def bt_get_def strict_sorted_iff distinct_map intro: map_of_SomeD)

lemma bt_get_in: "bt_get m k = Some v \<Longrightarrow> (k, v) \<in> set m"
  by (simp add: bt_get_def map_of_SomeD)

section \<open>Time\<close>

type_synonym Instant = nat
type_synonym Duration = nat

definition secs :: "nat \<Rightarrow> Duration" where "secs n = n * 1000000000"
definition millis :: "nat \<Rightarrow> Duration" where "millis n = n * 1000000"
definition as_millis :: "Duration \<Rightarrow> nat" where "as_millis d = d div 1000000"

definition instant_end :: Instant where "instant_end = 2 ^ 64 * 1000000000"

definition checked_add :: "Instant \<Rightarrow> Duration \<Rightarrow> Instant option" where
  "checked_add i d = (if i + d < instant_end then Some (i + d) else None)"

definition checked_sub :: "Instant \<Rightarrow> Duration \<Rightarrow> Instant option" where
  "checked_sub i d = (if d \<le> i then Some (i - d) else None)"

definition saturating_duration_since :: "Instant \<Rightarrow> Instant \<Rightarrow> Duration" where
  "saturating_duration_since a b = a - b"

definition RETRY_OVERFLOW_FALLBACK :: Duration where
  "RETRY_OVERFLOW_FALLBACK = secs (100 * 365 * 24 * 60 * 60)"

definition deadline_after :: "Instant \<Rightarrow> Duration \<Rightarrow> Instant" where
  "deadline_after now delay =
     (case checked_add now delay of
        Some t \<Rightarrow> t
      | None \<Rightarrow> (case checked_add now RETRY_OVERFLOW_FALLBACK of Some t \<Rightarrow> t | None \<Rightarrow> now))"

text \<open>\<open>i64::try_from(duration.as_millis()).unwrap_or(i64::MAX)\<close>\<close>

definition millis_i64 :: "Duration \<Rightarrow> int" where
  "millis_i64 d = min (int (as_millis d)) i64_max"

definition clamp :: "int \<Rightarrow> int \<Rightarrow> int \<Rightarrow> int" where
  "clamp x lo hi = (if x < lo then lo else if hi < x then hi else x)"

definition deadline_from_wall :: "Instant \<Rightarrow> int \<Rightarrow> int \<Rightarrow> Duration \<Rightarrow> Instant" where
  "deadline_from_wall mono_now wall_now_ms deadline_ms bound =
     (let remaining_ms = nat (clamp (saturating_sub deadline_ms wall_now_ms) 0 (millis_i64 bound))
      in deadline_after mono_now (millis remaining_ms))"

definition past_instant_from_wall :: "Instant \<Rightarrow> int \<Rightarrow> int \<Rightarrow> Duration \<Rightarrow> Instant option" where
  "past_instant_from_wall mono_now wall_now_ms persisted_ms bound =
     (let age_ms = clamp (saturating_sub wall_now_ms persisted_ms) 0 (millis_i64 bound)
      in if millis_i64 bound \<le> age_ms then None
         else Some (case checked_sub mono_now (millis (nat age_ms)) of Some t \<Rightarrow> t | None \<Rightarrow> mono_now))"

definition wall_of_instant :: "Instant \<Rightarrow> int \<Rightarrow> Instant \<Rightarrow> int" where
  "wall_of_instant mono_now wall_now_ms instant =
     (let delta = (if mono_now \<le> instant then int (as_millis (instant - mono_now))
                   else - int (as_millis (mono_now - instant)))
      in min (max (wall_now_ms + delta) 0) i64_max)"

text \<open>One reading of the two clocks; the wall clock may be unreadable.\<close>

record Clock =
  clk_mono :: Instant
  clk_wall :: "int option"

subsection \<open>Constants\<close>

definition CONTROL_SETTINGS_REFRESH :: Duration where "CONTROL_SETTINGS_REFRESH = secs 5"
definition K_STREAM_DRAIN_CAP :: Duration where "K_STREAM_DRAIN_CAP = millis 100"
definition K_MAX_IDLE_WAIT :: Duration where "K_MAX_IDLE_WAIT = secs 60"
definition K_LOOP_FLOOR :: Duration where "K_LOOP_FLOOR = millis 100"
definition K_MAX_IN_FLIGHT :: nat where "K_MAX_IN_FLIGHT = 4"
definition K_CLOCK_DIVERGENCE :: Duration where "K_CLOCK_DIVERGENCE = secs 60"
definition SUPERVISED_COLLECTOR_HEARTBEAT_INTERVAL :: Duration where
  "SUPERVISED_COLLECTOR_HEARTBEAT_INTERVAL = secs 5"
definition K_GAP_MIN :: Duration where
  "K_GAP_MIN = SUPERVISED_COLLECTOR_HEARTBEAT_INTERVAL + K_CLOCK_DIVERGENCE"
definition K_RETRY_AFTER_MAX :: Duration where "K_RETRY_AFTER_MAX = secs 3600"
definition K_BILLING_PROBE :: Duration where "K_BILLING_PROBE = secs (6 * 60 * 60)"
definition K_PAUSE_PROBE :: Duration where "K_PAUSE_PROBE = secs (60 * 60)"
definition K_SERVICE_PROBE :: Duration where "K_SERVICE_PROBE = secs (15 * 60)"
definition K_BACKOFF_BASE :: Duration where "K_BACKOFF_BASE = secs 10"
definition K_DRIVE_FRAME_SILENCE :: Duration where "K_DRIVE_FRAME_SILENCE = secs 30"
definition SETTING_MIN_MINUTES :: int where "SETTING_MIN_MINUTES = 1"
definition SETTING_MAX_MINUTES :: int where "SETTING_MAX_MINUTES = 1440"
definition K_429_DEFAULT :: Duration where "K_429_DEFAULT = secs 60"
definition K_PAUSE_FAILURES :: nat where "K_PAUSE_FAILURES = 12"
definition K_PAUSE_MIN_AGE :: Duration where "K_PAUSE_MIN_AGE = secs (60 * 60)"
definition K_REMOVE_LISTS :: nat where "K_REMOVE_LISTS = 2"
definition K_WAKE_WATCH :: Duration where "K_WAKE_WATCH = secs (5 * 60)"
definition K_UPDATE_STALE :: Duration where "K_UPDATE_STALE = secs (2 * 60 * 60)"
definition K_STREAM_POWER_KW :: int where "K_STREAM_POWER_KW = 1"
definition K_STREAM_RESTART_BASE :: Duration where "K_STREAM_RESTART_BASE = secs 30"
definition K_STREAM_RESTART_MAX :: Duration where "K_STREAM_RESTART_MAX = secs 300"
definition FLEET_REFRESH_REQUEST_NOT_SENT_RETRY :: Duration where
  "FLEET_REFRESH_REQUEST_NOT_SENT_RETRY = secs (5 * 60)"

lemmas sched_consts [hub_consts] =
  CONTROL_SETTINGS_REFRESH_def K_STREAM_DRAIN_CAP_def K_MAX_IDLE_WAIT_def K_LOOP_FLOOR_def
  K_MAX_IN_FLIGHT_def K_CLOCK_DIVERGENCE_def SUPERVISED_COLLECTOR_HEARTBEAT_INTERVAL_def
  K_GAP_MIN_def K_RETRY_AFTER_MAX_def K_BILLING_PROBE_def K_PAUSE_PROBE_def K_SERVICE_PROBE_def
  K_BACKOFF_BASE_def K_DRIVE_FRAME_SILENCE_def SETTING_MIN_MINUTES_def SETTING_MAX_MINUTES_def
  K_429_DEFAULT_def K_PAUSE_FAILURES_def K_PAUSE_MIN_AGE_def K_REMOVE_LISTS_def K_WAKE_WATCH_def
  K_UPDATE_STALE_def K_STREAM_POWER_KW_def K_STREAM_RESTART_BASE_def K_STREAM_RESTART_MAX_def
  FLEET_REFRESH_REQUEST_NOT_SENT_RETRY_def

definition collection_sleep_cap :: "bool \<Rightarrow> Duration" where
  "collection_sleep_cap has_active_streams =
     (if has_active_streams then K_STREAM_DRAIN_CAP else CONTROL_SETTINGS_REFRESH)"

text \<open>\<open>u32::saturating_add\<close> of the failure counts.\<close>

definition u32_saturating_add :: "nat \<Rightarrow> nat \<Rightarrow> nat" where
  "u32_saturating_add a b = min (a + b) (2 ^ 32 - 1)"

section \<open>Jitter and back-off\<close>

text \<open>The generator is an xorshift64* of 64 bits of state, seeded by the operating system.\<close>

definition OsJitter_new :: "u64 \<Rightarrow> u64" where
  "OsJitter_new seed = seed OR 1"

definition jitter_next :: "u64 \<Rightarrow> u64" where
  "jitter_next x =
     (let x = x XOR drop_bit 12 x; x = x XOR push_bit 25 x; x = x XOR drop_bit 27 x in x)"

definition draw :: "u64 \<Rightarrow> f64 \<times> u64" where
  "draw state =
     (let x = jitter_next state; scrambled = x * 0x2545f4914f6cdd1d
      in (F_Fin (of_nat (unat (drop_bit 11 scrambled)) / 2 ^ 53), x))"

text \<open>
  \<open>Duration::mul_f64\<close>: through the number of seconds as a double, rounded to a whole nanosecond;
  \<open>None\<close> where the standard library panics.
\<close>

fun f64_add :: "f64 \<Rightarrow> f64 \<Rightarrow> f64" where
  "f64_add (F_Fin x) (F_Fin y) = f64_round (x + y)"
| "f64_add (F_Inf s) (F_Inf t) = (if s = t then F_Inf s else F_NaN)"
| "f64_add (F_Inf s) (F_Fin y) = F_Inf s"
| "f64_add (F_Fin x) (F_Inf t) = F_Inf t"
| "f64_add _ _ = F_NaN"

definition as_secs_f64 :: "Duration \<Rightarrow> f64" where
  "as_secs_f64 d = f64_add (f64_of_int (int (d div 1000000000)))
     (f64_div_by (f64_of_int (int (d mod 1000000000))) 1000000000)"

fun from_secs_f64 :: "f64 \<Rightarrow> Duration option" where
  "from_secs_f64 (F_Fin x) =
     (if 0 \<le> x \<and> x < 2 ^ 64 then Some (nat (round_half_even (x * 1000000000))) else None)"
| "from_secs_f64 _ = None"

definition mul_f64 :: "Duration \<Rightarrow> f64 \<Rightarrow> Duration option" where
  "mul_f64 d u = from_secs_f64 (f64_mult u (as_secs_f64 d))"

definition backoff_nominal :: "nat \<Rightarrow> Duration \<Rightarrow> Duration" where
  "backoff_nominal failures maximum = min (K_BACKOFF_BASE * 2 ^ min (failures - 1) 31) maximum"

definition backoff_delay :: "nat \<Rightarrow> Duration \<Rightarrow> f64 \<Rightarrow> Duration" where
  "backoff_delay failures maximum u =
     (let nominal = backoff_nominal failures maximum;
          u = (if f64_is_finite u then f64_clamp u 0 1 else F_Fin 0)
      in nominal div 2 + the (mul_f64 nominal u) div 2)"

text \<open>
  A whole number of seconds times a fraction never exceeds it, so a back-off whose maximum is a
  whole number of seconds (every configured one is) is between half and all of the nominal
  delay.
\<close>

lemma as_secs_f64_secs:
  assumes "n < 2 ^ 53"
  shows "as_secs_f64 (secs n) = F_Fin (of_nat n)"
proof -
  have z: "f64_round 0 = F_Fin 0" using f64_round_int [of 0] by simp
  have n: "f64_round (of_int (int n)) = F_Fin (of_int (int n))"
    using assms by (intro f64_round_int) auto
  show ?thesis using z n by (simp add: as_secs_f64_def secs_def f64_of_int_def)
qed

lemma mul_f64_whole:
  assumes n: "n < 2 ^ 53" and x: "0 \<le> x" "x \<le> 1"
  obtains d where "mul_f64 (secs n) (F_Fin x) = Some d" "d \<le> secs n"
proof -
  have "x * of_nat n \<le> of_int (int n)" using x mult_right_mono [of x 1 "of_nat n"] by simp
  moreover have "int n < 2 ^ 53" using n by simp
  ultimately obtain y where y: "f64_round (x * of_nat n) = F_Fin y" "0 \<le> y" "y \<le> of_int (int n)"
    using f64_round_bounds [of "x * of_nat n" "int n"] x by auto
  have "n < 2 ^ 64" using n by simp
  then have "rat_of_nat n < rat_of_nat (2 ^ 64)" by (simp only: of_nat_less_iff)
  then have "rat_of_nat n < 2 ^ 64" by (simp only: of_nat_power of_nat_numeral)
  then have y64: "y < 2 ^ 64" using y(3) by simp
  have "y * 1000000000 \<le> of_int (int (secs n))" using y(3) by (simp add: secs_def)
  then have r: "round_half_even (y * 1000000000) \<le> int (secs n)" by (rule round_half_even_le)
  show thesis
    using that [of "nat (round_half_even (y * 1000000000))"] y y64 r
    by (simp add: mul_f64_def as_secs_f64_secs [OF n] nat_le_iff)
qed

lemma backoff_nominal_whole:
  "backoff_nominal failures (secs m) = secs (min (10 * 2 ^ min (failures - 1) 31) m)"
  by (simp add: backoff_nominal_def K_BACKOFF_BASE_def secs_def min_mult_distrib_right)

lemma backoff_delay_between:
  assumes "m < 2 ^ 53"
  shows "backoff_nominal failures (secs m) div 2 \<le> backoff_delay failures (secs m) u"
    and "backoff_delay failures (secs m) u \<le> backoff_nominal failures (secs m)"
proof -
  define n where "n = min (10 * 2 ^ min (failures - 1) 31) m"
  define v where "v = (if f64_is_finite u then f64_clamp u 0 1 else F_Fin 0)"
  obtain x where x: "v = F_Fin x" "0 \<le> x" "x \<le> 1"
    by (cases u) (auto simp: v_def)
  have "n < 2 ^ 53" using assms by (simp add: n_def min_less_iff_disj)
  then obtain d where d: "mul_f64 (secs n) v = Some d" "d \<le> secs n"
    using mul_f64_whole [of n x] x by auto
  have e: "backoff_delay failures (secs m) u = secs n div 2 + d div 2"
    using d(1) by (simp add: backoff_delay_def backoff_nominal_whole Let_def n_def v_def)
  show "backoff_nominal failures (secs m) div 2 \<le> backoff_delay failures (secs m) u"
    by (simp add: e backoff_nominal_whole n_def)
  show "backoff_delay failures (secs m) u \<le> backoff_nominal failures (secs m)"
    using d(2) unfolding e backoff_nominal_whole n_def [symmetric] by simp
qed

lemma backoff_delay_pos:
  assumes "m < 2 ^ 53" "0 < m"
  shows "0 < backoff_delay failures (secs m) u"
proof -
  have "2 \<le> secs (min (10 * 2 ^ min (failures - 1) 31) m)"
    using assms(2) by (simp add: secs_def Suc_le_eq)
  then have "0 < backoff_nominal failures (secs m) div 2" unfolding backoff_nominal_whole by simp
  then show ?thesis using backoff_delay_between(1) [OF assms(1)] by (rule less_le_trans)
qed

section \<open>Deadlines\<close>

lemma deadline_after_ge: "now \<le> deadline_after now delay"
  by (simp add: deadline_after_def checked_add_def split: option.splits)

lemma deadline_after_le: "deadline_after now delay \<le> now + max delay RETRY_OVERFLOW_FALLBACK"
  by (simp add: deadline_after_def checked_add_def split: option.splits)

lemma deadline_after_exact: "now + delay < instant_end \<Longrightarrow> deadline_after now delay = now + delay"
  by (simp add: deadline_after_def checked_add_def)

end
