(* ===== verification/Sched_Types.thy ===== *)
theory Sched_Types
  imports Sched_Time
begin

text \<open>
  The vocabulary and the records of the collection scheduler: the phases and holds of a car,
  the states and waits of the account, the cadence tables, the record of a car, of the
  account, the views that are stored, and the scheduler itself.

  \<^item> A \<open>&'static str\<close> reason code and Tesla's state text are strings; \<open>Uuid\<close> and \<open>VehicleId\<close>
    are numbers.
  \<^item> \<open>Vehicle::settings\<close> has all settings of the owner; the scheduler reads the clamped view.
  \<^item> The write guard of a run is not part of the state: it decides no scheduling.
\<close>

type_synonym VehicleId = nat

section \<open>Vocabulary\<close>

datatype PollPhase =
    Phase_Unknown | Phase_Asleep | Phase_Offline | Phase_Online | Phase_Suspended
  | Phase_Driving | Phase_Charging | Phase_Updating

fun phase_code :: "PollPhase \<Rightarrow> string" where
  "phase_code Phase_Unknown = ''unknown''"
| "phase_code Phase_Asleep = ''asleep''"
| "phase_code Phase_Offline = ''offline''"
| "phase_code Phase_Online = ''online''"
| "phase_code Phase_Suspended = ''suspended''"
| "phase_code Phase_Driving = ''driving''"
| "phase_code Phase_Charging = ''charging''"
| "phase_code Phase_Updating = ''updating''"

definition is_session :: "PollPhase \<Rightarrow> bool" where
  "is_session p \<longleftrightarrow> p = Phase_Driving \<or> p = Phase_Charging \<or> p = Phase_Updating"

definition is_read_phase :: "PollPhase \<Rightarrow> bool" where
  "is_read_phase p \<longleftrightarrow> p = Phase_Online \<or> is_session p"

datatype PauseReason =
    Pause_PersistentFailure | Pause_MobileAccessDisabled | Pause_LegalPrivacy | Pause_AccessRefused

datatype VehicleHold = Hold_None | Hold_Disabled | Hold_Service | Hold_Paused PauseReason | Hold_Removed

fun hold_code :: "VehicleHold \<Rightarrow> string" where
  "hold_code Hold_None = ''none''"
| "hold_code Hold_Disabled = ''disabled''"
| "hold_code Hold_Service = ''service''"
| "hold_code (Hold_Paused _) = ''paused''"
| "hold_code Hold_Removed = ''removed''"

definition is_paused :: "VehicleHold \<Rightarrow> bool" where
  "is_paused h \<longleftrightarrow> (case h of Hold_Paused _ \<Rightarrow> True | _ \<Rightarrow> False)"

datatype AccountState =
    Acc_Collecting | Acc_OwnerApiRefused | Acc_ProviderRefused | Acc_FleetAccessRefused
  | Acc_BillingSuspended | Acc_CapReached | Acc_ConfigError | Acc_AccountLocked | Acc_CredentialStop

fun account_code :: "AccountState \<Rightarrow> string" where
  "account_code Acc_Collecting = ''collecting''"
| "account_code Acc_OwnerApiRefused = ''owner_api_refused''"
| "account_code Acc_ProviderRefused = ''provider_refused''"
| "account_code Acc_FleetAccessRefused = ''fleet_access_refused''"
| "account_code Acc_BillingSuspended = ''billing_suspended''"
| "account_code Acc_CapReached = ''cap_reached''"
| "account_code Acc_ConfigError = ''config_error''"
| "account_code Acc_AccountLocked = ''account_locked''"
| "account_code Acc_CredentialStop = ''credential_stop''"

datatype WaitReason = Wait_RateLimited | Wait_TeslaUnreachable | Wait_AuthWait | Wait_Store

datatype ErrorClass =
    EC_Auth | EC_AuthWait | EC_CredentialStop | EC_Unavailable | EC_RateLimited | EC_Unreachable
  | EC_Transient | EC_Protocol | EC_NotFound | EC_InService | EC_OwnerApiRefusal
  | EC_ProviderRefusal | EC_FleetAccess | EC_AccessRefused | EC_Billing | EC_Config | EC_Locked
  | EC_MobileAccessDisabled | EC_LegalPrivacy | EC_ClientError | EC_GateNotConfirmed

datatype ProbeKind = Probe_ServiceRecord | Probe_Read

datatype RequestKind = Kind_List | Kind_Record | Kind_Read | Kind_Probe

datatype OwnerActionKind = Action_RetryCollection | Action_ResumeVehicle

record OwnerActionRow =
  act_id :: int
  act_kind :: OwnerActionKind
  act_vehicle :: "uuid option"

record CollectorActionRecord =
  rec_action_id :: int
  rec_action :: string
  rec_vehicle_id :: "uuid option"
  rec_requested_at_ms :: int

definition action_from_record :: "CollectorActionRecord \<Rightarrow> OwnerActionRow option" where
  "action_from_record r =
     map_option (\<lambda>kind. \<lparr>act_id = rec_action_id r, act_kind = kind, act_vehicle = rec_vehicle_id r\<rparr>)
       (if rec_action r = ''retry_collection'' then Some Action_RetryCollection
        else if rec_action r = ''resume_vehicle'' then Some Action_ResumeVehicle
        else None)"

datatype ClockEvent = HostSuspended int int | WallClockSteppedBack

record LifecycleView =
  lc_last_reach :: "string option"
  lc_drive_open :: bool

record StreamView =
  st_connected :: bool
  st_last_frame :: "Instant option"
  st_outage_reported :: bool
  st_task_failures :: nat
  st_restart_not_before :: "Instant option"
  st_outage_started :: "Instant option"
  st_outage_failures :: nat
  st_audit_failed :: bool

definition StreamView_default :: StreamView where
  "StreamView_default = \<lparr>st_connected = False, st_last_frame = None, st_outage_reported = False,
     st_task_failures = 0, st_restart_not_before = None, st_outage_started = None,
     st_outage_failures = 0, st_audit_failed = False\<rparr>"

datatype GatedEvidence = Gated_Motion | Gated_Power

section \<open>Settings and identity\<close>

record ProjectionCarSettings =
  cs_enabled :: bool
  cs_use_streaming_api :: bool
  cs_suspend_after_idle_min :: int
  cs_suspend_min :: int
  cs_suspend_min_resolved :: bool
  cs_req_not_unlocked :: bool
  cs_free_supercharging :: bool
  cs_lfp_battery :: bool

record EffectiveSettings =
  es_enabled :: bool
  es_use_streaming_api :: bool
  es_suspend_after_idle :: Duration
  es_suspend :: Duration
  es_req_not_unlocked :: bool

definition setting_minutes :: "int \<Rightarrow> Duration" where
  "setting_minutes value =
     secs (nat (clamp value SETTING_MIN_MINUTES SETTING_MAX_MINUTES) * 60)"

definition settings_from_car :: "ProjectionCarSettings \<Rightarrow> EffectiveSettings" where
  "settings_from_car c = \<lparr>es_enabled = cs_enabled c, es_use_streaming_api = cs_use_streaming_api c,
     es_suspend_after_idle = setting_minutes (cs_suspend_after_idle_min c),
     es_suspend = setting_minutes (cs_suspend_min c), es_req_not_unlocked = cs_req_not_unlocked c\<rparr>"

record Vehicle =
  vh_id :: VehicleId
  vh_stream_id :: nat
  vh_vin :: string
  vh_state :: string
  vh_display_name :: "string option"
  vh_settings :: ProjectionCarSettings

text \<open>Both id types accept the positive numbers of their range.\<close>

definition id_try_from_i64 :: "int \<Rightarrow> nat option" where
  "id_try_from_i64 value = (if 0 < value then Some (nat value) else None)"

section \<open>Timing\<close>

record CollectorCadence =
  cad_driving :: Duration
  cad_driving_stream :: Duration
  cad_charging :: Duration
  cad_online :: Duration
  cad_sleeping :: Duration
  cad_offline_drive_timeout :: Duration
  cad_suspended :: Duration
  cad_updating :: Duration
  cad_inventory :: Duration
  cad_stream_health_timeout :: Duration
  cad_maximum_backoff :: Duration

record Timing =
  tm_driving :: Duration
  tm_driving_stream :: "Duration option"
  tm_charging :: Duration
  tm_online :: Duration
  tm_updating :: Duration
  tm_state_suspended :: Duration
  tm_state_other :: Duration
  tm_inventory :: Duration
  tm_max_backoff :: Duration
  tm_min_read_spacing :: Duration
  tm_offline_drive_timeout :: Duration

definition is_owner_wire :: "CollectorMode \<Rightarrow> bool" where
  "is_owner_wire m \<longleftrightarrow> m = CM_Legacy \<or> m = CM_Provider"

definition Timing_new :: "CollectorCadence \<Rightarrow> CollectorMode \<Rightarrow> FleetPolicy \<Rightarrow> Timing" where
  "Timing_new cadence m fleet =
     (let timing =
        (if is_owner_wire m
         then \<lparr>tm_driving = cad_driving cadence, tm_driving_stream = Some (cad_driving_stream cadence),
               tm_charging = cad_charging cadence, tm_online = cad_online cadence,
               tm_updating = cad_updating cadence, tm_state_suspended = cad_suspended cadence,
               tm_state_other = cad_sleeping cadence, tm_inventory = cad_inventory cadence,
               tm_max_backoff = cad_maximum_backoff cadence, tm_min_read_spacing = 0,
               tm_offline_drive_timeout = cad_offline_drive_timeout cadence\<rparr>
         else let i = intervals fleet in
              \<lparr>tm_driving = driving i, tm_driving_stream = None, tm_charging = charging i,
               tm_online = online i, tm_updating = updating i, tm_state_suspended = state_check i,
               tm_state_other = state_check i, tm_inventory = inventory i,
               tm_max_backoff = cad_maximum_backoff cadence, tm_min_read_spacing = 0,
               tm_offline_drive_timeout = cad_offline_drive_timeout cadence\<rparr>)
      in timing\<lparr>tm_min_read_spacing :=
           min (tm_driving timing)
             (case tm_driving_stream timing of Some d \<Rightarrow> d | None \<Rightarrow> tm_driving timing)\<rparr>)"

fun read_interval :: "Timing \<Rightarrow> PollPhase \<Rightarrow> bool \<Rightarrow> Duration option" where
  "read_interval t Phase_Driving stream_healthy =
     Some (case (stream_healthy, tm_driving_stream t) of
             (True, Some interval) \<Rightarrow> interval | _ \<Rightarrow> tm_driving t)"
| "read_interval t Phase_Charging _ = Some (tm_charging t)"
| "read_interval t Phase_Updating _ = Some (tm_updating t)"
| "read_interval t Phase_Online _ = Some (tm_online t)"
| "read_interval t _ _ = None"

definition state_interval :: "Timing \<Rightarrow> PollPhase \<Rightarrow> Duration" where
  "state_interval t p = (if p = Phase_Suspended then tm_state_suspended t else tm_state_other t)"

section \<open>Records\<close>

record ScheduledVehicle =
  v_vehicle :: Vehicle
  v_hub_id :: "uuid option"
  v_settings :: EffectiveSettings
  v_phase :: PollPhase
  v_phase_since :: "Instant \<times> int"
  v_hold :: VehicleHold
  v_reason :: string
  v_reported_state :: "string option"
  v_next_read_due :: "Instant option"
  v_next_check_due :: "Instant option"
  v_next_probe_due :: "Instant option"
  v_suspend_at :: "Instant option"
  v_suspended_until :: "Instant option"
  v_last_in_use :: "Instant option"
  v_last_read :: "Instant option"
  v_last_wake_read :: "Instant option"
  v_last_success :: "(Instant \<times> int) option"
  v_offline_from_session :: bool
  v_consecutive_failures :: nat
  v_first_failure :: "Instant option"
  v_last_error :: "ErrorClass option"
  v_stream :: StreamView
  v_missing_lists :: nat
  v_missing_last :: "Instant option"
  v_not_found_check :: bool
  v_lifecycle :: "LifecycleView option"
  v_lifecycle_stale :: bool
  v_last_stored_obs_ms :: "int option"
  v_force_closed_at_gap :: bool
  v_current_discovery :: "string option option"
  v_in_flight :: bool
  v_placeholder :: bool
  v_gated_read :: "GatedEvidence option"
  v_wake_read_pending :: bool
  v_suspension_read :: bool
  v_last_power_trigger :: "Instant option"
  v_stream_wanted :: bool
  v_unavailable_check :: bool

record AccountRecord =
  a_state :: AccountState
  a_state_reason :: string
  a_state_since_ms :: int
  a_wait :: "(Instant \<times> WaitReason) option"
  a_consecutive_429 :: nat
  a_consecutive_unreachable :: nat
  a_auth_failures :: nat
  a_store_failures :: nat
  a_discovery_failures :: nat
  a_last_discovery :: "Instant option"
  a_list_floor :: "Instant option"
  a_list_wanted :: "Instant option"
  a_next_billing_probe :: "Instant option"
  a_probe_time_of_the_tick :: "Instant option"
  a_reservation_commits :: nat
  a_telemetry_check_due :: bool

definition AccountRecord_new :: "int \<Rightarrow> AccountRecord" where
  "AccountRecord_new wall_ms = \<lparr>a_state = Acc_Collecting, a_state_reason = ''collecting'',
     a_state_since_ms = wall_ms, a_wait = None, a_consecutive_429 = 0, a_consecutive_unreachable = 0,
     a_auth_failures = 0, a_store_failures = 0, a_discovery_failures = 0, a_last_discovery = None,
     a_list_floor = None, a_list_wanted = None, a_next_billing_probe = None,
     a_probe_time_of_the_tick = None, a_reservation_commits = 0, a_telemetry_check_due = False\<rparr>"

section \<open>Durable state\<close>

datatype GapKind =
    Gap_HostSuspended | Gap_RateLimited | Gap_TeslaUnreachable | Gap_VehiclePaused
  | Gap_AuthTerminal | Gap_OwnerApiRefused | Gap_ProviderRefused | Gap_FleetAccessRefused
  | Gap_BillingSuspended | Gap_CapReached | Gap_ConfigError | Gap_AccountLocked

fun gap_code :: "GapKind \<Rightarrow> string" where
  "gap_code Gap_HostSuspended = ''host_suspended''"
| "gap_code Gap_RateLimited = ''rate_limited''"
| "gap_code Gap_TeslaUnreachable = ''tesla_unreachable''"
| "gap_code Gap_VehiclePaused = ''vehicle_paused''"
| "gap_code Gap_AuthTerminal = ''auth_terminal''"
| "gap_code Gap_OwnerApiRefused = ''owner_api_refused''"
| "gap_code Gap_ProviderRefused = ''provider_refused''"
| "gap_code Gap_FleetAccessRefused = ''fleet_access_refused''"
| "gap_code Gap_BillingSuspended = ''billing_suspended''"
| "gap_code Gap_CapReached = ''cap_reached''"
| "gap_code Gap_ConfigError = ''config_error''"
| "gap_code Gap_AccountLocked = ''account_locked''"

fun gap_of_account_state :: "AccountState \<Rightarrow> GapKind option" where
  "gap_of_account_state Acc_Collecting = None"
| "gap_of_account_state Acc_OwnerApiRefused = Some Gap_OwnerApiRefused"
| "gap_of_account_state Acc_ProviderRefused = Some Gap_ProviderRefused"
| "gap_of_account_state Acc_FleetAccessRefused = Some Gap_FleetAccessRefused"
| "gap_of_account_state Acc_BillingSuspended = Some Gap_BillingSuspended"
| "gap_of_account_state Acc_CapReached = Some Gap_CapReached"
| "gap_of_account_state Acc_ConfigError = Some Gap_ConfigError"
| "gap_of_account_state Acc_AccountLocked = Some Gap_AccountLocked"
| "gap_of_account_state Acc_CredentialStop = Some Gap_AuthTerminal"

text \<open>The derived order of the kinds is the order of their declaration.\<close>

fun gap_rank :: "GapKind \<Rightarrow> nat" where
  "gap_rank Gap_HostSuspended = 0"
| "gap_rank Gap_RateLimited = 1"
| "gap_rank Gap_TeslaUnreachable = 2"
| "gap_rank Gap_VehiclePaused = 3"
| "gap_rank Gap_AuthTerminal = 4"
| "gap_rank Gap_OwnerApiRefused = 5"
| "gap_rank Gap_ProviderRefused = 6"
| "gap_rank Gap_FleetAccessRefused = 7"
| "gap_rank Gap_BillingSuspended = 8"
| "gap_rank Gap_CapReached = 9"
| "gap_rank Gap_ConfigError = 10"
| "gap_rank Gap_AccountLocked = 11"

lemma gap_rank_inj: "gap_rank a = gap_rank b \<Longrightarrow> a = b"
  by (cases a; cases b; simp)

instantiation GapKind :: linorder
begin

definition less_eq_GapKind :: "GapKind \<Rightarrow> GapKind \<Rightarrow> bool" where
  "a \<le> b \<longleftrightarrow> gap_rank a \<le> gap_rank b"

definition less_GapKind :: "GapKind \<Rightarrow> GapKind \<Rightarrow> bool" where
  "a < b \<longleftrightarrow> gap_rank a < gap_rank b"

instance
  by standard (auto simp: less_eq_GapKind_def less_GapKind_def intro: gap_rank_inj)

end

text \<open>The key of a gap: its kind, and the car it is about or \<open>None\<close> for every car.\<close>

type_synonym GapKey = "GapKind \<times> VehicleId option"

record GapRecord =
  gr_kind :: GapKind
  gr_vehicle :: "VehicleId option"
  gr_started_ms :: int
  gr_ended_ms :: "int option"
  gr_alert :: bool

record OpenGap =
  og_started_ms :: int
  og_alert :: bool
  og_hub_id :: "uuid option"

record AccountView =
  av_state :: AccountState
  av_reason :: string
  av_since_ms :: int
  av_rate_limited_until :: "Instant option"
  av_next_probe :: "Instant option"

record VehicleView =
  vv_phase :: PollPhase
  vv_hold :: VehicleHold
  vv_reason :: string
  vv_phase_since_ms :: int
  vv_suspended_until :: "Instant option"
  vv_next_probe :: "Instant option"
  vv_last_wake_read :: "Instant option"

record CollectorAccountRow =
  car_mode :: string
  car_config_fingerprint :: string
  car_state :: string
  car_reason_code :: string
  car_since_ms :: int
  car_rate_limited_until_ms :: "int option"
  car_next_probe_ms :: "int option"

record CollectorVehicleRow =
  cvr_vehicle_id :: uuid
  cvr_phase :: string
  cvr_hold :: string
  cvr_reason_code :: string
  cvr_phase_since_ms :: int
  cvr_suspended_until_ms :: "int option"
  cvr_next_probe_ms :: "int option"
  cvr_last_wake_read_at_ms :: "int option"

record CollectionGapRecord =
  cg_vehicle_id :: "uuid option"
  cg_kind :: string
  cg_started_at_ms :: int
  cg_ended_at_ms :: "int option"
  cg_alert :: bool
  cg_notified_at_ms :: "int option"

record AccountWrite =
  aw_view :: AccountView
  aw_row :: CollectorAccountRow

record VehicleWrite =
  vw_id :: VehicleId
  vw_view :: VehicleView
  vw_row :: CollectorVehicleRow

record GapOpen =
  go_key :: GapKey
  go_hub_id :: "uuid option"
  go_started_ms :: int
  go_alert :: bool

record GapClose =
  gc_key :: GapKey
  gc_hub_id :: "uuid option"
  gc_ended_ms :: int
  gc_alert_at_or_over_ms :: int

record PendingTick =
  pt_gaps :: "GapRecord list"
  pt_account :: "AccountWrite option"
  pt_vehicles :: "VehicleWrite list"
  pt_gap_opens :: "GapOpen list"
  pt_gap_closes :: "GapClose list"
  pt_counters :: "CollectorCounterRow list"
  pt_applied_actions :: "int list"

definition PendingTick_default :: PendingTick where
  "PendingTick_default = \<lparr>pt_gaps = [], pt_account = None, pt_vehicles = [], pt_gap_opens = [],
     pt_gap_closes = [], pt_counters = [], pt_applied_actions = []\<rparr>"

definition tick_is_empty :: "PendingTick \<Rightarrow> bool" where
  "tick_is_empty t \<longleftrightarrow> pt_gaps t = [] \<and> pt_account t = None \<and> pt_vehicles t = []
     \<and> pt_gap_opens t = [] \<and> pt_gap_closes t = [] \<and> pt_counters t = [] \<and> pt_applied_actions t = []"

record RestoredVehicle =
  rv_tesla_id :: VehicleId
  rv_row :: CollectorVehicleRow
  rv_suspend :: Duration

record CollectorStateSnapshot =
  sn_account :: "CollectorAccountRow option"
  sn_vehicles :: "RestoredVehicle list"
  sn_counters :: "CollectorCounterRow list"
  sn_open_gaps :: "CollectionGapRecord list"
  sn_vehicle_ids :: "(uuid, VehicleId) btree"
  sn_config_fingerprint :: string

record VehicleBaseline =
  vb_state :: string
  vb_phase :: PollPhase
  vb_phase_since :: "Instant \<times> int"
  vb_hold :: VehicleHold
  vb_reason :: string
  vb_reported_state :: "string option"
  vb_next_read_due :: "Instant option"
  vb_next_check_due :: "Instant option"
  vb_next_probe_due :: "Instant option"
  vb_suspend_at :: "Instant option"
  vb_suspended_until :: "Instant option"
  vb_last_in_use :: "Instant option"
  vb_last_success :: "(Instant \<times> int) option"
  vb_offline_from_session :: bool
  vb_consecutive_failures :: nat
  vb_first_failure :: "Instant option"
  vb_last_error :: "ErrorClass option"
  vb_missing_lists :: nat
  vb_missing_last :: "Instant option"
  vb_not_found_check :: bool
  vb_placeholder :: bool

record AccountBaseline =
  ab_state :: AccountState
  ab_state_reason :: string
  ab_state_since_ms :: int
  ab_last_discovery :: "Instant option"
  ab_list_floor :: "Instant option"
  ab_list_wanted :: "Instant option"
  ab_discovery_failures :: nat
  ab_next_billing_probe :: "Instant option"
  ab_telemetry_check_due :: bool

record TickBaseline =
  tb_vehicles :: "(VehicleId, VehicleBaseline) btree"
  tb_account :: AccountBaseline

section \<open>The scheduler\<close>

record VehicleScheduler =
  s_mode :: CollectorMode
  s_timing :: Timing
  s_clock :: Clock
  s_jitter :: u64
  s_vehicles :: "(VehicleId, ScheduledVehicle) btree"
  s_account :: AccountRecord
  s_created_at :: Instant
  s_clock_watch :: "Instant \<times> int"
  s_ledger :: LedgerState
  s_pending :: PendingTick
  s_persisted_account :: AccountView
  s_persisted_vehicles :: "(VehicleId, VehicleView) btree"
  s_open_gaps :: "(GapKey, OpenGap) btree"
  s_gap_episodes :: "(GapKind, Instant \<times> int) btree"
  s_config_fingerprint :: string
  s_restored :: "(VehicleId, RestoredVehicle) btree"
  s_baseline :: "TickBaseline option"
  s_alert_gaps_unnotified :: nat
  s_stream_delivery :: bool
  s_gate_revocations :: "VehicleId set"

end
