(* ===== verification/Sched_Car.thy ===== *)
theory Sched_Car
  imports Sched_Types
begin

text \<open>
  The rules of one car: its timers, the change of its phase, what a reported state, a
  suspension, a hold, a stream frame or a stored row do to its record
  (\<open>scheduler.rs\<close>, \<open>scheduler_sleep.rs\<close>, \<open>scheduler_holds.rs\<close>, \<open>scheduler_state.rs\<close>). The decision
  log is not modelled, so the flag that only the log carries (\<open>gated\<close>) is left out.
\<close>

section \<open>The record of a car\<close>

definition ScheduledVehicle_new :: "Vehicle \<Rightarrow> Instant \<Rightarrow> int \<Rightarrow> ScheduledVehicle" where
  "ScheduledVehicle_new vehicle now wall_ms =
     (let settings = settings_from_car (vh_settings vehicle) in
      \<lparr>v_vehicle = vehicle, v_hub_id = None, v_settings = settings, v_phase = Phase_Unknown,
       v_phase_since = (now, wall_ms),
       v_hold = (if es_enabled settings then Hold_None else Hold_Disabled),
       v_reason = (if es_enabled settings then ''collecting'' else ''vehicle_disabled''),
       v_reported_state = None, v_next_read_due = None, v_next_check_due = None,
       v_next_probe_due = None, v_suspend_at = None, v_suspended_until = None,
       v_last_in_use = None, v_last_read = None, v_last_wake_read = None, v_last_success = None,
       v_offline_from_session = False, v_consecutive_failures = 0, v_first_failure = None,
       v_last_error = None, v_stream = StreamView_default, v_missing_lists = 0,
       v_missing_last = None, v_not_found_check = False, v_lifecycle = None,
       v_lifecycle_stale = True, v_last_stored_obs_ms = None, v_force_closed_at_gap = False,
       v_current_discovery = None, v_in_flight = False, v_placeholder = False,
       v_gated_read = None, v_wake_read_pending = False, v_suspension_read = False,
       v_last_power_trigger = None, v_stream_wanted = False, v_unavailable_check = False\<rparr>)"

definition configured_only ::
  "VehicleId \<Rightarrow> uuid \<Rightarrow> ProjectionCarSettings \<Rightarrow> Instant \<Rightarrow> int \<Rightarrow> ScheduledVehicle option" where
  "configured_only car_id hub_id settings now wall_ms =
     (if i64_max < int car_id then None
      else Option.bind (id_try_from_i64 (int car_id)) (\<lambda>stream_id.
        Some ((ScheduledVehicle_new
                 \<lparr>vh_id = car_id, vh_stream_id = stream_id, vh_vin = [], vh_state = ''unknown'',
                  vh_display_name = None, vh_settings = settings\<rparr> now wall_ms)
              \<lparr>v_hub_id := Some hub_id, v_placeholder := True\<rparr>)))"

definition is_inactive :: "ScheduledVehicle \<Rightarrow> bool" where
  "is_inactive v \<longleftrightarrow> v_hold v = Hold_Disabled \<or> v_hold v = Hold_Removed"

definition stream_healthy_for_cadence :: "ScheduledVehicle \<Rightarrow> Instant \<Rightarrow> bool" where
  "stream_healthy_for_cadence v now \<longleftrightarrow>
     st_connected (v_stream v) \<and>
     (v_phase v \<noteq> Phase_Driving \<or>
      (case st_last_frame (v_stream v) of None \<Rightarrow> False
       | Some frame \<Rightarrow> saturating_duration_since now frame < K_DRIVE_FRAME_SILENCE))"

definition car_interval :: "ScheduledVehicle \<Rightarrow> Timing \<Rightarrow> Instant \<Rightarrow> Duration" where
  "car_interval v timing now =
     (case read_interval timing (v_phase v) (stream_healthy_for_cadence v now) of
        Some d \<Rightarrow> d | None \<Rightarrow> state_interval timing (v_phase v))"

definition needs_state_check :: "ScheduledVehicle \<Rightarrow> bool" where
  "needs_state_check v \<longleftrightarrow>
     (case v_hold v of
        Hold_Disabled \<Rightarrow> False
      | Hold_Removed \<Rightarrow> False
      | Hold_Service \<Rightarrow> \<not> v_placeholder v
      | Hold_Paused _ \<Rightarrow> \<not> v_placeholder v
      | Hold_None \<Rightarrow> \<not> v_placeholder v \<and> \<not> is_read_phase (v_phase v))"

text \<open>The earliest of the instants that are there.\<close>

definition earliest :: "Instant option list \<Rightarrow> Instant option" where
  "earliest xs = (case List.map_filter id xs of [] \<Rightarrow> None | y # ys \<Rightarrow> Some (foldl min y ys))"

definition next_due :: "ScheduledVehicle \<Rightarrow> Instant option" where
  "next_due v = earliest [v_next_read_due v, v_next_check_due v, v_next_probe_due v,
     v_suspend_at v, v_suspended_until v]"

section \<open>Phases\<close>

definition enter_phase ::
  "Timing \<Rightarrow> ScheduledVehicle \<Rightarrow> PollPhase \<Rightarrow> Instant \<Rightarrow> int \<Rightarrow> string \<Rightarrow> ScheduledVehicle" where
  "enter_phase timing v new now wall_ms reason =
     (if v_phase v = new then v
      else
        let v = v\<lparr>v_phase := new, v_phase_since := (now, wall_ms), v_reason := reason\<rparr>;
            v = (if new \<in> {Phase_Asleep, Phase_Offline, Phase_Suspended}
                 then v\<lparr>v_next_read_due := None\<rparr> else v);
            v = (if new \<noteq> Phase_Online then v\<lparr>v_suspend_at := None\<rparr> else v);
            v = (if new \<noteq> Phase_Suspended then v\<lparr>v_suspended_until := None\<rparr> else v)
        in (case (v_next_read_due v, read_interval timing new (stream_healthy_for_cadence v now)) of
              (Some due, Some interval) \<Rightarrow>
                v\<lparr>v_next_read_due := Some (min due (deadline_after now interval))\<rparr>
            | _ \<Rightarrow> v))"

definition clear_pending_reads :: "ScheduledVehicle \<Rightarrow> ScheduledVehicle" where
  "clear_pending_reads v = v\<lparr>v_next_read_due := None, v_wake_read_pending := False,
     v_gated_read := None, v_suspension_read := False\<rparr>"

definition begin_suspension ::
  "Timing \<Rightarrow> ScheduledVehicle \<Rightarrow> Instant \<Rightarrow> int \<Rightarrow> Instant \<Rightarrow> string \<Rightarrow> ScheduledVehicle" where
  "begin_suspension timing v now wall_ms until reason =
     (enter_phase timing v Phase_Suspended now wall_ms reason)
       \<lparr>v_suspended_until := Some until, v_suspend_at := None, v_next_read_due := None,
        v_gated_read := None\<rparr>"

text \<open>The result says whether the stream power gate of the car must be revoked.\<close>

definition online_after_sleep ::
  "Timing \<Rightarrow> ScheduledVehicle \<Rightarrow> Instant \<Rightarrow> int \<Rightarrow> bool \<times> ScheduledVehicle" where
  "online_after_sleep timing v now wall_ms =
     (if v_phase v = Phase_Offline \<and> v_offline_from_session v
      then (False, v\<lparr>v_next_read_due := Some now, v_reason := ''session_return''\<rparr>)
      else
        let suspend = es_suspend (v_settings v);
            allowed = (case v_last_wake_read v of None \<Rightarrow> True
              | Some prev \<Rightarrow> suspend \<le> saturating_duration_since now prev)
        in if allowed
           then (False, v\<lparr>v_last_wake_read := Some now, v_wake_read_pending := True,
                          v_next_read_due := Some now, v_reason := ''wake_read''\<rparr>)
           else (True, begin_suspension timing v now wall_ms
                  (case v_last_wake_read v of None \<Rightarrow> now | Some prev \<Rightarrow> deadline_after prev suspend)
                  ''wake_read_limited''))"

definition apply_reported_state ::
  "Timing \<Rightarrow> ScheduledVehicle \<Rightarrow> string \<Rightarrow> Instant \<Rightarrow> int \<Rightarrow> bool \<times> ScheduledVehicle" where
  "apply_reported_state timing v state now wall_ms =
     (let previously_online = v_reported_state v = Some ''online'';
          v = (if state = ''online''
                  \<and> (case v_hold v of Hold_Paused reason \<Rightarrow> reason \<noteq> Pause_AccessRefused | _ \<Rightarrow> False)
                  \<and> (case v_reported_state v of None \<Rightarrow> False | Some earlier \<Rightarrow> earlier \<noteq> ''online'')
               then v\<lparr>v_next_probe_due := Some now\<rparr> else v);
          v = v\<lparr>v_vehicle := (v_vehicle v)\<lparr>vh_state := state\<rparr>, v_reported_state := Some state\<rparr>
      in if is_inactive v then (False, v)
         else if state = ''asleep''
         then (False, clear_pending_reads (enter_phase timing v Phase_Asleep now wall_ms ''reported_asleep''))
         else if state = ''offline''
         then (if v_phase v = Phase_Updating \<or> v_phase v = Phase_Offline then (False, v)
               else
                 let v = (if v_phase v = Phase_Driving \<or> v_phase v = Phase_Charging
                          then v\<lparr>v_offline_from_session := True\<rparr> else v)
                 in (False, clear_pending_reads
                       (enter_phase timing v Phase_Offline now wall_ms ''reported_offline'')))
         else if state = ''online''
         then (if v_phase v = Phase_Unknown \<and> v_hold v = Hold_None \<and> \<not> v_in_flight v
                  \<and> v_next_read_due v = None
               then (False, v\<lparr>v_next_read_due := Some now, v_reason := ''first_contact_read''\<rparr>)
               else if \<not> previously_online \<and> v_hold v = Hold_None \<and> \<not> v_in_flight v
                  \<and> (v_phase v = Phase_Asleep \<or> v_phase v = Phase_Offline)
               then online_after_sleep timing v now wall_ms
               else (False, v))
         else (False, v))"

section \<open>Deadlines of a car\<close>

definition silence_deadline :: "ScheduledVehicle \<Rightarrow> Instant option" where
  "silence_deadline v =
     (if v_phase v \<noteq> Phase_Driving \<or> \<not> st_connected (v_stream v) \<or> st_outage_reported (v_stream v)
      then None
      else map_option (\<lambda>frame. deadline_after frame K_DRIVE_FRAME_SILENCE) (st_last_frame (v_stream v)))"

definition update_stale_deadline :: "ScheduledVehicle \<Rightarrow> Instant option" where
  "update_stale_deadline v =
     (if v_phase v \<noteq> Phase_Updating \<or> v_hold v \<noteq> Hold_None then None
      else Some (deadline_after
             (case v_last_success v of None \<Rightarrow> fst (v_phase_since v)
              | Some (read, _) \<Rightarrow> max read (fst (v_phase_since v))) K_UPDATE_STALE))"

section \<open>Holds\<close>

fun pause_reason_code :: "PauseReason \<Rightarrow> string" where
  "pause_reason_code Pause_PersistentFailure = ''paused_persistent_failure''"
| "pause_reason_code Pause_MobileAccessDisabled = ''paused_mobile_access_disabled''"
| "pause_reason_code Pause_LegalPrivacy = ''paused_legal_privacy''"
| "pause_reason_code Pause_AccessRefused = ''paused_access_refused''"

definition reported_online :: "ScheduledVehicle \<Rightarrow> bool" where
  "reported_online v \<longleftrightarrow> v_reported_state v = Some ''online''"

definition probe_due_at :: "ScheduledVehicle \<Rightarrow> bool \<Rightarrow> Instant option" where
  "probe_due_at v owner_wire =
     Option.bind (v_next_probe_due v) (\<lambda>due.
       case v_hold v of
         Hold_Service \<Rightarrow> if owner_wire \<or> reported_online v then Some due else None
       | Hold_Paused reason \<Rightarrow>
           if reason = Pause_AccessRefused then None
           else if reported_online v then Some due else None
       | _ \<Rightarrow> None)"

definition shown_reason :: "ScheduledVehicle \<Rightarrow> string" where
  "shown_reason v =
     (case v_hold v of
        Hold_Paused reason \<Rightarrow> pause_reason_code reason
      | Hold_Service \<Rightarrow> ''service_entered''
      | Hold_Removed \<Rightarrow> ''vehicle_removed''
      | Hold_Disabled \<Rightarrow> ''vehicle_disabled''
      | Hold_None \<Rightarrow> if st_audit_failed (v_stream v) then ''stream_audit_failed'' else v_reason v)"

definition stream_detail :: "ScheduledVehicle \<Rightarrow> Instant \<Rightarrow> string option" where
  "stream_detail v now =
     (if st_audit_failed (v_stream v) then Some ''stream receipts cannot be written''
      else if is_paused (v_hold v) \<and> stream_healthy_for_cadence v now
      then Some ''partial: stream only'' else None)"

definition status_detail :: "ScheduledVehicle \<Rightarrow> Instant \<Rightarrow> string option" where
  "status_detail v now =
     (if v_hold v = Hold_Removed then Some ''not in the Tesla account'' else stream_detail v now)"

definition stop_timers :: "ScheduledVehicle \<Rightarrow> ScheduledVehicle" where
  "stop_timers v = v\<lparr>v_next_read_due := None, v_next_check_due := None, v_suspend_at := None,
     v_suspended_until := None, v_gated_read := None, v_wake_read_pending := False,
     v_suspension_read := False, v_unavailable_check := False\<rparr>"

definition note_listed :: "ScheduledVehicle \<Rightarrow> Instant \<Rightarrow> int \<Rightarrow> ScheduledVehicle" where
  "note_listed v now wall_ms =
     (let v = v\<lparr>v_missing_lists := 0, v_missing_last := None, v_not_found_check := False\<rparr>
      in if v_hold v \<noteq> Hold_Removed then v
         else v\<lparr>v_hold := Hold_None, v_phase := Phase_Unknown, v_phase_since := (now, wall_ms),
                v_reason := ''vehicle_reappeared''\<rparr>)"

definition settle_unavailable :: "ScheduledVehicle \<Rightarrow> string \<Rightarrow> bool \<times> ScheduledVehicle" where
  "settle_unavailable v state =
     (v_unavailable_check v \<and> state = ''online'', v\<lparr>v_unavailable_check := False\<rparr>)"

section \<open>Stream evidence\<close>

datatype EvidenceSource = Source_Stream | Source_Telemetry

fun source_reason :: "EvidenceSource \<Rightarrow> string" where
  "source_reason Source_Stream = ''use_evidence_stream''"
| "source_reason Source_Telemetry = ''use_evidence_telemetry''"

record FrameEvidence =
  fe_motion :: bool
  fe_parked_gear :: bool
  fe_wants_read :: bool

text \<open>\<open>str::trim\<close> on the bytes of a text, \<open>eq_ignore_ascii_case\<close>, and the canonical names.\<close>

definition white_space :: "nat list list" where
  "white_space = [[9], [10], [11], [12], [13], [32], [0xC2, 0x85], [0xC2, 0xA0], [0xE1, 0x9A, 0x80],
     [0xE2, 0x80, 0xA8], [0xE2, 0x80, 0xA9], [0xE2, 0x80, 0xAF], [0xE2, 0x81, 0x9F], [0xE3, 0x80, 0x80]]
     @ map (\<lambda>n. [0xE2, 0x80, 0x80 + n]) [0..<11]"

definition white_space_prefix :: "string \<Rightarrow> nat list option" where
  "white_space_prefix s = find (\<lambda>w. map byte (take (length w) s) = w) white_space"

lemma white_space_prefix_length:
  assumes "white_space_prefix s = Some w"
  shows "length (drop (length w) s) < length s"
proof -
  have w: "w \<in> set white_space" "map byte (take (length w) s) = w"
    using assms by (auto simp: white_space_prefix_def find_Some_iff)
  then have "0 < length w" by (auto simp: white_space_def)
  moreover have "min (length s) (length w) = length w" using arg_cong [OF w(2), of length] by simp
  ultimately have "0 < length w" "length w \<le> length s" by auto
  then show ?thesis unfolding length_drop by linarith
qed

function trim_start :: "string \<Rightarrow> string" where
  "trim_start s =
     (case white_space_prefix s of None \<Rightarrow> s | Some w \<Rightarrow> trim_start (drop (length w) s))"
  by auto
termination
  by (relation "measure length") (auto dest: white_space_prefix_length)

definition white_space_suffix :: "string \<Rightarrow> nat list option" where
  "white_space_suffix s =
     find (\<lambda>w. length w \<le> length s \<and> map byte (drop (length s - length w) s) = w) white_space"

lemma white_space_suffix_length:
  assumes "white_space_suffix s = Some w"
  shows "length (take (length s - length w) s) < length s"
proof -
  have w: "w \<in> set white_space" "length w \<le> length s"
    using assms by (auto simp: white_space_suffix_def find_Some_iff)
  then have "0 < length w" by (auto simp: white_space_def)
  then show ?thesis using w(2) unfolding length_take by linarith
qed

function trim_end :: "string \<Rightarrow> string" where
  "trim_end s =
     (case white_space_suffix s of None \<Rightarrow> s | Some w \<Rightarrow> trim_end (take (length s - length w) s))"
  by auto
termination
  by (relation "measure length") (auto dest: white_space_suffix_length)

declare trim_start.simps [simp del] trim_end.simps [simp del]

definition to_ascii_lower :: "char \<Rightarrow> char" where
  "to_ascii_lower c = (if 65 \<le> byte c \<and> byte c \<le> 90 then char_of (byte c + 32) else c)"

definition ascii_case_eq :: "string \<Rightarrow> string \<Rightarrow> bool" where
  "ascii_case_eq a b \<longleftrightarrow> map to_ascii_lower a = map to_ascii_lower b"

definition CANONICAL_ENUM_NAMES :: "string list" where
  "CANONICAL_ENUM_NAMES = [''P'', ''R'', ''N'', ''D'', ''Charging'', ''Starting'', ''Stopped'',
     ''NoPower'', ''Complete'', ''Disconnected'', ''Unknown'', ''Invalid'', ''SNA'']"

definition ENUM_TYPE_PREFIXES :: "string list" where
  "ENUM_TYPE_PREFIXES = [''DetailedChargeState'', ''ChargeState'', ''ShiftState'']"

definition normalise_enum_text :: "string \<Rightarrow> string option" where
  "normalise_enum_text text =
     (let rest = trim_end (trim_start text);
          rest = (case find (\<lambda>prefix. length prefix \<le> length rest
                        \<and> ascii_case_eq (take (length prefix) rest) prefix) ENUM_TYPE_PREFIXES of
                    None \<Rightarrow> rest | Some prefix \<Rightarrow> drop (length prefix) rest)
      in find (\<lambda>name. ascii_case_eq name rest) CANONICAL_ENUM_NAMES)"

definition evidence_gear :: "string option \<Rightarrow> string option" where
  "evidence_gear shift_state =
     (case Option.bind shift_state normalise_enum_text of
        None \<Rightarrow> None
      | Some name \<Rightarrow> if name \<in> {''P'', ''R'', ''N'', ''D''} then Some name else None)"

fun f64_positive :: "f64 \<Rightarrow> bool" where
  "f64_positive (F_Fin x) = (0 < x)"
| "f64_positive (F_Inf neg) = (\<not> neg)"
| "f64_positive F_NaN = False"

definition evidence_from_stream ::
  "string option \<Rightarrow> f64 option \<Rightarrow> int option \<Rightarrow> FrameEvidence" where
  "evidence_from_stream shift_state speed kw =
     (let gear = evidence_gear shift_state;
          motion = (case gear of
              Some g \<Rightarrow> g \<in> {''D'', ''R'', ''N''}
            | None \<Rightarrow> (case speed of None \<Rightarrow> False | Some s \<Rightarrow> f64_positive s))
      in \<lparr>fe_motion = motion, fe_parked_gear = (gear = Some ''P''),
          fe_wants_read = (\<not> motion \<and> (case kw of None \<Rightarrow> False
            | Some p \<Rightarrow> \<bar>K_STREAM_POWER_KW\<bar> \<le> \<bar>p\<bar>))\<rparr>)"

definition evidence_from_telemetry :: "string option \<Rightarrow> string option \<Rightarrow> FrameEvidence" where
  "evidence_from_telemetry gear_text charging_state =
     (let gear = evidence_gear gear_text;
          motion = (case gear of None \<Rightarrow> False | Some g \<Rightarrow> g \<in> {''D'', ''R'', ''N''});
          charging = Option.bind charging_state normalise_enum_text
      in \<lparr>fe_motion = motion, fe_parked_gear = (gear = Some ''P''),
          fe_wants_read = (\<not> motion \<and> (charging = Some ''Charging'' \<or> charging = Some ''Starting''))\<rparr>)"

definition evidence_read_time :: "Timing \<Rightarrow> ScheduledVehicle \<Rightarrow> Instant \<Rightarrow> Instant" where
  "evidence_read_time timing v now =
     (case v_last_read v of None \<Rightarrow> now
      | Some prev \<Rightarrow> max now (deadline_after prev (tm_min_read_spacing timing)))"

definition make_read_due :: "Timing \<Rightarrow> Instant \<Rightarrow> ScheduledVehicle \<Rightarrow> ScheduledVehicle" where
  "make_read_due timing now v =
     (let t = evidence_read_time timing v now in
      v\<lparr>v_next_read_due := Some (case v_next_read_due v of None \<Rightarrow> t | Some due \<Rightarrow> min due t)\<rparr>)"

definition frame_evidence ::
  "Timing \<Rightarrow> FrameEvidence \<Rightarrow> EvidenceSource \<Rightarrow> Instant \<Rightarrow> int \<Rightarrow> ScheduledVehicle \<Rightarrow> ScheduledVehicle" where
  "frame_evidence timing evidence source now wall_ms v =
     (if is_inactive v then v
      else
        let reads_allowed = v_hold v = Hold_None in
        if fe_motion evidence then
          (let v = v\<lparr>v_last_in_use := Some now\<rparr> in
           if v_phase v = Phase_Driving then v
           else if v_phase v = Phase_Suspended
           then (if reads_allowed
                 then make_read_due timing now (v\<lparr>v_gated_read := Some Gated_Motion\<rparr>) else v)
           else
             let v = enter_phase timing v Phase_Driving now wall_ms (source_reason source)
             in if reads_allowed then make_read_due timing now v else v)
        else if \<not> reads_allowed then v
        else if fe_parked_gear evidence \<and> v_phase v = Phase_Driving then make_read_due timing now v
        else if fe_wants_read evidence
             \<and> v_phase v \<in> {Phase_Unknown, Phase_Asleep, Phase_Offline, Phase_Online, Phase_Suspended}
        then (if (case v_last_power_trigger v of None \<Rightarrow> True
                  | Some prev \<Rightarrow> tm_online timing \<le> saturating_duration_since now prev)
              then
                let v = v\<lparr>v_last_power_trigger := Some now\<rparr>;
                    v = (if v_phase v = Phase_Suspended
                         then v\<lparr>v_gated_read := (case v_gated_read v of None \<Rightarrow> Some Gated_Power
                                                 | Some g \<Rightarrow> Some g)\<rparr> else v)
                in make_read_due timing now v
              else v)
        else v)"

section \<open>Timers of a car\<close>

definition advance_car :: "Timing \<Rightarrow> Instant \<Rightarrow> int \<Rightarrow> ScheduledVehicle \<Rightarrow> bool \<times> ScheduledVehicle" where
  "advance_car timing now wall_ms v =
     (let suspend = begin_suspension timing v now wall_ms
            (deadline_after now (es_suspend (v_settings v))) ''suspended_idle'' in
      if v_hold v \<noteq> Hold_None then (False, v)
      else if v_phase v = Phase_Online
      then (if (case v_suspend_at v of None \<Rightarrow> False | Some t \<Rightarrow> t \<le> now) then (True, suspend)
            else (False, v))
      else if v_phase v = Phase_Suspended
      then (if (case v_suspended_until v of None \<Rightarrow> False | Some t \<Rightarrow> t \<le> now)
            then (if v_reported_state v = Some ''online''
                  then (False, v\<lparr>v_suspended_until := None, v_suspension_read := True,
                                 v_gated_read := None, v_next_read_due := Some now,
                                 v_reason := ''suspension_ended_still_online''\<rparr>)
                  else (True, suspend))
            else (False, v))
      else if v_phase v = Phase_Updating
           \<and> (case update_stale_deadline v of None \<Rightarrow> False | Some stale \<Rightarrow> stale \<le> now)
      then (False, clear_pending_reads (enter_phase timing v Phase_Offline now wall_ms ''update_stale''))
      else (False, v))"

section \<open>Stored rows of a car\<close>

definition REASON_CODES :: "string list" where
  "REASON_CODES =
     [''first_contact_read'', ''wake_read'', ''wake_read_limited'', ''session_return'',
      ''use_evidence_snapshot'', ''use_evidence_stream'', ''use_evidence_telemetry'',
      ''idle_window_started'', ''suspended_idle'', ''suspension_ended_still_online'',
      ''reported_asleep'', ''reported_offline'', ''reported_online'', ''update_stale'',
      ''stream_outage'', ''stream_recovered'', ''stream_restart_delayed'',
      ''stream_audit_failed'', ''rest_failure'', ''refusal_check'',
      ''paused_persistent_failure'', ''paused_mobile_access_disabled'', ''paused_legal_privacy'',
      ''paused_access_refused'', ''pause_probe'', ''resumed'', ''service_entered'',
      ''service_probe'', ''service_exited'', ''rate_limited'', ''tesla_unreachable'',
      ''tesla_reachable'', ''auth_wait'', ''auth_terminal'', ''owner_api_refused'',
      ''owner_api_client_refused'', ''owner_api_gone'', ''provider_payment_required'',
      ''provider_gone'', ''provider_forbidden'', ''provider_client_refused'',
      ''fleet_access_refused'', ''billing_suspended'', ''billing_probe'', ''billing_resumed'',
      ''config_partner_unregistered'', ''config_wrong_region'', ''account_locked'',
      ''cap_warning'', ''cap_reached'', ''cap_cleared'', ''month_rolled_over'',
      ''month_change_deferred'', ''vehicle_missing_from_list'', ''vehicle_removed'',
      ''vehicle_reappeared'', ''vehicle_disabled'', ''vehicle_enabled'', ''settings_applied'',
      ''owner_retry'', ''owner_resume'', ''config_changed'', ''force_close_no_evidence'',
      ''gap_opened'', ''gap_closed'', ''config_key_ignored'', ''config_value_clamped'',
      ''wall_clock_stepped_back'', ''store_failure'', ''store_recovered'', ''collecting'']"

definition intern_reason :: "string \<Rightarrow> string" where
  "intern_reason code = (if code \<in> set REASON_CODES then code else ''collecting'')"

definition phase_from_code :: "string \<Rightarrow> PollPhase" where
  "phase_from_code code =
     (if code = ''asleep'' then Phase_Asleep
      else if code = ''offline'' then Phase_Offline
      else if code = ''online'' then Phase_Online
      else if code = ''suspended'' then Phase_Suspended
      else if code = ''driving'' then Phase_Driving
      else if code = ''charging'' then Phase_Charging
      else if code = ''updating'' then Phase_Updating
      else Phase_Unknown)"

definition pause_reason_from_code :: "string \<Rightarrow> PauseReason" where
  "pause_reason_from_code code =
     (if code = ''paused_mobile_access_disabled'' then Pause_MobileAccessDisabled
      else if code = ''paused_legal_privacy'' then Pause_LegalPrivacy
      else if code = ''paused_access_refused'' then Pause_AccessRefused
      else Pause_PersistentFailure)"

definition view_is_initial :: "VehicleView \<Rightarrow> bool" where
  "view_is_initial w \<longleftrightarrow> vv_phase w = Phase_Unknown \<and> vv_hold w = Hold_None
     \<and> vv_reason w = ''collecting'' \<and> vv_suspended_until w = None \<and> vv_next_probe w = None
     \<and> vv_last_wake_read w = None"

definition vehicle_view :: "ScheduledVehicle \<Rightarrow> VehicleView" where
  "vehicle_view v =
     \<lparr>vv_phase = v_phase v, vv_hold = v_hold v, vv_reason = shown_reason v,
      vv_phase_since_ms = snd (v_phase_since v),
      vv_suspended_until = (if v_phase v = Phase_Suspended then v_suspended_until v else None),
      vv_next_probe = (if v_hold v = Hold_Service \<or> is_paused (v_hold v)
                       then v_next_probe_due v else None),
      vv_last_wake_read = v_last_wake_read v\<rparr>"

text \<open>The row written for a view, at one reading of the clocks.\<close>

definition vehicle_row :: "Instant \<Rightarrow> int \<Rightarrow> uuid \<Rightarrow> VehicleView \<Rightarrow> CollectorVehicleRow" where
  "vehicle_row now wall hub_id w =
     \<lparr>cvr_vehicle_id = hub_id, cvr_phase = phase_code (vv_phase w), cvr_hold = hold_code (vv_hold w),
      cvr_reason_code = vv_reason w, cvr_phase_since_ms = max (vv_phase_since_ms w) 0,
      cvr_suspended_until_ms = map_option (wall_of_instant now wall) (vv_suspended_until w),
      cvr_next_probe_ms = map_option (wall_of_instant now wall) (vv_next_probe w),
      cvr_last_wake_read_at_ms = map_option (wall_of_instant now wall) (vv_last_wake_read w)\<rparr>"

definition probe_bound :: "string \<Rightarrow> Duration" where
  "probe_bound hold = (if hold = ''service'' then K_SERVICE_PROBE else K_PAUSE_PROBE)"

definition hold_from_row :: "CollectorVehicleRow \<Rightarrow> VehicleHold" where
  "hold_from_row row =
     (if cvr_hold row = ''disabled'' then Hold_Disabled
      else if cvr_hold row = ''service'' then Hold_Service
      else if cvr_hold row = ''paused'' then Hold_Paused (pause_reason_from_code (cvr_reason_code row))
      else if cvr_hold row = ''removed'' then Hold_Removed
      else Hold_None)"

definition view_from_row :: "RestoredVehicle \<Rightarrow> Instant \<Rightarrow> int \<Rightarrow> VehicleView" where
  "view_from_row restored now wall =
     (let row = rv_row restored in
      \<lparr>vv_phase = phase_from_code (cvr_phase row), vv_hold = hold_from_row row,
       vv_reason = intern_reason (cvr_reason_code row), vv_phase_since_ms = cvr_phase_since_ms row,
       vv_suspended_until =
         map_option (\<lambda>ms. deadline_from_wall now wall ms (rv_suspend restored)) (cvr_suspended_until_ms row),
       vv_next_probe =
         map_option (\<lambda>ms. deadline_from_wall now wall ms (probe_bound (cvr_hold row))) (cvr_next_probe_ms row),
       vv_last_wake_read =
         Option.bind (cvr_last_wake_read_at_ms row)
           (\<lambda>ms. past_instant_from_wall now wall ms (rv_suspend restored))\<rparr>)"

definition restored_probe :: "CollectorVehicleRow \<Rightarrow> Instant \<Rightarrow> int \<Rightarrow> Duration \<Rightarrow> Instant" where
  "restored_probe row now wall bound =
     (case cvr_next_probe_ms row of
        Some ms \<Rightarrow> deadline_from_wall now wall ms bound | None \<Rightarrow> deadline_after now bound)"

definition apply_restored ::
  "ScheduledVehicle \<Rightarrow> RestoredVehicle \<Rightarrow> Instant \<Rightarrow> int \<Rightarrow> ScheduledVehicle" where
  "apply_restored v restored now wall =
     (let row = rv_row restored;
          v = v\<lparr>v_hub_id := Some (cvr_vehicle_id row),
                v_last_wake_read := Option.bind (cvr_last_wake_read_at_ms row)
                  (\<lambda>ms. past_instant_from_wall now wall ms (rv_suspend restored))\<rparr>
      in if v_hold v = Hold_Disabled then v
         else
           let reason = intern_reason (cvr_reason_code row);
               v = (if cvr_hold row \<in> {''removed'', ''paused'', ''service''}
                    then v\<lparr>v_phase_since := (now, cvr_phase_since_ms row)\<rparr> else v)
           in if cvr_hold row = ''removed'' then v\<lparr>v_hold := Hold_Removed, v_reason := reason\<rparr>
              else if cvr_hold row = ''paused''
              then (let pause = pause_reason_from_code (cvr_reason_code row) in
                    v\<lparr>v_hold := Hold_Paused pause,
                      v_next_probe_due := (if pause \<noteq> Pause_AccessRefused
                        then Some (restored_probe row now wall K_PAUSE_PROBE) else None),
                      v_reason := reason\<rparr>)
              else if cvr_hold row = ''service''
              then v\<lparr>v_hold := Hold_Service,
                     v_next_probe_due := Some (restored_probe row now wall K_SERVICE_PROBE),
                     v_reason := reason\<rparr>
              else (case cvr_suspended_until_ms row of
                      None \<Rightarrow> v
                    | Some until_ms \<Rightarrow>
                        if cvr_phase row = ''suspended'' \<and> wall < until_ms
                        then v\<lparr>v_phase := Phase_Suspended,
                               v_suspended_until := Some (deadline_from_wall now wall until_ms (rv_suspend restored)),
                               v_phase_since :=
                                 (case past_instant_from_wall now wall (cvr_phase_since_ms row) (rv_suspend restored)
                                    of Some t \<Rightarrow> t | None \<Rightarrow> now, cvr_phase_since_ms row),
                               v_reported_state := Some ''online'', v_reason := reason\<rparr>
                        else v))"

subsection \<open>The state a failed tick returns to\<close>

definition car_baseline :: "ScheduledVehicle \<Rightarrow> VehicleBaseline" where
  "car_baseline v =
     \<lparr>vb_state = vh_state (v_vehicle v), vb_phase = v_phase v, vb_phase_since = v_phase_since v,
      vb_hold = v_hold v, vb_reason = v_reason v, vb_reported_state = v_reported_state v,
      vb_next_read_due = v_next_read_due v, vb_next_check_due = v_next_check_due v,
      vb_next_probe_due = v_next_probe_due v, vb_suspend_at = v_suspend_at v,
      vb_suspended_until = v_suspended_until v, vb_last_in_use = v_last_in_use v,
      vb_last_success = v_last_success v, vb_offline_from_session = v_offline_from_session v,
      vb_consecutive_failures = v_consecutive_failures v, vb_first_failure = v_first_failure v,
      vb_last_error = v_last_error v, vb_missing_lists = v_missing_lists v,
      vb_missing_last = v_missing_last v, vb_not_found_check = v_not_found_check v,
      vb_placeholder = v_placeholder v\<rparr>"

definition restore_car :: "VehicleBaseline \<Rightarrow> ScheduledVehicle \<Rightarrow> ScheduledVehicle" where
  "restore_car b v =
     v\<lparr>v_vehicle := (v_vehicle v)\<lparr>vh_state := vb_state b\<rparr>, v_phase := vb_phase b,
       v_phase_since := vb_phase_since b, v_hold := vb_hold b, v_reason := vb_reason b,
       v_reported_state := vb_reported_state b, v_next_read_due := vb_next_read_due b,
       v_next_check_due := vb_next_check_due b, v_next_probe_due := vb_next_probe_due b,
       v_suspend_at := vb_suspend_at b, v_suspended_until := vb_suspended_until b,
       v_last_in_use := vb_last_in_use b, v_last_success := vb_last_success b,
       v_offline_from_session := vb_offline_from_session b,
       v_consecutive_failures := vb_consecutive_failures b, v_first_failure := vb_first_failure b,
       v_last_error := vb_last_error b, v_missing_lists := vb_missing_lists b,
       v_missing_last := vb_missing_last b, v_not_found_check := vb_not_found_check b,
       v_placeholder := vb_placeholder b, v_gated_read := None, v_wake_read_pending := False,
       v_suspension_read := False\<rparr>"

end
