(* ===== verification/Sched_Errors.thy ===== *)
theory Sched_Errors
  imports Sched_Types
begin

text \<open>
  The errors a request can end with and their one classification
  (\<open>collection/collector/scheduler_errors.rs\<close>, \<open>errors.rs\<close>, the error enums of the clients).
  Where the payload of an error is never looked at by the scheduler (a text, a source error of
  another library) the constructor has none.
\<close>

section \<open>Errors\<close>

datatype OwnerApiError =
    OA_InvalidEndpoint | OA_RequestTimeout | OA_Transport
  | OA_HttpStatus nat
  | OA_RateLimited nat
  | OA_Forbidden bool
  | OA_Gone | OA_VehicleNotFound | OA_VehicleInService
  | OA_ResponseTooLarge | OA_ResponseRead | OA_InvalidResponseEnvelope
  | OA_InvalidVehicleListCount | OA_InvalidVehicleRecord | OA_InvalidVehicleDataEnvelope
  | OA_InvalidCommandResponse | OA_InvalidCommand | OA_CommandRejected
  | OA_SensitiveDataInResponse | OA_StreamPowerNotConfirmed
  | OA_CredentialAuthorityUnavailable | OA_LegacyAuth

datatype LegacyAuthManagerError =
    LM_Credential | LM_Auth LegacyAuthError | LM_ObserverRefreshDisabled

fun manager_sensitive_access_failure :: "LegacyAuthManagerError \<Rightarrow> bool" where
  "manager_sensitive_access_failure LM_Credential = True"
| "manager_sensitive_access_failure (LM_Auth e) =
     (e = LE_SensitiveAccessUnavailable \<or> e = LE_SensitiveRotationOutcomeUnknown)"
| "manager_sensitive_access_failure LM_ObserverRefreshDisabled = False"

datatype OwnerApiAuthError =
    AE_Owner OwnerApiError | AE_Auth LegacyAuthManagerError | AE_NotSignedIn

datatype FleetCredentialError =
    FC_EntropyUnavailable | FC_Missing | FC_KeyMissing | FC_MigrationRequired
  | FC_UnsafeKeyMaterial | FC_UnsafeMigrationState | FC_KeyIo | FC_InvalidLifetime
  | FC_InvalidAccessTokenClaims | FC_MissingCollectionScopes | FC_Clock | FC_ClockOverflow
  | FC_RotationOutcomeUnknown | FC_SensitiveAccessUnavailable | FC_ApiConfig
  | FC_Api FleetApiError | FC_Credential | FC_Cipher | FC_Key | FC_Store

definition is_admission_loss :: "FleetCredentialError \<Rightarrow> bool" where
  "is_admission_loss e \<longleftrightarrow> e = FC_SensitiveAccessUnavailable"

datatype CollectorError =
    CE_SelectedVehicleMissing | CE_NativeSetupStoreMismatch | CE_NativeSetupLegacyAuthRequired
  | CE_NativeSetupFleetProviderRequired | CE_NativeSetupNoVehicles
  | CE_NativeSetupVehicleSelectionRequired nat | CE_NativeSetupVehicleIdInvalid
  | CE_NativeSetupVehicleNotFound int | CE_FleetSetupInventoryMismatch | CE_CommandVehicleMissing
  | CE_ResidentControlSocket | CE_NativeSetupVehicleConflict int int | CE_SupervisedHeartbeatTask
  | CE_TerrainWorkerTask | CE_ExportPublicationTask | CE_StreamTask | CE_TerrainWorkerStartup
  | CE_SensitiveAccessUnavailable | CE_FleetResendWithheld | CE_SupervisedStartupReadyDropped
  | CE_AdmittedStoreMismatch | CE_AdmittedLegacyAuthRequired | CE_UserAdmission
  | CE_InvalidReceiptTimestamp | CE_SnapshotWithoutListedVehicle | CE_SystemClockBeforeEpoch
  | CE_SystemClockOutOfRange | CE_SerializeSnapshot | CE_Config | CE_Credential | CE_OwnerApiConfig
  | CE_OwnerApi OwnerApiError
  | CE_OwnerApiAuth OwnerApiAuthError
  | CE_LegacyAuthManager LegacyAuthManagerError
  | CE_LegacyAuth LegacyAuthError
  | CE_FleetApiConfig
  | CE_FleetApi FleetApiError
  | CE_FleetCredential FleetCredentialError
  | CE_Projection | CE_Lifecycle | CE_Geocoder | CE_Store

section \<open>Reading an error\<close>

definition rate_limit_retry_after_seconds :: "CollectorError \<Rightarrow> nat option" where
  "rate_limit_retry_after_seconds e =
     (case e of
        CE_OwnerApi (OA_RateLimited n) \<Rightarrow> Some n
      | CE_OwnerApiAuth (AE_Owner (OA_RateLimited n)) \<Rightarrow> Some n
      | CE_FleetApi (FA_RateLimited n) \<Rightarrow> Some n
      | _ \<Rightarrow> None)"

definition owner_api_error :: "CollectorError \<Rightarrow> OwnerApiError option" where
  "owner_api_error e =
     (case e of CE_OwnerApi w \<Rightarrow> Some w | CE_OwnerApiAuth (AE_Owner w) \<Rightarrow> Some w | _ \<Rightarrow> None)"

definition owner_http_status :: "OwnerApiError \<Rightarrow> nat option" where
  "owner_http_status e =
     (case e of
        OA_HttpStatus status \<Rightarrow> Some status
      | OA_RateLimited _ \<Rightarrow> Some 429
      | OA_Forbidden _ \<Rightarrow> Some 403
      | OA_Gone \<Rightarrow> Some 410
      | OA_VehicleNotFound \<Rightarrow> Some 404
      | OA_VehicleInService \<Rightarrow> Some 405
      | _ \<Rightarrow> None)"

fun fleet_http_status :: "FleetApiError \<Rightarrow> nat option" where
  "fleet_http_status (FA_HttpStatus status) = Some status"
| "fleet_http_status (FA_ProviderHttpStatus status _ _) = Some status"
| "fleet_http_status (FA_RateLimited _) = Some 429"
| "fleet_http_status _ = None"

definition http_status_of :: "CollectorError \<Rightarrow> nat option" where
  "http_status_of e =
     (case e of
        CE_OwnerApi w \<Rightarrow> owner_http_status w
      | CE_OwnerApiAuth (AE_Owner w) \<Rightarrow> owner_http_status w
      | CE_FleetApi f \<Rightarrow> fleet_http_status f
      | _ \<Rightarrow> None)"

definition legacy_auth_error_of :: "CollectorError \<Rightarrow> LegacyAuthError option" where
  "legacy_auth_error_of e =
     (case e of
        CE_LegacyAuth l \<Rightarrow> Some l
      | CE_LegacyAuthManager (LM_Auth l) \<Rightarrow> Some l
      | CE_OwnerApiAuth (AE_Auth (LM_Auth l)) \<Rightarrow> Some l
      | _ \<Rightarrow> None)"

fun fleet_refresh_retry_delay :: "FleetCredentialError \<Rightarrow> Duration option" where
  "fleet_refresh_retry_delay (FC_Api FA_RequestNotSent) = Some FLEET_REFRESH_REQUEST_NOT_SENT_RETRY"
| "fleet_refresh_retry_delay _ = None"

definition is_owner_wire_forbidden :: "CollectorError \<Rightarrow> bool" where
  "is_owner_wire_forbidden e \<longleftrightarrow>
     (case owner_api_error e of
        None \<Rightarrow> False
      | Some e \<Rightarrow> (case e of OA_Forbidden _ \<Rightarrow> True | OA_HttpStatus status \<Rightarrow> status = 403 | _ \<Rightarrow> False))"

definition is_plain_owner_forbidden :: "CollectorError \<Rightarrow> bool" where
  "is_plain_owner_forbidden e \<longleftrightarrow>
     owner_api_error e = Some (OA_Forbidden False) \<or> owner_api_error e = Some (OA_HttpStatus 403)"

definition is_stream_power_not_confirmed :: "CollectorError \<Rightarrow> bool" where
  "is_stream_power_not_confirmed e \<longleftrightarrow> owner_api_error e = Some OA_StreamPowerNotConfirmed"

definition is_credential_stop :: "CollectorError \<Rightarrow> bool" where
  "is_credential_stop e \<longleftrightarrow>
     (case legacy_auth_error_of e of
        None \<Rightarrow> False
      | Some e \<Rightarrow> is_terminal_auth_failure e \<and> (case e of LE_OwnerApiRefused _ \<Rightarrow> False | _ \<Rightarrow> True))"

section \<open>Classification\<close>

definition owner_refusal :: "bool \<Rightarrow> ErrorClass" where
  "owner_refusal provider = (if provider then EC_ProviderRefusal else EC_OwnerApiRefusal)"

definition owner_forbidden :: "bool \<Rightarrow> RequestKind \<Rightarrow> bool \<Rightarrow> ErrorClass" where
  "owner_forbidden fleet_api_named request provider =
     (if request = Kind_List \<and> fleet_api_named then owner_refusal provider
      else if \<not> fleet_api_named then EC_ClientError else EC_AccessRefused)"

definition owner_status :: "nat \<Rightarrow> RequestKind \<Rightarrow> bool \<Rightarrow> ErrorClass" where
  "owner_status status request provider =
     (if status = 401 then EC_Auth
      else if status = 402 \<and> provider then EC_ProviderRefusal
      else if status = 403 then owner_forbidden False request provider
      else if status = 404 then EC_NotFound
      else if status = 408 then EC_Unavailable
      else if status = 410 then owner_refusal provider
      else if status = 429 then EC_RateLimited
      else if status = 451 then EC_LegalPrivacy
      else if 500 \<le> status \<and> status \<le> 599 then EC_Transient
      else if 400 \<le> status \<and> status \<le> 499 then EC_ClientError
      else EC_Protocol)"

definition classify_owner :: "OwnerApiError \<Rightarrow> RequestKind \<Rightarrow> bool \<Rightarrow> ErrorClass" where
  "classify_owner e request provider =
     (case e of
        OA_RateLimited _ \<Rightarrow> EC_RateLimited
      | OA_VehicleNotFound \<Rightarrow> EC_NotFound
      | OA_VehicleInService \<Rightarrow> EC_InService
      | OA_Forbidden named \<Rightarrow> owner_forbidden named request provider
      | OA_Gone \<Rightarrow> owner_refusal provider
      | OA_RequestTimeout \<Rightarrow> EC_Unreachable
      | OA_Transport \<Rightarrow> EC_Unreachable
      | OA_StreamPowerNotConfirmed \<Rightarrow> EC_GateNotConfirmed
      | OA_CredentialAuthorityUnavailable \<Rightarrow> EC_Auth
      | OA_LegacyAuth \<Rightarrow> EC_Auth
      | OA_HttpStatus status \<Rightarrow> owner_status status request provider
      | _ \<Rightarrow> EC_Protocol)"

definition MOBILE_ACCESS_DISABLED_CODE :: string where
  "MOBILE_ACCESS_DISABLED_CODE = ''mobile_access_disabled''"

definition VEHICLE_IN_SERVICE_CODE :: string where
  "VEHICLE_IN_SERVICE_CODE = ''vehicle_in_service''"

definition fleet_status :: "nat \<Rightarrow> string option \<Rightarrow> RequestKind \<Rightarrow> ErrorClass" where
  "fleet_status status code request =
     (if status = 401 \<and> code = Some MOBILE_ACCESS_DISABLED_CODE then EC_MobileAccessDisabled
      else if status = 401 then EC_Auth
      else if status = 402 then EC_Billing
      else if status = 403 \<and> request = Kind_List then EC_FleetAccess
      else if status = 403 then EC_AccessRefused
      else if status = 404 then EC_NotFound
      else if status = 405 \<and> code = Some VEHICLE_IN_SERVICE_CODE then EC_InService
      else if status = 408 then EC_Unavailable
      else if status = 412 \<or> status = 421 then EC_Config
      else if status = 423 then EC_Locked
      else if status = 429 then EC_RateLimited
      else if status = 451 then EC_LegalPrivacy
      else if 500 \<le> status \<and> status \<le> 599 then EC_Transient
      else if 400 \<le> status \<and> status \<le> 499 then EC_ClientError
      else EC_Protocol)"

fun classify_fleet :: "FleetApiError \<Rightarrow> RequestKind \<Rightarrow> ErrorClass" where
  "classify_fleet (FA_RateLimited _) request = EC_RateLimited"
| "classify_fleet FA_RequestTimeout request = EC_Unreachable"
| "classify_fleet FA_RequestNotSent request = EC_Unreachable"
| "classify_fleet FA_Transport request = EC_Unreachable"
| "classify_fleet (FA_HttpStatus status) request = fleet_status status None request"
| "classify_fleet (FA_ProviderHttpStatus status code _) request = fleet_status status (Some code) request"
| "classify_fleet _ request = EC_Protocol"

definition classify_legacy_auth :: "LegacyAuthError \<Rightarrow> bool \<Rightarrow> ErrorClass" where
  "classify_legacy_auth e provider =
     (case e of
        LE_AuthUnavailable _ \<Rightarrow> EC_AuthWait
      | LE_VehicleAccessRejected \<Rightarrow> EC_ClientError
      | LE_OwnerApiRefused _ \<Rightarrow> owner_refusal provider
      | LE_SensitiveAccessUnavailable \<Rightarrow> EC_CredentialStop
      | LE_SensitiveRotationOutcomeUnknown \<Rightarrow> EC_CredentialStop
      | LE_Persistence \<Rightarrow> EC_Auth
      | LE_SensitivePersistenceUnavailable \<Rightarrow> EC_Auth
      | _ \<Rightarrow> if is_terminal_auth_failure e then EC_CredentialStop else EC_Auth)"

definition list_class :: "ErrorClass \<Rightarrow> ErrorClass" where
  "list_class c =
     (case c of
        EC_Unavailable \<Rightarrow> EC_Transient
      | EC_NotFound \<Rightarrow> EC_ClientError
      | EC_InService \<Rightarrow> EC_ClientError
      | EC_MobileAccessDisabled \<Rightarrow> EC_ClientError
      | EC_LegalPrivacy \<Rightarrow> EC_ClientError
      | EC_AccessRefused \<Rightarrow> EC_ClientError
      | _ \<Rightarrow> c)"

text \<open>The rows of the table in their order; the guards of the match arms are the conditions.\<close>

definition classify_any :: "CollectorError \<Rightarrow> RequestKind \<Rightarrow> bool \<Rightarrow> ErrorClass" where
  "classify_any e request provider =
     (case e of
        CE_SensitiveAccessUnavailable \<Rightarrow> EC_Transient
      | CE_FleetCredential fc \<Rightarrow> if is_admission_loss fc then EC_Transient else EC_Auth
      | CE_OwnerApiAuth (AE_Auth m) \<Rightarrow>
          if manager_sensitive_access_failure m then EC_Transient
          else (case m of LM_Auth l \<Rightarrow> classify_legacy_auth l provider | _ \<Rightarrow> EC_Auth)
      | CE_LegacyAuthManager m \<Rightarrow>
          if manager_sensitive_access_failure m then EC_Transient
          else (case m of LM_Auth l \<Rightarrow> classify_legacy_auth l provider | _ \<Rightarrow> EC_Auth)
      | CE_OwnerApiAuth AE_NotSignedIn \<Rightarrow> EC_CredentialStop
      | CE_LegacyAuth l \<Rightarrow> classify_legacy_auth l provider
      | CE_OwnerApi w \<Rightarrow> classify_owner w request provider
      | CE_OwnerApiAuth (AE_Owner w) \<Rightarrow> classify_owner w request provider
      | CE_FleetApi f \<Rightarrow> classify_fleet f request
      | _ \<Rightarrow> EC_Transient)"

definition classify :: "CollectorError \<Rightarrow> RequestKind \<Rightarrow> CollectorMode \<Rightarrow> ErrorClass" where
  "classify e request m =
     (let cls = classify_any e request (m = CM_Provider)
      in if request = Kind_List then list_class cls else cls)"

definition is_account_wait_class :: "ErrorClass \<Rightarrow> bool" where
  "is_account_wait_class c \<longleftrightarrow>
     c \<in> {EC_Auth, EC_AuthWait, EC_CredentialStop, EC_RateLimited, EC_Unreachable}"

definition is_account_state_class :: "ErrorClass \<Rightarrow> bool" where
  "is_account_state_class c \<longleftrightarrow>
     c \<in> {EC_OwnerApiRefusal, EC_ProviderRefusal, EC_FleetAccess, EC_Billing, EC_Config, EC_Locked}"

end
