(* ===== verification/Sched_Account.thy ===== *)
theory Sched_Account
  imports Sched_Car Sched_Errors
begin

text \<open>
  The account side of the scheduler: the constructor, the clock watch and the month, the waits
  and states of the account, the admission of a request, and what every failure of the account
  does (\<open>scheduler.rs\<close>, \<open>scheduler_errors.rs\<close>, \<open>scheduler_holds.rs\<close>, \<open>scheduler_counters.rs\<close>).
  An operation takes the scheduler last and returns it; a value it returns comes first. One
  reading of the clocks (\<open>s_clock\<close>) serves the whole operation.
\<close>

section \<open>Helpers\<close>

definition on_account :: "(AccountRecord \<Rightarrow> AccountRecord) \<Rightarrow> VehicleScheduler \<Rightarrow> VehicleScheduler" where
  "on_account f s = s\<lparr>s_account := f (s_account s)\<rparr>"

definition on_car ::
  "VehicleId \<Rightarrow> (ScheduledVehicle \<Rightarrow> ScheduledVehicle) \<Rightarrow> VehicleScheduler \<Rightarrow> VehicleScheduler" where
  "on_car car f s = s\<lparr>s_vehicles := bt_modify car f (s_vehicles s)\<rparr>"

abbreviation car_of :: "VehicleScheduler \<Rightarrow> VehicleId \<Rightarrow> ScheduledVehicle option" where
  "car_of s car \<equiv> bt_get (s_vehicles s) car"

definition draw_jitter :: "VehicleScheduler \<Rightarrow> f64 \<times> VehicleScheduler" where
  "draw_jitter s = (let (u, x) = draw (s_jitter s) in (u, s\<lparr>s_jitter := x\<rparr>))"

definition wall_or_last :: "VehicleScheduler \<Rightarrow> int" where
  "wall_or_last s = (case clk_wall (s_clock s) of Some wall \<Rightarrow> wall | None \<Rightarrow> snd (s_clock_watch s))"

definition NO_FINGERPRINT :: string where
  "NO_FINGERPRINT = replicate 64 CHR ''0''"

definition account_record_view :: "AccountRecord \<Rightarrow> AccountView" where
  "account_record_view a = \<lparr>av_state = a_state a, av_reason = a_state_reason a,
     av_since_ms = a_state_since_ms a, av_rate_limited_until = None,
     av_next_probe = a_next_billing_probe a\<rparr>"

definition scheduler_new_with ::
  "calendar \<Rightarrow> CollectorCadence \<Rightarrow> CollectorMode \<Rightarrow> FleetPolicy \<Rightarrow> Instant \<Rightarrow> Clock \<Rightarrow> u64 \<Rightarrow> VehicleScheduler" where
  "scheduler_new_with cal cadence m fleet now clock jitter =
     (let wall_ms = (case clk_wall clock of Some wall \<Rightarrow> wall | None \<Rightarrow> 0);
          account = AccountRecord_new wall_ms
      in \<lparr>s_mode = m, s_timing = Timing_new cadence m fleet, s_clock = clock, s_jitter = jitter,
          s_vehicles = [], s_account = account, s_created_at = now, s_clock_watch = (now, wall_ms),
          s_ledger = new_ledger cal m fleet (clk_wall clock) now, s_pending = PendingTick_default,
          s_persisted_account = account_record_view account, s_persisted_vehicles = [],
          s_open_gaps = [], s_gap_episodes = [], s_config_fingerprint = NO_FINGERPRINT,
          s_restored = [], s_baseline = None, s_alert_gaps_unnotified = 0,
          s_stream_delivery = (m = CM_Legacy), s_gate_revocations = {}\<rparr>)"

section \<open>Due times of the account\<close>

definition requests_allowed :: "VehicleScheduler \<Rightarrow> Instant \<Rightarrow> bool" where
  "requests_allowed s now \<longleftrightarrow> a_state (s_account s) = Acc_Collecting
     \<and> (case a_wait (s_account s) of None \<Rightarrow> True | Some (until, _) \<Rightarrow> until \<le> now)"

definition after_wait :: "VehicleScheduler \<Rightarrow> Instant \<Rightarrow> Instant" where
  "after_wait s due = (case a_wait (s_account s) of Some (until, _) \<Rightarrow> max due until | None \<Rightarrow> due)"

definition list_interval :: "VehicleScheduler \<Rightarrow> Duration" where
  "list_interval s =
     max (case map (\<lambda>(_, v). state_interval (s_timing s) (v_phase v))
                 (filter (\<lambda>(_, v). needs_state_check v) (s_vehicles s)) of
            [] \<Rightarrow> tm_inventory (s_timing s) | d # ds \<Rightarrow> foldl min d ds) K_LOOP_FLOOR"

definition list_due_at :: "VehicleScheduler \<Rightarrow> Instant option" where
  "list_due_at s =
     (let a = s_account s in
      if a_state a = Acc_CredentialStop then None
      else if a_state a \<noteq> Acc_Collecting then map_option (after_wait s) (a_next_billing_probe a)
      else
        let due = (case a_last_discovery a of None \<Rightarrow> s_created_at s
                   | Some prev \<Rightarrow> deadline_after prev (list_interval s));
            due = (case a_list_wanted a of None \<Rightarrow> due | Some wanted \<Rightarrow> min due wanted);
            due = (case a_list_floor a of None \<Rightarrow> due | Some least \<Rightarrow> max due least)
        in Some (after_wait s due))"

definition discovery_due :: "VehicleScheduler \<Rightarrow> Instant \<Rightarrow> bool" where
  "discovery_due s now \<longleftrightarrow> (case list_due_at s of None \<Rightarrow> False | Some due \<Rightarrow> due \<le> now)"

section \<open>The month and the clocks\<close>

definition note_new_month :: "Instant \<Rightarrow> VehicleScheduler \<Rightarrow> VehicleScheduler" where
  "note_new_month now s =
     (if a_state (s_account s) = Acc_BillingSuspended
      then on_account (\<lambda>a. a\<lparr>a_next_billing_probe := Some now\<rparr>) s else s)"

definition resume_from_cap :: "Instant \<Rightarrow> VehicleScheduler \<Rightarrow> VehicleScheduler" where
  "resume_from_cap now s =
     on_account (\<lambda>a. a\<lparr>a_state := Acc_Collecting, a_state_reason := ''cap_cleared'',
       a_state_since_ms := wall_or_last s, a_list_wanted := Some now\<rparr>) s"

definition refresh_month :: "calendar \<Rightarrow> Instant \<Rightarrow> VehicleScheduler \<Rightarrow> VehicleScheduler" where
  "refresh_month cal now s =
     (let (event, l) = refresh cal (s_ledger s) (clk_mono (s_clock s)) (clk_wall (s_clock s));
          s = s\<lparr>s_ledger := l\<rparr>
      in case event of
           ME_Unchanged \<Rightarrow> s
         | ME_Rolled _ _ \<Rightarrow>
             let s = note_new_month now s
             in if a_state (s_account s) = Acc_CapReached then resume_from_cap now s else s)"

definition any_car_awake :: "VehicleScheduler \<Rightarrow> VehicleId option \<Rightarrow> bool" where
  "any_car_awake s only \<longleftrightarrow>
     list_ex (\<lambda>(car, v). (case only of None \<Rightarrow> True | Some wanted \<Rightarrow> wanted = car) \<and> \<not> is_inactive v
       \<and> (v_phase v \<in> {Phase_Online, Phase_Driving, Phase_Charging, Phase_Updating}
          \<or> v_phase v = Phase_Suspended \<and> v_reported_state v = Some ''online''))
       (s_vehicles s)"

definition observe_clock_drift :: "Instant \<Rightarrow> VehicleScheduler \<Rightarrow> ClockEvent option \<times> VehicleScheduler" where
  "observe_clock_drift now s =
     (case clk_wall (s_clock s) of
        None \<Rightarrow> (None, s)
      | Some wall_ms \<Rightarrow>
          let (prev_mono, prev_wall) = s_clock_watch s;
              s = s\<lparr>s_clock_watch := (now, wall_ms)\<rparr>;
              wall_delta = wall_ms - prev_wall;
              drift = wall_delta - int (as_millis (saturating_duration_since now prev_mono))
          in if K_CLOCK_DIVERGENCE_MS < drift
             then
               let s = s\<lparr>s_ledger := freeze_month_anchor (s_ledger s)\<rparr>;
                   length = millis (if wall_delta < 0 then u64_max else min (nat wall_delta) u64_max);
                   alert = (any_car_awake s None \<or> tm_offline_drive_timeout (s_timing s) \<le> length);
                   gap = \<lparr>gr_kind = Gap_HostSuspended, gr_vehicle = None, gr_started_ms = prev_wall,
                          gr_ended_ms = Some wall_ms, gr_alert = alert\<rparr>
               in (Some (HostSuspended prev_wall wall_ms),
                   s\<lparr>s_pending := (s_pending s)\<lparr>pt_gaps := pt_gaps (s_pending s) @ [gap]\<rparr>\<rparr>)
             else if drift < - K_CLOCK_DIVERGENCE_MS then (Some WallClockSteppedBack, s)
             else (None, s))"

definition observe_clock ::
  "calendar \<Rightarrow> Instant \<Rightarrow> VehicleScheduler \<Rightarrow> ClockEvent option \<times> VehicleScheduler" where
  "observe_clock cal now s =
     (let (event, s) = observe_clock_drift now s in (event, refresh_month cal now s))"

section \<open>Admission\<close>

definition enter_cap_reached :: "VehicleScheduler \<Rightarrow> VehicleScheduler" where
  "enter_cap_reached s =
     (if a_state (s_account s) \<noteq> Acc_Collecting then s
      else on_account (\<lambda>a. a\<lparr>a_state := Acc_CapReached, a_state_reason := ''cap_reached'',
             a_state_since_ms := wall_or_last s, a_list_wanted := None, a_list_floor := None\<rparr>) s)"

definition billing_probe_admissible :: "VehicleScheduler \<Rightarrow> RequestCategory \<Rightarrow> Instant \<Rightarrow> bool" where
  "billing_probe_admissible s c now \<longleftrightarrow>
     s_mode s = CM_FleetPolling \<and> a_state (s_account s) = Acc_BillingSuspended \<and> c = RC_State
     \<and> (case a_wait (s_account s) of None \<Rightarrow> True | Some (until, _) \<Rightarrow> until \<le> now)
     \<and> (case a_next_billing_probe (s_account s) of None \<Rightarrow> False | Some probe \<Rightarrow> probe \<le> now)"

definition admit_request ::
  "calendar \<Rightarrow> RequestCategory \<Rightarrow> Instant \<Rightarrow> VehicleScheduler \<Rightarrow> Admission \<times> VehicleScheduler" where
  "admit_request cal c now s =
     (let s = refresh_month cal now s;
          probe = billing_probe_admissible s c now
      in if \<not> (requests_allowed s now \<or> probe) then (Withheld WH_Account, s)
         else
           let (admission, l) = start (s_ledger s) c;
               s = s\<lparr>s_ledger := l\<rparr>;
               armed = deadline_after now K_BILLING_PROBE;
               s = (if probe \<and> admission = Admitted
                    then on_account (\<lambda>a. a\<lparr>a_next_billing_probe := Some armed,
                                         a_probe_time_of_the_tick := Some armed\<rparr>) s else s);
               s = (if admission = Withheld WH_Cap
                    then (if probe then on_account (\<lambda>a. a\<lparr>a_next_billing_probe := Some armed\<rparr>) s
                          else enter_cap_reached s)
                    else s)
           in (admission, s))"

definition plan_reservation ::
  "calendar \<Rightarrow> (RequestCategory \<times> nat) list \<Rightarrow> Instant \<Rightarrow> VehicleScheduler \<Rightarrow> bool \<times> VehicleScheduler" where
  "plan_reservation cal p now s =
     (let s = refresh_month cal now s;
          probe = list_ex (\<lambda>(c, _). billing_probe_admissible s c now) p
      in if \<not> (requests_allowed s now \<or> probe) then (False, s)
         else let (raised, l) = plan (s_ledger s) p in (raised, s\<lparr>s_ledger := l\<rparr>))"

definition resend_withheld :: "calendar \<Rightarrow> RequestCategory \<Rightarrow> Instant \<Rightarrow> VehicleScheduler \<Rightarrow> VehicleScheduler" where
  "resend_withheld cal c now s = snd (plan_reservation cal [(c, 1)] now s)"

definition list_resend_withheld :: "calendar \<Rightarrow> Instant \<Rightarrow> VehicleScheduler \<Rightarrow> VehicleScheduler" where
  "list_resend_withheld cal now s =
     resend_withheld cal RC_State now
       (if a_state (s_account s) = Acc_BillingSuspended
        then on_account (\<lambda>a. a\<lparr>a_next_billing_probe := Some now, a_probe_time_of_the_tick := Some now\<rparr>) s
        else s)"

definition note_reservation_commit :: "VehicleScheduler \<Rightarrow> VehicleScheduler" where
  "note_reservation_commit =
     on_account (\<lambda>a. a\<lparr>a_reservation_commits := u64_saturating_add (a_reservation_commits a) 1\<rparr>)"

section \<open>Waits\<close>

definition wait_running :: "VehicleScheduler \<Rightarrow> WaitReason \<Rightarrow> Instant \<Rightarrow> bool" where
  "wait_running s reason now \<longleftrightarrow>
     (case a_wait (s_account s) of None \<Rightarrow> False | Some (until, current) \<Rightarrow> current = reason \<and> now < until)"

definition extend_wait :: "Instant \<Rightarrow> WaitReason \<Rightarrow> VehicleScheduler \<Rightarrow> VehicleScheduler" where
  "extend_wait until reason s =
     (if (case a_wait (s_account s) of None \<Rightarrow> False | Some (current, _) \<Rightarrow> until \<le> current) then s
      else on_account (\<lambda>a. a\<lparr>a_wait := Some (until, reason)\<rparr>) s)"

definition wait_remaining :: "VehicleScheduler \<Rightarrow> Instant \<Rightarrow> Duration" where
  "wait_remaining s now =
     (case a_wait (s_account s) of None \<Rightarrow> 0 | Some (until, _) \<Rightarrow> saturating_duration_since until now)"

definition rate_limited :: "nat \<Rightarrow> Instant \<Rightarrow> VehicleScheduler \<Rightarrow> Duration \<times> VehicleScheduler" where
  "rate_limited retry_after_seconds now s =
     (let burst = wait_running s Wait_RateLimited now;
          s = (if burst then s
               else on_account (\<lambda>a. a\<lparr>a_consecutive_429 := u32_saturating_add (a_consecutive_429 a) 1\<rparr>) s);
          named = min (secs retry_after_seconds) K_RETRY_AFTER_MAX;
          (delay, s) =
            (if named \<noteq> 0 then (named, s)
             else if burst then (0, s)
             else let (u, s) = draw_jitter s
                  in (max K_429_DEFAULT
                        (backoff_delay (a_consecutive_429 (s_account s)) (tm_max_backoff (s_timing s)) u), s));
          s = extend_wait (deadline_after now delay) Wait_RateLimited s
      in (wait_remaining s now, s))"

definition unreachable :: "Instant \<Rightarrow> VehicleScheduler \<Rightarrow> Duration \<times> VehicleScheduler" where
  "unreachable now s =
     (let s =
        (if wait_running s Wait_TeslaUnreachable now then s
         else
           let s = on_account (\<lambda>a. a\<lparr>a_consecutive_unreachable :=
                     u32_saturating_add (a_consecutive_unreachable a) 1\<rparr>) s;
               (u, s) = draw_jitter s;
               delay = backoff_delay (a_consecutive_unreachable (s_account s)) (tm_max_backoff (s_timing s)) u
           in extend_wait (deadline_after now delay) Wait_TeslaUnreachable s)
      in (wait_remaining s now, s))"

definition legacy_auth_retry_after :: "VehicleScheduler \<Rightarrow> CollectorError \<Rightarrow> Duration option" where
  "legacy_auth_retry_after s e =
     (case legacy_auth_error_of e of
        Some (LE_AuthUnavailable retry_at) \<Rightarrow>
          let wall_seconds = wall_or_last s div 1000;
              seconds = clamp (case retry_at of None \<Rightarrow> 60 | Some t \<Rightarrow> saturating_sub t wall_seconds) 1 3600
          in Some (secs (nat seconds))
      | _ \<Rightarrow> None)"

definition auth_failed :: "Duration option \<Rightarrow> Instant \<Rightarrow> VehicleScheduler \<Rightarrow> Duration \<times> VehicleScheduler" where
  "auth_failed credential_retry now s =
     (let s =
        (if wait_running s Wait_AuthWait now then s
         else
           let s = on_account (\<lambda>a. a\<lparr>a_auth_failures := u32_saturating_add (a_auth_failures a) 1\<rparr>) s;
               (u, s) = draw_jitter s;
               delay = (case credential_retry of Some d \<Rightarrow> d
                        | None \<Rightarrow> backoff_delay (a_auth_failures (s_account s)) (tm_max_backoff (s_timing s)) u)
           in extend_wait (deadline_after now delay) Wait_AuthWait s)
      in (wait_remaining s now, s))"

definition end_auth_wait :: "Instant \<Rightarrow> VehicleScheduler \<Rightarrow> VehicleScheduler" where
  "end_auth_wait now s =
     (case a_wait (s_account s) of
        Some (_, Wait_AuthWait) \<Rightarrow> on_account (\<lambda>a. a\<lparr>a_wait := None, a_list_wanted := Some now\<rparr>) s
      | _ \<Rightarrow> s)"

definition note_answered :: "VehicleScheduler \<Rightarrow> VehicleScheduler" where
  "note_answered s =
     (if a_consecutive_unreachable (s_account s) = 0 then s
      else on_account (\<lambda>a. a\<lparr>a_consecutive_unreachable := 0,
             a_wait := (case a_wait a of Some (_, Wait_TeslaUnreachable) \<Rightarrow> None | w \<Rightarrow> w)\<rparr>) s)"

definition note_success :: "VehicleScheduler \<Rightarrow> VehicleScheduler" where
  "note_success s =
     on_account (\<lambda>a. a\<lparr>a_consecutive_429 := 0, a_auth_failures := 0,
       a_wait := (case a_wait a of Some (_, Wait_AuthWait) \<Rightarrow> None | w \<Rightarrow> w)\<rparr>) (note_answered s)"

section \<open>States\<close>

definition stop_on_credential :: "VehicleScheduler \<Rightarrow> VehicleScheduler" where
  "stop_on_credential s =
     on_account (\<lambda>a. a\<lparr>a_state := Acc_CredentialStop, a_state_reason := ''auth_terminal'',
       a_state_since_ms := wall_or_last s\<rparr>) s"

definition enter_credential_stop :: "VehicleScheduler \<Rightarrow> VehicleScheduler" where
  "enter_credential_stop s =
     (if a_state (s_account s) \<noteq> Acc_Collecting then s else stop_on_credential s)"

definition enter_fleet_refresh_stop :: "VehicleScheduler \<Rightarrow> VehicleScheduler" where
  "enter_fleet_refresh_stop s =
     (if a_state (s_account s) \<noteq> Acc_Collecting then s else stop_on_credential s)"

definition enter_fleet_refresh_stop_at_start :: "VehicleScheduler \<Rightarrow> VehicleScheduler" where
  "enter_fleet_refresh_stop_at_start s =
     (if a_state (s_account s) = Acc_CredentialStop then s else stop_on_credential s)"

definition clear_credential_stop :: "Instant \<Rightarrow> VehicleScheduler \<Rightarrow> VehicleScheduler" where
  "clear_credential_stop now s =
     (if a_state (s_account s) \<noteq> Acc_CredentialStop then s
      else on_account (\<lambda>a. a\<lparr>a_state := Acc_Collecting, a_state_reason := ''collecting'',
             a_state_since_ms := wall_or_last s, a_list_wanted := Some now\<rparr>) s)"

datatype RefusalCause =
    Cause_Forbidden | Cause_Gone | Cause_PaymentRequired | Cause_CredentialUnitOwnerApi
  | Cause_CredentialUnitClient

definition refusal_for :: "VehicleScheduler \<Rightarrow> RefusalCause \<Rightarrow> AccountState \<times> string" where
  "refusal_for s cause =
     (if s_mode s = CM_Provider
      then (Acc_ProviderRefused,
            case cause of
              Cause_Forbidden \<Rightarrow> ''provider_forbidden''
            | Cause_CredentialUnitOwnerApi \<Rightarrow> ''provider_forbidden''
            | Cause_Gone \<Rightarrow> ''provider_gone''
            | Cause_PaymentRequired \<Rightarrow> ''provider_payment_required''
            | Cause_CredentialUnitClient \<Rightarrow> ''provider_client_refused'')
      else (Acc_OwnerApiRefused,
            case cause of
              Cause_Forbidden \<Rightarrow> ''owner_api_refused''
            | Cause_CredentialUnitOwnerApi \<Rightarrow> ''owner_api_refused''
            | Cause_PaymentRequired \<Rightarrow> ''owner_api_refused''
            | Cause_Gone \<Rightarrow> ''owner_api_gone''
            | Cause_CredentialUnitClient \<Rightarrow> ''owner_api_client_refused''))"

definition enter_account_state :: "AccountState \<Rightarrow> string \<Rightarrow> Instant \<Rightarrow> VehicleScheduler \<Rightarrow> VehicleScheduler" where
  "enter_account_state state reason now s =
     (let probe = Some (deadline_after now K_BILLING_PROBE) in
      if a_state (s_account s) = state \<and> a_state_reason (s_account s) = reason
      then (if state = Acc_BillingSuspended
            then on_account (\<lambda>a. a\<lparr>a_next_billing_probe := probe\<rparr>) s else s)
      else if a_state (s_account s) \<noteq> Acc_Collecting then s
      else on_account (\<lambda>a. a\<lparr>a_state := state, a_state_reason := reason,
             a_state_since_ms := wall_or_last s,
             a_next_billing_probe := (if state = Acc_BillingSuspended then probe else None),
             a_list_wanted := None, a_list_floor := None\<rparr>) s)"

definition enter_refusal :: "RefusalCause \<Rightarrow> Instant \<Rightarrow> VehicleScheduler \<Rightarrow> VehicleScheduler" where
  "enter_refusal cause now s =
     enter_account_state (fst (refusal_for s cause)) (snd (refusal_for s cause)) now s"

fun credential_unit_cause :: "RefusalReason \<Rightarrow> RefusalCause" where
  "credential_unit_cause RF_OwnerApi = Cause_CredentialUnitOwnerApi"
| "credential_unit_cause RF_Client = Cause_CredentialUnitClient"

definition refusal_cause :: "CollectorError \<Rightarrow> RefusalCause" where
  "refusal_cause e =
     (case legacy_auth_error_of e of
        Some (LE_OwnerApiRefused reason) \<Rightarrow> credential_unit_cause reason
      | _ \<Rightarrow> if http_status_of e = Some 402 then Cause_PaymentRequired
             else if http_status_of e = Some 410 then Cause_Gone else Cause_Forbidden)"

definition account_state_failed ::
  "ErrorClass \<Rightarrow> CollectorError \<Rightarrow> Instant \<Rightarrow> VehicleScheduler \<Rightarrow> Duration \<times> VehicleScheduler" where
  "account_state_failed c e now s =
     (case c of
        EC_OwnerApiRefusal \<Rightarrow> (CONTROL_SETTINGS_REFRESH, enter_refusal (refusal_cause e) now s)
      | EC_ProviderRefusal \<Rightarrow> (CONTROL_SETTINGS_REFRESH, enter_refusal (refusal_cause e) now s)
      | EC_FleetAccess \<Rightarrow>
          (CONTROL_SETTINGS_REFRESH,
           enter_account_state Acc_FleetAccessRefused ''fleet_access_refused'' now s)
      | EC_Billing \<Rightarrow>
          (K_BILLING_PROBE, enter_account_state Acc_BillingSuspended ''billing_suspended'' now s)
      | EC_Config \<Rightarrow>
          (CONTROL_SETTINGS_REFRESH,
           enter_account_state Acc_ConfigError
             (if http_status_of e = Some 421 then ''config_wrong_region''
              else ''config_partner_unregistered'') now s)
      | EC_Locked \<Rightarrow>
          (CONTROL_SETTINGS_REFRESH, enter_account_state Acc_AccountLocked ''account_locked'' now s)
      | _ \<Rightarrow> (CONTROL_SETTINGS_REFRESH, s))"

definition list_refused_after_check :: "Instant \<Rightarrow> VehicleScheduler \<Rightarrow> Duration \<times> VehicleScheduler" where
  "list_refused_after_check now s =
     (CONTROL_SETTINGS_REFRESH, enter_refusal Cause_Forbidden now (note_answered s))"

definition request_refusal_check :: "Instant \<Rightarrow> VehicleScheduler \<Rightarrow> VehicleScheduler" where
  "request_refusal_check now = on_account (\<lambda>a. a\<lparr>a_list_wanted := Some now\<rparr>)"

definition resume_from_billing :: "VehicleScheduler \<Rightarrow> VehicleScheduler" where
  "resume_from_billing s =
     (if a_state (s_account s) \<noteq> Acc_BillingSuspended then s
      else on_account (\<lambda>a. a\<lparr>a_state := Acc_Collecting, a_state_reason := ''billing_resumed'',
             a_state_since_ms := wall_or_last s, a_next_billing_probe := None,
             a_probe_time_of_the_tick := None, a_telemetry_check_due := True\<rparr>) s)"

definition account_failed ::
  "ErrorClass \<Rightarrow> CollectorError \<Rightarrow> Instant \<Rightarrow> VehicleScheduler \<Rightarrow> Duration option \<times> VehicleScheduler" where
  "account_failed c e now s =
     (if is_account_state_class c
      then (let (delay, s) = account_state_failed c e now s in (Some delay, s))
      else if \<not> is_account_wait_class c then (None, s)
      else if c = EC_RateLimited
      then (let (delay, s) = rate_limited
              (case rate_limit_retry_after_seconds e of Some n \<Rightarrow> n | None \<Rightarrow> 0) now s
            in (Some delay, s))
      else if c = EC_Unreachable then (let (delay, s) = unreachable now s in (Some delay, s))
      else if c = EC_CredentialStop then (Some CONTROL_SETTINGS_REFRESH, enter_credential_stop s)
      else
        let credential_retry = (case e of CE_FleetCredential fc \<Rightarrow> fleet_refresh_retry_delay fc
              | _ \<Rightarrow> legacy_auth_retry_after s e);
            (delay, s) = auth_failed credential_retry now s
        in (Some delay, s))"

datatype CredentialStateSeen = Seen_Ready | Seen_TerminalStop | Seen_ApiRefused RefusalReason

definition credential_state_seen :: "CredentialStateSeen \<Rightarrow> Instant \<Rightarrow> VehicleScheduler \<Rightarrow> VehicleScheduler" where
  "credential_state_seen seen now s =
     (case seen of
        Seen_Ready \<Rightarrow> clear_credential_stop now s
      | Seen_TerminalStop \<Rightarrow> enter_credential_stop s
      | Seen_ApiRefused kind \<Rightarrow> enter_refusal (credential_unit_cause kind) now s)"

datatype CredentialOutcome =
    CO_AuthUnavailable Duration | CO_OwnerApiRefused RefusalReason | CO_VehicleAccessRejected
  | CO_TerminalStop

definition credential_outcome_for :: "VehicleScheduler \<Rightarrow> CollectorError \<Rightarrow> CredentialOutcome option" where
  "credential_outcome_for s e =
     (case legacy_auth_error_of e of
        None \<Rightarrow> None
      | Some l \<Rightarrow>
          (case l of
             LE_AuthUnavailable _ \<Rightarrow> map_option CO_AuthUnavailable (legacy_auth_retry_after s (CE_LegacyAuth l))
           | LE_OwnerApiRefused reason \<Rightarrow> Some (CO_OwnerApiRefused reason)
           | LE_VehicleAccessRejected \<Rightarrow> Some CO_VehicleAccessRejected
           | _ \<Rightarrow> if is_terminal_auth_failure l then Some CO_TerminalStop else None))"

end
