(* ===== verification/Sched_Ops.thy ===== *)
theory Sched_Ops
  imports Sched_Account
begin

text \<open>
  The car side of the scheduler: settings, lists and records, reads, probes, failures, streams,
  the owner's actions and the wait of the loop (\<open>scheduler.rs\<close>, \<open>scheduler_errors.rs\<close>,
  \<open>scheduler_holds.rs\<close>, \<open>scheduler_sleep.rs\<close>).
\<close>

section \<open>Holds and failures of a car\<close>

definition check_every_vehicle_refused :: "Instant \<Rightarrow> VehicleScheduler \<Rightarrow> VehicleScheduler" where
  "check_every_vehicle_refused now s =
     (let active = filter (\<lambda>(_, v). \<not> is_inactive v) (s_vehicles s) in
      if \<not> is_owner_wire (s_mode s) \<or> a_state (s_account s) \<noteq> Acc_Collecting then s
      else if list_all (\<lambda>(_, v). v_hold v = Hold_Paused Pause_AccessRefused) active \<and> active \<noteq> []
      then enter_refusal Cause_Forbidden now s
      else s)"

definition pause_car :: "PauseReason \<Rightarrow> ErrorClass \<Rightarrow> Instant \<Rightarrow> ScheduledVehicle \<Rightarrow> ScheduledVehicle" where
  "pause_car reason c now v =
     (let v = v\<lparr>v_in_flight := False, v_last_error := Some c\<rparr> in
      if is_inactive v then v
      else (stop_timers v)\<lparr>v_hold := Hold_Paused reason, v_reason := pause_reason_code reason,
             v_next_probe_due := (if reason = Pause_AccessRefused then None
                                  else Some (deadline_after now K_PAUSE_PROBE))\<rparr>)"

definition pause_vehicle ::
  "VehicleId \<Rightarrow> PauseReason \<Rightarrow> ErrorClass \<Rightarrow> Instant \<Rightarrow> VehicleScheduler \<Rightarrow> VehicleScheduler" where
  "pause_vehicle car reason c now s =
     (case car_of s car of
        None \<Rightarrow> s
      | Some v \<Rightarrow>
          let s = on_car car (pause_car reason c now) s
          in if \<not> is_inactive v \<and> reason = Pause_AccessRefused
             then check_every_vehicle_refused now s else s)"

definition failures_persist :: "ScheduledVehicle \<Rightarrow> Instant \<Rightarrow> bool" where
  "failures_persist v now \<longleftrightarrow>
     v_hold v = Hold_None \<and> K_PAUSE_FAILURES \<le> v_consecutive_failures v
     \<and> (case v_first_failure v of None \<Rightarrow> False
        | Some first \<Rightarrow> K_PAUSE_MIN_AGE \<le> saturating_duration_since now first)"

definition pause_if_persistent :: "VehicleId \<Rightarrow> Instant \<Rightarrow> VehicleScheduler \<Rightarrow> VehicleScheduler" where
  "pause_if_persistent car now s =
     (case car_of s car of
        None \<Rightarrow> s
      | Some v \<Rightarrow>
          if failures_persist v now
          then pause_vehicle car Pause_PersistentFailure
                 (case v_last_error v of Some c \<Rightarrow> c | None \<Rightarrow> EC_Transient) now s
          else s)"

definition release_car :: "string \<Rightarrow> Instant \<Rightarrow> int \<Rightarrow> ScheduledVehicle \<Rightarrow> ScheduledVehicle" where
  "release_car reason now wall_ms v =
     (stop_timers (v\<lparr>v_hold := Hold_None, v_next_probe_due := None, v_in_flight := False,
        v_consecutive_failures := 0, v_first_failure := None, v_last_error := None,
        v_offline_from_session := False\<rparr>))
       \<lparr>v_phase := Phase_Unknown, v_phase_since := (now, wall_ms), v_reason := reason\<rparr>"

definition is_held :: "ScheduledVehicle \<Rightarrow> bool" where
  "is_held v \<longleftrightarrow> v_hold v = Hold_Service \<or> is_paused (v_hold v)"

definition release_hold :: "VehicleId \<Rightarrow> string \<Rightarrow> Instant \<Rightarrow> VehicleScheduler \<Rightarrow> bool \<times> VehicleScheduler" where
  "release_hold car reason now s =
     (case car_of s car of
        None \<Rightarrow> (False, s)
      | Some v \<Rightarrow> if is_held v then (True, on_car car (release_car reason now (wall_or_last s)) s)
                  else (False, s))"

definition not_found_car :: "Timing \<Rightarrow> Instant \<Rightarrow> ScheduledVehicle \<Rightarrow> ScheduledVehicle" where
  "not_found_car timing now v =
     (let v = v\<lparr>v_in_flight := False, v_last_error := Some EC_NotFound, v_not_found_check := True\<rparr>;
          v = (if v_hold v = Hold_None \<and> \<not> (v_phase v = Phase_Suspended \<and> \<not> v_suspension_read v)
                  \<and> v_next_read_due v \<noteq> None
               then v\<lparr>v_next_read_due := Some (deadline_after now (car_interval v timing now))\<rparr> else v)
      in if v_next_check_due v \<noteq> None
         then v\<lparr>v_next_check_due := Some (deadline_after now (state_interval timing (v_phase v)))\<rparr>
         else v)"

definition vehicle_not_found :: "VehicleId \<Rightarrow> Instant \<Rightarrow> VehicleScheduler \<Rightarrow> VehicleScheduler" where
  "vehicle_not_found car now s =
     (case car_of s car of
        None \<Rightarrow> s
      | Some _ \<Rightarrow> on_account (\<lambda>a. a\<lparr>a_list_wanted := Some now\<rparr>)
                    (on_car car (not_found_car (s_timing s) now) s))"

definition service_car :: "Instant \<Rightarrow> ScheduledVehicle \<Rightarrow> ScheduledVehicle" where
  "service_car now v =
     (let v = v\<lparr>v_in_flight := False\<rparr> in
      if is_inactive v \<or> v_hold v = Hold_Service then v
      else (stop_timers v)\<lparr>v_hold := Hold_Service, v_reason := ''service_entered'',
             v_next_probe_due := Some (deadline_after now K_SERVICE_PROBE),
             v_consecutive_failures := 0, v_first_failure := None,
             v_last_error := Some EC_InService\<rparr>)"

definition enter_service_mode :: "VehicleId \<Rightarrow> Instant \<Rightarrow> VehicleScheduler \<Rightarrow> bool \<times> VehicleScheduler" where
  "enter_service_mode car now s =
     (case car_of s car of
        None \<Rightarrow> (False, s)
      | Some v \<Rightarrow> (\<not> is_inactive v \<and> v_hold v \<noteq> Hold_Service, on_car car (service_car now) s))"

text \<open>The read time a failed read gets; a suspended car has no timed read but its last one.\<close>

definition read_after :: "Instant \<Rightarrow> Duration \<Rightarrow> ScheduledVehicle \<Rightarrow> Instant option" where
  "read_after now delay v =
     (if v_phase v = Phase_Suspended \<and> \<not> v_suspension_read v then None
      else Some (deadline_after now delay))"

definition failed_car ::
  "Timing \<Rightarrow> ErrorClass \<Rightarrow> f64 \<Rightarrow> Instant \<Rightarrow> ScheduledVehicle \<Rightarrow> ScheduledVehicle" where
  "failed_car timing c u now v =
     (let v = v\<lparr>v_consecutive_failures := u32_saturating_add (v_consecutive_failures v) 1,
                v_first_failure := (case v_first_failure v of None \<Rightarrow> Some now | Some t \<Rightarrow> Some t),
                v_last_error := Some c\<rparr>;
          delay = max (car_interval v timing now)
                    (backoff_delay (v_consecutive_failures v) (tm_max_backoff timing) u)
      in v\<lparr>v_next_read_due := read_after now delay v\<rparr>)"

definition count_vehicle_failure ::
  "VehicleId \<Rightarrow> ErrorClass \<Rightarrow> Instant \<Rightarrow> VehicleScheduler \<Rightarrow> VehicleScheduler" where
  "count_vehicle_failure car c now s =
     (let (u, s) = draw_jitter s in
      pause_if_persistent car now (on_car car (failed_car (s_timing s) c u now) s))"

definition schedule_offline_state_fetch :: "VehicleId \<Rightarrow> Instant \<Rightarrow> VehicleScheduler \<Rightarrow> VehicleScheduler" where
  "schedule_offline_state_fetch car now s =
     (case car_of s car of
        None \<Rightarrow> s
      | Some v \<Rightarrow>
          if is_inactive v then s
          else if is_owner_wire (s_mode s) then on_car car (\<lambda>v. v\<lparr>v_next_check_due := Some now\<rparr>) s
          else on_account (\<lambda>a. a\<lparr>a_list_wanted := Some now\<rparr>) s)"

definition read_unavailable :: "VehicleId \<Rightarrow> Instant \<Rightarrow> VehicleScheduler \<Rightarrow> VehicleScheduler" where
  "read_unavailable car now s =
     (case car_of s car of
        None \<Rightarrow> s
      | Some _ \<Rightarrow>
          schedule_offline_state_fetch car now
            (on_car car (\<lambda>v. v\<lparr>v_unavailable_check := True,
               v_next_read_due := read_after now (car_interval v (s_timing s) now) v\<rparr>) s))"

text \<open>A gated read that was sent moves a car the stream showed in motion to Driving.\<close>

definition gated_to_driving :: "Timing \<Rightarrow> Instant \<Rightarrow> int \<Rightarrow> ScheduledVehicle \<Rightarrow> ScheduledVehicle" where
  "gated_to_driving timing now wall_ms v =
     (if v_gated_read v = Some Gated_Motion \<and> v_phase v = Phase_Suspended
      then enter_phase timing (v\<lparr>v_gated_read := None\<rparr>) Phase_Driving now wall_ms ''use_evidence_stream''
      else v)"

definition release_car_after_account_failure ::
  "Timing \<Rightarrow> Instant option \<Rightarrow> ErrorClass \<Rightarrow> Instant \<Rightarrow> int \<Rightarrow> ScheduledVehicle \<Rightarrow> ScheduledVehicle" where
  "release_car_after_account_failure timing until c now wall_ms v =
     (let v = gated_to_driving timing now wall_ms (v\<lparr>v_in_flight := False, v_last_error := Some c\<rparr>) in
      if v_phase v = Phase_Suspended \<and> \<not> v_suspension_read v then v
      else
        let due = (case v_next_read_due v of Some due \<Rightarrow> due | None \<Rightarrow> now)
        in v\<lparr>v_next_read_due := Some (case until of None \<Rightarrow> due | Some t \<Rightarrow> max due t)\<rparr>)"

definition release_after_account_failure ::
  "VehicleId \<Rightarrow> ErrorClass \<Rightarrow> Instant \<Rightarrow> VehicleScheduler \<Rightarrow> VehicleScheduler" where
  "release_after_account_failure car c now s =
     on_car car (release_car_after_account_failure (s_timing s) (map_option fst (a_wait (s_account s)))
       c now (wall_or_last s)) s"

datatype FailureEffect = Effect_Counted | Effect_ServiceEntered

text \<open>The first part of the car's own failure: the gate is used up and the read has ended.\<close>

definition settle_failed_read :: "Timing \<Rightarrow> Instant \<Rightarrow> int \<Rightarrow> ScheduledVehicle \<Rightarrow> ScheduledVehicle" where
  "settle_failed_read timing now wall_ms v =
     (gated_to_driving timing now wall_ms (v\<lparr>v_in_flight := False\<rparr>))\<lparr>v_gated_read := None\<rparr>"

definition vehicle_class_failure ::
  "VehicleId \<Rightarrow> ErrorClass \<Rightarrow> Instant \<Rightarrow> VehicleScheduler \<Rightarrow> FailureEffect \<times> VehicleScheduler" where
  "vehicle_class_failure car c now s =
     (case car_of s car of
        None \<Rightarrow> (Effect_Counted, s)
      | Some v \<Rightarrow>
          if v_phase v = Phase_Updating \<and> c = EC_Unavailable
          then (Effect_Counted, on_car car (\<lambda>v. v\<lparr>v_gated_read := None, v_in_flight := False,
                  v_next_read_due := Some (deadline_after now
                    (car_interval (v\<lparr>v_gated_read := None, v_in_flight := False\<rparr>) (s_timing s) now))\<rparr>) s)
          else
            let s = on_car car (settle_failed_read (s_timing s) now (wall_or_last s)) s
            in (case c of
                  EC_Unavailable \<Rightarrow> (Effect_Counted, read_unavailable car now s)
                | EC_NotFound \<Rightarrow> (Effect_Counted, vehicle_not_found car now s)
                | EC_InService \<Rightarrow>
                    (let (entered, s) = enter_service_mode car now s
                     in (if entered then Effect_ServiceEntered else Effect_Counted, s))
                | EC_MobileAccessDisabled \<Rightarrow>
                    (Effect_Counted, pause_vehicle car Pause_MobileAccessDisabled c now s)
                | EC_LegalPrivacy \<Rightarrow> (Effect_Counted, pause_vehicle car Pause_LegalPrivacy c now s)
                | EC_AccessRefused \<Rightarrow> (Effect_Counted, pause_vehicle car Pause_AccessRefused c now s)
                | _ \<Rightarrow> (Effect_Counted, count_vehicle_failure car c now s)))"

definition gate_not_confirmed :: "VehicleId \<Rightarrow> VehicleScheduler \<Rightarrow> VehicleScheduler" where
  "gate_not_confirmed car =
     on_car car (\<lambda>v.
       let v = v\<lparr>v_in_flight := False, v_gated_read := None\<rparr>
       in if v_phase v = Phase_Suspended \<and> \<not> v_suspension_read v then v\<lparr>v_next_read_due := None\<rparr> else v)"

definition credential_outcome ::
  "VehicleId option \<Rightarrow> CredentialOutcome \<Rightarrow> Instant \<Rightarrow> VehicleScheduler \<Rightarrow> Duration \<times> VehicleScheduler" where
  "credential_outcome car outcome now s =
     (let release = (\<lambda>c s. case car of None \<Rightarrow> s | Some car \<Rightarrow> release_after_account_failure car c now s) in
      case outcome of
        CO_AuthUnavailable retry_after \<Rightarrow>
          (let (delay, s) = auth_failed (Some retry_after) now s in (delay, release EC_AuthWait s))
      | CO_OwnerApiRefused kind \<Rightarrow>
          (let s = note_answered s;
               c = (if fst (refusal_for s (credential_unit_cause kind)) = Acc_ProviderRefused
                    then EC_ProviderRefusal else EC_OwnerApiRefusal)
           in (CONTROL_SETTINGS_REFRESH, release c (enter_refusal (credential_unit_cause kind) now s)))
      | CO_VehicleAccessRejected \<Rightarrow>
          (0, case car of
                None \<Rightarrow> note_answered s
              | Some car \<Rightarrow> snd (vehicle_class_failure car EC_ClientError now (note_answered s)))
      | CO_TerminalStop \<Rightarrow>
          (CONTROL_SETTINGS_REFRESH, release EC_CredentialStop (enter_credential_stop s)))"

definition vehicle_failed_for_error ::
  "VehicleId \<Rightarrow> CollectorError \<Rightarrow> Instant \<Rightarrow> VehicleScheduler \<Rightarrow> FailureEffect \<times> VehicleScheduler" where
  "vehicle_failed_for_error car e now s =
     (case credential_outcome_for s e of
        Some outcome \<Rightarrow> (Effect_Counted, snd (credential_outcome (Some car) outcome now s))
      | None \<Rightarrow>
          let c = classify e Kind_Read (s_mode s) in
          if c = EC_GateNotConfirmed then (Effect_Counted, gate_not_confirmed car s)
          else
            let s = (if c \<noteq> EC_Unreachable then note_answered s else s);
                (held, s) = account_failed c e now s
            in if held \<noteq> None then (Effect_Counted, release_after_account_failure car c now s)
               else
                 let s = (if is_owner_wire (s_mode s) \<and> is_owner_wire_forbidden e
                          then request_refusal_check now s else s)
                 in vehicle_class_failure car c now s)"

definition offline_state_failed_for_error ::
  "VehicleId \<Rightarrow> CollectorError \<Rightarrow> Instant \<Rightarrow> VehicleScheduler \<Rightarrow> VehicleScheduler" where
  "offline_state_failed_for_error car e now s =
     (let c = classify e Kind_Record (s_mode s);
          s = (if c \<noteq> EC_Unreachable \<and> c \<noteq> EC_GateNotConfirmed then note_answered s else s);
          (held, s) = account_failed c e now s
      in if held \<noteq> None then s
         else
           let s = (if is_owner_wire (s_mode s) \<and> is_owner_wire_forbidden e
                    then request_refusal_check now s else s);
               again = (\<lambda>v. v\<lparr>v_next_check_due :=
                 Some (deadline_after now (state_interval (s_timing s) (v_phase v)))\<rparr>);
               s = (case c of
                      EC_NotFound \<Rightarrow> vehicle_not_found car now s
                    | EC_MobileAccessDisabled \<Rightarrow> pause_vehicle car Pause_MobileAccessDisabled c now s
                    | EC_LegalPrivacy \<Rightarrow> pause_vehicle car Pause_LegalPrivacy c now s
                    | EC_AccessRefused \<Rightarrow> pause_vehicle car Pause_AccessRefused c now s
                    | _ \<Rightarrow>
                        if c \<in> {EC_Transient, EC_Protocol, EC_ClientError}
                        then pause_if_persistent car now
                          (on_car car (\<lambda>v. again (v\<lparr>
                             v_consecutive_failures := u32_saturating_add (v_consecutive_failures v) 1,
                             v_first_failure := (case v_first_failure v of None \<Rightarrow> Some now | Some t \<Rightarrow> Some t),
                             v_last_error := Some c\<rparr>)) s)
                        else on_car car (\<lambda>v. again (v\<lparr>v_last_error := Some c\<rparr>)) s)
           in on_car car (\<lambda>v. if v_hold v \<noteq> Hold_None then v\<lparr>v_next_check_due := None\<rparr> else v) s)"

section \<open>The list\<close>

definition discovery_failed :: "Instant \<Rightarrow> VehicleScheduler \<Rightarrow> Duration \<times> VehicleScheduler" where
  "discovery_failed now s =
     (let s = on_account (\<lambda>a. a\<lparr>a_discovery_failures := u32_saturating_add (a_discovery_failures a) 1\<rparr>) s;
          (u, s) = draw_jitter s;
          delay = max (list_interval s)
            (backoff_delay (a_discovery_failures (s_account s)) (tm_max_backoff (s_timing s)) u)
      in (delay, on_account (\<lambda>a. a\<lparr>a_list_floor := Some (deadline_after now delay)\<rparr>) s))"

definition discovery_failed_for_error ::
  "CollectorError \<Rightarrow> Instant \<Rightarrow> VehicleScheduler \<Rightarrow> Duration \<times> VehicleScheduler" where
  "discovery_failed_for_error e now s =
     (let (delay, s) =
        (case credential_outcome_for s e of
           Some outcome \<Rightarrow> credential_outcome None outcome now s
         | None \<Rightarrow>
             let c = classify e Kind_List (s_mode s);
                 s = (if c \<noteq> EC_Unreachable then note_answered s else s);
                 (held, s) = account_failed c e now s
             in (case held of Some delay \<Rightarrow> (delay, s) | None \<Rightarrow> discovery_failed now s))
      in (if a_state (s_account s) = Acc_Collecting then delay else min delay CONTROL_SETTINGS_REFRESH, s))"

text \<open>One car of an accepted list: the record it has afterwards and what the list asks for.\<close>

definition listed_car ::
  "Timing \<Rightarrow> RestoredVehicle option \<Rightarrow> Vehicle \<Rightarrow> Instant \<Rightarrow> int \<Rightarrow> ScheduledVehicle option
     \<Rightarrow> bool \<times> bool \<times> ScheduledVehicle" where
  "listed_car timing restored incoming now wall_ms existing =
     (let restore = (\<lambda>v. case restored of None \<Rightarrow> v | Some r \<Rightarrow> apply_restored v r now wall_ms);
          v = (case existing of
                 None \<Rightarrow> restore (ScheduledVehicle_new incoming now wall_ms)
               | Some v \<Rightarrow> if v_placeholder v then restore (v\<lparr>v_placeholder := False\<rparr>) else v);
          v = v\<lparr>v_vehicle := incoming\<lparr>vh_settings := vh_settings (v_vehicle v)\<rparr>\<rparr>;
          v = note_listed v now wall_ms;
          (revoke, v) = apply_reported_state timing v (vh_state incoming) now wall_ms;
          (unavailable_online, v) = settle_unavailable v (vh_state incoming)
      in (revoke, unavailable_online, v))"

definition accept_listed ::
  "Instant \<Rightarrow> int \<Rightarrow> VehicleScheduler \<times> VehicleId list \<times> Vehicle list \<Rightarrow> Vehicle
     \<Rightarrow> VehicleScheduler \<times> VehicleId list \<times> Vehicle list" where
  "accept_listed now wall_ms acc incoming =
     (let (s, unavailable, candidates) = acc;
          car = vh_id incoming;
          (revoke, unavailable_online, v) =
            listed_car (s_timing s) (bt_get (s_restored s) car) incoming now wall_ms (car_of s car)
      in (s\<lparr>s_vehicles := bt_insert car v (s_vehicles s),
            s_gate_revocations := (if revoke then insert car (s_gate_revocations s) else s_gate_revocations s)\<rparr>,
          if unavailable_online then unavailable @ [car] else unavailable,
          if is_inactive v then candidates else candidates @ [v_vehicle v]))"

definition unlisted_car :: "Duration \<Rightarrow> Instant \<Rightarrow> ScheduledVehicle \<Rightarrow> ScheduledVehicle" where
  "unlisted_car inventory_interval now v =
     (let spaced = (v_not_found_check v \<or> (case v_missing_last v of None \<Rightarrow> True
            | Some prev \<Rightarrow> inventory_interval \<le> saturating_duration_since now prev));
          v = v\<lparr>v_not_found_check := False\<rparr>
      in if \<not> spaced then v
         else
           let v = v\<lparr>v_missing_lists := u8_saturating_add (v_missing_lists v) 1, v_missing_last := Some now\<rparr>
           in if v_missing_lists v < K_REMOVE_LISTS then v
              else stop_timers (v\<lparr>v_hold := Hold_Removed, v_reason := ''vehicle_removed'',
                     v_next_probe_due := None\<rparr>))"

definition note_unlisted :: "VehicleId set \<Rightarrow> Instant \<Rightarrow> VehicleScheduler \<Rightarrow> VehicleScheduler" where
  "note_unlisted present now s =
     s\<lparr>s_vehicles := map (\<lambda>(car, v).
         (car, if car \<notin> present \<and> (v_hold v = Hold_None \<or> is_held v)
               then unlisted_car (tm_inventory (s_timing s)) now v else v)) (s_vehicles s)\<rparr>"

definition accept_discovery :: "Vehicle list \<Rightarrow> Instant \<Rightarrow> VehicleScheduler \<Rightarrow> Vehicle list \<times> VehicleScheduler" where
  "accept_discovery listed now s =
     (let (s, unavailable, candidates) = foldl (accept_listed now (wall_or_last s)) (s, [], []) listed;
          s = foldl (\<lambda>s car. count_vehicle_failure car EC_Transient now s) s unavailable;
          s = note_unlisted (set (map vh_id listed)) now s;
          s = resume_from_billing (note_success s)
      in (candidates,
          on_account (\<lambda>a. a\<lparr>a_last_discovery := Some now, a_list_floor := None, a_list_wanted := None,
            a_discovery_failures := 0\<rparr>) s))"

definition recorded_car ::
  "Timing \<Rightarrow> string \<Rightarrow> Instant \<Rightarrow> int \<Rightarrow> ScheduledVehicle \<Rightarrow> bool \<times> bool \<times> ScheduledVehicle" where
  "recorded_car timing state now wall_ms v =
     (let v = note_listed (v\<lparr>v_next_check_due := None\<rparr>) now wall_ms;
          (revoke, v) = apply_reported_state timing v state now wall_ms;
          (unavailable_online, v) = settle_unavailable v state
      in (revoke, unavailable_online, v))"

definition accept_vehicle_state ::
  "VehicleId \<Rightarrow> string \<Rightarrow> Instant \<Rightarrow> VehicleScheduler \<Rightarrow> Vehicle list \<times> VehicleScheduler" where
  "accept_vehicle_state car state now s =
     (case car_of s car of
        None \<Rightarrow> ([], s)
      | Some v0 \<Rightarrow>
          let (revoke, unavailable_online, v) = recorded_car (s_timing s) state now (wall_or_last s) v0;
              s = on_car car (\<lambda>_. v) s;
              s = (if revoke then s\<lparr>s_gate_revocations := insert car (s_gate_revocations s)\<rparr> else s);
              s = (if unavailable_online then count_vehicle_failure car EC_Transient now s else s)
          in (if is_inactive v then [] else [v_vehicle v], note_success s))"

section \<open>A successful read\<close>

text \<open>
  The car after a read that showed \<open>phase\<close>; the result says whether the stream power gate must be
  revoked. A car whose snapshot shows no use goes to sleep again, at once or when its idle window
  has passed.
\<close>

definition succeeded_phase ::
  "Timing \<Rightarrow> PollPhase \<Rightarrow> bool \<Rightarrow> bool \<Rightarrow> bool \<Rightarrow> Instant \<Rightarrow> int \<Rightarrow> ScheduledVehicle \<Rightarrow> ScheduledVehicle" where
  "succeeded_phase timing phase sleep_eligible gated wake_read now wall_ms v =
     (if is_session phase
      then enter_phase timing v phase now wall_ms
             (if gated then ''use_evidence_stream'' else ''use_evidence_snapshot'')
      else if \<not> sleep_eligible
      then (enter_phase timing v phase now wall_ms
              (if gated then ''use_evidence_stream''
               else if v_phase v = Phase_Suspended then ''use_evidence_snapshot''
               else if wake_read then ''wake_read'' else ''reported_online''))\<lparr>v_suspend_at := None\<rparr>
      else if v_phase v = Phase_Suspended then v
      else
        let v = enter_phase timing v phase now wall_ms (if wake_read then ''wake_read'' else ''reported_online'')
        in if wake_read
           then v\<lparr>v_suspend_at := Some (if st_connected (v_stream v) then now else deadline_after now K_WAKE_WATCH)\<rparr>
           else if v_suspend_at v = None
           then v\<lparr>v_suspend_at := Some (deadline_after (case v_last_in_use v of None \<Rightarrow> now | Some t \<Rightarrow> t)
                  (es_suspend_after_idle (v_settings v)))\<rparr>
           else v)"

definition succeeded_car ::
  "Timing \<Rightarrow> PollPhase \<Rightarrow> bool \<Rightarrow> Instant \<Rightarrow> int \<Rightarrow> ScheduledVehicle \<Rightarrow> bool \<times> ScheduledVehicle" where
  "succeeded_car timing phase sleep_eligible now wall_ms v0 =
     (let gated = v_gated_read v0 \<noteq> None;
          wake_read = v_wake_read_pending v0;
          suspend_again = (\<not> is_session phase \<and> sleep_eligible \<and> v_phase v0 = Phase_Suspended);
          v = v0\<lparr>v_gated_read := None, v_wake_read_pending := False, v_suspension_read := False,
                 v_in_flight := False, v_last_read := Some now, v_last_success := Some (now, wall_ms),
                 v_consecutive_failures := 0, v_first_failure := None, v_last_error := None,
                 v_unavailable_check := False, v_offline_from_session := False\<rparr>;
          v = (if sleep_eligible then v else v\<lparr>v_last_in_use := Some now\<rparr>);
          v = succeeded_phase timing phase sleep_eligible gated wake_read now wall_ms v;
          v = (case read_interval timing (v_phase v) (stream_healthy_for_cadence v now) of
                 None \<Rightarrow> v
               | Some interval \<Rightarrow> v\<lparr>v_next_read_due := Some (deadline_after now interval)\<rparr>)
      in if suspend_again
            \<or> v_hold v = Hold_None \<and> v_phase v = Phase_Online
              \<and> (case v_suspend_at v of None \<Rightarrow> False | Some t \<Rightarrow> t \<le> now)
         then (True, begin_suspension timing v now wall_ms (deadline_after now (es_suspend (v_settings v)))
                 ''suspended_idle'')
         else (False, v))"

definition vehicle_succeeded ::
  "VehicleId \<Rightarrow> PollPhase \<Rightarrow> bool \<Rightarrow> Instant \<Rightarrow> VehicleScheduler \<Rightarrow> VehicleScheduler" where
  "vehicle_succeeded car phase sleep_eligible now s =
     (let wall_ms = wall_or_last s;
          s = note_success s
      in case car_of s car of
           None \<Rightarrow> s
         | Some v \<Rightarrow>
             let (revoke, w) = succeeded_car (s_timing s) phase sleep_eligible now wall_ms v;
                 s = on_car car (\<lambda>_. w) s
             in if revoke then s\<lparr>s_gate_revocations := insert car (s_gate_revocations s)\<rparr> else s)"

end
