(* ===== verification/Sched_Due.thy ===== *)
theory Sched_Due
  imports Sched_Ops
begin

text \<open>
  The choice of the reads to send (\<open>advance_timers\<close>, \<open>due_vehicles\<close> and the power gate of
  \<open>scheduler.rs\<close> and \<open>scheduler_sleep.rs\<close>), and what the scheduler promises about it: how many
  reads run at once, which car comes first, and when a car or the whole account is left alone.
\<close>

section \<open>The operations\<close>

definition advance_timers :: "Instant \<Rightarrow> VehicleScheduler \<Rightarrow> VehicleScheduler" where
  "advance_timers now s =
     (let step = advance_car (s_timing s) now (wall_or_last s) in
      s\<lparr>s_vehicles := map (\<lambda>(car, v). (car, snd (step v))) (s_vehicles s),
        s_gate_revocations := s_gate_revocations s
          \<union> set (map fst (filter (\<lambda>(car, v). fst (step v)) (s_vehicles s)))\<rparr>)"

definition in_flight_count :: "VehicleScheduler \<Rightarrow> nat" where
  "in_flight_count s = length (filter (\<lambda>(car, v). v_in_flight v) (s_vehicles s))"

definition read_is_due :: "Instant \<Rightarrow> ScheduledVehicle \<Rightarrow> Instant option" where
  "read_is_due now v =
     (if v_hold v = Hold_None \<and> \<not> v_in_flight v
      then (case v_next_read_due v of None \<Rightarrow> None | Some due \<Rightarrow> if due \<le> now then Some due else None)
      else None)"

definition reads_due :: "Instant \<Rightarrow> VehicleScheduler \<Rightarrow> (Instant \<times> VehicleId) list" where
  "reads_due now s =
     concat (map (\<lambda>(car, v). case read_is_due now v of None \<Rightarrow> [] | Some due \<Rightarrow> [(due, car)]) (s_vehicles s))"

definition due_vehicles :: "Instant \<Rightarrow> VehicleScheduler \<Rightarrow> VehicleId list \<times> VehicleScheduler" where
  "due_vehicles now s =
     (let s = advance_timers now s in
      if \<not> requests_allowed s now then ([], s)
      else
        let cars = map snd (take (K_MAX_IN_FLIGHT - in_flight_count s) (sort (reads_due now s)))
        in (cars, foldl (\<lambda>s car. on_car car (\<lambda>v. v\<lparr>v_in_flight := True\<rparr>) s) s cars))"

definition release_in_flight :: "VehicleScheduler \<Rightarrow> VehicleScheduler" where
  "release_in_flight s =
     s\<lparr>s_vehicles := map (\<lambda>(car, v). (car, v\<lparr>v_in_flight := False\<rparr>)) (s_vehicles s)\<rparr>"

definition requires_live_stream_power_gate :: "VehicleScheduler \<Rightarrow> VehicleId \<Rightarrow> bool" where
  "requires_live_stream_power_gate s car =
     (case car_of s car of None \<Rightarrow> False
      | Some v \<Rightarrow> v_gated_read v \<noteq> None \<and> v_phase v = Phase_Suspended)"

section \<open>Frames\<close>

lemma on_account_frame [simp]:
  "s_vehicles (on_account f s) = s_vehicles s" "s_account (on_account f s) = f (s_account s)"
  "s_timing (on_account f s) = s_timing s" "s_mode (on_account f s) = s_mode s"
  "s_clock (on_account f s) = s_clock s" "s_clock_watch (on_account f s) = s_clock_watch s"
  by (simp_all add: on_account_def)

lemma on_car_frame [simp]:
  "s_vehicles (on_car car f s) = bt_modify car f (s_vehicles s)" "s_account (on_car car f s) = s_account s"
  "s_timing (on_car car f s) = s_timing s" "s_mode (on_car car f s) = s_mode s"
  "s_clock (on_car car f s) = s_clock s" "s_clock_watch (on_car car f s) = s_clock_watch s"
  by (simp_all add: on_car_def)

lemma draw_jitter_frame [simp]:
  "s_vehicles (snd (draw_jitter s)) = s_vehicles s" "s_account (snd (draw_jitter s)) = s_account s"
  "s_timing (snd (draw_jitter s)) = s_timing s" "s_mode (snd (draw_jitter s)) = s_mode s"
  by (simp_all add: draw_jitter_def case_prod_unfold Let_def)

lemma advance_timers_frame [simp]:
  "s_account (advance_timers now s) = s_account s" "s_timing (advance_timers now s) = s_timing s"
  "map fst (s_vehicles (advance_timers now s)) = map fst (s_vehicles s)"
  by (simp_all add: advance_timers_def Let_def case_prod_unfold comp_def)

lemma bt_ok_advance [simp]: "bt_ok (s_vehicles (advance_timers now s)) = bt_ok (s_vehicles s)"
  by (simp add: bt_ok_def)

lemma car_of_advance:
  "car_of (advance_timers now s) car =
     map_option (\<lambda>v. snd (advance_car (s_timing s) now (wall_or_last s) v)) (car_of s car)"
  by (simp add: advance_timers_def Let_def bt_get_def map_of_map)

lemma requests_allowed_advance [simp]: "requests_allowed (advance_timers now s) t = requests_allowed s t"
  by (simp add: requests_allowed_def)

section \<open>The chosen reads\<close>

lemma in_due_entries:
  "(due, car) \<in> set (concat (map (\<lambda>(car, v). case f v of None \<Rightarrow> [] | Some due \<Rightarrow> [(due, car)]) m))
    \<longleftrightarrow> (\<exists>v. (car, v) \<in> set m \<and> f v = Some due)"
  by (induction m) (auto split: option.splits)

lemma in_reads_due:
  assumes "bt_ok (s_vehicles s)"
  shows "(due, car) \<in> set (reads_due now s) \<longleftrightarrow>
    (\<exists>v. car_of s car = Some v \<and> read_is_due now v = Some due)"
proof -
  have "(due, car) \<in> set (reads_due now s) \<longleftrightarrow>
    (\<exists>v. (car, v) \<in> set (s_vehicles s) \<and> read_is_due now v = Some due)"
    unfolding reads_due_def by (rule in_due_entries)
  then show ?thesis by (simp only: bt_get_iff [OF assms])
qed

lemma read_is_due_iff:
  "read_is_due now v = Some due \<longleftrightarrow>
     v_hold v = Hold_None \<and> \<not> v_in_flight v \<and> v_next_read_due v = Some due \<and> due \<le> now"
  by (auto simp: read_is_due_def split: option.splits if_splits)

text \<open>Marking distinct cars raises the number in flight by at most one each.\<close>

lemma count_mark:
  assumes "bt_ok m"
  shows "length (filter (\<lambda>(car, v). v_in_flight v) (bt_modify k (\<lambda>v. v\<lparr>v_in_flight := True\<rparr>) m))
    \<le> Suc (length (filter (\<lambda>(car, v). v_in_flight v) m))"
  using assms
proof (induction m)
  case (Cons e m)
  obtain i v where e: "e = (i, v)" by force
  have ok: "bt_ok m" using Cons.prems by (simp add: bt_ok_def)
  show ?case
  proof (cases "i = k")
    case True
    then have "\<forall>x \<in> set m. fst x \<noteq> k" using Cons.prems e by (force simp: bt_ok_def)
    then have "bt_modify k (\<lambda>v. v\<lparr>v_in_flight := True\<rparr>) m = m"
      by (auto simp: bt_modify_def intro!: map_idI)
    then show ?thesis using e by (simp add: bt_modify_def)
  next
    case False
    then show ?thesis using Cons.IH [OF ok] e by (simp add: bt_modify_def)
  qed
qed (simp add: bt_modify_def)

lemma in_flight_mark:
  assumes "bt_ok (s_vehicles s)"
  shows "in_flight_count (foldl (\<lambda>s car. on_car car (\<lambda>v. v\<lparr>v_in_flight := True\<rparr>) s) s cars)
    \<le> in_flight_count s + length cars"
  using assms
proof (induction cars arbitrary: s)
  case (Cons car cars)
  let ?s = "on_car car (\<lambda>v. v\<lparr>v_in_flight := True\<rparr>) s"
  have "in_flight_count ?s \<le> Suc (in_flight_count s)"
    using count_mark [OF Cons.prems, of car] by (simp add: in_flight_count_def)
  moreover have "bt_ok (s_vehicles ?s)" using Cons.prems by simp
  ultimately show ?case using Cons.IH [of ?s] by simp
qed simp

lemma advance_car_in_flight [simp]: "v_in_flight (snd (advance_car timing now wall_ms v)) = v_in_flight v"
  by (simp add: advance_car_def begin_suspension_def enter_phase_def clear_pending_reads_def Let_def
      split: option.splits)

lemma in_flight_advance [simp]: "in_flight_count (advance_timers now s) = in_flight_count s"
  by (simp add: in_flight_count_def advance_timers_def Let_def filter_map comp_def case_prod_unfold)

lemma sorted_take_first:
  assumes "x \<in> set (take n (sort xs))" "y \<in> set xs" "y \<notin> set (take n (sort xs))"
  shows "x \<le> (y :: 'a :: linorder)"
proof -
  have y: "y \<in> set (drop n (sort xs))"
    using assms(2,3) set_append [of "take n (sort xs)" "drop n (sort xs)"] by auto
  have "sorted (take n (sort xs) @ drop n (sort xs))" by simp
  then show ?thesis using assms(1) y unfolding sorted_append by blast
qed

section \<open>The account waits\<close>

lemma extend_wait_frame [simp]:
  "s_vehicles (extend_wait until reason s) = s_vehicles s"
  "a_state (s_account (extend_wait until reason s)) = a_state (s_account s)"
  by (simp_all add: extend_wait_def)

lemma no_reads_while_waiting: "\<not> requests_allowed s t \<Longrightarrow> fst (due_vehicles t s) = []"
  by (simp add: due_vehicles_def Let_def)

lemma extend_wait_rate_limit:
  assumes "\<forall>t r. a_wait (s_account s) = Some (t, r) \<longrightarrow> r = Wait_RateLimited"
  shows "\<exists>t. a_wait (s_account (extend_wait until Wait_RateLimited s)) = Some (t, Wait_RateLimited)
    \<and> until \<le> t"
proof (cases "a_wait (s_account s)")
  case (Some w)
  then obtain t where "a_wait (s_account s) = Some (t, Wait_RateLimited)" using assms by (cases w) auto
  then show ?thesis by (cases "until \<le> t") (simp_all add: extend_wait_def)
qed (simp add: extend_wait_def)

lemma rate_limited_named:
  assumes "min (secs n) K_RETRY_AFTER_MAX \<noteq> 0"
  shows "snd (rate_limited n now s) =
    extend_wait (deadline_after now (min (secs n) K_RETRY_AFTER_MAX)) Wait_RateLimited
      (if wait_running s Wait_RateLimited now then s
       else on_account (\<lambda>a. a\<lparr>a_consecutive_429 := u32_saturating_add (a_consecutive_429 a) 1\<rparr>) s)"
  using assms unfolding rate_limited_def Let_def by (simp only: if_True not_False_eq_True prod.case snd_conv)

lemma note_success_keeps_rate_limit:
  "a_wait (s_account s) = Some (until, Wait_RateLimited)
    \<Longrightarrow> a_wait (s_account (note_success s)) = Some (until, Wait_RateLimited)"
  by (simp add: note_success_def note_answered_def)

section \<open>Failures of the list\<close>

lemma account_wait_frame [simp]:
  "s_vehicles (note_answered s) = s_vehicles s"
  "s_vehicles (enter_credential_stop s) = s_vehicles s"
  "s_vehicles (enter_account_state state reason now s) = s_vehicles s"
  "s_vehicles (enter_refusal cause now s) = s_vehicles s"
  "s_vehicles (request_refusal_check now s) = s_vehicles s"
  by (simp_all add: note_answered_def enter_credential_stop_def stop_on_credential_def
      enter_account_state_def enter_refusal_def request_refusal_check_def Let_def)

lemma note_success_frame [simp]: "s_vehicles (note_success s) = s_vehicles s"
  by (simp add: note_success_def)

lemma unreachable_frame [simp]: "s_vehicles (snd (unreachable now s)) = s_vehicles s"
  by (simp add: unreachable_def Let_def case_prod_unfold)

lemma auth_failed_frame [simp]: "s_vehicles (snd (auth_failed r now s)) = s_vehicles s"
  by (simp add: auth_failed_def Let_def case_prod_unfold)

lemma discovery_failed_frame [simp]: "s_vehicles (snd (discovery_failed now s)) = s_vehicles s"
  by (simp add: discovery_failed_def Let_def case_prod_unfold)

lemma rate_limited_frame [simp]: "s_vehicles (snd (rate_limited n now s)) = s_vehicles s"
proof (cases "min (secs n) K_RETRY_AFTER_MAX = 0")
  case True
  then show ?thesis
    by (cases "wait_running s Wait_RateLimited now") (simp_all add: rate_limited_def Let_def case_prod_unfold)
qed (simp add: rate_limited_named)

lemma account_state_failed_frame [simp]: "s_vehicles (snd (account_state_failed c e now s)) = s_vehicles s"
  by (cases c) (simp_all add: account_state_failed_def)

lemma account_failed_frame [simp]: "s_vehicles (snd (account_failed c e now s)) = s_vehicles s"
  by (simp add: account_failed_def Let_def case_prod_unfold)

lemma credential_outcome_list_frame [simp]:
  "s_vehicles (snd (credential_outcome None outcome now s)) = s_vehicles s"
  by (cases outcome) (simp_all add: credential_outcome_def Let_def case_prod_unfold)

lemma failed_list_frame: "s_vehicles (snd (discovery_failed_for_error e now s)) = s_vehicles s"
  by (simp add: discovery_failed_for_error_def Let_def case_prod_unfold split: option.splits)

section \<open>Sample states\<close>

text \<open>A new scheduler that knows one car: one whose read is due, or a suspended one whose stream asks for a read.\<close>

definition sample_scheduler :: "ScheduledVehicle \<Rightarrow> VehicleScheduler" where
  "sample_scheduler v =
     (scheduler_new_with \<lparr>year_month_at = (\<lambda>_. None), first_of_month = (\<lambda>_ _. None)\<rparr>
        \<lparr>cad_driving = secs 15, cad_driving_stream = secs 60, cad_charging = secs 60, cad_online = secs 60,
         cad_sleeping = secs 300, cad_offline_drive_timeout = secs 900, cad_suspended = secs 300,
         cad_updating = secs 60, cad_inventory = secs 900, cad_stream_health_timeout = secs 60,
         cad_maximum_backoff = secs 600\<rparr>
        CM_Legacy
        \<lparr>intervals = \<lparr>driving = secs 60, charging = secs 120, updating = secs 60, online = secs 60,
           state_check = secs 600, inventory = secs 3600\<rparr>,
         monthly_cap_cents = 100, policy_pricing = FLEET_PRICING\<rparr>
        0 \<lparr>clk_mono = 0, clk_wall = Some 0\<rparr> 1)\<lparr>s_vehicles := [(1, v)]\<rparr>"

definition sample_due :: ScheduledVehicle where
  "sample_due = (ScheduledVehicle_new
     \<lparr>vh_id = 1, vh_stream_id = 1, vh_vin = ''VIN'', vh_state = ''online'', vh_display_name = None,
      vh_settings = \<lparr>cs_enabled = True, cs_use_streaming_api = True, cs_suspend_after_idle_min = 15,
        cs_suspend_min = 21, cs_suspend_min_resolved = True, cs_req_not_unlocked = False,
        cs_free_supercharging = False, cs_lfp_battery = False\<rparr>\<rparr> 0 0)
     \<lparr>v_phase := Phase_Online, v_reported_state := Some ''online'', v_next_read_due := Some 5\<rparr>"

definition sample_gated :: ScheduledVehicle where
  "sample_gated = sample_due\<lparr>v_phase := Phase_Suspended, v_gated_read := Some Gated_Power,
     v_suspended_until := Some 90, v_in_flight := True\<rparr>"

lemma sample_scheduler_simps:
  "s_vehicles (sample_scheduler v) = [(1, v)]" "a_state (s_account (sample_scheduler v)) = Acc_Collecting"
  "a_wait (s_account (sample_scheduler v)) = None" "tm_max_backoff (s_timing (sample_scheduler v)) = secs 600"
  by (simp_all add: sample_scheduler_def scheduler_new_with_def AccountRecord_new_def Timing_new_def
      is_owner_wire_def Let_def)

lemma sample_car_simps:
  "v_hold sample_due = Hold_None" "v_phase sample_due = Phase_Online" "v_in_flight sample_due = False"
  "v_next_read_due sample_due = Some 5" "v_suspend_at sample_due = None"
  "v_hold sample_gated = Hold_None" "v_phase sample_gated = Phase_Suspended"
  "v_gated_read sample_gated = Some Gated_Power" "v_next_read_due sample_gated = Some 5"
  "v_suspended_until sample_gated = Some 90" "v_suspension_read sample_gated = False"
  by (simp_all add: sample_gated_def sample_due_def ScheduledVehicle_new_def settings_from_car_def Let_def)

lemmas sample_simps = sample_scheduler_simps sample_car_simps

lemma sample_due_chosen: "fst (due_vehicles 9 (sample_scheduler sample_due)) = [1]"
proof -
  have "advance_car timing 9 wall sample_due = (False, sample_due)" for timing wall
    by (simp add: advance_car_def Let_def sample_simps)
  then have t: "s_vehicles (advance_timers 9 (sample_scheduler sample_due)) = [(1, sample_due)]"
    by (simp add: advance_timers_def Let_def sample_simps)
  have "requests_allowed (sample_scheduler sample_due) 9" by (simp add: requests_allowed_def sample_simps)
  moreover have "in_flight_count (sample_scheduler sample_due) = 0"
    by (simp add: in_flight_count_def sample_simps)
  moreover have "reads_due 9 (advance_timers 9 (sample_scheduler sample_due)) = [(5, 1)]"
    unfolding reads_due_def t by (simp add: read_is_due_def sample_simps)
  ultimately show ?thesis by (simp add: due_vehicles_def Let_def K_MAX_IN_FLIGHT_def)
qed

section \<open>Properties\<close>

text \<open>
  C12: However many cars are due, choosing the reads never puts more than \<open>K_MAX_IN_FLIGHT\<close> reads in
  flight, unless more already were. Nothing is chosen while the account waits or is stopped. A
  chosen car is under no hold, had no read in flight and its read is due; a due car that is left
  out comes, by due time and then by id, after every chosen one.
\<close>

theorem due_reads_bounded:
  assumes "bt_ok (s_vehicles s)" and "due_vehicles now s = (cars, s')" and "s1 = advance_timers now s"
  shows "in_flight_count s' \<le> max K_MAX_IN_FLIGHT (in_flight_count s)
    \<and> (cars \<noteq> [] \<longrightarrow> requests_allowed s now)
    \<and> (\<forall>car \<in> set cars. \<exists>v due. car_of s1 car = Some v \<and> v_hold v = Hold_None \<and> \<not> v_in_flight v
         \<and> v_next_read_due v = Some due \<and> due \<le> now
         \<and> (\<forall>other w later. other \<notin> set cars \<and> car_of s1 other = Some w \<and> read_is_due now w = Some later
              \<longrightarrow> (due, car) \<le> (later, other)))"
proof (cases "requests_allowed s now")
  case True
  define chosen where "chosen = take (K_MAX_IN_FLIGHT - in_flight_count s) (sort (reads_due now s1))"
  have c: "cars = map snd chosen"
    and s': "s' = foldl (\<lambda>s car. on_car car (\<lambda>v. v\<lparr>v_in_flight := True\<rparr>) s) s1 cars"
    using assms(2,3) True by (auto simp: due_vehicles_def Let_def chosen_def)
  have ok: "bt_ok (s_vehicles s1)" using assms(1,3) by simp
  have "in_flight_count s' \<le> in_flight_count s + length cars"
    using in_flight_mark [OF ok] assms(3) unfolding s' by simp
  moreover have "length cars \<le> K_MAX_IN_FLIGHT - in_flight_count s" by (simp add: c chosen_def)
  ultimately have bound: "in_flight_count s' \<le> max K_MAX_IN_FLIGHT (in_flight_count s)" by linarith
  have "\<exists>v due. car_of s1 car = Some v \<and> v_hold v = Hold_None \<and> \<not> v_in_flight v
         \<and> v_next_read_due v = Some due \<and> due \<le> now
         \<and> (\<forall>other w later. other \<notin> set cars \<and> car_of s1 other = Some w \<and> read_is_due now w = Some later
              \<longrightarrow> (due, car) \<le> (later, other))" if chosen_car: "car \<in> set cars" for car
  proof -
    obtain due where e: "(due, car) \<in> set chosen" using chosen_car c by force
    then have "(due, car) \<in> set (reads_due now s1)"
      using set_take_subset [of _ "sort (reads_due now s1)"] unfolding chosen_def by fastforce
    then obtain v where v: "car_of s1 car = Some v" "read_is_due now v = Some due"
      using in_reads_due [OF ok] by blast
    have "(due, car) \<le> (later, other)"
      if "other \<notin> set cars" "car_of s1 other = Some w" "read_is_due now w = Some later" for other w later
    proof (rule sorted_take_first)
      show "(due, car) \<in> set (take (K_MAX_IN_FLIGHT - in_flight_count s) (sort (reads_due now s1)))"
        using e by (simp add: chosen_def)
      show "(later, other) \<in> set (reads_due now s1)" using in_reads_due [OF ok] that by blast
      show "(later, other) \<notin> set (take (K_MAX_IN_FLIGHT - in_flight_count s) (sort (reads_due now s1)))"
        using that(1) c chosen_def by force
    qed
    then show ?thesis using v read_is_due_iff by blast
  qed
  then show ?thesis using bound True by blast
next
  case False
  then show ?thesis using assms by (auto simp: due_vehicles_def Let_def)
qed

theorem due_reads_bounded_witness:
  "let s = sample_scheduler sample_due; s1 = advance_timers 9 s in
   fst (due_vehicles 9 s) = [1] \<and> in_flight_count (snd (due_vehicles 9 s)) \<le> 4
   \<and> (\<exists>v due. car_of s1 1 = Some v \<and> v_hold v = Hold_None \<and> v_next_read_due v = Some due \<and> due \<le> 9)"
proof -
  let ?s = "sample_scheduler sample_due"
  have c: "fst (due_vehicles 9 ?s) = [1]" by (rule sample_due_chosen)
  have "in_flight_count ?s = 0" by (simp add: in_flight_count_def sample_simps)
  moreover have "bt_ok (s_vehicles ?s)" by (simp add: sample_simps bt_ok_def)
  moreover have "due_vehicles 9 ?s = ([1], snd (due_vehicles 9 ?s))" using c by (metis prod.collapse)
  ultimately show ?thesis
    using due_reads_bounded [of ?s 9 "[1]" "snd (due_vehicles 9 ?s)" "advance_timers 9 ?s"] c
    by (auto simp: Let_def K_MAX_IN_FLIGHT_def)
qed

lemma classify_gate: "classify_any e request p = EC_GateNotConfirmed \<longleftrightarrow> is_stream_power_not_confirmed e"
proof -
  have owner: "classify_owner w request p = EC_GateNotConfirmed \<longleftrightarrow> w = OA_StreamPowerNotConfirmed" for w
    by (auto simp: classify_owner_def owner_status_def owner_forbidden_def owner_refusal_def split: OwnerApiError.splits)
  have fleet: "classify_fleet f request \<noteq> EC_GateNotConfirmed" for f
    by (cases f) (auto simp: fleet_status_def)
  have auth: "classify_legacy_auth l p \<noteq> EC_GateNotConfirmed" for l
    by (auto simp: classify_legacy_auth_def owner_refusal_def split: LegacyAuthError.splits)
  show ?thesis
    by (auto simp: classify_any_def is_stream_power_not_confirmed_def owner_api_error_def owner fleet auth
        split: CollectorError.splits OwnerApiAuthError.splits LegacyAuthManagerError.splits)
qed

text \<open>
  C40: A failed list is never a car's fault: whatever the error, it is not given one of the six
  classes that act on one car, and no car's record changes. The one other class that speaks of a
  car, that of an unconfirmed stream gate, is kept for exactly the error of that name, which only a
  gated read gives.
\<close>

theorem failed_list_keeps_cars:
  "classify e Kind_List m \<notin> {EC_Unavailable, EC_NotFound, EC_InService, EC_AccessRefused,
     EC_MobileAccessDisabled, EC_LegalPrivacy}
   \<and> (classify e Kind_List m = EC_GateNotConfirmed) = is_stream_power_not_confirmed e
   \<and> s_vehicles (snd (discovery_failed_for_error e now s)) = s_vehicles s"
proof -
  have "list_class c \<notin> {EC_Unavailable, EC_NotFound, EC_InService, EC_AccessRefused,
     EC_MobileAccessDisabled, EC_LegalPrivacy}" "list_class c = EC_GateNotConfirmed \<longleftrightarrow> c = EC_GateNotConfirmed" for c
    by (cases c; simp add: list_class_def)+
  then show ?thesis using failed_list_frame classify_gate by (simp add: classify_def Let_def)
qed

text \<open>
  C13: A rate limit with a named wait is kept: when no other wait was running, no read is chosen
  before the named time (at most an hour) is over, even if a request that was in flight succeeds.
\<close>

theorem rate_limit_runs_its_course:
  assumes "\<forall>t r. a_wait (s_account s) = Some (t, r) \<longrightarrow> r = Wait_RateLimited"
    and "0 < n" and "now + min (secs n) K_RETRY_AFTER_MAX < instant_end"
    and "t < now + min (secs n) K_RETRY_AFTER_MAX"
  shows "fst (due_vehicles t (note_success (snd (rate_limited n now s)))) = []"
proof (rule no_reads_while_waiting)
  define s1 where "s1 = (if wait_running s Wait_RateLimited now then s
    else on_account (\<lambda>a. a\<lparr>a_consecutive_429 := u32_saturating_add (a_consecutive_429 a) 1\<rparr>) s)"
  have nz: "min (secs n) K_RETRY_AFTER_MAX \<noteq> 0"
    using assms(2) by (simp add: secs_def K_RETRY_AFTER_MAX_def min_def)
  have "\<forall>t r. a_wait (s_account s1) = Some (t, r) \<longrightarrow> r = Wait_RateLimited"
    using assms(1) by (simp add: s1_def)
  then obtain u where u: "a_wait (s_account (snd (rate_limited n now s))) = Some (u, Wait_RateLimited)"
    "deadline_after now (min (secs n) K_RETRY_AFTER_MAX) \<le> u"
    using extend_wait_rate_limit unfolding rate_limited_named [OF nz] s1_def by blast
  then have "t < u" using assms(3,4) by (simp add: deadline_after_exact)
  then show "\<not> requests_allowed (note_success (snd (rate_limited n now s))) t"
    using note_success_keeps_rate_limit [OF u(1)] by (simp add: requests_allowed_def)
qed

theorem rate_limit_runs_its_course_witness:
  "fst (due_vehicles 9 (sample_scheduler sample_due)) = [1]
   \<and> fst (due_vehicles (secs 29) (note_success (snd (rate_limited 30 9 (sample_scheduler sample_due))))) = []"
  using rate_limit_runs_its_course [of "sample_scheduler sample_due" 30 9 "secs 29"]
  by (simp add: sample_due_chosen sample_simps secs_def K_RETRY_AFTER_MAX_def instant_end_def)

text \<open>
  C14: A rate limit that Tesla named is lost when a request that was in flight finds Tesla
  unreachable for longer: the unreachable wait replaces the reason of the wait, and the next
  answer, which ends an unreachable wait, ends the rate limit with it. At a moment that is still
  inside the named time, requests are allowed again.
\<close>

theorem rate_limit_wait_lost:
  assumes "a_state (s_account s) = Acc_Collecting"
    and "a_wait (s_account s) = Some (until, Wait_RateLimited)"
    and "now < until" "until < now + secs 5"
    and "tm_max_backoff (s_timing s) = secs m" "10 \<le> m" "m < 2 ^ 53"
    and "now + secs m < instant_end"
  shows "\<not> requests_allowed s now \<and> requests_allowed (note_answered (snd (unreachable now s))) now"
proof -
  define k where "k = u32_saturating_add (a_consecutive_unreachable (s_account s)) 1"
  define s1 where "s1 = snd (draw_jitter (on_account (\<lambda>a. a\<lparr>a_consecutive_unreachable := k\<rparr>) s))"
  define u where "u = fst (draw_jitter (on_account (\<lambda>a. a\<lparr>a_consecutive_unreachable := k\<rparr>) s))"
  define delay where "delay = backoff_delay k (secs m) u"
  have a: "s_account s1 = (s_account s)\<lparr>a_consecutive_unreachable := k\<rparr>" by (simp add: s1_def)
  have k: "k \<noteq> 0" by (simp add: k_def u32_saturating_add_def)
  have "secs 10 \<le> backoff_nominal k (secs m)"
    using assms(6) by (simp add: backoff_nominal_def K_BACKOFF_BASE_def secs_def)
  then have "secs 5 \<le> delay"
    using backoff_delay_between(1) [OF assms(7), of k u] by (simp add: delay_def secs_def)
  moreover have "delay \<le> secs m"
    using backoff_delay_between(2) [OF assms(7), of k u] by (simp add: delay_def backoff_nominal_def)
  ultimately have d: "until < deadline_after now delay"
    using assms(4,8) by (simp add: deadline_after_exact)
  have "snd (unreachable now s) = extend_wait (deadline_after now delay) Wait_TeslaUnreachable s1"
    using assms(2,5) a
    by (simp add: unreachable_def wait_running_def Let_def case_prod_unfold delay_def u_def s1_def k_def
        on_account_def)
  then show ?thesis
    using assms(1-3) a k d by (simp add: extend_wait_def note_answered_def requests_allowed_def)
qed

theorem rate_limit_wait_lost_witness:
  "let s = on_account (\<lambda>a. a\<lparr>a_wait := Some (secs 3, Wait_RateLimited)\<rparr>) (sample_scheduler sample_due) in
   \<not> requests_allowed s (secs 1) \<and> requests_allowed (note_answered (snd (unreachable (secs 1) s))) (secs 1)"
  using rate_limit_wait_lost [of "on_account (\<lambda>a. a\<lparr>a_wait := Some (secs 3, Wait_RateLimited)\<rparr>)
    (sample_scheduler sample_due)" "secs 3" "secs 1" 600]
  by (simp add: Let_def sample_simps secs_def instant_end_def)

text \<open>
  C15: A suspended car is read only behind the gate of its stream. When such a gated read answers
  that Tesla knows no such car, the gate is dropped and the due time, already past, stays: the
  very next choice sends the read again, now without the gate.
\<close>

theorem gated_read_repeats_ungated:
  assumes "s_vehicles s = [(car, v)]" and "requests_allowed s now"
    and "v_hold v = Hold_None" "v_phase v = Phase_Suspended" "\<not> v_suspension_read v"
    and "v_gated_read v = Some Gated_Power" "v_next_read_due v = Some due" "due \<le> now"
    and "v_suspended_until v = Some until" "now < until"
    and "s' = snd (vehicle_class_failure car EC_NotFound now s)"
  shows "requires_live_stream_power_gate s car \<and> \<not> requires_live_stream_power_gate s' car
    \<and> fst (due_vehicles now s') = [car]"
proof -
  define w where "w = not_found_car (s_timing s) now (v\<lparr>v_in_flight := False, v_gated_read := None\<rparr>)"
  have c: "car_of s car = Some v" by (simp add: assms(1) bt_get_def)
  have "settle_failed_read (s_timing s) now (wall_or_last s) v = v\<lparr>v_in_flight := False, v_gated_read := None\<rparr>"
    using assms(6) by (simp add: settle_failed_read_def gated_to_driving_def)
  then have cars: "s_vehicles s' = [(car, w)]" and acc: "a_state (s_account s') = a_state (s_account s)"
    "a_wait (s_account s') = a_wait (s_account s)"
    using c assms(1,4) by (simp_all add: assms(11) vehicle_class_failure_def vehicle_not_found_def Let_def
        bt_modify_def bt_get_def w_def)
  have w: "v_hold w = Hold_None" "v_phase w = Phase_Suspended" "v_gated_read w = None" "\<not> v_in_flight w"
    "v_next_read_due w = Some due" "v_suspended_until w = Some until"
    using assms(3-5,7,9) by (simp_all add: w_def not_found_car_def Let_def)
  have "advance_car timing now wall w = (False, w)" for timing wall
    using w assms(10) by (simp add: advance_car_def Let_def)
  then have t: "s_vehicles (advance_timers now s') = [(car, w)]"
    using cars by (simp add: advance_timers_def Let_def)
  have "reads_due now (advance_timers now s') = [(due, car)]"
    using t w assms(8) by (simp add: reads_due_def read_is_due_def)
  moreover have "in_flight_count (advance_timers now s') = 0"
    unfolding in_flight_count_def t using w(4) by simp
  moreover have "requests_allowed s' now" using assms(2) acc by (simp add: requests_allowed_def)
  ultimately have "fst (due_vehicles now s') = [car]"
    by (simp add: due_vehicles_def Let_def K_MAX_IN_FLIGHT_def)
  then show ?thesis
    using c assms(4,6) cars w by (simp add: requires_live_stream_power_gate_def bt_get_def)
qed

theorem gated_read_repeats_ungated_witness:
  "let s = sample_scheduler sample_gated; s' = snd (vehicle_class_failure 1 EC_NotFound 9 s) in
   requires_live_stream_power_gate s 1 \<and> \<not> requires_live_stream_power_gate s' 1
   \<and> fst (due_vehicles 9 s') = [1]"
  using gated_read_repeats_ungated [of "sample_scheduler sample_gated" 1 sample_gated 9 5 90, OF _ _ _ _ _ _ _ _ _ _ refl]
  by (simp add: Let_def sample_simps requests_allowed_def)

end
