(* ===== verification/Sched_Asleep.thy ===== *)
theory Sched_Asleep
  imports Sched_Due
begin

text \<open>
  A car that Tesla reports asleep is left alone. The relation \<open>undisturbed\<close> has the operations of
  the collection loop that carry no news of the car's use, in any order; no sequence of them makes
  a read of the sleeping car be chosen.
\<close>

section \<open>Operations on one car leave the others\<close>

definition changes_only :: "VehicleId \<Rightarrow> VehicleScheduler \<Rightarrow> VehicleScheduler \<Rightarrow> bool" where
  "changes_only car s s' \<longleftrightarrow> map fst (s_vehicles s') = map fst (s_vehicles s)
     \<and> (\<forall>other. other \<noteq> car \<longrightarrow> car_of s' other = car_of s other)"

lemma changes_only_same: "s_vehicles s' = s_vehicles s \<Longrightarrow> changes_only car s s'"
  by (simp add: changes_only_def)

lemma changes_only_car: "s_vehicles s' = bt_modify car f (s_vehicles s) \<Longrightarrow> changes_only car s s'"
  by (simp add: changes_only_def)

lemma changes_only_trans: "changes_only car s s1 \<Longrightarrow> changes_only car s1 s2 \<Longrightarrow> changes_only car s s2"
  by (simp add: changes_only_def)

lemma changes_only_ok: "changes_only car s s' \<Longrightarrow> bt_ok (s_vehicles s') = bt_ok (s_vehicles s)"
  by (simp add: changes_only_def bt_ok_def)

lemma check_every_frame [simp]: "s_vehicles (check_every_vehicle_refused now s) = s_vehicles s"
  by (simp add: check_every_vehicle_refused_def Let_def)

lemma pause_vehicle_cars:
  "s_vehicles (pause_vehicle car reason c now s) = bt_modify car (pause_car reason c now) (s_vehicles s)
   \<or> car_of s car = None \<and> pause_vehicle car reason c now s = s"
  by (simp add: pause_vehicle_def Let_def split: option.splits)

lemma pause_vehicle_only: "changes_only car s (pause_vehicle car reason c now s)"
  using pause_vehicle_cars [of car reason c now s] changes_only_car changes_only_same by metis

lemma pause_if_persistent_only: "changes_only car s (pause_if_persistent car now s)"
  using pause_vehicle_only changes_only_same by (simp add: pause_if_persistent_def split: option.splits)

lemma count_failure_only: "changes_only car s (count_vehicle_failure car c now s)"
proof -
  obtain u s1 where d: "draw_jitter s = (u, s1)" by force
  have "s_vehicles s1 = s_vehicles s" using draw_jitter_frame(1) [of s] d by simp
  then have "changes_only car s (on_car car (failed_car (s_timing s1) c u now) s1)"
    by (intro changes_only_car) simp
  from changes_only_trans [OF this pause_if_persistent_only [of _ _ now]]
  show ?thesis by (simp add: count_vehicle_failure_def d)
qed

lemma not_found_only: "changes_only car s (vehicle_not_found car now s)"
  by (auto simp: vehicle_not_found_def intro: changes_only_same changes_only_car split: option.splits)

lemma service_only: "changes_only car s (snd (enter_service_mode car now s))"
  by (auto simp: enter_service_mode_def intro: changes_only_same changes_only_car split: option.splits)

lemma fetch_only: "changes_only car s (schedule_offline_state_fetch car now s)"
  by (auto simp: schedule_offline_state_fetch_def intro: changes_only_same changes_only_car split: option.splits)

lemma unavailable_only: "changes_only car s (read_unavailable car now s)"
proof (cases "car_of s car")
  case None
  then show ?thesis by (simp add: read_unavailable_def changes_only_same)
next
  case (Some v)
  let ?s = "on_car car (\<lambda>v. v\<lparr>v_unavailable_check := True,
    v_next_read_due := read_after now (car_interval v (s_timing s) now) v\<rparr>) s"
  have "changes_only car s ?s" by (rule changes_only_car) simp
  from changes_only_trans [OF this fetch_only [of _ _ now]]
  show ?thesis using Some by (simp add: read_unavailable_def)
qed

lemma release_account_only: "changes_only car s (release_after_account_failure car c now s)"
  unfolding release_after_account_failure_def by (rule changes_only_car) simp

lemma gate_only: "changes_only car s (gate_not_confirmed car s)"
  unfolding gate_not_confirmed_def by (rule changes_only_car) simp

lemmas car_only = pause_vehicle_only count_failure_only not_found_only service_only unavailable_only

lemma class_failure_only: "changes_only car s (snd (vehicle_class_failure car c now s))"
proof (cases "car_of s car")
  case None
  then show ?thesis by (simp add: vehicle_class_failure_def changes_only_same)
next
  case (Some v)
  let ?s = "on_car car (settle_failed_read (s_timing s) now (wall_or_last s)) s"
  have s1: "changes_only car s ?s" by (rule changes_only_car) simp
  show ?thesis
  proof (cases "v_phase v = Phase_Updating \<and> c = EC_Unavailable")
    case True
    then show ?thesis using Some by (simp add: vehicle_class_failure_def changes_only_car)
  next
    case False
    then have "changes_only car ?s (snd (vehicle_class_failure car c now s))"
      using Some by (cases c) (simp_all add: vehicle_class_failure_def Let_def case_prod_unfold car_only)
    then show ?thesis using s1 changes_only_trans by blast
  qed
qed

lemma credential_outcome_only: "changes_only car s (snd (credential_outcome (Some car) outcome now s))"
proof (cases outcome)
  case CO_VehicleAccessRejected
  have "changes_only car s (note_answered s)" by (simp add: changes_only_same)
  from changes_only_trans [OF this class_failure_only [of _ _ _ now]]
  show ?thesis using CO_VehicleAccessRejected by (simp add: credential_outcome_def)
qed (simp_all add: credential_outcome_def release_after_account_failure_def Let_def case_prod_unfold
      changes_only_car)

lemma read_failed_only: "changes_only car s (snd (vehicle_failed_for_error car e now s))"
proof (cases "credential_outcome_for s e")
  case None
  define c where "c = classify e Kind_Read (s_mode s)"
  define s1 where "s1 = (if c \<noteq> EC_Unreachable then note_answered s else s)"
  define s2 where "s2 = snd (account_failed c e now s1)"
  define s3 where "s3 = (if is_owner_wire (s_mode s2) \<and> is_owner_wire_forbidden e
    then request_refusal_check now s2 else s2)"
  have "s_vehicles s2 = s_vehicles s" "s_vehicles s3 = s_vehicles s" by (simp_all add: s1_def s2_def s3_def)
  then have "changes_only car s s2" "changes_only car s s3" by (simp_all add: changes_only_same)
  then have *: "changes_only car s (release_after_account_failure car c now s2)"
    "changes_only car s (snd (vehicle_class_failure car c now s3))"
    using changes_only_trans release_account_only class_failure_only by blast+
  have "snd (vehicle_failed_for_error car e now s) \<in> {gate_not_confirmed car s,
    release_after_account_failure car c now s2, snd (vehicle_class_failure car c now s3)}"
    using None
    by (simp add: vehicle_failed_for_error_def Let_def case_prod_unfold c_def s1_def s2_def s3_def)
  then show ?thesis using * gate_only by auto
qed (simp add: vehicle_failed_for_error_def credential_outcome_only)

lemma record_only: "changes_only car s (snd (accept_vehicle_state car state now s))"
proof (cases "car_of s car")
  case (Some v)
  obtain r u w where v: "recorded_car (s_timing s) state now (wall_or_last s) v = (r, u, w)"
    by (metis prod.exhaust)
  define s1 where "s1 = on_car car (\<lambda>_. w) s"
  define s2 where "s2 = (if r then s1\<lparr>s_gate_revocations := insert car (s_gate_revocations s1)\<rparr> else s1)"
  define s3 where "s3 = (if u then count_vehicle_failure car EC_Transient now s2 else s2)"
  have "changes_only car s s2" by (rule changes_only_car [where f = "\<lambda>_. w"]) (simp add: s1_def s2_def)
  then have "changes_only car s s3"
    using changes_only_trans [OF _ count_failure_only] by (simp add: s3_def)
  moreover have "snd (accept_vehicle_state car state now s) = note_success s3"
    using Some v by (simp add: accept_vehicle_state_def s1_def s2_def s3_def Let_def)
  ultimately show ?thesis using changes_only_trans changes_only_same note_success_frame by metis
qed (simp add: accept_vehicle_state_def changes_only_same)

lemma read_succeeded_only: "changes_only car s (vehicle_succeeded car phase sleep_eligible now s)"
proof (cases "car_of s car")
  case (Some v)
  obtain r w where v: "succeeded_car (s_timing (note_success s)) phase sleep_eligible now (wall_or_last s) v = (r, w)"
    by (metis prod.exhaust)
  have "s_vehicles (vehicle_succeeded car phase sleep_eligible now s) = bt_modify car (\<lambda>_. w) (s_vehicles s)"
    using Some v by (simp add: vehicle_succeeded_def Let_def)
  then show ?thesis by (rule changes_only_car)
qed (simp add: vehicle_succeeded_def Let_def changes_only_same)

section \<open>The sleeping car\<close>

definition rests :: "ScheduledVehicle \<Rightarrow> bool" where
  "rests v \<longleftrightarrow> v_hold v \<noteq> Hold_None \<or> v_phase v = Phase_Asleep \<and> v_next_read_due v = None"

definition left_alone :: "VehicleId \<Rightarrow> VehicleScheduler \<Rightarrow> bool" where
  "left_alone car s \<longleftrightarrow> bt_ok (s_vehicles s) \<and> (\<forall>v. car_of s car = Some v \<longrightarrow> rests v)"

text \<open>A failed record check changes only its car, and leaves a resting car resting.\<close>

definition lets_rest :: "VehicleId \<Rightarrow> VehicleScheduler \<Rightarrow> VehicleScheduler \<Rightarrow> bool" where
  "lets_rest car s s' \<longleftrightarrow>
     (\<exists>f. s_vehicles s' = bt_modify car f (s_vehicles s) \<and> (\<forall>v. rests v \<longrightarrow> rests (f v)))"

lemma lets_rest_car: "(\<And>v. rests v \<Longrightarrow> rests (f v)) \<Longrightarrow> s_vehicles s' = bt_modify car f (s_vehicles s) \<Longrightarrow> lets_rest car s s'"
  by (auto simp: lets_rest_def)

lemma lets_rest_same: "s_vehicles s' = s_vehicles s \<Longrightarrow> lets_rest car s s'"
  by (rule lets_rest_car [where f = "\<lambda>v. v"]) (simp_all add: bt_modify_def)

lemma lets_rest_trans: "lets_rest car s s1 \<Longrightarrow> lets_rest car s1 s2 \<Longrightarrow> lets_rest car s s2"
proof (unfold lets_rest_def, elim exE conjE)
  fix f g
  assume *: "s_vehicles s1 = bt_modify car f (s_vehicles s)" "\<forall>v. rests v \<longrightarrow> rests (f v)"
    "s_vehicles s2 = bt_modify car g (s_vehicles s1)" "\<forall>v. rests v \<longrightarrow> rests (g v)"
  then have "s_vehicles s2 = bt_modify car (\<lambda>v. g (f v)) (s_vehicles s)"
    by (auto simp: bt_modify_def comp_def)
  then show "\<exists>f. s_vehicles s2 = bt_modify car f (s_vehicles s) \<and> (\<forall>v. rests v \<longrightarrow> rests (f v))" using * by blast
qed

lemma lets_rest_only: "lets_rest car s s' \<Longrightarrow> changes_only car s s'"
  using changes_only_car by (auto simp: lets_rest_def)

lemma lets_rest_left_alone: "lets_rest car s s' \<Longrightarrow> left_alone car s \<Longrightarrow> left_alone car s'"
  by (auto simp: lets_rest_def left_alone_def)

lemma pause_rests: "lets_rest car s (pause_vehicle car reason c now s)"
proof -
  have "rests (pause_car reason c now v)" if "rests v" for v
    using that by (auto simp: pause_car_def rests_def is_inactive_def stop_timers_def Let_def)
  then show ?thesis using pause_vehicle_cars [of car reason c now s] lets_rest_car lets_rest_same by metis
qed

lemma persistent_rests: "lets_rest car s (pause_if_persistent car now s)"
  using pause_rests lets_rest_same by (simp add: pause_if_persistent_def split: option.splits)

lemma not_found_rests: "lets_rest car s (vehicle_not_found car now s)"
proof (cases "car_of s car")
  case (Some v)
  have "rests (not_found_car (s_timing s) now v)" if "rests v" for v
    using that by (auto simp: not_found_car_def rests_def Let_def)
  moreover have "s_vehicles (vehicle_not_found car now s) = bt_modify car (not_found_car (s_timing s) now) (s_vehicles s)"
    using Some by (simp add: vehicle_not_found_def)
  ultimately show ?thesis by (rule lets_rest_car)
qed (simp add: vehicle_not_found_def lets_rest_same)

lemma check_failed_rests: "lets_rest car s (offline_state_failed_for_error car e now s)"
proof -
  define c where "c = classify e Kind_Record (s_mode s)"
  define s1 where "s1 = (if c \<noteq> EC_Unreachable \<and> c \<noteq> EC_GateNotConfirmed then note_answered s else s)"
  define s2 where "s2 = snd (account_failed c e now s1)"
  define s3 where "s3 = (if is_owner_wire (s_mode s2) \<and> is_owner_wire_forbidden e
    then request_refusal_check now s2 else s2)"
  define again where "again = (\<lambda>v :: ScheduledVehicle. v\<lparr>v_next_check_due :=
    Some (deadline_after now (state_interval (s_timing s3) (v_phase v)))\<rparr>)"
  define counted where "counted = (\<lambda>v :: ScheduledVehicle. again (v\<lparr>v_consecutive_failures := u32_saturating_add (v_consecutive_failures v) 1,
    v_first_failure := (case v_first_failure v of None \<Rightarrow> Some now | Some t \<Rightarrow> Some t), v_last_error := Some c\<rparr>))"
  define s4 where "s4 = (case c of EC_NotFound \<Rightarrow> vehicle_not_found car now s3
    | EC_MobileAccessDisabled \<Rightarrow> pause_vehicle car Pause_MobileAccessDisabled c now s3
    | EC_LegalPrivacy \<Rightarrow> pause_vehicle car Pause_LegalPrivacy c now s3
    | EC_AccessRefused \<Rightarrow> pause_vehicle car Pause_AccessRefused c now s3
    | _ \<Rightarrow> if c \<in> {EC_Transient, EC_Protocol, EC_ClientError}
           then pause_if_persistent car now (on_car car counted s3)
           else on_car car (\<lambda>v. again (v\<lparr>v_last_error := Some c\<rparr>)) s3)"
  define ended where "ended = (\<lambda>v :: ScheduledVehicle. if v_hold v \<noteq> Hold_None then v\<lparr>v_next_check_due := None\<rparr> else v)"
  have "s_vehicles s2 = s_vehicles s" "s_vehicles s3 = s_vehicles s" by (simp_all add: s1_def s2_def s3_def)
  then have same: "lets_rest car s s2" "lets_rest car s s3" by (simp_all add: lets_rest_same)
  have rest: "rests (counted v) = rests v" "rests (again (v\<lparr>v_last_error := Some c\<rparr>)) = rests v"
    "rests (ended v) = rests v" for v by (simp_all add: counted_def again_def ended_def rests_def)
  have "lets_rest car s3 (on_car car counted s3)"
    "lets_rest car s3 (on_car car (\<lambda>v. again (v\<lparr>v_last_error := Some c\<rparr>)) s3)"
    "lets_rest car s4 (on_car car ended s4)"
    by (rule lets_rest_car, subst rest, assumption, simp)+
  note cars = this lets_rest_trans [OF this(1) persistent_rests [of car _ now]] pause_rests not_found_rests
  have s4: "lets_rest car s3 s4" using cars by (cases c) (simp_all add: s4_def)
  have "offline_state_failed_for_error car e now s = (if fst (account_failed c e now s1) \<noteq> None then s2 else on_car car ended s4)"
    by (simp only: offline_state_failed_for_error_def Let_def case_prod_unfold s4_def counted_def again_def ended_def
        s3_def s2_def s1_def c_def)
  then show ?thesis using same lets_rest_trans [OF lets_rest_trans [OF same(2) s4] cars(3)] by simp
qed

text \<open>
  What happens while no news of the car's use arrives: reads are chosen, a tick is given up, a
  list fails or says asleep of the car or nothing, a request succeeds, reads of other cars
  succeed or fail, record checks of other cars are answered or fail, and a record check of the
  car itself fails or says asleep again.
\<close>

inductive undisturbed :: "VehicleId \<Rightarrow> VehicleScheduler \<Rightarrow> VehicleScheduler \<Rightarrow> bool"
  for car :: VehicleId where
  start: "undisturbed car s s"
| choose: "undisturbed car s s1 \<Longrightarrow> undisturbed car s (snd (due_vehicles now s1))"
| give_up: "undisturbed car s s1 \<Longrightarrow> undisturbed car s (release_in_flight s1)"
| list_failed: "undisturbed car s s1 \<Longrightarrow> undisturbed car s (snd (discovery_failed_for_error e now s1))"
| list_accepted: "undisturbed car s s1
    \<Longrightarrow> \<forall>incoming \<in> set listed. vh_id incoming = car \<longrightarrow> vh_state incoming = ''asleep''
    \<Longrightarrow> undisturbed car s (snd (accept_discovery listed now s1))"
| success: "undisturbed car s s1 \<Longrightarrow> undisturbed car s (note_success s1)"
| other_read: "undisturbed car s s1 \<Longrightarrow> other \<noteq> car
    \<Longrightarrow> undisturbed car s (vehicle_succeeded other phase sleep_eligible now s1)"
| other_failed: "undisturbed car s s1 \<Longrightarrow> other \<noteq> car
    \<Longrightarrow> undisturbed car s (snd (vehicle_failed_for_error other e now s1))"
| other_record: "undisturbed car s s1 \<Longrightarrow> other \<noteq> car
    \<Longrightarrow> undisturbed car s (snd (accept_vehicle_state other state now s1))"
| check_failed: "undisturbed car s s1 \<Longrightarrow> undisturbed car s (offline_state_failed_for_error any_car e now s1)"
| still_asleep: "undisturbed car s s1 \<Longrightarrow> undisturbed car s (snd (accept_vehicle_state car ''asleep'' now s1))"

lemma advance_car_rests: "rests v \<Longrightarrow> rests (snd (advance_car timing now wall_ms v))"
  by (auto simp: rests_def advance_car_def Let_def)

lemma applied_asleep_rests: "rests (snd (apply_reported_state timing w ''asleep'' now wall_ms))"
proof -
  define x where "x = w\<lparr>v_vehicle := (v_vehicle w)\<lparr>vh_state := ''asleep''\<rparr>, v_reported_state := Some ''asleep''\<rparr>"
  have p: "v_phase (enter_phase timing x Phase_Asleep now wall_ms r) = Phase_Asleep" for r
    by (simp add: enter_phase_def Let_def split: option.splits)
  have "snd (apply_reported_state timing w ''asleep'' now wall_ms) =
    (if is_inactive x then x
     else clear_pending_reads (enter_phase timing x Phase_Asleep now wall_ms ''reported_asleep''))"
    by (simp add: apply_reported_state_def Let_def x_def)
  then show ?thesis using p by (auto simp: rests_def is_inactive_def clear_pending_reads_def)
qed

lemma rests_settled: "rests (v\<lparr>v_unavailable_check := b\<rparr>) = rests v"
  by (simp add: rests_def)

lemma asleep_rests: "rests (snd (snd (recorded_car timing ''asleep'' now wall_ms v)))"
  by (simp add: recorded_car_def settle_unavailable_def case_prod_unfold Let_def applied_asleep_rests rests_settled)

lemma listed_asleep:
  assumes "vh_state incoming = ''asleep''"
  shows "rests (snd (snd (listed_car timing restored incoming now wall_ms existing)))"
    "fst (snd (listed_car timing restored incoming now wall_ms existing)) = False"
  using assms
  by (simp_all add: listed_car_def settle_unavailable_def case_prod_unfold Let_def applied_asleep_rests rests_settled)

lemma asleep_available: "fst (snd (recorded_car timing ''asleep'' now wall_ms v)) = False"
  by (simp add: recorded_car_def settle_unavailable_def case_prod_unfold Let_def)

lemma asleep_left_alone:
  assumes "bt_ok (s_vehicles s)"
  shows "left_alone car (snd (accept_vehicle_state car ''asleep'' now s))"
proof (cases "car_of s car")
  case (Some v)
  obtain r u w where v: "recorded_car (s_timing s) ''asleep'' now (wall_or_last s) v = (r, u, w)"
    by (metis prod.exhaust)
  have u: "\<not> u" and w: "rests w"
    using asleep_available [of "s_timing s" now "wall_or_last s" v]
      asleep_rests [of "s_timing s" now "wall_or_last s" v] v by simp_all
  have "s_vehicles (snd (accept_vehicle_state car ''asleep'' now s)) = bt_modify car (\<lambda>_. w) (s_vehicles s)"
    using Some v u by (simp add: accept_vehicle_state_def Let_def)
  then show ?thesis using assms w by (auto simp: left_alone_def)
qed (simp add: left_alone_def accept_vehicle_state_def assms)

lemma left_alone_other:
  "left_alone car s \<Longrightarrow> changes_only other s s' \<Longrightarrow> other \<noteq> car \<Longrightarrow> left_alone car s'"
  using changes_only_ok by (auto simp: left_alone_def changes_only_def bt_ok_def)

lemma left_alone_advance: "left_alone car s \<Longrightarrow> left_alone car (advance_timers now s)"
  by (auto simp: left_alone_def car_of_advance advance_car_rests)

lemma left_alone_mark:
  "left_alone car s \<Longrightarrow>
     left_alone car (foldl (\<lambda>s car. on_car car (\<lambda>v. v\<lparr>v_in_flight := True\<rparr>) s) s cars)"
proof (induction cars arbitrary: s)
  case (Cons other cars)
  have "left_alone car (on_car other (\<lambda>v. v\<lparr>v_in_flight := True\<rparr>) s)"
    using Cons.prems by (auto simp: left_alone_def rests_def)
  then show ?case using Cons.IH by simp
qed simp

lemma left_alone_choose: "left_alone car s \<Longrightarrow> left_alone car (snd (due_vehicles now s))"
  by (simp add: due_vehicles_def Let_def left_alone_advance left_alone_mark)

lemma left_alone_release:
  assumes "left_alone car s"
  shows "left_alone car (release_in_flight s)"
proof -
  have "car_of (release_in_flight s) car = map_option (\<lambda>v. v\<lparr>v_in_flight := False\<rparr>) (car_of s car)"
    by (simp add: release_in_flight_def bt_get_def map_of_map)
  moreover have "bt_ok (s_vehicles (release_in_flight s)) = bt_ok (s_vehicles s)"
    by (simp add: release_in_flight_def bt_ok_def case_prod_unfold comp_def)
  ultimately show ?thesis using assms by (auto simp: left_alone_def rests_def)
qed

lemma left_alone_same: "left_alone car s \<Longrightarrow> s_vehicles s' = s_vehicles s \<Longrightarrow> left_alone car s'"
  by (simp add: left_alone_def)

lemma accept_listed_left_alone:
  assumes "left_alone car s" "car \<notin> set unavailable" "vh_id incoming = car \<longrightarrow> vh_state incoming = ''asleep''"
    and "accept_listed now wall_ms (s, unavailable, candidates) incoming = (s', unavailable', candidates')"
  shows "left_alone car s' \<and> car \<notin> set unavailable'"
proof -
  obtain r u v where l: "listed_car (s_timing s) (bt_get (s_restored s) (vh_id incoming)) incoming now wall_ms
      (car_of s (vh_id incoming)) = (r, u, v)" by (metis prod.exhaust)
  have v: "vh_id incoming = car \<longrightarrow> rests v \<and> \<not> u"
    using listed_asleep [of incoming "s_timing s" "bt_get (s_restored s) (vh_id incoming)" now wall_ms
        "car_of s (vh_id incoming)"] assms(3) l by auto
  have "s_vehicles s' = bt_insert (vh_id incoming) v (s_vehicles s)"
    "unavailable' = (if u then unavailable @ [vh_id incoming] else unavailable)"
    using assms(4) l by (auto simp: accept_listed_def Let_def)
  then show ?thesis using assms(1,2) v by (auto simp: left_alone_def bt_get_insert bt_ok_insert)
qed

lemma accept_listed_all:
  assumes "left_alone car s" "car \<notin> set unavailable"
    "\<forall>incoming \<in> set listed. vh_id incoming = car \<longrightarrow> vh_state incoming = ''asleep''"
    and "foldl (accept_listed now wall_ms) (s, unavailable, candidates) listed = (s', unavailable', candidates')"
  shows "left_alone car s' \<and> car \<notin> set unavailable'"
  using assms
proof (induction listed arbitrary: s unavailable candidates)
  case (Cons incoming listed)
  obtain s1 u1 c1 where 1: "accept_listed now wall_ms (s, unavailable, candidates) incoming = (s1, u1, c1)"
    by (metis prod.exhaust)
  have "left_alone car s1 \<and> car \<notin> set u1"
    using accept_listed_left_alone [OF Cons.prems(1,2) _ 1] Cons.prems(3) by simp
  then show ?case using Cons.IH [of s1 u1 c1] Cons.prems(3,4) 1 by simp
qed simp

lemma left_alone_failures:
  "left_alone car s \<Longrightarrow> car \<notin> set others
   \<Longrightarrow> left_alone car (foldl (\<lambda>s other. count_vehicle_failure other c now s) s others)"
proof (induction others arbitrary: s)
  case (Cons other others)
  have "left_alone car (count_vehicle_failure other c now s)"
    using Cons.prems by (intro left_alone_other [OF _ count_failure_only]) auto
  then show ?case using Cons.IH Cons.prems(2) by simp
qed simp

lemma map_of_keyed: "map_of (map (\<lambda>(i, v). (i, f i v)) m) k = map_option (f k) (map_of m k)"
  by (induction m) auto

lemma left_alone_unlisted:
  assumes "left_alone car s"
  shows "left_alone car (note_unlisted present now s)"
proof -
  have "rests (unlisted_car i now v)" if "rests v" for i v
    using that by (auto simp: unlisted_car_def rests_def stop_timers_def Let_def)
  moreover have "car_of (note_unlisted present now s) car
      = map_option (\<lambda>v. if car \<notin> present \<and> (v_hold v = Hold_None \<or> is_held v)
          then unlisted_car (tm_inventory (s_timing s)) now v else v) (car_of s car)"
    by (simp add: note_unlisted_def bt_get_def map_of_keyed)
  moreover have "bt_ok (s_vehicles (note_unlisted present now s)) = bt_ok (s_vehicles s)"
    by (simp add: note_unlisted_def bt_ok_def case_prod_unfold comp_def)
  ultimately show ?thesis using assms by (auto simp: left_alone_def)
qed

lemma resume_from_billing_frame: "s_vehicles (resume_from_billing s) = s_vehicles s"
  by (simp add: resume_from_billing_def Let_def)

lemma left_alone_list:
  assumes "left_alone car s" "\<forall>incoming \<in> set listed. vh_id incoming = car \<longrightarrow> vh_state incoming = ''asleep''"
  shows "left_alone car (snd (accept_discovery listed now s))"
proof -
  obtain s1 u c where f: "foldl (accept_listed now (wall_or_last s)) (s, [], []) listed = (s1, u, c)"
    by (metis prod.exhaust)
  from accept_listed_all [OF assms(1) _ assms(2) f] have "left_alone car s1" "car \<notin> set u" by simp_all
  then have "left_alone car (note_unlisted (set (map vh_id listed)) now
      (foldl (\<lambda>s other. count_vehicle_failure other EC_Transient now s) s1 u))" (is "left_alone car ?s")
    by (intro left_alone_unlisted left_alone_failures)
  moreover have "s_vehicles (snd (accept_discovery listed now s)) = s_vehicles ?s"
    using f by (simp add: accept_discovery_def Let_def resume_from_billing_frame)
  ultimately show ?thesis by (rule left_alone_same)
qed

lemma left_alone_check_failed:
  "left_alone car s \<Longrightarrow> left_alone car (offline_state_failed_for_error any_car e now s)"
  using check_failed_rests [of any_car s e now] lets_rest_left_alone lets_rest_only left_alone_other by metis

lemma undisturbed_left_alone: "undisturbed car s s' \<Longrightarrow> left_alone car s \<Longrightarrow> left_alone car s'"
proof (induction rule: undisturbed.induct)
  case (choose s s1 now)
  then show ?case by (simp add: left_alone_choose)
next
  case (give_up s s1)
  then show ?case by (simp add: left_alone_release)
next
  case (list_failed s s1 e now)
  then show ?case by (intro left_alone_same [OF _ failed_list_frame]) simp
next
  case (list_accepted s s1 listed now)
  then show ?case by (intro left_alone_list) simp_all
next
  case (success s s1)
  then show ?case by (intro left_alone_same [OF _ note_success_frame]) simp
next
  case (other_read s s1 other phase sleep_eligible now)
  then show ?case by (intro left_alone_other [OF _ read_succeeded_only]) simp_all
next
  case (other_failed s s1 other e now)
  then show ?case by (intro left_alone_other [OF _ read_failed_only]) simp_all
next
  case (other_record s s1 other state now)
  then show ?case by (intro left_alone_other [OF _ record_only]) simp_all
next
  case (check_failed s s1 any_car e now)
  then show ?case by (intro left_alone_check_failed) simp
next
  case (still_asleep s s1 now)
  then have "left_alone car s1" by blast
  then have "bt_ok (s_vehicles s1)" unfolding left_alone_def by (rule conjunct1)
  then show ?case by (rule asleep_left_alone)
qed

lemma left_alone_not_chosen:
  assumes "left_alone car s"
  shows "car \<notin> set (fst (due_vehicles now s))"
proof
  assume c: "car \<in> set (fst (due_vehicles now s))"
  define s1 where "s1 = advance_timers now s"
  have l: "left_alone car s1" using assms left_alone_advance by (simp add: s1_def)
  have ok: "bt_ok (s_vehicles s1)" using l by (simp add: left_alone_def)
  have "car \<in> snd ` set (reads_due now s1)"
    using c set_take_subset [of _ "sort (reads_due now s1)"]
    by (auto simp: due_vehicles_def Let_def s1_def [symmetric] split: if_splits)
  then obtain due v where "car_of s1 car = Some v" "read_is_due now v = Some due"
    using in_reads_due [OF ok] by force
  then show False using l by (auto simp: left_alone_def rests_def read_is_due_iff)
qed

text \<open>
  C11: Once a record check reports a car asleep, no read of it is chosen through any sequence of
  these operations: reads chosen (with the timers this runs) and given up, lists that fail, lists
  that report the car asleep or leave it out, successes of the account, reads of other cars that
  succeed or fail, record checks of other cars with any answer, and record checks of any car that
  fail or of this car that say asleep. Left out is news of the car: a report of another state,
  stream evidence, an owner's action, and the outcome of a read of the car itself that was already
  in flight.
\<close>

theorem asleep_car_left_alone:
  assumes "bt_ok (s_vehicles s)"
    and "undisturbed car (snd (accept_vehicle_state car ''asleep'' now s)) s'"
  shows "car \<notin> set (fst (due_vehicles t s'))"
  using undisturbed_left_alone [OF assms(2) asleep_left_alone [OF assms(1)]] left_alone_not_chosen by blast

theorem asleep_car_left_alone_witness:
  "let s = sample_scheduler sample_due; s1 = snd (accept_vehicle_state 1 ''asleep'' 6 s) in
   fst (due_vehicles 9 s) = [1] \<and> 1 \<notin> set (fst (due_vehicles 12 (snd (due_vehicles 9 s1))))"
  using asleep_car_left_alone [of "sample_scheduler sample_due" 1 6
      "snd (due_vehicles 9 (snd (accept_vehicle_state 1 ''asleep'' 6 (sample_scheduler sample_due))))" 12]
    undisturbed.choose [OF undisturbed.start] sample_due_chosen
  by (simp add: Let_def sample_simps bt_ok_def)

end
