(* ===== verification/Spec2Isabelle.thy ===== *)
theory Spec2Isabelle
  imports Http_Range Http_Date Auth_Vocabulary Exchange_Outcome Auth_Fuse Effective_Auth Ledger_Progress Sched_Asleep
begin

text \<open>
  Verification of the Hub, a local service that collects the data of a Tesla account. The
  development covers the parts whose failure costs the owner something that cannot be
  repaired: the single-use refresh tokens of the legacy credential, the key that opens the
  stored tokens, the money that Fleet polling spends, and the parsers in front of them. File
  and function names below are those under \<^verbatim>\<open>src/src/\<close>; every definition keeps the name of the
  code it translates where HOL allows it.

  \<^bold>\<open>How the program is modelled.\<close> A struct is a record, an enum a datatype. \<open>i64\<close> is \<open>int\<close> and \<open>u64\<close>
  is \<open>nat\<close> (or a 64-bit word in the range parser) with the saturation or the check of the code
  written out. A fallible function returns a sum type, the error on the left. A database is
  the record of its tables and a transaction a function that returns the new tables or an
  error. Files, store and network operations that may fail, take effect with an error or be
  cut short by a crash are programs of the state monad over a world that carries the faults
  to come. Third-party code (AES-GCM, SHA-256, base64, JSON and URL parsing, the \<open>time\<close> crate,
  the database engine) is an argument of the definitions that use it; what is relied on is a
  named hypothesis, and every property with such a hypothesis has a witness.

  \<^bold>\<open>Shared.\<close> \<open>Hub_Prelude\<close> has the integers, the string operations and the interface
  \<open>code_table\<close> of closed enums. \<open>Float64\<close> has the IEEE double operations that the retry
  rules use, as exact rational arithmetic with rounding.

  \<^bold>\<open>HTTP parsers.\<close> \<open>Http_Range\<close> (\<^verbatim>\<open>api/http_range.rs\<close>) and \<open>Http_Date\<close> (the date reader) are proved
  exact against the grammar of their headers: which texts are accepted and what they mean.

  \<^bold>\<open>The legacy credential unit\<close> (\<^verbatim>\<open>auth/legacy_auth.rs\<close>, \<^verbatim>\<open>auth/legacy_auth/\<close>, \<^verbatim>\<open>auth/credentials.rs\<close>,
  \<^verbatim>\<open>storage/db/legacy_credentials.rs\<close>, \<^verbatim>\<open>storage/db/auth_state.rs\<close>).
  \<^item> \<open>Auth_Vocabulary\<close>, \<open>Auth_Endpoint\<close>, \<open>Auth_Wire\<close>, \<open>Auth_Schedule\<close>, \<open>Auth_Status\<close> model the reasons,
    the choice of the token endpoint, the reading of a token answer, the refresh schedule and
    the stored status with its recorder.
  \<^item> \<open>Fence_Store\<close> has the credential tables and every transaction on them; \<open>Fence_Invariant\<close> their
    well-formedness; \<open>Fence_Safety\<close> the single-use guarantee, proved once in the interface
    \<open>fence_provider\<close> and interpreted on the transactions; \<open>Fence_Identity\<close> what other readers may
    rely on.
  \<^item> \<open>Token_Cipher\<close> has the token envelopes; \<open>Auth_Attempt\<close> one refresh attempt over its ports;
    \<open>Manager_Ports\<close> the ports of the manager over the store; \<open>Attempt_Contract\<close>, \<open>Unit_Safety\<close> and
    \<open>Exchange_Outcome\<close> the end-to-end results: a generation is presented once, a rotation reaches
    the store, a failed answer settles the attempt.
  \<^item> \<open>Auth_Restore\<close> is the restore at start, \<open>Auth_Authority\<close> the in-memory authority, \<open>Auth_Fuse\<close> the
    counting of rejected tokens and \<open>Effective_Auth\<close> the view of a reader without a manager, compared
    with what the unit restores from the same store: equal but for three situations it names.
  \<^item> \<open>Key_Files\<close> and \<open>Key_Recovery\<close> (\<^verbatim>\<open>auth/teslamate_credentials.rs\<close>) are the replacement of the
    token key over a faulty file system, with a small program logic for it.

  \<^bold>\<open>The request ledger\<close> (\<^verbatim>\<open>collection/collector/scheduler_counters.rs\<close> and the counter table).
  \<^item> \<open>Request_Ledger\<close> has the categories and prices, the month, the ledger (admission,
    reservation, billing, rows, restart, estimate) and the guard of a counted request.
  \<^item> \<open>Ledger_Safety\<close> has the invariant of one category and the step relation of the ledger beside
    its table; \<open>Ledger_Cap\<close> and \<open>Ledger_Run\<close> show that every step keeps the invariant, so that
    the cap holds across crashes; \<open>Ledger_Progress\<close> shows that the table accepts every row, the
    time of the write included, and that a planned request is decided.

  \<^bold>\<open>The collection scheduler\<close> (\<^verbatim>\<open>collection/collector/scheduler.rs\<close> and its parts \<^verbatim>\<open>scheduler_errors.rs\<close>,
  \<^verbatim>\<open>scheduler_holds.rs\<close>, \<^verbatim>\<open>scheduler_sleep.rs\<close>, \<^verbatim>\<open>scheduler_state.rs\<close>).
  \<^item> \<open>Sched_Time\<close> has the two clocks, deadlines and the back-off with jitter; the maps of the
    scheduler are association lists behind the interface \<open>ordered_map\<close>.
  \<^item> \<open>Sched_Types\<close> has the state of the scheduler, the account and a car; \<open>Sched_Car\<close> what changes one
    car (phases, suspension, reported state, evidence of a frame, restore from its row).
  \<^item> \<open>Sched_Errors\<close> classifies every collection error; \<open>Sched_Account\<close> has the waits and states of
    the account and the admission of a request; \<open>Sched_Ops\<close> what a list, a read, a record check or
    a failure of one of them does to the whole scheduler.
  \<^item> \<open>Sched_Due\<close> has the choice of the reads to send, bounded and in order of their due times, and
    what rate limits and failed lists do; two of its theorems show where a wait and a gate are
    lost. \<open>Sched_Asleep\<close> shows that a car reported asleep is left alone until there is news of it.

  \<^bold>\<open>Fuel and environments.\<close> No model uses fuel: every loop is a structural recursion or has a
  measure. A run is an inductive predicate whose rules are the operations in any order, with
  every clock reading, answer, fault and crash chosen by the rule, so a theorem about runs
  holds for every interleaving of them. The bounds in some hypotheses (times below \<open>2 ^ 52\<close> or \<open>2 ^ 62\<close>,
  counts below \<open>2 ^ 62\<close>, a cap of 32 bits) exclude saturation or state the width of a field, and
  that a time is not negative is what the clock and the tables promise. Other conditions, such as
  the range of a status or a clock that was not set back, are part of the claims and named in
  their texts.

  \<^bold>\<open>Not modelled.\<close> HTTP routing, serialisation and the public SQL queries (\<^verbatim>\<open>api/server.rs\<close>,
  \<^verbatim>\<open>api/public_query.rs\<close>), the HTTP clients, the collection tasks (\<^verbatim>\<open>tick.rs\<close>, \<^verbatim>\<open>streaming.rs\<close>: tasks
  over sockets) and, of the scheduler, the probes, the owner actions,
  the start and stop of streams and the assembly and outcome of a tick, the lifecycle projection, the TeslaMate import (PostgreSQL), the
  migrations other than the table constraints used here, the synchronisation packs, terrain
  files and the platform code: input and output, or SQL whose meaning is the database
  engine's. Log events and the notification of waiting tasks are left out everywhere.
\<close>

end
